(* ===== verification/Mecmcp_Prelude.thy ===== *)
theory Mecmcp_Prelude
  imports Main "HOL-Library.List_Lexorder" "HOL-Library.Char_ord"
begin

text \<open>
  Shared material of the development.

  \<^item> Fallible stateful code is an \<^emph>\<open>action\<close>: a function from the state to a result
    (\<open>Inl\<close> the error, \<open>Inr\<close> the value) and the next state. \<open>bnd\<close> is Rust's \<open>?\<close>
    operator, \<open>catch\<close> a \<open>match\<close> on a \<open>Result\<close>, \<open>discard\<close> a \<open>let _ = \<dots>\<close>.
  \<^item> \<open>keeps\<close> and \<open>spec\<close> are the two judgements on actions, with one rule for each
    combinator, collected in \<open>keeps_rules\<close> and \<open>spec_rules\<close>.
  \<^item> \<open>run\<close> is a run of a labelled step relation, and \<open>inductive_invariant\<close> and
    \<open>guarded_invariant\<close> are the two ways an invariant is carried along it.
\<close>

named_theorems keeps_rules
named_theorems spec_rules
named_theorems act_simps


section \<open>Results: checks without state\<close>

text \<open>The \<open>?\<close> operator, an early return, \<open>map_err\<close> and a loop of checks, on a plain \<open>Result\<close>.\<close>

definition res_bind :: "'e + 'a \<Rightarrow> ('a \<Rightarrow> 'e + 'b) \<Rightarrow> 'e + 'b" where
  "res_bind r f = (case r of Inl e \<Rightarrow> Inl e | Inr x \<Rightarrow> f x)"

definition require :: "bool \<Rightarrow> 'e \<Rightarrow> 'e + unit" where
  "require b e = (if b then Inr () else Inl e)"

definition map_err :: "('e \<Rightarrow> 'f) \<Rightarrow> 'e + 'a \<Rightarrow> 'f + 'a" where
  "map_err f r = (case r of Inl e \<Rightarrow> Inl (f e) | Inr x \<Rightarrow> Inr x)"

fun check_all :: "('a \<Rightarrow> 'e + unit) \<Rightarrow> 'a list \<Rightarrow> 'e + unit" where
  "check_all f [] = Inr ()"
| "check_all f (x # xs) = res_bind (f x) (\<lambda>_. check_all f xs)"

lemma res_bind_simps [simp]:
  "res_bind (Inl e) f = Inl e" "res_bind (Inr x) f = f x"
  by (simp_all add: res_bind_def)

lemma res_bind_Inr_iff: "res_bind r f = Inr y \<longleftrightarrow> (\<exists>x. r = Inr x \<and> f x = Inr y)"
  by (cases r) simp_all

lemma require_Inr_iff [simp]: "require b e = Inr u \<longleftrightarrow> b"
  by (simp add: require_def)

lemma require_Inl_iff [simp]: "require b e = Inl e' \<longleftrightarrow> \<not> b \<and> e = e'"
  by (simp add: require_def)

lemma require_simps [simp]: "require True e = Inr ()" "require False e = Inl e"
  by (simp_all add: require_def)

lemma require_bind: "res_bind (require b e) f = (if b then f () else Inl e)"
  by (simp add: require_def)

lemma map_err_Inr_iff [simp]: "map_err f r = Inr x \<longleftrightarrow> r = Inr x"
  by (cases r) (simp_all add: map_err_def)

lemma check_all_Inr_iff: "check_all f xs = Inr u \<longleftrightarrow> (\<forall>x\<in>set xs. f x = Inr ())"
  by (induction xs) (auto simp: res_bind_Inr_iff)

lemma unit_res_Inr_iff: "r = Inr u \<longleftrightarrow> r = Inr ()" for u :: unit
  by simp

lemmas res_iffs = res_bind_Inr_iff require_Inr_iff map_err_Inr_iff check_all_Inr_iff


section \<open>Actions: state, errors and early return\<close>

type_synonym ('s, 'e, 'a) act = "'s \<Rightarrow> ('e + 'a) \<times> 's"

definition ret :: "'a \<Rightarrow> ('s, 'e, 'a) act" where
  "ret x s = (Inr x, s)"

definition fail :: "'e \<Rightarrow> ('s, 'e, 'a) act" where
  "fail e s = (Inl e, s)"

definition bnd :: "('s, 'e, 'a) act \<Rightarrow> ('a \<Rightarrow> ('s, 'e, 'b) act) \<Rightarrow> ('s, 'e, 'b) act" where
  "bnd m f s = (case m s of (Inl e, s') \<Rightarrow> (Inl e, s') | (Inr x, s') \<Rightarrow> f x s')"

definition catch :: "('s, 'e, 'a) act \<Rightarrow> ('e \<Rightarrow> ('s, 'e, 'b) act) \<Rightarrow>
    ('a \<Rightarrow> ('s, 'e, 'b) act) \<Rightarrow> ('s, 'e, 'b) act" where
  "catch m h k s = (case m s of (Inl e, s') \<Rightarrow> h e s' | (Inr x, s') \<Rightarrow> k x s')"

definition discard :: "('s, 'e, 'a) act \<Rightarrow> ('s, 'e, unit) act" where
  "discard m s = (Inr (), snd (m s))"

definition ensure :: "bool \<Rightarrow> 'e \<Rightarrow> ('s, 'e, unit) act" where
  "ensure b e = (if b then ret () else fail e)"

definition lift :: "'e + 'a \<Rightarrow> ('s, 'e, 'a) act" where
  "lift r s = (r, s)"

definition gets :: "('s \<Rightarrow> 'a) \<Rightarrow> ('s, 'e, 'a) act" where
  "gets f s = (Inr (f s), s)"

definition modify :: "('s \<Rightarrow> 's) \<Rightarrow> ('s, 'e, unit) act" where
  "modify f s = (Inr (), f s)"

text \<open>The result of an action as a value, for code that goes on whatever it is.\<close>

definition attempt :: "('s, 'e, 'a) act \<Rightarrow> ('e + 'a \<Rightarrow> ('s, 'f, 'b) act) \<Rightarrow> ('s, 'f, 'b) act" where
  "attempt m k s = (case m s of (x, t) \<Rightarrow> k x t)"

lemmas act_defs = ret_def fail_def bnd_def catch_def discard_def ensure_def lift_def
  gets_def modify_def

lemma act_apply [act_simps]:
  "ret x s = (Inr x, s)" "fail e s = (Inl e, s)" "lift r s = (r, s)"
  "gets g s = (Inr (g s), s)" "modify h s = (Inr (), h s)"
  "discard m s = (Inr (), snd (m s))"
  by (simp_all add: act_defs)

lemma bnd_Inr [act_simps]: "m s = (Inr x, s') \<Longrightarrow> bnd m f s = f x s'"
  by (simp add: bnd_def)

lemma bnd_Inl [act_simps]: "m s = (Inl e, s') \<Longrightarrow> bnd m f s = (Inl e, s')"
  by (simp add: bnd_def)

lemma bnd_ensure [act_simps]:
  "bnd (ensure b e) f s = (if b then f () s else (Inl e, s))"
  by (simp add: act_defs)

lemma bnd_assoc: "bnd m (\<lambda>x. bnd (f x) g) = bnd (bnd m f) g"
  by (rule ext) (simp add: bnd_def split: prod.split sum.split)

lemma bnd_failed: "bnd (fail e) f = fail e"
  by (rule ext) (simp add: act_defs)

lemma bnd_ret [act_simps]: "bnd (ret x) f = f x"
  by (rule ext) (simp add: act_defs)

lemma bnd_lift [act_simps]:
  "bnd (lift r) f s = (case r of Inl e \<Rightarrow> (Inl e, s) | Inr x \<Rightarrow> f x s)"
  by (simp add: act_defs split: sum.split)

text \<open>The two ways a sequence can end: its first failure, or a value through every step.\<close>

lemma bnd_InrE:
  assumes "bnd m f s = (Inr y, t)"
  obtains x u where "m s = (Inr x, u)" "f x u = (Inr y, t)"
  using assms by (auto simp: bnd_def split: prod.splits sum.splits)

lemma bnd_InlE:
  assumes "bnd m f s = (Inl e, t)"
  obtains (first) "m s = (Inl e, t)" | (second) x u where "m s = (Inr x, u)" "f x u = (Inl e, t)"
  using assms by (auto simp: bnd_def split: prod.splits sum.splits)

lemma ensure_InrE:
  assumes "ensure b e s = (Inr x, t)"
  obtains "b" "t = s"
  using assms by (auto simp: act_defs split: if_splits)

lemma lift_InrE:
  assumes "lift r s = (Inr x, t)"
  obtains "r = Inr x" "t = s"
  using assms by (auto simp: act_defs)


subsection \<open>An action keeps a property of the state\<close>

definition keeps :: "('s \<Rightarrow> bool) \<Rightarrow> ('s, 'e, 'a) act \<Rightarrow> bool" where
  "keeps P m \<longleftrightarrow> (\<forall>s. P s \<longrightarrow> P (snd (m s)))"

lemma keepsI: "(\<And>s. P s \<Longrightarrow> P (snd (m s))) \<Longrightarrow> keeps P m"
  by (simp add: keeps_def)

lemma keepsD: "keeps P m \<Longrightarrow> P s \<Longrightarrow> m s = (r, t) \<Longrightarrow> P t"
  unfolding keeps_def by (metis snd_conv)

lemma keeps_ret [keeps_rules]: "keeps P (ret x)"
  by (simp add: keeps_def act_defs)

lemma keeps_fail [keeps_rules]: "keeps P (fail e)"
  by (simp add: keeps_def act_defs)

lemma keeps_lift [keeps_rules]: "keeps P (lift r)"
  by (simp add: keeps_def act_defs)

lemma keeps_gets [keeps_rules]: "keeps P (gets f)"
  by (simp add: keeps_def act_defs)

lemma keeps_ensure [keeps_rules]: "keeps P (ensure b e)"
  by (simp add: keeps_def act_defs)

lemma keeps_bnd [keeps_rules]:
  "keeps P m \<Longrightarrow> (\<And>x. keeps P (f x)) \<Longrightarrow> keeps P (bnd m f)"
  by (auto simp: keeps_def bnd_def split: prod.split sum.split)

lemma keeps_catch [keeps_rules]:
  "keeps P m \<Longrightarrow> (\<And>e. keeps P (h e)) \<Longrightarrow> (\<And>x. keeps P (k x)) \<Longrightarrow> keeps P (catch m h k)"
  by (auto simp: keeps_def catch_def split: prod.split sum.split)

lemma keeps_attempt [keeps_rules]:
  "keeps P m \<Longrightarrow> (\<And>x. keeps P (k x)) \<Longrightarrow> keeps P (attempt m k)"
  by (auto simp: keeps_def attempt_def split: prod.split)

lemma keeps_discard [keeps_rules]: "keeps P m \<Longrightarrow> keeps P (discard m)"
  by (simp add: keeps_def act_defs)

lemma keeps_if [keeps_rules]:
  "(b \<Longrightarrow> keeps P m) \<Longrightarrow> (\<not> b \<Longrightarrow> keeps P n) \<Longrightarrow> keeps P (if b then m else n)"
  by simp

lemma keeps_case_option [keeps_rules]:
  "(x = None \<Longrightarrow> keeps P m) \<Longrightarrow> (\<And>y. x = Some y \<Longrightarrow> keeps P (n y)) \<Longrightarrow>
    keeps P (case x of None \<Rightarrow> m | Some y \<Rightarrow> n y)"
  by (cases x) auto

lemma keeps_case_sum [keeps_rules]:
  "(\<And>y. x = Inl y \<Longrightarrow> keeps P (m y)) \<Longrightarrow> (\<And>y. x = Inr y \<Longrightarrow> keeps P (n y)) \<Longrightarrow>
    keeps P (case x of Inl y \<Rightarrow> m y | Inr y \<Rightarrow> n y)"
  by (cases x) auto

lemma keeps_case_prod [keeps_rules]:
  "(\<And>a b. x = (a, b) \<Longrightarrow> keeps P (m a b)) \<Longrightarrow> keeps P (case x of (a, b) \<Rightarrow> m a b)"
  by (cases x) auto

lemma keeps_modify: "(\<And>s. P s \<Longrightarrow> P (f s)) \<Longrightarrow> keeps P (modify f)"
  by (simp add: keeps_def act_defs)


subsection \<open>Pre- and postconditions of actions\<close>

text \<open>
  \<open>spec P m Q R\<close>: from a state in \<open>P\<close> the action ends with a value and a state in \<open>Q\<close> or
  with an error and a state in \<open>R\<close>. Actions are total, so this is total correctness.
\<close>

definition spec :: "('s \<Rightarrow> bool) \<Rightarrow> ('s, 'e, 'a) act \<Rightarrow> ('a \<Rightarrow> 's \<Rightarrow> bool) \<Rightarrow>
    ('e \<Rightarrow> 's \<Rightarrow> bool) \<Rightarrow> bool" where
  "spec P m Q R \<longleftrightarrow>
     (\<forall>s. P s \<longrightarrow> (case m s of (Inl e, t) \<Rightarrow> R e t | (Inr x, t) \<Rightarrow> Q x t))"

lemma specI:
  "(\<And>s x t. P s \<Longrightarrow> m s = (Inr x, t) \<Longrightarrow> Q x t) \<Longrightarrow>
   (\<And>s e t. P s \<Longrightarrow> m s = (Inl e, t) \<Longrightarrow> R e t) \<Longrightarrow> spec P m Q R"
  by (auto simp: spec_def split: prod.split sum.split)

lemma spec_InrD: "spec P m Q R \<Longrightarrow> P s \<Longrightarrow> m s = (Inr x, t) \<Longrightarrow> Q x t"
  by (fastforce simp: spec_def)

lemma spec_InlD: "spec P m Q R \<Longrightarrow> P s \<Longrightarrow> m s = (Inl e, t) \<Longrightarrow> R e t"
  by (fastforce simp: spec_def)

lemma spec_weaken:
  "spec P m Q R \<Longrightarrow> (\<And>s. P' s \<Longrightarrow> P s) \<Longrightarrow> (\<And>x s. Q x s \<Longrightarrow> Q' x s) \<Longrightarrow>
    (\<And>e s. R e s \<Longrightarrow> R' e s) \<Longrightarrow> spec P' m Q' R'"
  by (fastforce simp: spec_def split: prod.splits sum.splits)

lemma spec_ret [spec_rules]: "(\<And>s. P s \<Longrightarrow> Q x s) \<Longrightarrow> spec P (ret x) Q R"
  by (simp add: spec_def act_defs)

lemma spec_fail [spec_rules]: "(\<And>s. P s \<Longrightarrow> R e s) \<Longrightarrow> spec P (fail e) Q R"
  by (simp add: spec_def act_defs)

lemma spec_bnd:
  "spec P m M R \<Longrightarrow> (\<And>x. spec (M x) (f x) Q R) \<Longrightarrow> spec P (bnd m f) Q R"
  by (fastforce simp: spec_def bnd_def split: prod.splits sum.splits)

lemma spec_catch:
  "spec P m M H \<Longrightarrow> (\<And>e. spec (H e) (h e) Q R) \<Longrightarrow> (\<And>x. spec (M x) (k x) Q R) \<Longrightarrow>
    spec P (catch m h k) Q R"
  by (fastforce simp: spec_def catch_def split: prod.splits sum.splits)

lemma spec_attempt:
  assumes m: "spec P m M H" and e: "\<And>e. spec (H e) (k (Inl e)) Q R" and x: "\<And>x. spec (M x) (k (Inr x)) Q R"
  shows "spec P (attempt m k) Q R"
proof (rule specI)
  fix s y t assume "P s" and y: "attempt m k s = (Inr y, t)"
  show "Q y t"
  proof (cases "fst (m s)")
    case (Inl a)
    then have a: "m s = (Inl a, snd (m s))" by (metis prod.collapse)
    have "k (Inl a) (snd (m s)) = (Inr y, t)" using y Inl by (simp add: attempt_def split_beta)
    with spec_InlD [OF m \<open>P s\<close> a] show ?thesis by (rule spec_InrD [OF e])
  next
    case (Inr a)
    then have a: "m s = (Inr a, snd (m s))" by (metis prod.collapse)
    have "k (Inr a) (snd (m s)) = (Inr y, t)" using y Inr by (simp add: attempt_def split_beta)
    with spec_InrD [OF m \<open>P s\<close> a] show ?thesis by (rule spec_InrD [OF x])
  qed
next
  fix s y t assume "P s" and y: "attempt m k s = (Inl y, t)"
  show "R y t"
  proof (cases "fst (m s)")
    case (Inl a)
    then have a: "m s = (Inl a, snd (m s))" by (metis prod.collapse)
    have "k (Inl a) (snd (m s)) = (Inl y, t)" using y Inl by (simp add: attempt_def split_beta)
    with spec_InlD [OF m \<open>P s\<close> a] show ?thesis by (rule spec_InlD [OF e])
  next
    case (Inr a)
    then have a: "m s = (Inr a, snd (m s))" by (metis prod.collapse)
    have "k (Inr a) (snd (m s)) = (Inl y, t)" using y Inr by (simp add: attempt_def split_beta)
    with spec_InrD [OF m \<open>P s\<close> a] show ?thesis by (rule spec_InlD [OF x])
  qed
qed

lemma spec_ensure_bnd:
  "(b \<Longrightarrow> spec P (f ()) Q R) \<Longrightarrow> (\<And>s. \<not> b \<Longrightarrow> P s \<Longrightarrow> R e s) \<Longrightarrow> spec P (bnd (ensure b e) f) Q R"
  by (auto simp: spec_def act_simps split: if_splits)

lemma spec_lift_bnd:
  "(\<And>x. r = Inr x \<Longrightarrow> spec P (f x) Q R) \<Longrightarrow> (\<And>e s. r = Inl e \<Longrightarrow> P s \<Longrightarrow> R e s) \<Longrightarrow>
    spec P (bnd (lift r) f) Q R"
  by (cases r) (auto simp: spec_def act_simps)

lemma spec_discard_bnd:
  "keeps P m \<Longrightarrow> spec P (f ()) Q R \<Longrightarrow> spec P (bnd (discard m) f) Q R"
  by (auto simp: spec_def keeps_def bnd_def discard_def split: prod.splits sum.splits)

lemma spec_if:
  "(b \<Longrightarrow> spec P m Q R) \<Longrightarrow> (\<not> b \<Longrightarrow> spec P n Q R) \<Longrightarrow> spec P (if b then m else n) Q R"
  by simp

lemma spec_keeps: "keeps P m \<Longrightarrow> spec P m (\<lambda>_. P) (\<lambda>_. P)"
  by (auto simp: spec_def keeps_def split: prod.split sum.split)


section \<open>Runs of labelled step relations\<close>

inductive run :: "('s \<Rightarrow> 'l \<Rightarrow> 's \<Rightarrow> bool) \<Rightarrow> 's \<Rightarrow> 'l list \<Rightarrow> 's \<Rightarrow> bool"
  for step :: "'s \<Rightarrow> 'l \<Rightarrow> 's \<Rightarrow> bool"
where
  run_nil: "run step s [] s"
| run_snoc: "run step s ls t \<Longrightarrow> step t l u \<Longrightarrow> run step s (ls @ [l]) u"

lemma run_single: "step s l t \<Longrightarrow> run step s [l] t"
  using run_snoc [OF run_nil, of step s l t] by simp

lemma run_append: "run step s ls t \<Longrightarrow> run step t ms u \<Longrightarrow> run step s (ls @ ms) u"
proof -
  assume a: "run step s ls t" and b: "run step t ms u"
  from b a show ?thesis
    by (induction arbitrary: s rule: run.induct)
      (auto simp: append_assoc [symmetric] simp del: append_assoc intro: run_snoc)
qed

lemma run_cons: "step s l t \<Longrightarrow> run step t ls u \<Longrightarrow> run step s (l # ls) u"
  using run_append [OF run_single, of step s l t ls u] by simp

inductive_cases run_nilE: "run step s [] t"

lemma run_appendE:
  assumes "run step s (ls @ ms) u"
  obtains t where "run step s ls t" "run step t ms u"
proof -
  have "\<exists>t. run step s ls t \<and> run step t ms u"
    using assms
  proof (induction ms arbitrary: u rule: rev_induct)
    case Nil
    then show ?case by (auto intro: run_nil)
  next
    case (snoc m ms)
    have "run step s ((ls @ ms) @ [m]) u" using snoc.prems by simp
    then obtain w where w: "run step s (ls @ ms) w" "step w m u"
      by (cases rule: run.cases) auto
    from snoc.IH [OF w(1)] obtain t where "run step s ls t" "run step t ms w" by blast
    with w(2) show ?case by (auto intro: run_snoc)
  qed
  with that show ?thesis by blast
qed

lemma run_consE:
  assumes "run step s (l # ls) u"
  obtains t where "step s l t" "run step t ls u"
proof -
  have "run step s ([l] @ ls) u" using assms by simp
  then obtain t where t: "run step s [l] t" "run step t ls u" by (rule run_appendE)
  from t(1) have "run step s ([] @ [l]) t" by simp
  then have "step s l t"
    by (cases rule: run.cases) (auto elim: run_nilE)
  with t(2) that show ?thesis by blast
qed

text \<open>An invariant of every step is an invariant of every run.\<close>

locale inductive_invariant =
  fixes step :: "'s \<Rightarrow> 'l \<Rightarrow> 's \<Rightarrow> bool" and inv :: "'s \<Rightarrow> bool"
  assumes inv_step: "inv s \<Longrightarrow> step s l t \<Longrightarrow> inv t"
begin

lemma run_inv: "run step s ls t \<Longrightarrow> inv s \<Longrightarrow> inv t"
  by (induction rule: run.induct) (auto intro: inv_step)

end

text \<open>
  An invariant that only the labels in \<open>resets\<close> can break holds along every run without
  such a label, in the presence of a global invariant \<open>inv\<close>.
\<close>

locale guarded_invariant = inductive_invariant +
  fixes ginv :: "'k \<Rightarrow> 's \<Rightarrow> bool" and resets :: "'k \<Rightarrow> 'l \<Rightarrow> bool"
  assumes ginv_step: "inv s \<Longrightarrow> ginv k s \<Longrightarrow> step s l t \<Longrightarrow> \<not> resets k l \<Longrightarrow> ginv k t"
begin

lemma run_ginv:
  "run step s ls t \<Longrightarrow> inv s \<Longrightarrow> ginv k s \<Longrightarrow> (\<forall>l\<in>set ls. \<not> resets k l) \<Longrightarrow> ginv k t"
proof (induction rule: run.induct)
  case (run_snoc s ls t l u)
  then have "ginv k t" and "inv t" by (auto intro: run_inv)
  with run_snoc show ?case by (auto intro: ginv_step)
qed simp

end

end
