(* ===== verification/Byte_Strings.thy ===== *)
theory Byte_Strings
  imports Mecmcp_Prelude
begin

text \<open>
  Rust strings as byte lists, and the few operations the program performs on them: prefix
  stripping, character tests, lower-case hexadecimal and decimal rendering, and joining with
  a separator. The lemmas say when a rendering is injective; digests rest on them.
\<close>

section \<open>Prefixes and character classes\<close>

definition strip_prefix :: "string \<Rightarrow> string \<Rightarrow> string option" where
  "strip_prefix p s = (if take (length p) s = p then Some (drop (length p) s) else None)"

lemma strip_prefix_iff: "strip_prefix p s = Some r \<longleftrightarrow> s = p @ r"
  by (auto simp: strip_prefix_def append_eq_conv_conj) (metis append_take_drop_id)

definition starts_with :: "string \<Rightarrow> string \<Rightarrow> bool" where
  "starts_with p s \<longleftrightarrow> take (length p) s = p"

definition is_lower_hex :: "char \<Rightarrow> bool" where
  "is_lower_hex c \<longleftrightarrow>
     (CHR ''0'' \<le> c \<and> c \<le> CHR ''9'') \<or> (CHR ''a'' \<le> c \<and> c \<le> CHR ''f'')"

definition hex64 :: "string \<Rightarrow> bool" where
  "hex64 s \<longleftrightarrow> length s = 64 \<and> list_all is_lower_hex s"

definition sha256_tagged :: "string \<Rightarrow> bool" where
  "sha256_tagged s \<longleftrightarrow> (\<exists>d. s = ''sha256:'' @ d \<and> hex64 d)"

lemma sha256_tagged_code [code]:
  "sha256_tagged s \<longleftrightarrow> (case strip_prefix ''sha256:'' s of None \<Rightarrow> False | Some d \<Rightarrow> hex64 d)"
  unfolding sha256_tagged_def
  by (auto simp: strip_prefix_iff split: option.split) (simp add: strip_prefix_def)

definition ascii_lower :: "char \<Rightarrow> char" where
  "ascii_lower c = (if CHR ''A'' \<le> c \<and> c \<le> CHR ''Z'' then char_of (of_char c + 32 :: nat) else c)"

definition to_lowercase :: "string \<Rightarrow> string" where
  "to_lowercase = map ascii_lower"

definition trim_end_matches :: "char \<Rightarrow> string \<Rightarrow> string" where
  "trim_end_matches c s = rev (dropWhile (\<lambda>x. x = c) (rev s))"


section \<open>Hexadecimal rendering\<close>

definition hex_digit :: "nat \<Rightarrow> char" where
  "hex_digit n = ''0123456789abcdef'' ! n"

definition byte_hex :: "char \<Rightarrow> string" where
  "byte_hex b = [hex_digit (of_char b div 16), hex_digit (of_char b mod 16)]"

definition hex_string :: "string \<Rightarrow> string" where
  "hex_string bs = concat (map byte_hex bs)"

lemma of_char_less: "(of_char c :: nat) < 256"
  by (metis of_char_mod_256 mod_less_divisor zero_less_numeral)

lemma of_char_nibble: "(of_char c :: nat) div 16 < 16"
  using of_char_less [of c] by (intro less_mult_imp_div_less) simp

lemma hex_digit_less: "n < 16 \<Longrightarrow> hex_digit n \<in> set ''0123456789abcdef''"
  unfolding hex_digit_def by (rule nth_mem) simp

lemma hex_digit_inj: "m < 16 \<Longrightarrow> n < 16 \<Longrightarrow> hex_digit m = hex_digit n \<Longrightarrow> m = n"
proof -
  have "distinct ''0123456789abcdef''" by simp
  then show "m < 16 \<Longrightarrow> n < 16 \<Longrightarrow> hex_digit m = hex_digit n \<Longrightarrow> m = n"
    unfolding hex_digit_def by (subst (asm) nth_eq_iff_index_eq) simp_all
qed

lemma byte_hex_inj: "byte_hex b = byte_hex c \<Longrightarrow> b = c"
proof -
  assume eq: "byte_hex b = byte_hex c"
  have "(of_char b :: nat) div 16 = of_char c div 16"
    using eq hex_digit_inj [OF of_char_nibble of_char_nibble] by (simp add: byte_hex_def)
  moreover have "(of_char b :: nat) mod 16 = of_char c mod 16"
    using eq hex_digit_inj [of "of_char b mod 16" "of_char c mod 16"] by (simp add: byte_hex_def)
  ultimately have "(of_char b :: nat) = of_char c"
    by (metis div_mult_mod_eq)
  then show "b = c" by simp
qed

lemma hex_string_simps [simp]:
  "hex_string [] = []" "hex_string (b # bs) = byte_hex b @ hex_string bs"
  by (simp_all add: hex_string_def)

lemma length_byte_hex [simp]: "length (byte_hex b) = 2"
  by (simp add: byte_hex_def)

lemma length_hex_string [simp]: "length (hex_string bs) = 2 * length bs"
  by (induction bs) auto

lemma hex_string_inj: "hex_string bs = hex_string cs \<Longrightarrow> bs = cs"
proof (induction bs arbitrary: cs)
  case Nil
  then show ?case by (cases cs) (auto simp: byte_hex_def)
next
  case (Cons b bs)
  then obtain c cs' where cs: "cs = c # cs'" by (cases cs) (auto simp: byte_hex_def)
  with Cons.prems have "byte_hex b = byte_hex c" "hex_string bs = hex_string cs'"
    by (auto dest: append_eq_append_conv [THEN iffD1, rotated])
  with Cons.IH cs show ?case by (auto dest: byte_hex_inj)
qed

lemma is_lower_hex_digit: "c \<in> set ''0123456789abcdef'' \<Longrightarrow> is_lower_hex c"
proof -
  have "list_all is_lower_hex ''0123456789abcdef''" by code_simp
  then show "c \<in> set ''0123456789abcdef'' \<Longrightarrow> is_lower_hex c" unfolding list_all_iff by blast
qed

lemma hex_string_lower_hex: "list_all is_lower_hex (hex_string bs)"
proof (induction bs)
  case (Cons b bs)
  with of_char_nibble [of b] show ?case
    by (auto simp: byte_hex_def list_all_iff intro!: is_lower_hex_digit hex_digit_less)
qed simp

lemma hex64_hex_string: "hex64 (hex_string bs) \<longleftrightarrow> length bs = 32"
  by (auto simp: hex64_def hex_string_lower_hex)


section \<open>Decimal rendering\<close>

text \<open>\<open>u64::to_string\<close>: the decimal digits of a number, most significant first.\<close>

fun decimal :: "nat \<Rightarrow> string" where
  "decimal n = (if n < 10 then [hex_digit n] else decimal (n div 10) @ [hex_digit (n mod 10)])"

declare decimal.simps [simp del]

lemma decimal_nonempty: "decimal n \<noteq> []"
  by (subst decimal.simps) simp

lemma decimal_digits: "set (decimal n) \<subseteq> set ''0123456789abcdef''"
proof (induction n rule: decimal.induct)
  case (1 n)
  then show ?case
    using hex_digit_less [of n] hex_digit_less [of "n mod 10"]
    by (subst decimal.simps) auto
qed

lemma decimal_small: "n < 10 \<Longrightarrow> decimal n = [hex_digit n]"
  by (subst decimal.simps) simp

lemma decimal_big: "\<not> n < 10 \<Longrightarrow> decimal n = decimal (n div 10) @ [hex_digit (n mod 10)]"
  by (subst decimal.simps) simp

lemma decimal_length_small: "length (decimal n) = 1 \<longleftrightarrow> n < 10"
proof (cases "n < 10")
  case False
  have "length (decimal (n div 10)) \<noteq> 0" using decimal_nonempty [of "n div 10"] by simp
  with False show ?thesis by (simp add: decimal_big)
qed (simp add: decimal_small)

lemma decimal_inj: "decimal m = decimal n \<Longrightarrow> m = n"
proof (induction m arbitrary: n rule: less_induct)
  case (less m)
  have iff: "m < 10 \<longleftrightarrow> n < 10"
    using decimal_length_small [of m] decimal_length_small [of n] less.prems by simp
  show ?case
  proof (cases "m < 10")
    case True
    then show ?thesis
      using less.prems iff hex_digit_inj [of m n] by (simp add: decimal_small)
  next
    case False
    then have eq: "decimal (m div 10) = decimal (n div 10)"
      and d: "hex_digit (m mod 10) = hex_digit (n mod 10)"
      using less.prems iff by (simp_all add: decimal_big)
    have "m div 10 < m" using False by simp
    then have "m div 10 = n div 10" using eq by (rule less.IH)
    moreover have "m mod 10 = n mod 10"
      using d hex_digit_inj [of "m mod 10" "n mod 10"] by simp
    ultimately have "m div 10 * 10 + m mod 10 = n div 10 * 10 + n mod 10"
      by (simp only:)
    then show ?thesis by (simp only: div_mult_mod_eq)
  qed
qed


section \<open>Joining with a separator\<close>

fun join_with :: "char \<Rightarrow> string list \<Rightarrow> string" where
  "join_with c [] = []"
| "join_with c [s] = s"
| "join_with c (s # t # ss) = s @ [c] @ join_with c (t # ss)"

text \<open>Two joins agree only on equal fields when no field holds the separator.\<close>

lemma sep_split:
  assumes "c \<notin> set a" "c \<notin> set b" "a @ c # x = b @ c # y"
  shows "a = b \<and> x = y"
  using assms
proof (induction a arbitrary: b)
  case Nil
  then show ?case by (cases b) auto
next
  case (Cons z a)
  then show ?case by (cases b) auto
qed

lemma join_with_inj:
  "length ss = length ts \<Longrightarrow> (\<And>s. s \<in> set ss \<union> set ts \<Longrightarrow> c \<notin> set s) \<Longrightarrow>
    join_with c ss = join_with c ts \<Longrightarrow> ss = ts"
proof (induction c ss arbitrary: ts rule: join_with.induct)
  case (2 c s)
  then show ?case by (cases ts) auto
next
  case (3 c s t ss)
  from "3.prems"(1) obtain s' t' ts' where ts: "ts = s' # t' # ts'"
    by (cases ts rule: remdups_adj.cases) auto
  have "s @ c # join_with c (t # ss) = s' @ c # join_with c (t' # ts')"
    using "3.prems"(3) ts by simp
  moreover have "c \<notin> set s" "c \<notin> set s'" using "3.prems"(2) ts by simp_all
  ultimately have eq: "s = s'" "join_with c (t # ss) = join_with c (t' # ts')"
    using sep_split [of c s s'] by blast+
  have "t # ss = t' # ts'"
    by (rule "3.IH") (use "3.prems"(1,2) ts eq(2) in auto)
  with eq(1) show ?case using ts by simp
qed simp

end
