(* ===== verification/Lifecycle.thy ===== *)
theory Lifecycle
  imports Byte_Strings
begin

text \<open>
  \<open>crates/mecmcp-changeset/src/lifecycle.rs\<close> and \<open>types.rs\<close>: the two lifecycle state machines,
  the change-set transition table, the capacity limits and the two validated identifier types.
  \<open>usize\<close> and \<open>u64\<close> values are natural numbers; the one addition that can overflow in this
  crate saturates in the source and is written out where it occurs.
\<close>

section \<open>States of an operation\<close>

datatype lifecycle_state =
  Staging | Staged | Validating | Validated | Committing | Committed | Discarded | OpFailed
  | Indeterminate

fun lifecycle_as_str :: "lifecycle_state \<Rightarrow> string" where
  "lifecycle_as_str Staging = ''staging''"
| "lifecycle_as_str Staged = ''staged''"
| "lifecycle_as_str Validating = ''validating''"
| "lifecycle_as_str Validated = ''validated''"
| "lifecycle_as_str Committing = ''committing''"
| "lifecycle_as_str Committed = ''committed''"
| "lifecycle_as_str Discarded = ''discarded''"
| "lifecycle_as_str OpFailed = ''failed''"
| "lifecycle_as_str Indeterminate = ''indeterminate''"

definition terminal :: "lifecycle_state \<Rightarrow> bool" where
  "terminal s \<longleftrightarrow> s = Committed \<or> s = Discarded"


section \<open>States of a change set\<close>

datatype change_set_state =
  Planned | Approved | Applying | Applied | Expired | Failed | Cancelled

fun change_set_as_str :: "change_set_state \<Rightarrow> string" where
  "change_set_as_str Planned = ''planned''"
| "change_set_as_str Approved = ''approved''"
| "change_set_as_str Applying = ''applying''"
| "change_set_as_str Applied = ''applied''"
| "change_set_as_str Expired = ''expired''"
| "change_set_as_str Failed = ''failed''"
| "change_set_as_str Cancelled = ''cancelled''"

datatype apply_handle = HandleExpected | HandleNone

text \<open>The table, one equation for each group of edges in the source's order.\<close>

fun change_set_transition_allowed :: "change_set_state \<Rightarrow> change_set_state \<Rightarrow> bool" where
  "change_set_transition_allowed Planned Planned = True"
| "change_set_transition_allowed Approved Approved = True"
| "change_set_transition_allowed Applying Applying = True"
| "change_set_transition_allowed Applied Applied = True"
| "change_set_transition_allowed Expired Expired = True"
| "change_set_transition_allowed Failed Failed = True"
| "change_set_transition_allowed Cancelled Cancelled = True"
| "change_set_transition_allowed Planned Approved = True"
| "change_set_transition_allowed Planned Expired = True"
| "change_set_transition_allowed Planned Cancelled = True"
| "change_set_transition_allowed Approved Expired = True"
| "change_set_transition_allowed Approved Cancelled = True"
| "change_set_transition_allowed Applying Applied = True"
| "change_set_transition_allowed Applying Failed = True"
| "change_set_transition_allowed Expired Cancelled = True"
| "change_set_transition_allowed Failed Cancelled = True"
| "change_set_transition_allowed Applied Failed = True"
| "change_set_transition_allowed _ _ = False"

text \<open>
  The states in which an approval has been spent or withdrawn. The table is closed: no edge
  leads from one of them to \<open>Planned\<close>, \<open>Approved\<close> or \<open>Applying\<close>, except that an apply in flight
  may be written over itself.
\<close>

definition spent :: "change_set_state \<Rightarrow> bool" where
  "spent s \<longleftrightarrow> s \<notin> {Planned, Approved}"

lemma spent_simps [simp]:
  "\<not> spent Planned" "\<not> spent Approved" "spent Applying" "spent Applied" "spent Expired"
  "spent Failed" "spent Cancelled"
  by (simp_all add: spent_def)

lemma transition_spent: "change_set_transition_allowed a b \<Longrightarrow> spent a \<Longrightarrow> spent b"
  by (cases a; cases b) simp_all

lemma transition_into_applying: "change_set_transition_allowed a Applying \<longleftrightarrow> a = Applying"
  by (cases a) simp_all

lemma transition_into_approved:
  "change_set_transition_allowed a Approved \<longleftrightarrow> a = Planned \<or> a = Approved"
  by (cases a) simp_all

lemma transition_into_planned: "change_set_transition_allowed a Planned \<longleftrightarrow> a = Planned"
  by (cases a) simp_all

lemma transition_refl [simp]: "change_set_transition_allowed a a"
  by (cases a) simp_all


section \<open>Limits and validated identifiers\<close>

record operation_limits =
  max_operations :: nat
  max_change_sets :: nat
  max_actions_per_set :: nat
  max_change_set_bytes :: nat
  max_state_bytes :: nat
  max_targets_per_set :: nat
  max_preview_bytes :: nat

definition default_limits :: operation_limits where
  "default_limits = \<lparr>max_operations = 1024, max_change_sets = 1024, max_actions_per_set = 64,
     max_change_set_bytes = 256 * 1024, max_state_bytes = 8 * 1024 * 1024,
     max_targets_per_set = 64, max_preview_bytes = 64 * 1024\<rparr>"

datatype fingerprint = Fingerprint string

datatype fingerprint_error = FingerprintError

definition fingerprint_new :: "string \<Rightarrow> fingerprint_error + fingerprint" where
  "fingerprint_new v =
     (case strip_prefix ''sha256:'' v of
        None \<Rightarrow> Inl FingerprintError
      | Some d \<Rightarrow> if length d = 64 \<and> list_all is_lower_hex d then Inr (Fingerprint v)
                 else Inl FingerprintError)"

datatype operation_id = OperationId string

datatype operation_id_error = OperationIdError

definition operation_id_new :: "string \<Rightarrow> operation_id_error + operation_id" where
  "operation_id_new v =
     (if length v = 64 \<and> list_all is_lower_hex v then Inr (OperationId v)
      else Inl OperationIdError)"

definition u64_max :: nat where
  "u64_max = 18446744073709551615"

definition saturating_add :: "nat \<Rightarrow> nat \<Rightarrow> nat" where
  "saturating_add a b = min (a + b) u64_max"

lemma saturating_add_le: "a \<le> u64_max \<Longrightarrow> a \<le> saturating_add a b"
  by (simp add: saturating_add_def)

end
