(* ===== verification/Attribution.thy ===== *)
theory Attribution
  imports Byte_Strings
begin

text \<open>
  \<open>crates/mecmcp-audit/src/attribution.rs\<close>: who is acting. A token name can never render as
  the unauthenticated principal's constructor; the provenance string is the line a commit
  comment carries. A UUID is its rendered string, \<open>CallerCtx\<close> the part of the caller context
  \<open>from_caller\<close> reads.
\<close>

datatype principal = Token string | Unauthenticated

fun principal_to_string :: "principal \<Rightarrow> string" where
  "principal_to_string (Token name) = name"
| "principal_to_string Unauthenticated = ''stdio''"

datatype actor_type = Human | Agent | Unknown

text \<open>\<open>format!("{:?}", actor_type).to_lowercase()\<close>: the variant's name in lower case.\<close>

fun actor_type_lower :: "actor_type \<Rightarrow> string" where
  "actor_type_lower Human = ''human''"
| "actor_type_lower Agent = ''agent''"
| "actor_type_lower Unknown = ''unknown''"

datatype tier = Public | Private

fun tier_to_string :: "tier \<Rightarrow> string" where
  "tier_to_string Public = ''public''"
| "tier_to_string Private = ''private''"

record agent_identity =
  ag_model_id :: string
  ag_session_id :: string
  ag_client_name :: "string option"
  ag_provider :: string
  ag_provider_tier :: tier
  ag_skills_used :: "string list"

definition default_provider :: string where
  "default_provider = ''unknown''"

definition skills_string :: "string list \<Rightarrow> string" where
  "skills_string ss = (if ss = [] then ''none'' else join_with (CHR '' '') ss)"

definition provenance_string :: "agent_identity \<Rightarrow> string option \<Rightarrow> string" where
  "provenance_string a on_behalf_of =
     (let provider_tier =
            to_lowercase (ag_provider a @ ''-'' @ tier_to_string (ag_provider_tier a));
          skills = skills_string (ag_skills_used a)
      in case on_behalf_of of
           Some user \<Rightarrow> provider_tier @ '', '' @ ag_model_id a @ '', '' @ skills @ '', '' @ user
         | None \<Rightarrow> provider_tier @ '', '' @ ag_model_id a @ '', '' @ skills)"

record token_verified_fields =
  tv_actor_type :: bool
  tv_on_behalf_of :: bool
  tv_provider :: bool

definition token_verified_none :: token_verified_fields where
  "token_verified_none =
     \<lparr>tv_actor_type = False, tv_on_behalf_of = False, tv_provider = False\<rparr>"

definition token_verified_to_string :: "token_verified_fields \<Rightarrow> string" where
  "token_verified_to_string v =
     (let names = (if tv_actor_type v then [''actor_type''] else []) @
                  (if tv_on_behalf_of v then [''on_behalf_of''] else []) @
                  (if tv_provider v then [''provider''] else [])
      in if names = [] then ''none'' else join_with (CHR '','') names)"

record attribution =
  at_principal :: principal
  at_actor_type :: actor_type
  at_agent :: "agent_identity option"
  at_on_behalf_of :: "string option"
  at_change_ref :: "string option"
  at_request_id :: string
  at_token_verified_fields :: token_verified_fields
  at_approver :: "string option"
  at_change_set_id :: "string option"

record caller_ctx =
  cx_token_name :: string
  cx_actor_type :: actor_type
  cx_on_behalf_of :: "string option"
  cx_provider :: "string option"
  cx_provider_tier :: "tier option"
  cx_client_name :: "string option"
  cx_model_id :: "string option"
  cx_session_id :: "string option"
  cx_request_id :: string

definition from_caller :: "caller_ctx \<Rightarrow> attribution" where
  "from_caller ctx =
     (let client = \<lparr>ag_model_id = case_option '''' id (cx_model_id ctx),
            ag_session_id = case_option '''' id (cx_session_id ctx),
            ag_client_name = cx_client_name ctx, ag_provider = default_provider,
            ag_provider_tier = Public, ag_skills_used = []\<rparr>;
          agent = (case (cx_provider ctx, cx_provider_tier ctx) of
             (Some p, Some t) \<Rightarrow> Some (client\<lparr>ag_provider := p, ag_provider_tier := t\<rparr>)
           | _ \<Rightarrow> if cx_client_name ctx \<noteq> None \<or> cx_model_id ctx \<noteq> None \<or> cx_session_id ctx \<noteq> None
                  then Some client else None)
      in \<lparr>at_principal = Token (cx_token_name ctx), at_actor_type = cx_actor_type ctx,
          at_agent = agent, at_on_behalf_of = cx_on_behalf_of ctx, at_change_ref = None,
          at_request_id = cx_request_id ctx,
          at_token_verified_fields =
            \<lparr>tv_actor_type = (cx_actor_type ctx \<noteq> Unknown),
             tv_on_behalf_of = (cx_on_behalf_of ctx \<noteq> None),
             tv_provider = (cx_provider ctx \<noteq> None)\<rparr>,
          at_approver = None, at_change_set_id = None\<rparr>)"

text \<open>The identifier of a request nobody authenticated is minted by the caller.\<close>

definition stdio_attribution :: "string \<Rightarrow> attribution" where
  "stdio_attribution request_id =
     \<lparr>at_principal = Unauthenticated, at_actor_type = Unknown, at_agent = None, at_on_behalf_of = None,
      at_change_ref = None, at_request_id = request_id, at_token_verified_fields = token_verified_none,
      at_approver = None, at_change_set_id = None\<rparr>"

definition with_client_name :: "string \<Rightarrow> attribution \<Rightarrow> attribution" where
  "with_client_name name a =
     (case at_agent a of
        Some agent \<Rightarrow> a\<lparr>at_agent := Some (agent\<lparr>ag_client_name := Some name\<rparr>)\<rparr>
      | None \<Rightarrow> a\<lparr>at_agent := Some \<lparr>ag_model_id = [], ag_session_id = [], ag_client_name = Some name,
          ag_provider = default_provider, ag_provider_tier = Public, ag_skills_used = []\<rparr>\<rparr>)"

definition with_change_set :: "string \<Rightarrow> string option \<Rightarrow> attribution \<Rightarrow> attribution" where
  "with_change_set cs approver a = a\<lparr>at_change_set_id := Some cs, at_approver := approver\<rparr>"

text \<open>A caller context never vouches for a verified field its token did not bind.\<close>

lemma from_caller_verified:
  "at_token_verified_fields (from_caller ctx) = v \<Longrightarrow>
    (tv_on_behalf_of v \<longrightarrow> at_on_behalf_of (from_caller ctx) \<noteq> None) \<and>
    (tv_actor_type v \<longleftrightarrow> at_actor_type (from_caller ctx) \<noteq> Unknown) \<and>
    at_approver (from_caller ctx) = None"
  by (auto simp: from_caller_def Let_def)

end
