(* ===== verification/Records.thy ===== *)
theory Records
  imports Lifecycle Attribution
begin

text \<open>
  The persisted records of \<open>crates/mecmcp-changeset/src/records.rs\<close>, field by field, and the
  state they are kept in (\<open>persistence.rs\<close>). Field names carry a prefix for their record.
  \<open>serde_json::Value\<close> is the datatype \<open>json\<close>: a number is its literal text, objects keep their key order, as the crate's
  \<open>preserve_order\<close> feature does.
\<close>

datatype json =
  JNull | JBool bool | JNum string | JStr string | JArr "json list" | JObj "(string \<times> json) list"

section \<open>Attribution as it is persisted\<close>

datatype persisted_principal = PToken string | PUnauthenticated

record persisted_agent_identity =
  pg_model_id :: string
  pg_provider :: string
  pg_provider_tier :: string
  pg_skills_used :: string

record persisted_attribution =
  pa_principal :: persisted_principal
  pa_actor_type :: string
  pa_on_behalf_of :: "string option"
  pa_change_ref :: "string option"
  pa_request_id :: string
  pa_agent :: "persisted_agent_identity option"

definition persisted_attribution_from :: "attribution \<Rightarrow> persisted_attribution" where
  "persisted_attribution_from a =
     \<lparr>pa_principal = (case at_principal a of Token n \<Rightarrow> PToken n | Unauthenticated \<Rightarrow> PUnauthenticated),
      pa_actor_type = actor_type_lower (at_actor_type a),
      pa_on_behalf_of = at_on_behalf_of a,
      pa_change_ref = at_change_ref a,
      pa_request_id = at_request_id a,
      pa_agent = map_option (\<lambda>g.
        \<lparr>pg_model_id = ag_model_id g, pg_provider = ag_provider g,
         pg_provider_tier = tier_to_string (ag_provider_tier g),
         pg_skills_used = skills_string (ag_skills_used g)\<rparr>) (at_agent a)\<rparr>"

section \<open>Operations\<close>

record operation_record =
  op_id :: string
  op_owner :: string
  op_device :: string
  op_endpoint :: string
  op_action :: json
  op_xpath :: "string option"
  op_actions :: "json list"
  op_change_set_id :: "string option"
  op_current :: string
  op_state :: lifecycle_state
  op_job_id :: "string option"
  op_details :: "string option"
  op_config_lock_held :: bool
  op_policy_signature :: string
  op_attribution :: "persisted_attribution option"
  op_rollback_deadline_unix :: "nat option"
  op_config_authority :: "string option"

section \<open>Change sets and their approval\<close>

datatype waiver_kind = LabMode | OperatorFile | OperatorTool

fun waiver_kind_as_str :: "waiver_kind \<Rightarrow> string" where
  "waiver_kind_as_str LabMode = ''lab_mode''"
| "waiver_kind_as_str OperatorFile = ''operator_file''"
| "waiver_kind_as_str OperatorTool = ''operator_tool''"

record waiver_record =
  wv_kind :: waiver_kind
  wv_reason :: string
  wv_expires_at_unix :: "nat option"
  wv_ticket :: "string option"

record approval_record =
  ap_approver :: "string option"
  ap_approved_at_unix :: nat
  ap_digest :: string
  ap_digest_version :: nat
  ap_waived :: "waiver_record option"

record preview_record =
  pv_artifact :: string
  pv_digest :: string
  pv_job_id :: "string option"

record change_set_record =
  cs_id :: string
  cs_owner :: string
  cs_device :: string
  cs_expected_candidate_fingerprint :: string
  cs_actions :: "json list"
  cs_digest :: string
  cs_state :: change_set_state
  cs_approver :: "string option"
  cs_approval :: "approval_record option"
  cs_expires_at_unix :: nat
  cs_operation_id :: "string option"
  cs_policy_signature :: string
  cs_targets :: "string list"
  cs_preview :: "preview_record option"
  cs_task_id :: "string option"
  cs_apply_without_handle :: bool

definition record_targets :: "change_set_record \<Rightarrow> string list" where
  "record_targets r = (if cs_targets r = [] then [cs_device r] else cs_targets r)"

definition preview_digest_of :: "change_set_record \<Rightarrow> string option" where
  "preview_digest_of r = map_option pv_digest (cs_preview r)"

section \<open>The stored state\<close>

record changeset_state =
  st_operations :: "(string \<times> operation_record) list"
  st_change_sets :: "(string \<times> change_set_record) list"

definition empty_state :: changeset_state where
  "empty_state = \<lparr>st_operations = [], st_change_sets = []\<rparr>"

record on_disk_changeset_state =
  od_version :: nat
  od_state :: changeset_state

end
