(* ===== verification/Digest.thy ===== *)
theory Digest
  imports Records
begin

text \<open>
  \<open>crates/mecmcp-changeset/src/digest.rs\<close>. SHA-256, HMAC-SHA256 and \<open>serde_json::to_vec\<close> are
  third-party code and stay parameters: the fields of \<open>lib\<close>, with \<open>url::Url::parse\<close> and the
  length of the \<open>serde_json::to_vec_pretty\<close> text of a state file. Nothing is assumed of them.
  What a digest binds is stated as a reduction: two equal digests have equal inputs, or the
  two byte strings that were hashed are a collision of the hash, or the two JSON values are a
  collision of the encoder. A tuple serialises as a JSON array, \<open>None\<close> as \<open>null\<close>.
\<close>

record url =
  url_scheme :: string
  url_host :: "string option"
  url_port :: "nat option"
  url_path :: string

record lib =
  sha256 :: "string \<Rightarrow> string"
  hmac_sha256 :: "string \<Rightarrow> string \<Rightarrow> string"
  to_vec :: "json \<Rightarrow> string"
  url_parse :: "string \<Rightarrow> url option"
  ser_len :: "on_disk_changeset_state \<Rightarrow> nat"

section \<open>Formats\<close>

datatype digest_error = DigestFormat string

definition validate_digest :: "string \<Rightarrow> string \<Rightarrow> digest_error + unit" where
  "validate_digest v field =
     (case strip_prefix ''sha256:'' v of
        None \<Rightarrow> Inl (DigestFormat field)
      | Some d \<Rightarrow> if length d = 64 \<and> list_all is_lower_hex d then Inr ()
                 else Inl (DigestFormat field))"

definition validate_fingerprint :: "string \<Rightarrow> digest_error + unit" where
  "validate_fingerprint v =
     (case strip_prefix ''sha256:'' v of
        None \<Rightarrow> Inl (DigestFormat ''expected_candidate_fingerprint'')
      | Some d \<Rightarrow> if length d = 64 \<and> list_all is_lower_hex d then Inr ()
                 else Inl (DigestFormat ''expected_candidate_fingerprint''))"

lemma validate_digest_iff: "validate_digest v f = Inr u \<longleftrightarrow> sha256_tagged v"
  by (auto simp: validate_digest_def sha256_tagged_def hex64_def strip_prefix_iff
      split: option.splits) (simp add: strip_prefix_def)

lemma validate_fingerprint_iff: "validate_fingerprint v = Inr u \<longleftrightarrow> sha256_tagged v"
  by (auto simp: validate_fingerprint_def sha256_tagged_def hex64_def strip_prefix_iff
      split: option.splits) (simp add: strip_prefix_def)

definition digest_hex :: "'z lib_scheme \<Rightarrow> string \<Rightarrow> string" where
  "digest_hex L bytes = hex_string (sha256 L bytes)"

datatype principal_error = SeparatorInPrincipal string

definition validate_principal_for_digest :: "string \<Rightarrow> string \<Rightarrow> principal_error + unit" where
  "validate_principal_for_digest field v =
     (if CHR ''|'' \<in> set v then Inl (SeparatorInPrincipal field) else Inr ())"


section \<open>Plan and preview digests\<close>

definition change_set_digest :: "'z lib_scheme \<Rightarrow> string \<Rightarrow> string \<Rightarrow> string \<Rightarrow> json list \<Rightarrow> string"
where
  "change_set_digest L owner device fingerprint actions =
     ''sha256:'' @ digest_hex L (to_vec L
       (JArr [JStr owner, JStr device, JStr fingerprint, JArr actions]))"

definition change_set_digest_with_targets ::
  "'z lib_scheme \<Rightarrow> string \<Rightarrow> string \<Rightarrow> string \<Rightarrow> json list \<Rightarrow> string list \<Rightarrow> string" where
  "change_set_digest_with_targets L owner device fingerprint actions targets =
     (if targets = [] then change_set_digest L owner device fingerprint actions
      else ''sha256:'' @ digest_hex L (to_vec L
        (JArr [JStr owner, JStr device, JStr fingerprint, JArr actions, JArr (map JStr targets)])))"

definition preview_digest :: "'z lib_scheme \<Rightarrow> string \<Rightarrow> string" where
  "preview_digest L artifact = ''sha256:'' @ digest_hex L artifact"


section \<open>Approval and waiver digests\<close>

fun opt_json :: "string option \<Rightarrow> json" where
  "opt_json None = JNull"
| "opt_json (Some s) = JStr s"

definition compute_approval_digest_legacy ::
  "'z lib_scheme \<Rightarrow> string \<Rightarrow> string \<Rightarrow> string \<Rightarrow> string \<Rightarrow> nat \<Rightarrow> string" where
  "compute_approval_digest_legacy L change_set_id plan_digest owner approver approved_at =
     ''sha256:'' @ hex_string (sha256 L
       (change_set_id @ ''|'' @ plan_digest @ ''|'' @ owner @ ''|'' @ approver @ ''|'' @
        decimal approved_at))"

definition compute_waiver_digest ::
  "'z lib_scheme \<Rightarrow> string \<Rightarrow> string \<Rightarrow> string \<Rightarrow> nat \<Rightarrow> string" where
  "compute_waiver_digest L change_set_id plan_digest owner waived_at =
     ''sha256:'' @ hex_string (sha256 L
       (change_set_id @ ''|'' @ plan_digest @ ''|'' @ owner @ ''|'' @ decimal waived_at @ ''|'' @
        ''lab-mode-waived''))"

definition compute_waiver_digest_v3 ::
  "'z lib_scheme \<Rightarrow> string \<Rightarrow> string \<Rightarrow> string \<Rightarrow> nat \<Rightarrow> waiver_record \<Rightarrow> string" where
  "compute_waiver_digest_v3 L change_set_id plan_digest owner waived_at w =
     ''sha256:'' @ digest_hex L (to_vec L
       (JArr [JStr ''mecmcp-waiver-v3'', JStr change_set_id, JStr plan_digest, JStr owner,
              JNum (decimal waived_at), JStr (waiver_kind_as_str (wv_kind w)), JStr (wv_reason w),
              (case wv_expires_at_unix w of None \<Rightarrow> JNull | Some t \<Rightarrow> JNum (decimal t)),
              opt_json (wv_ticket w)]))"

definition compute_approval_digest_v4 ::
  "'z lib_scheme \<Rightarrow> string \<Rightarrow> string \<Rightarrow> string \<Rightarrow> string \<Rightarrow> nat \<Rightarrow> string" where
  "compute_approval_digest_v4 L change_set_id plan_digest owner approver approved_at =
     ''sha256:'' @ digest_hex L (to_vec L
       (JArr [JStr ''mecmcp-approval-v4'', JStr change_set_id, JStr plan_digest, JStr owner,
              JStr approver, JNum (decimal approved_at)]))"

definition compute_approval_digest_v5 ::
  "'z lib_scheme \<Rightarrow> string \<Rightarrow> string \<Rightarrow> string option \<Rightarrow> string \<Rightarrow> string \<Rightarrow> nat \<Rightarrow> string" where
  "compute_approval_digest_v5 L change_set_id plan_digest preview owner approver approved_at =
     ''sha256:'' @ digest_hex L (to_vec L
       (JArr [JStr ''mecmcp-approval-v5'', JStr change_set_id, JStr plan_digest, opt_json preview,
              JStr owner, JStr approver, JNum (decimal approved_at)]))"

definition compute_approval_digest_v6 ::
  "'z lib_scheme \<Rightarrow> string \<Rightarrow> string \<Rightarrow> string \<Rightarrow> string option \<Rightarrow> string \<Rightarrow> string \<Rightarrow> nat \<Rightarrow> string"
where
  "compute_approval_digest_v6 L key change_set_id plan_digest preview owner approver approved_at =
     ''sha256:'' @ hex_string (hmac_sha256 L key (to_vec L
       (JArr [JStr ''mecmcp-approval-v6'', JStr change_set_id, JStr plan_digest, opt_json preview,
              JStr owner, JStr approver, JNum (decimal approved_at)])))"

definition verify_approval_digest_v6 ::
  "'z lib_scheme \<Rightarrow> string \<Rightarrow> string \<Rightarrow> string \<Rightarrow> string option \<Rightarrow> string \<Rightarrow> string \<Rightarrow> nat \<Rightarrow> string \<Rightarrow> bool"
where
  "verify_approval_digest_v6 L key change_set_id plan_digest preview owner approver approved_at candidate
     \<longleftrightarrow> compute_approval_digest_v6 L key change_set_id plan_digest preview owner approver approved_at
         = candidate"


section \<open>What a digest binds\<close>

text \<open>
  The interface every tuple digest offers: a canonical JSON value of its inputs, an encoder and
  a hash, the canonical form being injective. Its one promise is the reduction below.
\<close>

definition enc_collision :: "(json \<Rightarrow> string) \<Rightarrow> json \<Rightarrow> json \<Rightarrow> bool" where
  "enc_collision enc j k \<longleftrightarrow> j \<noteq> k \<and> enc j = enc k"

definition hash_collision :: "(string \<Rightarrow> string) \<Rightarrow> string \<Rightarrow> string \<Rightarrow> bool" where
  "hash_collision h x y \<longleftrightarrow> x \<noteq> y \<and> h x = h y"

locale tuple_digest =
  fixes hash :: "string \<Rightarrow> string" and enc :: "json \<Rightarrow> string" and canon :: "'x \<Rightarrow> json"
    and dig :: "'x \<Rightarrow> string"
  assumes canon_inj: "canon x = canon y \<Longrightarrow> x = y"
    and dig_eq: "dig x = ''sha256:'' @ hex_string (hash (enc (canon x)))"
begin

lemma binds:
  assumes "dig x = dig y"
  shows "x = y \<or> enc_collision enc (canon x) (canon y) \<or>
    hash_collision hash (enc (canon x)) (enc (canon y))"
proof -
  have "hash (enc (canon x)) = hash (enc (canon y))"
    using assms hex_string_inj by (simp add: dig_eq)
  then show ?thesis
    using canon_inj by (auto simp: enc_collision_def hash_collision_def)
qed

end

lemma opt_json_inj: "opt_json a = opt_json b \<Longrightarrow> a = b"
  by (cases a; cases b) simp_all

lemma decimal_eq_iff [simp]: "decimal m = decimal n \<longleftrightarrow> m = n"
  using decimal_inj by blast

lemma opt_json_eq_iff [simp]: "opt_json a = opt_json b \<longleftrightarrow> a = b"
  using opt_json_inj by blast

lemma waiver_kind_as_str_inj [simp]:
  "waiver_kind_as_str a = waiver_kind_as_str b \<longleftrightarrow> a = b"
  by (cases a; cases b) simp_all

definition canon_plan :: "string \<times> string \<times> string \<times> json list \<times> string list \<Rightarrow> json" where
  "canon_plan = (\<lambda>(owner, device, fp, actions, targets).
     JArr ([JStr owner, JStr device, JStr fp, JArr actions] @
           (if targets = [] then [] else [JArr (map JStr targets)])))"

definition canon_v4 :: "string \<times> string \<times> string \<times> string \<times> nat \<Rightarrow> json" where
  "canon_v4 = (\<lambda>(cid, plan, owner, approver, at).
     JArr [JStr ''mecmcp-approval-v4'', JStr cid, JStr plan, JStr owner, JStr approver,
           JNum (decimal at)])"

definition canon_preview ::
  "string \<Rightarrow> string \<times> string \<times> string option \<times> string \<times> string \<times> nat \<Rightarrow> json" where
  "canon_preview marker = (\<lambda>(cid, plan, preview, owner, approver, at).
     JArr [JStr marker, JStr cid, JStr plan, opt_json preview, JStr owner, JStr approver,
           JNum (decimal at)])"

definition canon_waiver :: "string \<times> string \<times> string \<times> nat \<times> waiver_record \<Rightarrow> json" where
  "canon_waiver = (\<lambda>(cid, plan, owner, at, w).
     JArr [JStr ''mecmcp-waiver-v3'', JStr cid, JStr plan, JStr owner, JNum (decimal at),
           JStr (waiver_kind_as_str (wv_kind w)), JStr (wv_reason w),
           (case wv_expires_at_unix w of None \<Rightarrow> JNull | Some t \<Rightarrow> JNum (decimal t)),
           opt_json (wv_ticket w)])"

lemma inj_JStr_map: "map JStr xs = map JStr ys \<Longrightarrow> xs = ys"
  by (rule map_injective) (auto simp: inj_def)

interpretation plan: tuple_digest "sha256 L" "to_vec L" canon_plan
  "\<lambda>(o', d, f, a, t). change_set_digest_with_targets L o' d f a t" for L :: "'z lib_scheme"
  by unfold_locales
    (auto simp: canon_plan_def change_set_digest_with_targets_def change_set_digest_def
      digest_hex_def split: if_splits dest: inj_JStr_map)

interpretation v4: tuple_digest "sha256 L" "to_vec L" canon_v4
  "\<lambda>(c, p, o', a, t). compute_approval_digest_v4 L c p o' a t" for L :: "'z lib_scheme"
  by unfold_locales (auto simp: canon_v4_def compute_approval_digest_v4_def digest_hex_def)

interpretation v5: tuple_digest "sha256 L" "to_vec L" "canon_preview ''mecmcp-approval-v5''"
  "\<lambda>(c, p, q, o', a, t). compute_approval_digest_v5 L c p q o' a t" for L :: "'z lib_scheme"
  by unfold_locales (auto simp: canon_preview_def compute_approval_digest_v5_def digest_hex_def)

interpretation v6: tuple_digest "hmac_sha256 L key" "to_vec L" "canon_preview ''mecmcp-approval-v6''"
  "\<lambda>(c, p, q, o', a, t). compute_approval_digest_v6 L key c p q o' a t"
  for L :: "'z lib_scheme" and key
  by unfold_locales (auto simp: canon_preview_def compute_approval_digest_v6_def)

interpretation waiver: tuple_digest "sha256 L" "to_vec L" canon_waiver
  "\<lambda>(c, p, o', t, w). compute_waiver_digest_v3 L c p o' t w" for L :: "'z lib_scheme"
  by unfold_locales
    (auto simp: canon_waiver_def compute_waiver_digest_v3_def digest_hex_def
      split: option.splits intro: waiver_record.equality)

text \<open>
  The legacy digest joins its fields with a bar. On fields without a bar it binds them too;
  this is the rule \<open>validate_principal_for_digest\<close> exists for.
\<close>

lemma legacy_bytes:
  "c @ ''|'' @ p @ ''|'' @ o' @ ''|'' @ a @ ''|'' @ decimal t =
    join_with (CHR ''|'') [c, p, o', a, decimal t]"
  by simp

lemma no_bar_decimal: "CHR ''|'' \<notin> set (decimal t)"
  using decimal_digits [of t] by auto

lemma legacy_fields:
  assumes "CHR ''|'' \<notin> set c" "CHR ''|'' \<notin> set p" "CHR ''|'' \<notin> set o'" "CHR ''|'' \<notin> set a"
    and "CHR ''|'' \<notin> set c'" "CHR ''|'' \<notin> set p'" "CHR ''|'' \<notin> set o''" "CHR ''|'' \<notin> set a'"
    and "c @ ''|'' @ p @ ''|'' @ o' @ ''|'' @ a @ ''|'' @ decimal t =
      c' @ ''|'' @ p' @ ''|'' @ o'' @ ''|'' @ a' @ ''|'' @ decimal t'"
  shows "c = c' \<and> p = p' \<and> o' = o'' \<and> a = a' \<and> t = t'"
proof -
  have "[c, p, o', a, decimal t] = [c', p', o'', a', decimal t']"
    using assms(9) unfolding legacy_bytes
    by (rule join_with_inj [rotated 2]) (use assms no_bar_decimal in auto)
  then show ?thesis by simp
qed

lemma no_bar_hex: "list_all is_lower_hex s \<Longrightarrow> CHR ''|'' \<notin> set s"
proof
  assume "list_all is_lower_hex s" "CHR ''|'' \<in> set s"
  then have "is_lower_hex (CHR ''|'')" by (simp add: list_all_iff)
  moreover have "\<not> is_lower_hex (CHR ''|'')" by code_simp
  ultimately show False by simp
qed

lemma no_bar_tagged: "sha256_tagged s \<Longrightarrow> CHR ''|'' \<notin> set s"
  by (auto simp: sha256_tagged_def hex64_def dest: no_bar_hex)

lemma tagged_if_32: "length (h x) = 32 \<Longrightarrow> sha256_tagged (''sha256:'' @ hex_string (h x))"
  by (auto simp: sha256_tagged_def hex64_hex_string)

end
