(* ===== verification/Record_Checks.thy ===== *)
theory Record_Checks
  imports Digest
begin

text \<open>
  The checks of \<open>crates/mecmcp-changeset/src/records.rs\<close>: target sets, previews, the policy and
  fingerprint guards of an operation, and the size limits of a change set. An action list is a
  list of \<open>json option\<close>: \<open>None\<close> is an action whose \<open>Serialize\<close> implementation fails.
\<close>

section \<open>Target sets\<close>

datatype target_error =
  TargetsEmpty | EmptyName | DuplicateTarget string | UnsortedTarget string
  | MissingPrimary string | TooManyTargets nat nat

text \<open>The loop over the list, with the element before the current one.\<close>

fun check_targets_from :: "string option \<Rightarrow> string list \<Rightarrow> target_error + unit" where
  "check_targets_from previous [] = Inr ()"
| "check_targets_from previous (name # rest) =
     (if name = [] then Inl EmptyName
      else case previous of
        None \<Rightarrow> check_targets_from (Some name) rest
      | Some p \<Rightarrow>
          if name = p then Inl (DuplicateTarget name)
          else if name < p then Inl (UnsortedTarget name)
          else check_targets_from (Some name) rest)"

definition validate_targets :: "string list \<Rightarrow> nat \<Rightarrow> target_error + unit" where
  "validate_targets targets maximum =
     (if targets = [] then Inl TargetsEmpty
      else if maximum < length targets then Inl (TooManyTargets (length targets) maximum)
      else check_targets_from None targets)"

definition validate_target_set :: "change_set_record \<Rightarrow> nat \<Rightarrow> target_error + unit" where
  "validate_target_set r maximum =
     (if cs_targets r = [] then Inr ()
      else case validate_targets (cs_targets r) maximum of
        Inl e \<Rightarrow> Inl e
      | Inr _ \<Rightarrow> if cs_device r \<in> set (cs_targets r) then Inr ()
                 else Inl (MissingPrimary (cs_device r)))"


section \<open>Previews\<close>

datatype preview_error = PreviewMalformed digest_error | PreviewMismatch | PreviewTooLarge nat nat

definition validate_preview ::
  "'z lib_scheme \<Rightarrow> change_set_record \<Rightarrow> nat \<Rightarrow> preview_error + unit" where
  "validate_preview L r maximum =
     (case cs_preview r of
        None \<Rightarrow> Inr ()
      | Some p \<Rightarrow>
          if maximum < length (pv_artifact p) then
            Inl (PreviewTooLarge (length (pv_artifact p)) maximum)
          else case validate_digest (pv_digest p) ''preview_digest'' of
            Inl e \<Rightarrow> Inl (PreviewMalformed e)
          | Inr _ \<Rightarrow>
              if preview_digest L (pv_artifact p) \<noteq> pv_digest p then Inl PreviewMismatch
              else Inr ())"


section \<open>Guards of an operation and limits of a change set\<close>

datatype record_error =
  PolicyChanged | ExpectedMalformed digest_error | CandidateChangedForCaller
  | CandidateChangedSinceStage | NoActions | TooManyActions nat | ActionsNotEncodable
  | ActionsTooLarge nat

fun record_error_field :: "record_error \<Rightarrow> string" where
  "record_error_field PolicyChanged = ''operation_id''"
| "record_error_field (ExpectedMalformed _) = ''expected_candidate_fingerprint''"
| "record_error_field CandidateChangedForCaller = ''expected_candidate_fingerprint''"
| "record_error_field CandidateChangedSinceStage = ''operation_id''"
| "record_error_field NoActions = ''actions''"
| "record_error_field (TooManyActions _) = ''actions''"
| "record_error_field ActionsNotEncodable = ''actions''"
| "record_error_field (ActionsTooLarge _) = ''actions''"

definition require_operation_policy :: "operation_record \<Rightarrow> string \<Rightarrow> record_error + unit" where
  "require_operation_policy r current_policy_signature =
     (if op_policy_signature r = current_policy_signature then Inr () else Inl PolicyChanged)"

definition require_operation_fingerprint ::
  "operation_record \<Rightarrow> string \<Rightarrow> string \<Rightarrow> record_error + unit" where
  "require_operation_fingerprint r expected actual =
     (case validate_fingerprint expected of
        Inl e \<Rightarrow> Inl (ExpectedMalformed e)
      | Inr _ \<Rightarrow>
          if expected \<noteq> actual then Inl CandidateChangedForCaller
          else if op_current r \<noteq> actual then Inl CandidateChangedSinceStage
          else Inr ())"

text \<open>The source finalises a SHA-256 and passes the result to \<open>digest_hex\<close>, which hashes again.\<close>

definition mutation_policy_signature :: "'z lib_scheme \<Rightarrow> string \<Rightarrow> string" where
  "mutation_policy_signature L policy_identifier =
     ''sha256:'' @ digest_hex L (sha256 L policy_identifier)"

definition validate_change_set_actions ::
  "'z lib_scheme \<Rightarrow> json option list \<Rightarrow> operation_limits \<Rightarrow> record_error + unit" where
  "validate_change_set_actions L actions limits =
     (if actions = [] then Inl NoActions
      else if max_actions_per_set limits < length actions then
        Inl (TooManyActions (max_actions_per_set limits))
      else if None \<in> set actions then Inl ActionsNotEncodable
      else if max_change_set_bytes limits < length (to_vec L (JArr (map the actions))) then
        Inl (ActionsTooLarge (max_change_set_bytes limits))
      else Inr ())"


section \<open>What the checks accept\<close>

text \<open>A target list is accepted exactly when it is the sorted listing of a set of names.\<close>

lemma check_targets_from_iff:
  "check_targets_from p ts = Inr u \<longleftrightarrow>
    [] \<notin> set ts \<and> sorted_wrt (<) (case p of None \<Rightarrow> ts | Some q \<Rightarrow> q # ts)"
proof (induction p ts rule: check_targets_from.induct)
  case (2 p name rest)
  then show ?case
    by (cases p) (auto simp: not_less le_less dest: less_trans)
qed (simp split: option.split)

lemma validate_targets_iff:
  "validate_targets ts n = Inr u \<longleftrightarrow>
    ts \<noteq> [] \<and> length ts \<le> n \<and> [] \<notin> set ts \<and> sorted_wrt (<) ts"
  by (auto simp: validate_targets_def check_targets_from_iff)

lemma validate_target_set_iff:
  "validate_target_set r n = Inr u \<longleftrightarrow>
    cs_targets r = [] \<or>
    (length (cs_targets r) \<le> n \<and> [] \<notin> set (cs_targets r) \<and> sorted_wrt (<) (cs_targets r) \<and>
     cs_device r \<in> set (cs_targets r))"
  using validate_targets_iff [of "cs_targets r" n "()"]
  by (cases "validate_targets (cs_targets r) n") (auto simp: validate_target_set_def)

lemma strictly_sorted_set_eq:
  fixes xs ys :: "'a::linorder list"
  assumes "sorted_wrt (<) xs" "sorted_wrt (<) ys" "set xs = set ys"
  shows "xs = ys"
  using assms by (metis sorted_distinct_set_unique strict_sorted_iff)

lemma validate_targets_unique:
  "validate_targets xs m = Inr u \<Longrightarrow> validate_targets ys n = Inr v \<Longrightarrow> set xs = set ys \<Longrightarrow> xs = ys"
  unfolding validate_targets_iff using strictly_sorted_set_eq by blast

lemma validate_preview_iff:
  "validate_preview L r n = Inr u \<longleftrightarrow>
    (\<forall>p. cs_preview r = Some p \<longrightarrow> length (pv_artifact p) \<le> n \<and> sha256_tagged (pv_digest p) \<and>
      pv_digest p = preview_digest L (pv_artifact p))"
proof (cases "cs_preview r")
  case (Some p)
  then show ?thesis
    using validate_digest_iff [of "pv_digest p" "''preview_digest''" "()"]
    by (cases "validate_digest (pv_digest p) ''preview_digest''") (auto simp: validate_preview_def)
qed (simp add: validate_preview_def)

lemma require_operation_fingerprint_iff:
  "require_operation_fingerprint r e a = Inr u \<longleftrightarrow>
    sha256_tagged e \<and> e = a \<and> op_current r = a"
proof (cases "validate_fingerprint e")
  case (Inl x)
  then have "\<not> sha256_tagged e" using validate_fingerprint_iff [of e] by auto
  with Inl show ?thesis by (simp add: require_operation_fingerprint_def)
next
  case (Inr x)
  then have "sha256_tagged e" using validate_fingerprint_iff by blast
  with Inr show ?thesis by (auto simp: require_operation_fingerprint_def)
qed

lemma require_operation_policy_iff:
  "require_operation_policy r p = Inr u \<longleftrightarrow> op_policy_signature r = p"
  by (simp add: require_operation_policy_def)

lemma validate_change_set_actions_iff:
  "validate_change_set_actions L as n = Inr u \<longleftrightarrow>
    as \<noteq> [] \<and> length as \<le> max_actions_per_set n \<and> None \<notin> set as \<and>
    length (to_vec L (JArr (map the as))) \<le> max_change_set_bytes n"
  by (auto simp: validate_change_set_actions_def)

end
