(* ===== verification/Ordered_Map.thy ===== *)
theory Ordered_Map
  imports Mecmcp_Prelude
begin

text \<open>
  The standard library's \<open>BTreeMap\<close>, as far as the program uses it: \<open>get\<close>, \<open>insert\<close>,
  \<open>remove\<close>, \<open>retain\<close>, \<open>len\<close>, iteration in key order and in-place update of every value.
  The locale \<open>ordered_map\<close> is the contract the coordinator relies on; the lemmas in it (a
  write followed by the write that undoes it, what a property of every stored value becomes
  after an operation) are proved from the contract alone. Lists of pairs with strictly
  increasing keys implement it.
\<close>

section \<open>The contract\<close>

locale ordered_map =
  fixes get :: "'m \<Rightarrow> 'k \<Rightarrow> 'v option"
    and ins :: "'k \<Rightarrow> 'v \<Rightarrow> 'm \<Rightarrow> 'm"
    and del :: "'k \<Rightarrow> 'm \<Rightarrow> 'm"
    and keep :: "('v \<Rightarrow> bool) \<Rightarrow> 'm \<Rightarrow> 'm"
    and upd :: "('v \<Rightarrow> 'v) \<Rightarrow> 'm \<Rightarrow> 'm"
    and vals :: "'m \<Rightarrow> 'v list"
    and ok :: "'m \<Rightarrow> bool"
  assumes get_ins: "get (ins k v m) = (get m)(k := Some v)"
    and get_del: "get (del k m) = (get m)(k := None)"
    and get_keep: "ok m \<Longrightarrow> get (keep p m) k = Option.bind (get m k) (\<lambda>v. if p v then Some v else None)"
    and get_upd: "get (upd f m) k = map_option f (get m k)"
    and vals_get: "ok m \<Longrightarrow> v \<in> set (vals m) \<longleftrightarrow> (\<exists>k. get m k = Some v)"
    and ok_ins: "ok m \<Longrightarrow> ok (ins k v m)"
    and ok_del: "ok m \<Longrightarrow> ok (del k m)"
    and ok_keep: "ok m \<Longrightarrow> ok (keep p m)"
    and ok_upd: "ok m \<Longrightarrow> ok (upd f m)"
    and ok_ext: "ok m \<Longrightarrow> ok m' \<Longrightarrow> get m = get m' \<Longrightarrow> m = m'"
begin

text \<open>A fresh insert is undone by removing the key, an overwrite by writing the old value.\<close>

lemma undo_insert: "ok m \<Longrightarrow> get m k = None \<Longrightarrow> del k (ins k v m) = m"
  by (rule ok_ext) (auto simp: ok_ins ok_del get_ins get_del fun_eq_iff)

lemma undo_update: "ok m \<Longrightarrow> get m k = Some v \<Longrightarrow> ins k v (ins k w m) = m"
  by (rule ok_ext) (auto simp: ok_ins get_ins fun_eq_iff)

lemma keep_all: "ok m \<Longrightarrow> (\<And>k v. get m k = Some v \<Longrightarrow> p v) \<Longrightarrow> keep p m = m"
  by (rule ok_ext) (auto simp: ok_keep get_keep fun_eq_iff split: option.splits bind_splits)

lemma upd_id: "ok m \<Longrightarrow> (\<And>k v. get m k = Some v \<Longrightarrow> f v = v) \<Longrightarrow> upd f m = m"
proof (rule ok_ext)
  assume "ok m" and f: "\<And>k v. get m k = Some v \<Longrightarrow> f v = v"
  show "get (upd f m) = get m"
  proof (rule ext)
    fix k show "get (upd f m) k = get m k"
      by (cases "get m k") (simp_all add: get_upd f)
  qed
qed (auto simp: ok_upd)

lemma get_keepD: "ok m \<Longrightarrow> get (keep p m) k = Some v \<Longrightarrow> get m k = Some v \<and> p v"
  by (auto simp: get_keep split: bind_splits if_splits)

text \<open>A property of every stored value, through the operations.\<close>

lemma all_ins:
  "(\<And>k v. get m k = Some v \<Longrightarrow> P v) \<Longrightarrow> P w \<Longrightarrow> get (ins k w m) k' = Some v \<Longrightarrow> P v"
  by (auto simp: get_ins split: if_splits)

lemma all_del: "(\<And>k v. get m k = Some v \<Longrightarrow> P v) \<Longrightarrow> get (del k m) k' = Some v \<Longrightarrow> P v"
  by (auto simp: get_del split: if_splits)

lemma all_upd:
  "(\<And>k v. get m k = Some v \<Longrightarrow> P (f v)) \<Longrightarrow> get (upd f m) k' = Some v \<Longrightarrow> P v"
  by (auto simp: get_upd)

end


section \<open>Lists of pairs with strictly increasing keys\<close>

type_synonym ('k, 'v) btree = "('k \<times> 'v) list"

definition bt_get :: "('k, 'v) btree \<Rightarrow> 'k \<Rightarrow> 'v option" where
  "bt_get m k = map_of m k"

fun bt_insert :: "'k::linorder \<Rightarrow> 'v \<Rightarrow> ('k, 'v) btree \<Rightarrow> ('k, 'v) btree" where
  "bt_insert k v [] = [(k, v)]"
| "bt_insert k v ((k', v') # m) =
     (if k < k' then (k, v) # (k', v') # m
      else if k = k' then (k, v) # m
      else (k', v') # bt_insert k v m)"

definition bt_remove :: "'k \<Rightarrow> ('k, 'v) btree \<Rightarrow> ('k, 'v) btree" where
  "bt_remove k m = filter (\<lambda>(k', _). k' \<noteq> k) m"

definition bt_retain :: "('v \<Rightarrow> bool) \<Rightarrow> ('k, 'v) btree \<Rightarrow> ('k, 'v) btree" where
  "bt_retain p m = filter (\<lambda>(_, v). p v) m"

definition bt_map :: "('v \<Rightarrow> 'w) \<Rightarrow> ('k, 'v) btree \<Rightarrow> ('k, 'w) btree" where
  "bt_map f m = map (\<lambda>(k, v). (k, f v)) m"

definition bt_values :: "('k, 'v) btree \<Rightarrow> 'v list" where
  "bt_values m = map snd m"

definition bt_ok :: "('k::linorder, 'v) btree \<Rightarrow> bool" where
  "bt_ok m \<longleftrightarrow> sorted_wrt (<) (map fst m)"

lemma bt_get_Nil [simp]: "bt_get [] k = None"
  by (simp add: bt_get_def)

lemma bt_get_Cons [simp]: "bt_get ((k', v) # m) k = (if k = k' then Some v else bt_get m k)"
  by (auto simp: bt_get_def)

lemma bt_ok_Nil [simp]: "bt_ok []"
  by (simp add: bt_ok_def)

lemma bt_ok_Cons [simp]: "bt_ok ((k, v) # m) \<longleftrightarrow> (\<forall>k'\<in>fst ` set m. k < k') \<and> bt_ok m"
  by (auto simp: bt_ok_def)

lemma bt_keys_insert: "fst ` set (bt_insert k v m) = insert k (fst ` set m)"
  by (induction k v m rule: bt_insert.induct) auto

lemma bt_ok_insert: "bt_ok m \<Longrightarrow> bt_ok (bt_insert k v m)"
  by (induction k v m rule: bt_insert.induct) (auto simp: bt_keys_insert)

lemma bt_get_insert: "bt_get (bt_insert k v m) = (bt_get m)(k := Some v)"
  by (rule ext, induction k v m rule: bt_insert.induct) (auto split: if_splits)

lemma bt_get_notin: "k \<notin> fst ` set m \<Longrightarrow> bt_get m k = None"
  by (simp add: bt_get_def map_of_eq_None_iff)

lemma bt_get_mem: "bt_get m k = Some v \<Longrightarrow> (k, v) \<in> set m"
  by (simp add: bt_get_def map_of_SomeD)

lemma bt_ok_distinct: "bt_ok m \<Longrightarrow> distinct (map fst m)"
  unfolding bt_ok_def by (induction m) auto

lemma bt_mem_get: "bt_ok m \<Longrightarrow> (k, v) \<in> set m \<Longrightarrow> bt_get m k = Some v"
  by (simp add: bt_get_def map_of_is_SomeI bt_ok_distinct)

lemma bt_get_iff: "bt_ok m \<Longrightarrow> bt_get m k = Some v \<longleftrightarrow> (k, v) \<in> set m"
  using bt_get_mem bt_mem_get by metis

lemma bt_remove_simps [simp]:
  "bt_remove k [] = []"
  "bt_remove k ((k', v) # m) = (if k' = k then bt_remove k m else (k', v) # bt_remove k m)"
  by (simp_all add: bt_remove_def)

lemma bt_get_remove: "bt_get (bt_remove k m) = (bt_get m)(k := None)"
  by (rule ext, induction m) (auto split: if_splits)

lemma sorted_wrt_map_filter: "sorted_wrt P (map f m) \<Longrightarrow> sorted_wrt P (map f (filter q m))"
  by (induction m) auto

lemma bt_ok_remove: "bt_ok m \<Longrightarrow> bt_ok (bt_remove k m)"
  by (simp add: bt_ok_def bt_remove_def sorted_wrt_map_filter)

lemma bt_ok_retain: "bt_ok m \<Longrightarrow> bt_ok (bt_retain p m)"
  by (simp add: bt_ok_def bt_retain_def sorted_wrt_map_filter)

lemma bt_keys_map: "map fst (bt_map f m) = map fst m"
  by (induction m) (auto simp: bt_map_def)

lemma bt_ok_map: "bt_ok (bt_map f m) = bt_ok m"
  by (simp add: bt_ok_def bt_keys_map)

lemma bt_get_map: "bt_get (bt_map f m) k = map_option f (bt_get m k)"
  by (induction m) (auto simp: bt_map_def)

lemma bt_get_retain:
  "bt_ok m \<Longrightarrow> bt_get (bt_retain p m) k = Option.bind (bt_get m k) (\<lambda>v. if p v then Some v else None)"
proof (induction m)
  case (Cons a m)
  obtain k' v where a: "a = (k', v)" by (cases a)
  have "k' \<notin> fst ` set m" using Cons.prems a by auto
  moreover then have "k' \<notin> fst ` set (bt_retain p m)" by (auto simp: bt_retain_def)
  ultimately show ?case
    using Cons a by (auto simp: bt_retain_def bt_get_notin)
qed (simp add: bt_retain_def)

lemma bt_values_get: "bt_ok m \<Longrightarrow> v \<in> set (bt_values m) \<longleftrightarrow> (\<exists>k. bt_get m k = Some v)"
  by (force simp: bt_values_def bt_get_iff)

lemma bt_ext: "bt_ok m \<Longrightarrow> bt_ok m' \<Longrightarrow> bt_get m = bt_get m' \<Longrightarrow> m = m'"
proof -
  assume ok: "bt_ok m" "bt_ok m'" and eq: "bt_get m = bt_get m'"
  have "set m = set m'"
    using bt_get_iff [OF ok(1)] bt_get_iff [OF ok(2)] eq by auto
  moreover have "sorted_wrt (\<lambda>a b. fst a < fst b) m" "sorted_wrt (\<lambda>a b. fst a < fst b) m'"
    using ok by (simp_all add: bt_ok_def sorted_wrt_map)
  ultimately show "m = m'"
  proof (induction m arbitrary: m')
    case (Cons a m)
    then obtain b n where m': "m' = b # n" by (cases m') auto
    have "a = b"
    proof (rule ccontr)
      assume ne: "a \<noteq> b"
      have "a \<in> set n" "b \<in> set m" using Cons.prems(1) m' ne by auto
      then have "fst b < fst a" "fst a < fst b" using Cons.prems(2,3) m' by auto
      then show False by simp
    qed
    moreover have "a \<notin> set m" "b \<notin> set n" using Cons.prems m' by auto
    ultimately have "set m = set n" using Cons.prems(1) m' by auto
    with Cons m' \<open>a = b\<close> show ?case by auto
  qed simp
qed

interpretation bt: ordered_map
  "bt_get :: ('k::linorder, 'v) btree \<Rightarrow> _" bt_insert bt_remove bt_retain bt_map bt_values bt_ok
  by unfold_locales
    (auto simp: bt_get_insert bt_get_remove bt_get_retain bt_get_map bt_values_get bt_ok_insert
      bt_ok_remove bt_ok_retain bt_ok_map intro: bt_ext)

text \<open>\<open>len\<close>.\<close>

lemma bt_length_insert:
  "bt_ok m \<Longrightarrow> length (bt_insert k v m) = (if bt_get m k = None then Suc (length m) else length m)"
proof (induction k v m rule: bt_insert.induct)
  case (2 k v k' v' m)
  have "k < k' \<Longrightarrow> bt_get m k = None"
    using "2.prems" by (intro bt_get_notin) (auto dest: bspec)
  with 2 show ?case by auto
qed simp

lemma bt_length_map [simp]: "length (bt_map f m) = length m"
  by (simp add: bt_map_def)

lemma bt_length_retain: "length (bt_retain p m) \<le> length m"
  by (simp add: bt_retain_def)

end
