(* ===== verification/Persistence.thy ===== *)
theory Persistence
  imports Record_Checks Ordered_Map
begin

text \<open>
  \<open>crates/mecmcp-changeset/src/persistence.rs\<close>: validation of a state file, its migration, the
  choice of the version it is written with, and the atomic replacement of the file.

  A file is its length and what \<open>serde_json\<close> makes of its bytes. The operating system's part is
  an outcome: \<open>readable\<close> says whether \<open>read_hardened_file\<close> accepts the path, \<open>io_outcome\<close> at which
  of its steps a write fails, if it does. The file is replaced by a rename, so a write that fails
  before \<open>SyncDir\<close> leaves the old file and one that fails there has already replaced it.
\<close>

section \<open>Errors and outcomes of the file system\<close>

datatype write_step =
  NoParent | Serialize | CreateTemp | SecureTemp | WriteTemp | SyncTemp | Replace | SyncDir

datatype io_outcome = IoOk | IoFail write_step

datatype persistence_error =
  NotHexId | TooManyRecords
  | InconsistentOperation | OperationFingerprintInvalid digest_error | OperationMetadataMissing
  | InconsistentChangeSet | ChangeSetFingerprintInvalid digest_error
  | ChangeSetDigestInvalid digest_error | InvalidActionCount | BadTargets target_error
  | ChangeSetDigestMismatch | BadPreview preview_error
  | ApprovalDigestInvalid digest_error | ApproverAndWaived | NotKeyed nat | SelfApproval
  | NoKeyForV6 | ApprovalDigestMismatch | UnsupportedDigestVersion nat
  | LegacyPrincipal principal_error | LegacyWaiverKind nat | LegacyWaiverExpiry nat
  | LegacyWaiverTicket nat | LegacyWaiverReason nat
  | SelfApprovalLegacy
  | CouldNotRead | InvalidJson | UnsupportedVersion nat
  | StateTooLarge nat | WriteFailed write_step

datatype stored = Decoded on_disk_changeset_state | Undecodable

record state_file =
  f_len :: nat
  f_content :: stored


section \<open>Validation\<close>

definition validate_operation_id :: "string \<Rightarrow> persistence_error + unit" where
  "validate_operation_id v =
     (if length v = 64 \<and> list_all is_lower_hex v then Inr () else Inl NotHexId)"

definition check_operation_entry ::
  "'z lib_scheme \<Rightarrow> string \<times> operation_record \<Rightarrow> persistence_error + unit" where
  "check_operation_entry L = (\<lambda>(cid, r).
     res_bind (validate_operation_id cid) (\<lambda>_.
     res_bind (require (cid = op_id r \<and> op_owner r \<noteq> [] \<and> op_device r \<noteq> []) InconsistentOperation) (\<lambda>_.
     res_bind (map_err OperationFingerprintInvalid (validate_fingerprint (op_current r))) (\<lambda>_.
     require (url_parse L (op_endpoint r) \<noteq> None \<and> op_actions r \<noteq> []) OperationMetadataMissing))))"

text \<open>The digest an approval by a second person must carry, by file and record version.\<close>

definition expected_approver_digest ::
  "'z lib_scheme \<Rightarrow> nat \<Rightarrow> string option \<Rightarrow> string \<Rightarrow> change_set_record \<Rightarrow> approval_record \<Rightarrow> string \<Rightarrow>
   persistence_error + string" where
  "expected_approver_digest L version key cid r a approver =
     (if 4 \<le> version then
        if ap_digest_version a = 5 then
          Inr (compute_approval_digest_v5 L cid (cs_digest r) (preview_digest_of r) (cs_owner r)
                 approver (ap_approved_at_unix a))
        else if ap_digest_version a = 4 then
          Inr (compute_approval_digest_v4 L cid (cs_digest r) (cs_owner r) approver
                 (ap_approved_at_unix a))
        else if ap_digest_version a = 6 then
          (case key of
             None \<Rightarrow> Inl NoKeyForV6
           | Some k \<Rightarrow>
               if verify_approval_digest_v6 L k cid (cs_digest r) (preview_digest_of r) (cs_owner r)
                    approver (ap_approved_at_unix a) (ap_digest a)
               then Inr (ap_digest a)
               else Inl ApprovalDigestMismatch)
        else Inl (UnsupportedDigestVersion (ap_digest_version a))
      else
        res_bind (map_err LegacyPrincipal (validate_principal_for_digest ''owner'' (cs_owner r))) (\<lambda>_.
        res_bind (map_err LegacyPrincipal (validate_principal_for_digest ''approver'' approver)) (\<lambda>_.
        Inr (compute_approval_digest_legacy L cid (cs_digest r) (cs_owner r) approver
               (ap_approved_at_unix a)))))"

definition expected_waiver_digest ::
  "'z lib_scheme \<Rightarrow> nat \<Rightarrow> string \<Rightarrow> change_set_record \<Rightarrow> approval_record \<Rightarrow> waiver_record \<Rightarrow>
   persistence_error + string" where
  "expected_waiver_digest L version cid r a w =
     (if 3 \<le> version then
        Inr (compute_waiver_digest_v3 L cid (cs_digest r) (cs_owner r) (ap_approved_at_unix a) w)
      else
        res_bind (require (wv_kind w = LabMode) (LegacyWaiverKind version)) (\<lambda>_.
        res_bind (require (wv_expires_at_unix w = None) (LegacyWaiverExpiry version)) (\<lambda>_.
        res_bind (require (wv_ticket w = None) (LegacyWaiverTicket version)) (\<lambda>_.
        res_bind (require (wv_reason w = ''lab-mode'') (LegacyWaiverReason version)) (\<lambda>_.
        res_bind (map_err LegacyPrincipal (validate_principal_for_digest ''owner'' (cs_owner r))) (\<lambda>_.
        Inr (compute_waiver_digest L cid (cs_digest r) (cs_owner r) (ap_approved_at_unix a))))))))"

definition expected_approval_digest ::
  "'z lib_scheme \<Rightarrow> nat \<Rightarrow> string option \<Rightarrow> string \<Rightarrow> change_set_record \<Rightarrow> approval_record \<Rightarrow>
   persistence_error + string" where
  "expected_approval_digest L version key cid r a =
     (case ap_approver a of
        Some approver \<Rightarrow> expected_approver_digest L version key cid r a approver
      | None \<Rightarrow>
         (case ap_waived a of
            Some w \<Rightarrow> expected_waiver_digest L version cid r a w
          | None \<Rightarrow>
              res_bind (map_err LegacyPrincipal (validate_principal_for_digest ''owner'' (cs_owner r)))
                (\<lambda>_. Inr (compute_waiver_digest L cid (cs_digest r) (cs_owner r)
                            (ap_approved_at_unix a)))))"

definition check_approval ::
  "'z lib_scheme \<Rightarrow> nat \<Rightarrow> string option \<Rightarrow> string \<Rightarrow> change_set_record \<Rightarrow> approval_record \<Rightarrow>
   persistence_error + unit" where
  "check_approval L version key cid r a =
     res_bind (map_err ApprovalDigestInvalid (validate_digest (ap_digest a) ''approval_digest'')) (\<lambda>_.
     res_bind (require (\<not> (ap_approver a \<noteq> None \<and> ap_waived a \<noteq> None)) ApproverAndWaived) (\<lambda>_.
     res_bind (require (\<not> (key \<noteq> None \<and> ap_approver a \<noteq> None \<and> ap_digest_version a \<noteq> 6))
                 (NotKeyed (ap_digest_version a))) (\<lambda>_.
     res_bind (require (ap_approver a \<noteq> Some (cs_owner r)) SelfApproval) (\<lambda>_.
     res_bind (expected_approval_digest L version key cid r a) (\<lambda>expected.
     require (expected = ap_digest a) ApprovalDigestMismatch)))))"

text \<open>\<open>usize::MAX\<close> as the ceiling of targets and preview: no list or string exceeds it.\<close>

definition usize_max :: nat where
  "usize_max = u64_max"

definition check_change_set_entry ::
  "'z lib_scheme \<Rightarrow> nat \<Rightarrow> string option \<Rightarrow> string \<times> change_set_record \<Rightarrow> persistence_error + unit"
where
  "check_change_set_entry L version key = (\<lambda>(cid, r).
     res_bind (validate_operation_id cid) (\<lambda>_.
     res_bind (require (cid = cs_id r \<and> cs_owner r \<noteq> [] \<and> cs_device r \<noteq> []) InconsistentChangeSet) (\<lambda>_.
     res_bind (map_err ChangeSetFingerprintInvalid
                 (validate_fingerprint (cs_expected_candidate_fingerprint r))) (\<lambda>_.
     res_bind (map_err ChangeSetDigestInvalid (validate_digest (cs_digest r) ''digest'')) (\<lambda>_.
     res_bind (require (cs_actions r \<noteq> [] \<and> length (cs_actions r) \<le> 64) InvalidActionCount) (\<lambda>_.
     res_bind (map_err BadTargets (validate_target_set r usize_max)) (\<lambda>_.
     res_bind (require (change_set_digest_with_targets L (cs_owner r) (cs_device r)
                  (cs_expected_candidate_fingerprint r) (cs_actions r) (cs_targets r) = cs_digest r)
                 ChangeSetDigestMismatch) (\<lambda>_.
     res_bind (map_err BadPreview (validate_preview L r usize_max)) (\<lambda>_.
     res_bind (case cs_approval r of None \<Rightarrow> Inr () | Some a \<Rightarrow> check_approval L version key cid r a) (\<lambda>_.
     require (cs_approver r \<noteq> Some (cs_owner r)) SelfApprovalLegacy))))))))))"

definition validate_state_with_key ::
  "'z lib_scheme \<Rightarrow> changeset_state \<Rightarrow> nat \<Rightarrow> string option \<Rightarrow> persistence_error + unit" where
  "validate_state_with_key L st version key =
     res_bind (require (length (st_operations st) \<le> 1024 \<and> length (st_change_sets st) \<le> 1024)
                 TooManyRecords) (\<lambda>_.
     res_bind (check_all (check_operation_entry L) (st_operations st)) (\<lambda>_.
     check_all (check_change_set_entry L version key) (st_change_sets st)))"


section \<open>Reading and migrating\<close>

definition migrate_waiver :: "'z lib_scheme \<Rightarrow> change_set_record \<Rightarrow> change_set_record" where
  "migrate_waiver L r =
     (case cs_approval r of
        None \<Rightarrow> r
      | Some a \<Rightarrow>
         (case ap_waived a of
            None \<Rightarrow> r
          | Some w \<Rightarrow> r\<lparr>cs_approval := Some (a\<lparr>ap_digest :=
              compute_waiver_digest_v3 L (cs_id r) (cs_digest r) (cs_owner r)
                (ap_approved_at_unix a) w\<rparr>)\<rparr>))"

definition migrate_approval :: "'z lib_scheme \<Rightarrow> change_set_record \<Rightarrow> change_set_record" where
  "migrate_approval L r =
     (case cs_approval r of
        None \<Rightarrow> r
      | Some a \<Rightarrow>
         (case ap_approver a of
            None \<Rightarrow> r
          | Some approver \<Rightarrow> r\<lparr>cs_approval := Some (a\<lparr>ap_digest :=
              compute_approval_digest_v4 L (cs_id r) (cs_digest r) (cs_owner r) approver
                (ap_approved_at_unix a), ap_digest_version := 4\<rparr>)\<rparr>))"

definition migrate :: "'z lib_scheme \<Rightarrow> nat \<Rightarrow> changeset_state \<Rightarrow> changeset_state" where
  "migrate L version st =
     (let st = (if version < 3 then st\<lparr>st_change_sets := bt_map (migrate_waiver L) (st_change_sets st)\<rparr>
                else st)
      in (if version < 4 then st\<lparr>st_change_sets := bt_map (migrate_approval L) (st_change_sets st)\<rparr>
          else st))"

definition read_state_with_key ::
  "'z lib_scheme \<Rightarrow> bool \<Rightarrow> state_file option \<Rightarrow> nat \<Rightarrow> string option \<Rightarrow> persistence_error + changeset_state"
where
  "read_state_with_key L readable disk max_bytes key =
     (case disk of
        None \<Rightarrow> Inl CouldNotRead
      | Some f \<Rightarrow>
          if \<not> readable \<or> max_bytes < f_len f then Inl CouldNotRead
          else case f_content f of
            Undecodable \<Rightarrow> Inl InvalidJson
          | Decoded d \<Rightarrow>
              if \<not> (1 \<le> od_version d \<and> od_version d \<le> 7) then Inl (UnsupportedVersion (od_version d))
              else res_bind (validate_state_with_key L (od_state d) (od_version d) key) (\<lambda>_.
                Inr (migrate L (od_version d) (od_state d))))"

definition read_state ::
  "'z lib_scheme \<Rightarrow> bool \<Rightarrow> state_file option \<Rightarrow> nat \<Rightarrow> persistence_error + changeset_state" where
  "read_state L readable disk max_bytes = read_state_with_key L readable disk max_bytes None"


section \<open>Writing\<close>

definition drop_empty_task :: "change_set_record \<Rightarrow> change_set_record" where
  "drop_empty_task r = (if cs_task_id r = Some [] then r\<lparr>cs_task_id := None\<rparr> else r)"

definition normalise_task_ids :: "changeset_state \<Rightarrow> changeset_state" where
  "normalise_task_ids st =
     (if \<exists>r\<in>set (bt_values (st_change_sets st)). cs_task_id r = Some [] then
        st\<lparr>st_change_sets := bt_map drop_empty_task (st_change_sets st)\<rparr>
      else st)"

definition operations_need_v2 :: "changeset_state \<Rightarrow> bool" where
  "operations_need_v2 st \<longleftrightarrow> (\<exists>r\<in>set (bt_values (st_operations st)).
     op_attribution r \<noteq> None \<or> op_rollback_deadline_unix r \<noteq> None)"

definition change_sets_need_v2 :: "changeset_state \<Rightarrow> bool" where
  "change_sets_need_v2 st \<longleftrightarrow> (\<exists>r\<in>set (bt_values (st_change_sets st)).
     cs_policy_signature r \<noteq> [] \<or> cs_targets r \<noteq> [] \<or> cs_preview r \<noteq> None \<or> cs_task_id r \<noteq> None)"

definition endpoints_need_v2 :: "changeset_state \<Rightarrow> bool" where
  "endpoints_need_v2 st \<longleftrightarrow>
     (\<exists>r\<in>set (bt_values (st_operations st)). \<not> starts_with ''https://'' (op_endpoint r))"

definition approval_any :: "(approval_record \<Rightarrow> bool) \<Rightarrow> changeset_state \<Rightarrow> bool" where
  "approval_any P st \<longleftrightarrow> (\<exists>r\<in>set (bt_values (st_change_sets st)).
     case cs_approval r of None \<Rightarrow> False | Some a \<Rightarrow> P a)"

definition select_version :: "changeset_state \<Rightarrow> nat" where
  "select_version st =
     (if approval_any (\<lambda>a. 6 \<le> ap_digest_version a) st then 7
      else if approval_any (\<lambda>a. 5 \<le> ap_digest_version a) st then 6
      else if \<exists>r\<in>set (bt_values (st_change_sets st)). cs_apply_without_handle r then 5
      else if approval_any (\<lambda>a. ap_approver a \<noteq> None) st then 4
      else if approval_any (\<lambda>a. ap_waived a \<noteq> None) st then 3
      else if operations_need_v2 st \<or> change_sets_need_v2 st \<or> endpoints_need_v2 st then 2
      else 1)"

definition on_disk_of :: "changeset_state \<Rightarrow> on_disk_changeset_state" where
  "on_disk_of st =
     (let st' = normalise_task_ids st in \<lparr>od_version = select_version st', od_state = st'\<rparr>)"

definition file_of :: "'z lib_scheme \<Rightarrow> changeset_state \<Rightarrow> state_file" where
  "file_of L st = \<lparr>f_len = ser_len L (on_disk_of st), f_content = Decoded (on_disk_of st)\<rparr>"

definition write_state ::
  "'z lib_scheme \<Rightarrow> io_outcome \<Rightarrow> changeset_state \<Rightarrow> nat \<Rightarrow> state_file option \<Rightarrow>
   (persistence_error + unit) \<times> state_file option" where
  "write_state L io st max_bytes disk =
     (if io = IoFail NoParent then (Inl (WriteFailed NoParent), disk)
      else if io = IoFail Serialize then (Inl (WriteFailed Serialize), disk)
      else if max_bytes < ser_len L (on_disk_of st) then (Inl (StateTooLarge max_bytes), disk)
      else case io of
        IoOk \<Rightarrow> (Inr (), Some (file_of L st))
      | IoFail step \<Rightarrow>
          (Inl (WriteFailed step), if step = SyncDir then Some (file_of L st) else disk))"


section \<open>Acceptance, check by check\<close>

definition sha256_len :: "'z lib_scheme \<Rightarrow> bool" where
  "sha256_len L \<longleftrightarrow> (\<forall>x. length (sha256 L x) = 32)"

lemma validate_operation_id_iff: "validate_operation_id v = Inr u \<longleftrightarrow> hex64 v"
  by (simp add: validate_operation_id_def hex64_def)

text \<open>The part of the check of a change set that does not look at its approval.\<close>

definition plan_sound :: "'z lib_scheme \<Rightarrow> string \<Rightarrow> change_set_record \<Rightarrow> bool" where
  "plan_sound L cid r \<longleftrightarrow>
     hex64 cid \<and> cid = cs_id r \<and> cs_owner r \<noteq> [] \<and> cs_device r \<noteq> [] \<and>
     sha256_tagged (cs_expected_candidate_fingerprint r) \<and> sha256_tagged (cs_digest r) \<and>
     cs_actions r \<noteq> [] \<and> length (cs_actions r) \<le> 64 \<and>
     validate_target_set r usize_max = Inr () \<and>
     change_set_digest_with_targets L (cs_owner r) (cs_device r)
       (cs_expected_candidate_fingerprint r) (cs_actions r) (cs_targets r) = cs_digest r \<and>
     validate_preview L r usize_max = Inr () \<and>
     cs_approver r \<noteq> Some (cs_owner r)"

lemma check_change_set_entry_iff:
  "check_change_set_entry L v key (cid, r) = Inr u \<longleftrightarrow>
     plan_sound L cid r \<and>
     (\<forall>a. cs_approval r = Some a \<longrightarrow> check_approval L v key cid r a = Inr ())"
  by (cases "cs_approval r")
    (auto simp: check_change_set_entry_def plan_sound_def res_iffs validate_operation_id_iff
      validate_fingerprint_iff validate_digest_iff)

lemma check_approval_iff:
  "check_approval L v key cid r a = Inr u \<longleftrightarrow>
     sha256_tagged (ap_digest a) \<and> (ap_approver a = None \<or> ap_waived a = None) \<and>
     (key = None \<or> ap_approver a = None \<or> ap_digest_version a = 6) \<and>
     ap_approver a \<noteq> Some (cs_owner r) \<and>
     expected_approval_digest L v key cid r a = Inr (ap_digest a)"
  by (auto simp: check_approval_def res_iffs validate_digest_iff)

lemma validate_state_iff:
  "validate_state_with_key L st v key = Inr u \<longleftrightarrow>
     length (st_operations st) \<le> 1024 \<and> length (st_change_sets st) \<le> 1024 \<and>
     (\<forall>e\<in>set (st_operations st). check_operation_entry L e = Inr ()) \<and>
     (\<forall>(cid, r)\<in>set (st_change_sets st). check_change_set_entry L v key (cid, r) = Inr ())"
  by (auto simp: validate_state_with_key_def res_iffs)


section \<open>The version a file is written with is one its records verify under\<close>

text \<open>The least file version under which an approval is checked by its own, newest, rule.\<close>

definition approval_needs :: "approval_record \<Rightarrow> nat" where
  "approval_needs a = (if ap_approver a \<noteq> None then 4 else if ap_waived a \<noteq> None then 3 else 0)"

lemma check_approval_version:
  "approval_needs a \<le> v \<Longrightarrow> approval_needs a \<le> w \<Longrightarrow>
    check_approval L v key cid r a = check_approval L w key cid r a"
  by (auto simp: check_approval_def expected_approval_digest_def expected_approver_digest_def
      expected_waiver_digest_def approval_needs_def split: option.splits if_splits)

lemma approval_any_mem:
  "(cid, r) \<in> set (st_change_sets st) \<Longrightarrow> cs_approval r = Some a \<Longrightarrow> P a \<Longrightarrow> approval_any P st"
  unfolding approval_any_def bt_values_def by (force split: option.split)

lemma select_version_needs:
  assumes "(cid, r) \<in> set (st_change_sets st)" "cs_approval r = Some a"
  shows "approval_needs a \<le> select_version st"
  using approval_any_mem [OF assms, of "\<lambda>a. ap_approver a \<noteq> None"]
    approval_any_mem [OF assms, of "\<lambda>a. ap_waived a \<noteq> None"]
  by (auto simp: approval_needs_def select_version_def)

lemma select_version_range: "1 \<le> select_version st \<and> select_version st \<le> 7"
  by (simp add: select_version_def)

lemma migrate_waiver_id: "(\<forall>a. cs_approval r = Some a \<longrightarrow> ap_waived a = None) \<Longrightarrow> migrate_waiver L r = r"
  by (auto simp: migrate_waiver_def split: option.split)

lemma migrate_approval_id:
  "(\<forall>a. cs_approval r = Some a \<longrightarrow> ap_approver a = None) \<Longrightarrow> migrate_approval L r = r"
  by (auto simp: migrate_approval_def split: option.split)

lemma bt_map_id: "(\<And>k v. (k, v) \<in> set m \<Longrightarrow> f v = v) \<Longrightarrow> bt_map f m = m"
  by (induction m) (auto simp: bt_map_def)

lemma migrate_select: "migrate L (select_version st) st = st"
proof -
  have w: "bt_map (migrate_waiver L) (st_change_sets st) = st_change_sets st"
    if "select_version st < 3"
    by (rule bt_map_id, rule migrate_waiver_id)
      (use that in \<open>force dest!: select_version_needs simp: approval_needs_def split: if_splits\<close>)
  have a: "bt_map (migrate_approval L) (st_change_sets st) = st_change_sets st"
    if "select_version st < 4"
    by (rule bt_map_id, rule migrate_approval_id)
      (use that in \<open>force dest!: select_version_needs simp: approval_needs_def split: if_splits\<close>)
  show ?thesis by (simp add: migrate_def Let_def w a)
qed

end
