(* ===== verification/Persistence_Facts.thy ===== *)
theory Persistence_Facts
  imports Persistence
begin

text \<open>
  What reading and writing do together: a state that verifies is read back as it was written, a
  file that was read is written as a file that reads, and what an accepted file proves about the
  approvals in it, with and without an approval digest key.
\<close>

section \<open>States that verify under the version they are written with\<close>

definition valid_state :: "'z lib_scheme \<Rightarrow> string option \<Rightarrow> changeset_state \<Rightarrow> bool" where
  "valid_state L key st \<longleftrightarrow> validate_state_with_key L st (select_version st) key = Inr ()"

lemma valid_state_iff:
  "valid_state L key st \<longleftrightarrow>
     length (st_operations st) \<le> 1024 \<and> length (st_change_sets st) \<le> 1024 \<and>
     (\<forall>e\<in>set (st_operations st). check_operation_entry L e = Inr ()) \<and>
     (\<forall>(cid, r)\<in>set (st_change_sets st). check_change_set_entry L 7 key (cid, r) = Inr ())"
proof -
  have "check_change_set_entry L (select_version st) key (cid, r) =
      check_change_set_entry L 7 key (cid, r)" if "(cid, r) \<in> set (st_change_sets st)" for cid r
  proof (cases "cs_approval r")
    case (Some a)
    have "approval_needs a \<le> 7" by (simp add: approval_needs_def)
    then show ?thesis
      using check_approval_version [OF select_version_needs [OF that Some], of 7 L key cid r] Some
      by (simp add: check_change_set_entry_def)
  qed (simp add: check_change_set_entry_def)
  then show ?thesis
    unfolding valid_state_def validate_state_iff by auto
qed

lemma plan_sound_cong:
  assumes "cs_id r' = cs_id r" "cs_owner r' = cs_owner r" "cs_device r' = cs_device r"
    "cs_expected_candidate_fingerprint r' = cs_expected_candidate_fingerprint r"
    "cs_digest r' = cs_digest r" "cs_actions r' = cs_actions r" "cs_targets r' = cs_targets r"
    "cs_preview r' = cs_preview r" "cs_approver r' = cs_approver r"
  shows "plan_sound L cid r' \<longleftrightarrow> plan_sound L cid r"
  unfolding plan_sound_def validate_target_set_iff validate_preview_iff assms ..

lemma check_approval_cong:
  assumes "cs_owner r' = cs_owner r" "cs_digest r' = cs_digest r" "cs_preview r' = cs_preview r"
  shows "check_approval L v key cid r' a = check_approval L v key cid r a"
  unfolding check_approval_def expected_approval_digest_def expected_approver_digest_def
    expected_waiver_digest_def preview_digest_of_def assms ..

lemma entry_cong:
  assumes "cs_id r' = cs_id r" "cs_owner r' = cs_owner r" "cs_device r' = cs_device r"
    "cs_expected_candidate_fingerprint r' = cs_expected_candidate_fingerprint r"
    "cs_digest r' = cs_digest r" "cs_actions r' = cs_actions r" "cs_targets r' = cs_targets r"
    "cs_preview r' = cs_preview r" "cs_approver r' = cs_approver r" "cs_approval r' = cs_approval r"
  shows "check_change_set_entry L v key (cid, r') = Inr () \<longleftrightarrow>
    check_change_set_entry L v key (cid, r) = Inr ()"
  unfolding check_change_set_entry_iff assms(10) plan_sound_cong [OF assms(1-9)]
    check_approval_cong [OF assms(2,5,8)] ..

lemma entry_drop_empty_task:
  "check_change_set_entry L v key (cid, drop_empty_task r) = Inr () \<longleftrightarrow>
    check_change_set_entry L v key (cid, r) = Inr ()"
  by (rule entry_cong) (simp_all add: drop_empty_task_def)

lemma set_bt_map: "set (bt_map f m) = (\<lambda>(k, v). (k, f v)) ` set m"
  by (auto simp: bt_map_def)

lemma valid_normalise: "valid_state L key (normalise_task_ids st) \<longleftrightarrow> valid_state L key st"
  by (auto simp: valid_state_iff normalise_task_ids_def set_bt_map entry_drop_empty_task)

lemma normalise_idem: "normalise_task_ids (normalise_task_ids st) = normalise_task_ids st"
proof -
  have no: "cs_task_id (drop_empty_task r) \<noteq> Some []" for r
    by (simp add: drop_empty_task_def)
  show ?thesis
    by (cases "\<exists>r\<in>set (bt_values (st_change_sets st)). cs_task_id r = Some []")
      (auto simp: normalise_task_ids_def bt_values_def bt_map_def no)
qed

lemma write_state_InrD:
  "write_state L io st m disk = (Inr u, disk') \<Longrightarrow>
    io = IoOk \<and> disk' = Some (file_of L st) \<and> ser_len L (on_disk_of st) \<le> m"
  by (auto simp: write_state_def split: if_splits io_outcome.splits)

lemma write_state_disk:
  "write_state L io st m disk = (x, disk') \<Longrightarrow>
    disk' = disk \<or> (disk' = Some (file_of L st) \<and> ser_len L (on_disk_of st) \<le> m)"
  by (auto simp: write_state_def split: if_splits io_outcome.splits)

lemma read_file_of:
  assumes "ser_len L (on_disk_of st) \<le> m" "valid_state L key st"
  shows "read_state_with_key L True (Some (file_of L st)) m key = Inr (normalise_task_ids st)"
proof -
  have "validate_state_with_key L (normalise_task_ids st)
      (select_version (normalise_task_ids st)) key = Inr ()"
    using assms(2) valid_normalise valid_state_def by blast
  then show ?thesis
    using assms(1) select_version_range [of "normalise_task_ids st"]
    by (simp add: read_state_with_key_def file_of_def on_disk_of_def Let_def migrate_select)
qed


section \<open>Migration\<close>

text \<open>A record accepted under an old rule is, once re-signed, accepted under the newest one.\<close>

lemma tagged_v3: "sha256_len L \<Longrightarrow> sha256_tagged (compute_waiver_digest_v3 L a b c d e)"
  unfolding compute_waiver_digest_v3_def digest_hex_def sha256_len_def by (rule tagged_if_32) simp

lemma tagged_v4: "sha256_len L \<Longrightarrow> sha256_tagged (compute_approval_digest_v4 L a b c d e)"
  unfolding compute_approval_digest_v4_def digest_hex_def sha256_len_def by (rule tagged_if_32) simp

definition migrate_record :: "'z lib_scheme \<Rightarrow> nat \<Rightarrow> change_set_record \<Rightarrow> change_set_record" where
  "migrate_record L v r =
     (let r = (if v < 3 then migrate_waiver L r else r)
      in if v < 4 then migrate_approval L r else r)"

lemma migrate_eq:
  "migrate L v st = st\<lparr>st_change_sets := bt_map (migrate_record L v) (st_change_sets st)\<rparr>"
  by (auto simp: migrate_def migrate_record_def Let_def bt_map_def
      intro!: changeset_state.fold_congs map_cong)

lemma migrate_record_plan:
  "cs_approval (migrate_record L v r) = None \<longleftrightarrow> cs_approval r = None"
  "plan_sound L cid (migrate_record L v r) \<longleftrightarrow> plan_sound L cid r"
  by (simp add: migrate_record_def Let_def migrate_waiver_def migrate_approval_def split: option.split)
    (rule plan_sound_cong;
     simp add: migrate_record_def Let_def migrate_waiver_def migrate_approval_def split: option.split)

definition keyed_ok :: "string option \<Rightarrow> nat \<Rightarrow> change_set_record \<Rightarrow> bool" where
  "keyed_ok key v r \<longleftrightarrow>
     key = None \<or> 4 \<le> v \<or> (\<forall>a. cs_approval r = Some a \<longrightarrow> ap_approver a = None)"

lemma migrate_record_accepted:
  assumes "sha256_len L" "keyed_ok key v r" "check_change_set_entry L v key (cid, r) = Inr ()"
  shows "check_change_set_entry L 7 key (cid, migrate_record L v r) = Inr ()"
proof (cases "cs_approval r")
  case None
  then show ?thesis
    using assms(3) migrate_record_plan(1) [of L v r] migrate_record_plan(2) [of L cid v r]
    by (simp add: check_change_set_entry_iff)
next
  case (Some a)
  have plan: "plan_sound L cid r" and chk: "check_approval L v key cid r a = Inr ()"
    using assms(3) Some by (auto simp: check_change_set_entry_iff)
  have cid: "cs_id r = cid" using plan by (simp add: plan_sound_def)
  have "check_approval L 7 key cid (migrate_record L v r) (the (cs_approval (migrate_record L v r)))
      = Inr ()"
  proof (cases "approval_needs a \<le> v")
    case True
    then have "migrate_record L v r = r"
      using Some by (auto simp: migrate_record_def Let_def migrate_waiver_def migrate_approval_def
          approval_needs_def split: if_splits option.splits)
    moreover have "approval_needs a \<le> 7" by (simp add: approval_needs_def)
    ultimately show ?thesis
      using chk Some check_approval_version [OF True, of 7 L key cid r] by simp
  next
    case False
    then show ?thesis
    proof (cases "ap_approver a")
      case None
      then show ?thesis
        using False chk Some cid tagged_v3 [OF assms(1)]
        by (auto simp: check_approval_iff migrate_record_def Let_def migrate_waiver_def
            migrate_approval_def approval_needs_def expected_approval_digest_def
            expected_waiver_digest_def split: if_splits)
    next
      case (Some p)
      then show ?thesis
        using False chk \<open>cs_approval r = Some a\<close> cid tagged_v4 [OF assms(1)] assms(2)
        by (auto simp: check_approval_iff migrate_record_def Let_def migrate_waiver_def
            migrate_approval_def approval_needs_def expected_approval_digest_def
            expected_approver_digest_def keyed_ok_def split: if_splits)
    qed
  qed
  moreover obtain b where "cs_approval (migrate_record L v r) = Some b"
    using migrate_record_plan(1) [of L v r] Some by auto
  ultimately show ?thesis
    using plan migrate_record_plan(2) [of L cid v r]
    by (simp add: check_change_set_entry_iff)
qed

lemma read_state_InrD:
  assumes "read_state_with_key L rd disk m key = Inr st"
  obtains f d where "disk = Some f" "f_content f = Decoded d" "rd" "f_len f \<le> m"
    "1 \<le> od_version d" "od_version d \<le> 7"
    "validate_state_with_key L (od_state d) (od_version d) key = Inr ()"
    "st = migrate L (od_version d) (od_state d)"
  using assms
  by (auto simp: read_state_with_key_def res_iffs split: option.splits if_splits stored.splits)

lemma read_state_valid:
  assumes "sha256_len L"
    and "read_state_with_key L rd (Some f) m key = Inr st" "f_content f = Decoded d"
    and "\<forall>(cid, r)\<in>set (st_change_sets (od_state d)). keyed_ok key (od_version d) r"
  shows "valid_state L key st"
proof -
  have v: "validate_state_with_key L (od_state d) (od_version d) key = Inr ()"
    and st: "st = migrate L (od_version d) (od_state d)"
    by (rule read_state_InrD [OF assms(2)]; use assms(3) in simp)+
  then show ?thesis
    using assms(1,4) unfolding valid_state_iff st migrate_eq validate_state_iff
    by (auto simp: set_bt_map intro!: migrate_record_accepted)
qed


section \<open>What an accepted approval proves\<close>

lemma keyed_entry:
  assumes "check_change_set_entry L v (Some k) (cid, r) = Inr ()" "4 \<le> v"
    and "cs_approval r = Some a" "ap_approver a = Some p"
  shows "ap_digest a = compute_approval_digest_v6 L k cid (cs_digest r) (preview_digest_of r)
      (cs_owner r) p (ap_approved_at_unix a)"
    and "p \<noteq> cs_owner r" and "plan_sound L cid r"
  using assms
  by (auto simp: check_change_set_entry_iff check_approval_iff expected_approval_digest_def
      expected_approver_digest_def verify_approval_digest_v6_def split: if_splits)

lemma plan_sound_digest:
  "plan_sound L cid r \<Longrightarrow> cs_digest r =
    change_set_digest_with_targets L (cs_owner r) (cs_device r)
      (cs_expected_candidate_fingerprint r) (cs_actions r) (cs_targets r)"
  by (simp add: plan_sound_def)

lemma plan_sound_preview:
  "plan_sound L cid r \<Longrightarrow> cs_preview r = Some p \<Longrightarrow> pv_digest p = preview_digest L (pv_artifact p)"
  by (simp add: plan_sound_def validate_preview_iff)

text \<open>Every accepted record has its approval by someone other than its owner, if by anyone.\<close>

lemma entry_two_person:
  assumes "check_change_set_entry L v key (cid, r) = Inr ()"
  shows "cs_approver r \<noteq> Some (cs_owner r)"
    and "cs_approval r = Some a \<Longrightarrow> ap_approver a \<noteq> Some (cs_owner r)"
    and "cs_id r = cid"
  using assms by (auto simp: check_change_set_entry_iff check_approval_iff plan_sound_def)

lemma migrate_record_fields [simp]:
  "cs_id (migrate_record L v r) = cs_id r" "cs_owner (migrate_record L v r) = cs_owner r"
  "cs_device (migrate_record L v r) = cs_device r" "cs_digest (migrate_record L v r) = cs_digest r"
  "cs_state (migrate_record L v r) = cs_state r" "cs_approver (migrate_record L v r) = cs_approver r"
  "cs_preview (migrate_record L v r) = cs_preview r"
  "cs_actions (migrate_record L v r) = cs_actions r"
  "cs_task_id (migrate_record L v r) = cs_task_id r"
  "cs_apply_without_handle (migrate_record L v r) = cs_apply_without_handle r"
  by (simp_all add: migrate_record_def Let_def migrate_waiver_def migrate_approval_def
      split: option.split)

lemma migrate_record_approver:
  "map_option ap_approver (cs_approval (migrate_record L v r)) = map_option ap_approver (cs_approval r)"
  by (simp add: migrate_record_def Let_def migrate_waiver_def migrate_approval_def
      split: option.split)


section \<open>An approval forged without the key\<close>

text \<open>
  What someone who can write the state file but does not hold the key can compute: the approval
  of any plan by any name, under the unkeyed legacy digest and labelled as keyed.
\<close>

definition forge_approval ::
  "'z lib_scheme \<Rightarrow> change_set_record \<Rightarrow> string \<Rightarrow> nat \<Rightarrow> change_set_record" where
  "forge_approval L r approver at = r\<lparr>cs_state := Approved, cs_approver := Some approver,
     cs_approval := Some \<lparr>ap_approver = Some approver, ap_approved_at_unix = at,
       ap_digest = compute_approval_digest_legacy L (cs_id r) (cs_digest r) (cs_owner r) approver at,
       ap_digest_version = 6, ap_waived = None\<rparr>\<rparr>"

definition forged_file ::
  "'z lib_scheme \<Rightarrow> nat \<Rightarrow> change_set_record \<Rightarrow> string \<Rightarrow> nat \<Rightarrow> state_file" where
  "forged_file L len r approver at = \<lparr>f_len = len, f_content = Decoded \<lparr>od_version = 3,
     od_state = \<lparr>st_operations = [], st_change_sets = [(cs_id r, forge_approval L r approver at)]\<rparr>\<rparr>\<rparr>"

lemma tagged_legacy: "sha256_len L \<Longrightarrow> sha256_tagged (compute_approval_digest_legacy L a b c d e)"
  unfolding compute_approval_digest_legacy_def sha256_len_def by (rule tagged_if_32) simp

lemma forge_accepted:
  assumes "sha256_len L" "plan_sound L (cs_id r) r" "approver \<noteq> cs_owner r"
    and "CHR ''|'' \<notin> set approver" "CHR ''|'' \<notin> set (cs_owner r)" "v < 4"
  shows "check_change_set_entry L v key (cs_id r, forge_approval L r approver at) = Inr ()"
proof -
  have "plan_sound L (cs_id r) (forge_approval L r approver at)"
    using assms(2,3) unfolding plan_sound_def validate_target_set_iff validate_preview_iff
    by (auto simp: forge_approval_def)
  then show ?thesis
    using assms tagged_legacy [OF assms(1)]
    by (simp add: check_change_set_entry_iff check_approval_iff forge_approval_def
        expected_approval_digest_def expected_approver_digest_def validate_principal_for_digest_def
        map_err_def)
qed

end
