(* ===== verification/Sample_Inputs.thy ===== *)
theory Sample_Inputs
  imports Persistence
begin

text \<open>
  Concrete inputs on which the properties are exercised: an instance of the third-party
  functions (a JSON printer, a truncation to 32 bytes in place of the hash, a URL splitter for
  the one shape of endpoint used here) and one change set with its records.
\<close>

fun json_text :: "json \<Rightarrow> string" where
  "json_text JNull = ''null''"
| "json_text (JBool b) = (if b then ''true'' else ''false'')"
| "json_text (JNum n) = n"
| "json_text (JStr s) = CHR 0x22 # s @ [CHR 0x22]"
| "json_text (JArr xs) = ''['' @ concat (map (\<lambda>x. json_text x @ '','') xs) @ '']''"
| "json_text (JObj kvs) =
     ''{'' @ concat (map (\<lambda>(k, v). CHR 0x22 # k @ [CHR 0x22] @ '':'' @ json_text v @ '','') kvs) @ ''}''"

definition sample_url :: "string \<Rightarrow> url option" where
  "sample_url s = map_option (\<lambda>host. \<lparr>url_scheme = ''https'', url_host = Some host,
     url_port = None, url_path = ''/''\<rparr>) (strip_prefix ''https://'' s)"

definition sample_lib :: lib where
  "sample_lib = \<lparr>sha256 = (\<lambda>x. take 32 (x @ replicate 32 (CHR ''0''))),
     hmac_sha256 = (\<lambda>k x. take 32 (k @ x @ replicate 32 (CHR ''0''))),
     to_vec = json_text, url_parse = sample_url,
     ser_len = (\<lambda>d. length (st_change_sets (od_state d)))\<rparr>"

lemma sample_lib_len: "sha256_len sample_lib"
  by (auto simp: sha256_len_def sample_lib_def min_def)

definition sample_id :: string where
  "sample_id = replicate 64 (CHR ''a'')"

definition sample_fingerprint :: string where
  "sample_fingerprint = ''sha256:'' @ replicate 64 (CHR ''b'')"

definition sample_action :: json where
  "sample_action = JObj [(''set'', JStr ''system host-name lab'')]"

definition sample_plan_digest :: string where
  "sample_plan_digest = change_set_digest sample_lib ''alice'' ''fw-01'' sample_fingerprint [sample_action]"

definition sample_change_set :: change_set_record where
  "sample_change_set =
     \<lparr>cs_id = sample_id, cs_owner = ''alice'', cs_device = ''fw-01'',
      cs_expected_candidate_fingerprint = sample_fingerprint, cs_actions = [sample_action],
      cs_digest = sample_plan_digest, cs_state = Planned, cs_approver = None, cs_approval = None,
      cs_expires_at_unix = 1000, cs_operation_id = None, cs_policy_signature = [],
      cs_targets = [], cs_preview = None, cs_task_id = None, cs_apply_without_handle = False\<rparr>"

lemma sample_formats:
  "hex64 sample_id" "sha256_tagged sample_fingerprint" "sha256_tagged sample_plan_digest"
proof -
  show "hex64 sample_id" by code_simp
  show "sha256_tagged sample_fingerprint" by code_simp
  show "sha256_tagged sample_plan_digest"
    unfolding sample_plan_digest_def change_set_digest_def digest_hex_def
    by (rule tagged_if_32) (use sample_lib_len in \<open>simp add: sha256_len_def\<close>)
qed

lemma sample_plan_sound: "plan_sound sample_lib (cs_id sample_change_set) sample_change_set"
  using sample_formats
  by (simp add: plan_sound_def sample_change_set_def validate_target_set_def validate_preview_def
      change_set_digest_with_targets_def sample_plan_digest_def)

end
