(* ===== verification/Persistence_Properties.thy ===== *)
theory Persistence_Properties
  imports Persistence_Facts Sample_Inputs
begin

text \<open>The properties of the state file, with the inputs that exercise them.\<close>

definition sample_state :: changeset_state where
  "sample_state = \<lparr>st_operations = [], st_change_sets = [(sample_id, sample_change_set)]\<rparr>"

lemma sample_state_valid: "valid_state sample_lib key sample_state"
  using sample_plan_sound
  by (simp add: valid_state_iff sample_state_def check_change_set_entry_iff)
    (simp add: sample_change_set_def)

lemma sample_write:
  "write_state sample_lib IoOk sample_state 10 None = (Inr (), Some (file_of sample_lib sample_state))"
  by (simp add: write_state_def on_disk_of_def Let_def normalise_task_ids_def sample_state_def
      sample_lib_def)


section \<open>Writing and reading\<close>

text \<open>
  C18. A state whose records verify, once written, is read back as it was (with an empty task
  handle read as none): the version \<open>write_state\<close> selects is one under which every approval and
  waiver in the state verifies, and one no migration applies to.
\<close>

theorem write_then_read:
  assumes "valid_state L key st" "write_state L io st m disk = (Inr (), disk')"
  shows "read_state_with_key L True disk' m key = Inr (normalise_task_ids st)"
  using write_state_InrD [OF assms(2)] read_file_of [OF _ assms(1)] by blast

theorem write_then_read_witness:
  "read_state_with_key sample_lib True (Some (file_of sample_lib sample_state)) 10 (Some ''k'') =
     Inr (normalise_task_ids sample_state)"
  using write_then_read [OF sample_state_valid sample_write] .

text \<open>
  C36. A migrated file can be read again. Take a file of any supported version that is accepted.
  When the migrated state is written back, the new file is accepted and reads as that state, except
  that a task identifier that is the empty string is dropped. Without a key this holds of every
  such file; with a key, of a file of version 4 or later and of one in which no change set is
  approved by a second person.
\<close>

theorem migration_stable:
  assumes "sha256_len L"
    and "read_state_with_key L rd (Some f) m key = Inr st" "f_content f = Decoded d"
    and "\<forall>(cid, r)\<in>set (st_change_sets (od_state d)). keyed_ok key (od_version d) r"
    and "write_state L io st m (Some f) = (Inr (), disk')"
  shows "read_state_with_key L True disk' m key = Inr (normalise_task_ids st)"
  using write_state_InrD [OF assms(5)] read_file_of [OF _ read_state_valid [OF assms(1-4)]] by blast

definition sample_legacy_file :: state_file where
  "sample_legacy_file = forged_file sample_lib 1 sample_change_set ''bob'' 5"

definition sample_migrated :: changeset_state where
  "sample_migrated = migrate sample_lib 3
     \<lparr>st_operations = [], st_change_sets = [(sample_id, forge_approval sample_lib sample_change_set ''bob'' 5)]\<rparr>"

lemma sample_legacy_read:
  "read_state_with_key sample_lib True (Some sample_legacy_file) 10 key = Inr sample_migrated"
proof -
  have "check_change_set_entry sample_lib 3 key
      (cs_id sample_change_set, forge_approval sample_lib sample_change_set ''bob'' 5) = Inr ()"
    by (rule forge_accepted [OF sample_lib_len sample_plan_sound])
      (simp_all add: sample_change_set_def)
  then show ?thesis
    by (simp add: read_state_with_key_def sample_legacy_file_def forged_file_def
        validate_state_with_key_def sample_migrated_def sample_change_set_def)
qed

lemma sample_migrated_write:
  "write_state sample_lib IoOk sample_migrated 10 (Some sample_legacy_file) =
     (Inr (), Some (file_of sample_lib sample_migrated))"
  by (simp add: write_state_def on_disk_of_def Let_def normalise_task_ids_def sample_migrated_def
      sample_lib_def migrate_def bt_map_def)

theorem migration_stable_witness:
  "read_state_with_key sample_lib True (Some (file_of sample_lib sample_migrated)) 10 None =
     Inr (normalise_task_ids sample_migrated)"
  by (rule migration_stable [OF sample_lib_len sample_legacy_read _ _ sample_migrated_write])
    (auto simp: sample_legacy_file_def forged_file_def keyed_ok_def)


section \<open>Approvals under a key\<close>

text \<open>
  C29. With an approval digest key, a file of version 4 or later is accepted only if every
  approval by a person carries the HMAC of its own fields under that key, the approver is not
  the owner, the plan digest is that of the actions in the record and the preview digest that of
  the artifact in the record.
\<close>

theorem keyed_file_authentic:
  assumes "read_state_with_key L rd (Some f) m (Some k) = Inr st" "f_content f = Decoded d"
    and "4 \<le> od_version d" "(cid, r) \<in> set (st_change_sets st)"
    and "cs_approval r = Some a" "ap_approver a = Some p"
  shows "ap_digest a = compute_approval_digest_v6 L k cid (cs_digest r) (preview_digest_of r)
           (cs_owner r) p (ap_approved_at_unix a) \<and>
    p \<noteq> cs_owner r \<and>
    cs_digest r = change_set_digest_with_targets L (cs_owner r) (cs_device r)
           (cs_expected_candidate_fingerprint r) (cs_actions r) (cs_targets r) \<and>
    preview_digest_of r = map_option (\<lambda>q. preview_digest L (pv_artifact q)) (cs_preview r)"
proof -
  have v: "validate_state_with_key L (od_state d) (od_version d) (Some k) = Inr ()"
    and st: "st = migrate L (od_version d) (od_state d)"
    by (rule read_state_InrD [OF assms(1)]; use assms(2) in simp)+
  have "st = od_state d" using st assms(3) by (simp add: migrate_def)
  then have e: "check_change_set_entry L (od_version d) (Some k) (cid, r) = Inr ()"
    using v assms(4) by (auto simp: validate_state_iff)
  note k = keyed_entry [OF e assms(3,5,6)]
  have "preview_digest_of r = map_option (\<lambda>q. preview_digest L (pv_artifact q)) (cs_preview r)"
    using plan_sound_preview [OF k(3)] by (cases "cs_preview r") (simp_all add: preview_digest_of_def)
  then show ?thesis using k plan_sound_digest [OF k(3)] by blast
qed

definition sample_keyed :: change_set_record where
  "sample_keyed = sample_change_set\<lparr>cs_state := Approved, cs_approver := Some ''bob'',
     cs_approval := Some \<lparr>ap_approver = Some ''bob'', ap_approved_at_unix = 5,
       ap_digest = compute_approval_digest_v6 sample_lib ''k'' sample_id sample_plan_digest None
         ''alice'' ''bob'' 5, ap_digest_version = 6, ap_waived = None\<rparr>\<rparr>"

definition sample_keyed_file :: state_file where
  "sample_keyed_file = \<lparr>f_len = 1, f_content = Decoded \<lparr>od_version = 7,
     od_state = \<lparr>st_operations = [], st_change_sets = [(sample_id, sample_keyed)]\<rparr>\<rparr>\<rparr>"

lemma sample_keyed_entry:
  "check_change_set_entry sample_lib 7 (Some ''k'') (sample_id, sample_keyed) = Inr ()"
proof -
  have "plan_sound sample_lib sample_id sample_keyed"
    using sample_plan_sound unfolding plan_sound_def validate_target_set_iff validate_preview_iff
    by (simp add: sample_keyed_def sample_change_set_def)
  moreover have "sha256_tagged (ap_digest (the (cs_approval sample_keyed)))"
    unfolding sample_keyed_def by (simp add: compute_approval_digest_v6_def)
      (rule tagged_if_32 [simplified], simp add: sample_lib_def)
  ultimately show ?thesis
    by (simp add: check_change_set_entry_iff check_approval_iff sample_keyed_def
        expected_approval_digest_def expected_approver_digest_def verify_approval_digest_v6_def
        preview_digest_of_def sample_change_set_def)
qed

lemma sample_keyed_read:
  "read_state_with_key sample_lib True (Some sample_keyed_file) 10 (Some ''k'') =
     Inr \<lparr>st_operations = [], st_change_sets = [(sample_id, sample_keyed)]\<rparr>"
  using sample_keyed_entry
  by (simp add: read_state_with_key_def sample_keyed_file_def validate_state_with_key_def migrate_def)

theorem keyed_file_authentic_witness:
  "ap_digest (the (cs_approval sample_keyed)) =
     compute_approval_digest_v6 sample_lib ''k'' sample_id (cs_digest sample_keyed)
       (preview_digest_of sample_keyed) (cs_owner sample_keyed) ''bob''
       (ap_approved_at_unix (the (cs_approval sample_keyed)))"
  by (rule keyed_file_authentic [where d = "\<lparr>od_version = 7, od_state = \<lparr>st_operations = [],
          st_change_sets = [(sample_id, sample_keyed)]\<rparr>\<rparr>", OF sample_keyed_read, THEN conjunct1])
    (simp_all add: sample_keyed_file_def sample_keyed_def)

text \<open>
  C38. The key does not protect files of version 1 to 3. From any plan, any approver without a
  bar and any time, a file built without the key is accepted under every key, and the record it
  yields is approved.
\<close>

theorem keyed_downgrade:
  assumes "sha256_len L" "plan_sound L (cs_id r) r" "approver \<noteq> cs_owner r"
    and "CHR ''|'' \<notin> set approver" "CHR ''|'' \<notin> set (cs_owner r)" "len \<le> m"
  shows "\<exists>st r'. read_state_with_key L True (Some (forged_file L len r approver at)) m (Some key) = Inr st \<and>
    bt_get (st_change_sets st) (cs_id r) = Some r' \<and> cs_state r' = Approved \<and>
    cs_actions r' = cs_actions r \<and> map_option ap_approver (cs_approval r') = Some (Some approver)"
proof -
  have "check_change_set_entry L 3 (Some key) (cs_id r, forge_approval L r approver at) = Inr ()"
    by (rule forge_accepted [OF assms(1-5)]) simp
  then show ?thesis
    using assms(6)
    by (simp add: read_state_with_key_def forged_file_def validate_state_with_key_def migrate_eq
        bt_map_def migrate_record_approver forge_approval_def del: map_option_eq_Some)
qed

theorem keyed_downgrade_witness:
  "\<exists>st r'. read_state_with_key sample_lib True
      (Some (forged_file sample_lib 1 sample_change_set ''mallory'' 5)) 10 (Some ''secret'') = Inr st \<and>
    bt_get (st_change_sets st) (cs_id sample_change_set) = Some r' \<and> cs_state r' = Approved \<and>
    cs_actions r' = cs_actions sample_change_set \<and>
    map_option ap_approver (cs_approval r') = Some (Some ''mallory'')"
  by (rule keyed_downgrade [OF sample_lib_len sample_plan_sound])
    (simp_all add: sample_change_set_def)

end
