(* ===== verification/System.thy ===== *)
theory System
  imports Persistence
begin

text \<open>
  The state a coordinator works on and everything it asks of its surroundings.

  \<^item> \<open>sys\<close> holds the in-memory state behind the mutex, the state file, the evidence trail, the
    device guards that are held, and the dialogue with the device of the transaction at hand: every
    call, with the store, the file and the trail at the moment it was sent, and every answer.
  \<^item> \<open>env\<close> answers what the code does not decide: the clock, random bytes, the outcome of file
    system steps and locks, cancellation, the device, and what the other tasks of the server do
    while a call waits. Every question is answered for the current \<open>tick\<close>, which then advances, so
    one environment stands for one schedule of outcomes.
  \<^item> \<open>coord_error\<close> has one constructor for each error the crate constructs. The message text of a
    \<open>CoordinatorError\<close> is not modelled; where the code stores the text of an error in a record,
    \<open>err_text\<close> stands for that text.
\<close>

section \<open>Outcomes of a device\<close>

record atomicity =
  atomic_apply :: bool
  dry_run_validation :: bool
  guaranteed_rollback :: bool

definition candidate_configuration :: atomicity where
  "candidate_configuration =
     \<lparr>atomic_apply = True, dry_run_validation = True, guaranteed_rollback = True\<rparr>"

definition nothing_guaranteed :: atomicity where
  "nothing_guaranteed =
     \<lparr>atomic_apply = False, dry_run_validation = False, guaranteed_rollback = False\<rparr>"

definition live_writes :: atomicity where
  "live_writes = nothing_guaranteed"

definition is_fully_guaranteed :: "atomicity \<Rightarrow> bool" where
  "is_fully_guaranteed a \<longleftrightarrow> atomic_apply a \<and> dry_run_validation a \<and> guaranteed_rollback a"

datatype rollback_ref = Archive nat | CandidateRevert | Custom string

datatype commit_outcome =
  Reconciled bool "string option" "string option"
  | Detached "string option"
  | IndeterminateOutcome string
  | AwaitingConfirmation "string option" nat "string option"

datatype unlock_outcome = Released | Unsupported

record rollback_outcome =
  ro_succeeded :: bool
  ro_details :: "string option"

datatype device_call =
  CallFingerprint | CallStage "json list" | CallDiff string | CallValidate string
  | CallCommit string attribution "nat option" | CallRollback rollback_ref | CallLock string
  | CallUnlock

text \<open>\<open>AnsCommit None\<close> is a commit whose answer was not awaited: the cancellation came first.\<close>

datatype device_answer =
  AnsFingerprint "string + string" | AnsStage "string + string" | AnsDiff "string + string"
  | AnsValidate "string + string" | AnsCommit "(string + commit_outcome) option"
  | AnsRollback "string + rollback_outcome" | AnsLock "string + unit" | AnsUnlock "string + unlock_outcome"


section \<open>Errors\<close>

text \<open>One datatype for each module, and their sum.\<close>

datatype coordinator_error =
    PathNotAbsolute | OwnerLockHeld | StateError persistence_error | LockFileError
  | MalformedId | OperationCancelled | UnknownOperation | OperationNotOwned
  | OperationStoreFull | DeviceBusy
  | TargetsInvalid target_error | PreviewInvalid preview_error
  | NotCreatedPlanned change_set_state | CreatedApproved | ChangeSetExists change_set_state
  | ClockBeforeEpoch | RngUnavailable | ChangeSetStoreFull
  | PendingChangeSet string change_set_state nat
  | UnknownChangeSet | OtherDevice | NotClaimable change_set_state
  | StateMoved change_set_state change_set_state

datatype write_error =
    UnknownForUpdate | IdentityFrozen | ClaimOnly | WrittenPreviewInvalid preview_error
  | ApprovalFrozen | PreviewBound | SelfApprovalRecord | SelfApproverField
  | TransitionForbidden change_set_state change_set_state | HandleMarkerCleared

datatype changeset_error =
    FingerprintMalformed digest_error | ActionsInvalid record_error | ActionNotSerializable
  | DigestMalformed digest_error | OwnPlan | ApproverNotHuman | NotAwaitingApproval
  | ApprovalWindowExpired | DigestMismatch | PrincipalInvalid principal_error
  | StoredPreviewInvalid preview_error
  | LabModeRequired | OnlyOwnerWaives | LabModeKind | WaiverExpiryPast
  | OnlyOwnerOrApproverCancels | CannotCancel change_set_state

datatype apply_error =
    EndpointInvalid | EndpointNoHost | OnlyOwnerApplies | ApprovalRequired | WaiverExpired string
  | ApprovalEmpty | ApprovedByOwner | LabModeOff | ApprovalMissing | ApprovedExpired
  | PlanMismatch | NoLongerApproved | ExpiredWaiting | FingerprintFailed string
  | DeviceDrift string string | NoPolicySignature | ActionUndecodable nat
  | ConfigLockFailed string | PreStageFingerprintFailed string | PreStageDrift string string
  | StagingFailed string | AfterFingerprintFailed string

datatype operation_error =
    EmptyActions | EndpointNotHttps | TransactionError string | ConfigLockError string
  | CandidateMoved | StageStateError | StageIndeterminate
  | StageLockHeld | DiffNotMeaningful | NotStaged | MustValidateFirst
  | GuardFailed record_error | CancelledBeforeCommit | CommitRefused
  | CannotDiscard | RollbackFailed "string option" | LockStateUnverified | LockNotReleased string

datatype recovery_error =
    ConfirmationMismatch | ServerRunning | UnknownPersistedOperation
  | AlreadyTerminal lifecycle_state

datatype coord_error =
    Coordinator coordinator_error | Write write_error | Changeset changeset_error
  | Apply apply_error | Operation operation_error | Recovery recovery_error


section \<open>State\<close>

datatype evidence =
    EvProposal string string string string \<comment> \<open>change set, device, principal, diff hash\<close>
  | EvApproval string string string \<comment> \<open>change set, approver, decision\<close>
  | EvWaived string string string "nat option" "string option" \<comment> \<open>change set, kind, reason, expiry, ticket\<close>
  | EvApplyIntent string string string string \<comment> \<open>request, change set, device, principal\<close>
  | EvReceipt string string string string bool "string option" \<comment> \<open>and the outcome and error\<close>

record moment =
  mo_mem :: changeset_state
  mo_disk :: "state_file option"
  mo_trail :: "evidence list"
  mo_durable :: nat

datatype device_event = Sent device_call moment | Got device_answer

record sys =
  mem :: changeset_state
  disk :: "state_file option"
  trail :: "evidence list"
  durable :: nat
  held :: "string list"
  dialogue :: "device_event list"
  tick :: nat

record coordinator =
  state_path :: "string option"
  limits :: operation_limits
  approval_ttl :: nat
  lab_mode :: bool
  evidence_on :: bool
  has_spool :: bool
  approval_digest_key :: "string option"

definition default_coordinator :: coordinator where
  "default_coordinator = \<lparr>state_path = None, limits = default_limits, approval_ttl = 15 * 60,
     lab_mode = False, evidence_on = False, has_spool = False, approval_digest_key = None\<rparr>"

record env = lib +
  clock_at :: "nat \<Rightarrow> nat option"
  rng_at :: "nat \<Rightarrow> string option"
  io_at :: "nat \<Rightarrow> io_outcome"
  flock_at :: "nat \<Rightarrow> bool"
  owner_at :: "nat \<Rightarrow> bool option"
  readable_at :: "nat \<Rightarrow> bool"
  spool_at :: "nat \<Rightarrow> nat option"
  cancelled_at :: "nat \<Rightarrow> bool"
  others_at :: "nat \<Rightarrow> sys \<Rightarrow> sys"
  err_text :: "coord_error \<Rightarrow> string"
  nonce_at :: "nat \<Rightarrow> string"
  decodes :: "json \<Rightarrow> bool"
  requires_config_lock :: bool
  fingerprint_at :: "nat \<Rightarrow> string + string"
  stage_at :: "nat \<Rightarrow> string + string"
  diff_at :: "nat \<Rightarrow> string + string"
  validation_at :: "nat \<Rightarrow> string + string"
  commit_at :: "nat \<Rightarrow> string + commit_outcome"
  rollback_at :: "nat \<Rightarrow> string + rollback_outcome"
  lock_at :: "nat \<Rightarrow> string + unit"
  unlock_at :: "nat \<Rightarrow> string + unlock_outcome"

type_synonym 'a coord = "(sys, coord_error, 'a) act"


section \<open>Asking the environment\<close>

definition ask :: "(nat \<Rightarrow> 'a) \<Rightarrow> 'a coord" where
  "ask f s = (Inr (f (tick s)), s\<lparr>tick := Suc (tick s)\<rparr>)"

definition now_unix :: "'z env_scheme \<Rightarrow> nat coord" where
  "now_unix E = bnd (ask (clock_at E)) (\<lambda>t. case t of None \<Rightarrow> fail (Coordinator ClockBeforeEpoch) | Some n \<Rightarrow> ret n)"

definition new_operation_id :: "'z env_scheme \<Rightarrow> string coord" where
  "new_operation_id E =
     bnd (ask (rng_at E)) (\<lambda>b. case b of None \<Rightarrow> fail (Coordinator RngUnavailable) | Some bs \<Rightarrow> ret (hex_string bs))"

text \<open>
  A point where the task waits: the other tasks run. They share the store, the file, the trail
  and the guards; the dialogue of this transaction with its device is its own.
\<close>

definition yield :: "'z env_scheme \<Rightarrow> unit coord" where
  "yield E s = (Inr (), (others_at E (tick s) s)\<lparr>dialogue := dialogue s, tick := Suc (tick s)\<rparr>)"

definition await :: "'z env_scheme \<Rightarrow> 'a coord \<Rightarrow> 'a coord" where
  "await E m = bnd (yield E) (\<lambda>_. m)"

text \<open>
  A device call enters the dialogue when it is sent, with the moment at which it was sent; the
  answer arrives after the task has waited.
\<close>

definition moment_of :: "sys \<Rightarrow> moment" where
  "moment_of s = \<lparr>mo_mem = mem s, mo_disk = disk s, mo_trail = trail s, mo_durable = durable s\<rparr>"

definition log_event :: "(sys \<Rightarrow> device_event) \<Rightarrow> unit coord" where
  "log_event f = modify (\<lambda>s. s\<lparr>dialogue := dialogue s @ [f s]\<rparr>)"

definition device_rpc ::
  "'z env_scheme \<Rightarrow> device_call \<Rightarrow> (nat \<Rightarrow> 'a) \<Rightarrow> ('a \<Rightarrow> device_answer) \<Rightarrow> 'a coord" where
  "device_rpc E c answer view =
     bnd (log_event (\<lambda>s. Sent c (moment_of s))) (\<lambda>_.
     bnd (await E (ask answer)) (\<lambda>x.
     bnd (log_event (\<lambda>_. Got (view x))) (\<lambda>_. ret x)))"

definition dev_fingerprint :: "'z env_scheme \<Rightarrow> (string + string) coord" where
  "dev_fingerprint E = device_rpc E CallFingerprint (fingerprint_at E) AnsFingerprint"

definition dev_stage :: "'z env_scheme \<Rightarrow> json list \<Rightarrow> (string + string) coord" where
  "dev_stage E actions = device_rpc E (CallStage actions) (stage_at E) AnsStage"

definition dev_diff :: "'z env_scheme \<Rightarrow> string \<Rightarrow> (string + string) coord" where
  "dev_diff E staged = device_rpc E (CallDiff staged) (diff_at E) AnsDiff"

definition dev_validate :: "'z env_scheme \<Rightarrow> string \<Rightarrow> (string + string) coord" where
  "dev_validate E staged = device_rpc E (CallValidate staged) (validation_at E) AnsValidate"

definition dev_rollback :: "'z env_scheme \<Rightarrow> rollback_ref \<Rightarrow> (string + rollback_outcome) coord" where
  "dev_rollback E to = device_rpc E (CallRollback to) (rollback_at E) AnsRollback"

definition dev_lock :: "'z env_scheme \<Rightarrow> string \<Rightarrow> (string + unit) coord" where
  "dev_lock E comment = device_rpc E (CallLock comment) (lock_at E) AnsLock"

definition dev_unlock :: "'z env_scheme \<Rightarrow> (string + unlock_outcome) coord" where
  "dev_unlock E = device_rpc E CallUnlock (unlock_at E) AnsUnlock"

text \<open>The commit call races the cancellation; \<open>None\<close> when the cancellation comes first.\<close>

definition dev_commit ::
  "'z env_scheme \<Rightarrow> string \<Rightarrow> attribution \<Rightarrow> nat option \<Rightarrow> (string + commit_outcome) option coord" where
  "dev_commit E staged a confirm = device_rpc E (CallCommit staged a confirm)
     (\<lambda>n. if cancelled_at E n then None else Some (commit_at E n)) AnsCommit"

text \<open>A vendor error, given to the error the code builds from its text.\<close>

definition or_fail :: "(string \<Rightarrow> coord_error) \<Rightarrow> (string + 'a) coord \<Rightarrow> 'a coord" where
  "or_fail f m = bnd m (\<lambda>r. lift (map_err f r))"

definition is_cancelled :: "'z env_scheme \<Rightarrow> bool coord" where
  "is_cancelled E = ask (cancelled_at E)"


section \<open>Evidence\<close>

definition append_evidence :: "evidence \<Rightarrow> unit coord" where
  "append_evidence ev = modify (\<lambda>s. s\<lparr>trail := trail s @ [ev]\<rparr>)"

text \<open>
  \<open>flush_after_append\<close>: with a spool, either every record so far becomes durable, or the spool
  refuses a segment and the records from that segment on stay in memory, the newest among them.
\<close>

definition flush_evidence :: "'z env_scheme \<Rightarrow> coordinator \<Rightarrow> bool coord" where
  "flush_evidence E K =
     (if has_spool K then
        bnd (ask (spool_at E)) (\<lambda>refusal. case refusal of
          None \<Rightarrow> bnd (modify (\<lambda>s. s\<lparr>durable := length (trail s)\<rparr>)) (\<lambda>_. ret True)
        | Some k \<Rightarrow> bnd (modify (\<lambda>s. s\<lparr>durable := min (durable s + k) (length (trail s) - 1)\<rparr>))
                      (\<lambda>_. ret False))
      else ret True)"

definition when_evidence :: "coordinator \<Rightarrow> evidence \<Rightarrow> unit coord" where
  "when_evidence K ev = (if evidence_on K then append_evidence ev else ret ())"

end
