(* ===== verification/Coordinator.thy ===== *)
theory Coordinator
  imports System
begin

text \<open>
  \<open>crates/mecmcp-changeset/src/coordinator.rs\<close>: the operations that run under the state mutex.
  Each is one atomic action on \<open>sys\<close>; the methods of the other modules are compositions of them
  with a wait before each. The coordinator's configuration \<open>K\<close> is fixed once it is loaded.
\<close>

section \<open>Predicates on records\<close>

definition is_pending :: "change_set_state \<Rightarrow> bool" where
  "is_pending s \<longleftrightarrow> s = Planned \<or> s = Approved \<or> s = Applying"

definition is_expirable :: "change_set_state \<Rightarrow> bool" where
  "is_expirable s \<longleftrightarrow> s = Planned \<or> s = Approved"

definition evictable :: "change_set_state \<Rightarrow> bool" where
  "evictable s \<longleftrightarrow> s = Applied \<or> s = Expired \<or> s = Failed \<or> s = Cancelled"

definition waiver_lapsed :: "change_set_record \<Rightarrow> nat \<Rightarrow> bool" where
  "waiver_lapsed r now \<longleftrightarrow>
     (case cs_approval r of
        None \<Rightarrow> False
      | Some a \<Rightarrow>
         (case ap_waived a of
            None \<Rightarrow> False
          | Some w \<Rightarrow>
             (case wv_expires_at_unix w of None \<Rightarrow> False | Some t \<Rightarrow> t \<le> now)))"

definition normalise_apply_marker :: "change_set_record \<Rightarrow> change_set_record" where
  "normalise_apply_marker r =
     (if cs_state r \<noteq> Applying then r\<lparr>cs_apply_without_handle := False\<rparr> else r)"

definition normalise_task_handle :: "change_set_record \<Rightarrow> change_set_record" where
  "normalise_task_handle r = (if cs_task_id r = Some [] then r\<lparr>cs_task_id := None\<rparr> else r)"

definition normalise :: "change_set_record \<Rightarrow> change_set_record" where
  "normalise r = normalise_apply_marker (normalise_task_handle r)"

definition valid_id :: "string \<Rightarrow> coord_error + unit" where
  "valid_id v =
     (if length v = 64 \<and> list_all is_lower_hex v then Inr () else Inl (Coordinator MalformedId))"


section \<open>The gate every change-set write passes\<close>

datatype write_via = Update | ApplyClaim

definition check_bound_approval ::
  "approval_record \<Rightarrow> change_set_record \<Rightarrow> change_set_record \<Rightarrow> write_error + unit" where
  "check_bound_approval a current next =
     res_bind (require (\<not> (ap_approver a \<noteq> None \<and> cs_approval next \<noteq> Some a)) ApprovalFrozen) (\<lambda>_.
     require (\<not> (5 \<le> ap_digest_version a \<and> preview_digest_of current \<noteq> preview_digest_of next))
       PreviewBound)"

definition check_change_set_write ::
  "'z lib_scheme \<Rightarrow> change_set_record option \<Rightarrow> change_set_record \<Rightarrow> write_via \<Rightarrow> write_error + unit"
where
  "check_change_set_write L current_opt next via =
     (case current_opt of
        None \<Rightarrow> Inl UnknownForUpdate
      | Some current \<Rightarrow>
          if cs_owner next \<noteq> cs_owner current \<or> cs_device next \<noteq> cs_device current
             \<or> cs_digest next \<noteq> cs_digest current then Inl IdentityFrozen
          else if cs_state current = Approved \<and> cs_state next = Applying then
            (if via = ApplyClaim then Inr () else Inl ClaimOnly)
          else
            res_bind (if cs_preview next \<noteq> None
                      then map_err WrittenPreviewInvalid (validate_preview L next usize_max)
                      else Inr ()) (\<lambda>_.
            res_bind (case cs_approval current of
                        None \<Rightarrow> Inr ()
                      | Some a \<Rightarrow> check_bound_approval a current next) (\<lambda>_.
            res_bind (require (Option.bind (cs_approval next) ap_approver \<noteq> Some (cs_owner next))
                        SelfApprovalRecord) (\<lambda>_.
            res_bind (require (cs_approver next \<noteq> Some (cs_owner next)) SelfApproverField) (\<lambda>_.
            res_bind (require (change_set_transition_allowed (cs_state current) (cs_state next))
                        (TransitionForbidden (cs_state current) (cs_state next))) (\<lambda>_.
            require (\<not> (cs_state current = Applying \<and> cs_state next = Applying \<and>
                        cs_apply_without_handle current \<and> \<not> cs_apply_without_handle next))
              HandleMarkerCleared))))))"


section \<open>Persisting\<close>

definition put_mem :: "changeset_state \<Rightarrow> unit coord" where
  "put_mem st = modify (\<lambda>s. s\<lparr>mem := st\<rparr>)"

definition write_disk ::
  "'z env_scheme \<Rightarrow> nat \<Rightarrow> changeset_state \<Rightarrow> io_outcome \<Rightarrow> unit coord" where
  "write_disk E max_bytes st io s =
     (case write_state E io st max_bytes (disk s) of
        (r, d) \<Rightarrow> (map_err (\<lambda>e. Coordinator (StateError e)) r, s\<lparr>disk := d\<rparr>))"

definition persist_locked :: "'z env_scheme \<Rightarrow> coordinator \<Rightarrow> changeset_state \<Rightarrow> unit coord" where
  "persist_locked E K st =
     (case state_path K of
        None \<Rightarrow> ret ()
      | Some _ \<Rightarrow>
          bnd (ask (flock_at E)) (\<lambda>locked.
          bnd (ensure locked (Coordinator LockFileError)) (\<lambda>_.
          bnd (ask (io_at E)) (\<lambda>io. write_disk E (max_state_bytes (limits K)) st io))))"

text \<open>Store \<open>st\<close>, persist it, and on failure put \<open>undo\<close> back.\<close>

definition store_or_undo ::
  "'z env_scheme \<Rightarrow> coordinator \<Rightarrow> changeset_state \<Rightarrow> changeset_state \<Rightarrow> unit coord" where
  "store_or_undo E K st undo =
     bnd (put_mem st) (\<lambda>_.
     catch (persist_locked E K st)
       (\<lambda>e. bnd (put_mem undo) (\<lambda>_. fail e))
       (\<lambda>_. ret ()))"


section \<open>Operations\<close>

definition record_op :: "string \<Rightarrow> string \<Rightarrow> string \<Rightarrow> operation_record coord" where
  "record_op oid owner device =
     bnd (lift (valid_id oid)) (\<lambda>_.
     bnd (gets (\<lambda>s. bt_get (st_operations (mem s)) oid)) (\<lambda>found.
     case found of
       None \<Rightarrow> fail (Coordinator UnknownOperation)
     | Some r \<Rightarrow>
         bnd (ensure (op_owner r = owner \<and> op_device r = device) (Coordinator OperationNotOwned))
           (\<lambda>_. ret r)))"

definition operations :: "operation_record list coord" where
  "operations = gets (\<lambda>s. bt_values (st_operations (mem s)))"

definition change_sets :: "change_set_record list coord" where
  "change_sets = gets (\<lambda>s. bt_values (st_change_sets (mem s)))"

definition busy :: "operation_record \<Rightarrow> operation_record \<Rightarrow> bool" where
  "busy r existing \<longleftrightarrow> \<not> terminal (op_state existing) \<and>
     (op_device existing = op_device r \<or> op_endpoint existing = op_endpoint r)"

definition evict_terminal ::
  "coordinator \<Rightarrow> (string \<times> operation_record) list \<Rightarrow> (string \<times> operation_record) list" where
  "evict_terminal K ops =
     (if max_operations (limits K) \<le> length ops
      then bt_retain (\<lambda>r. \<not> terminal (op_state r)) ops else ops)"

definition insert_op :: "'z env_scheme \<Rightarrow> coordinator \<Rightarrow> operation_record \<Rightarrow> unit coord" where
  "insert_op E K r =
     bnd (gets mem) (\<lambda>st.
     let ops = evict_terminal K (st_operations st);
         st' = st\<lparr>st_operations := bt_insert (op_id r) r ops\<rparr>
     in bnd (put_mem (st\<lparr>st_operations := ops\<rparr>)) (\<lambda>_.
        bnd (ensure (length ops < max_operations (limits K)) (Coordinator OperationStoreFull)) (\<lambda>_.
        bnd (ensure (\<not> (\<exists>x\<in>set (bt_values ops). busy r x)) (Coordinator DeviceBusy)) (\<lambda>_.
        store_or_undo E K st'
          (st\<lparr>st_operations := bt_remove (op_id r) (st_operations st')\<rparr>)))))"

definition update_op :: "'z env_scheme \<Rightarrow> coordinator \<Rightarrow> operation_record \<Rightarrow> unit coord" where
  "update_op E K r =
     bnd (gets mem) (\<lambda>st.
     let ops = bt_insert (op_id r) r (st_operations st)
     in store_or_undo E K (st\<lparr>st_operations := ops\<rparr>)
          (st\<lparr>st_operations :=
             (case bt_get (st_operations st) (op_id r) of
                Some previous \<Rightarrow> bt_insert (op_id r) previous ops
              | None \<Rightarrow> bt_remove (op_id r) ops)\<rparr>))"

definition remove_op :: "'z env_scheme \<Rightarrow> coordinator \<Rightarrow> string \<Rightarrow> unit coord" where
  "remove_op E K oid =
     bnd (gets mem) (\<lambda>st.
     let st' = st\<lparr>st_operations := bt_remove oid (st_operations st)\<rparr>
     in bnd (put_mem st') (\<lambda>_. discard (persist_locked E K st')))"


section \<open>Change sets\<close>

text \<open>The checks of \<open>insert_change_set\<close> before it takes the lock.\<close>

definition insert_checks ::
  "'z lib_scheme \<Rightarrow> coordinator \<Rightarrow> change_set_record \<Rightarrow> coord_error + change_set_record" where
  "insert_checks L K r =
     res_bind (map_err (\<lambda>e. Coordinator (TargetsInvalid e))
                 (validate_target_set r (max_targets_per_set (limits K)))) (\<lambda>_.
     res_bind (map_err (\<lambda>e. Coordinator (PreviewInvalid e))
                 (validate_preview L r (max_preview_bytes (limits K)))) (\<lambda>_.
     let r = normalise r
     in res_bind (require (cs_state r = Planned) (Coordinator (NotCreatedPlanned (cs_state r)))) (\<lambda>_.
        res_bind (require (cs_approval r = None \<and> cs_approver r = None) (Coordinator CreatedApproved)) (\<lambda>_.
        Inr r))))"

definition deadline_passed :: "nat \<Rightarrow> change_set_record \<Rightarrow> bool" where
  "deadline_passed now r \<longleftrightarrow>
     is_expirable (cs_state r) \<and> (cs_expires_at_unix r \<le> now \<or> waiver_lapsed r now)"

definition retire :: "nat \<Rightarrow> change_set_record \<Rightarrow> change_set_record" where
  "retire now r = (if deadline_passed now r then r\<lparr>cs_state := Expired\<rparr> else r)"

definition retired_list ::
  "nat \<Rightarrow> (string \<times> change_set_record) list \<Rightarrow> (string \<times> change_set_state) list" where
  "retired_list now css = map (\<lambda>(k, r). (k, cs_state r)) (filter (\<lambda>(k, r). deadline_passed now r) css)"

definition restore_retired ::
  "(string \<times> change_set_state) list \<Rightarrow> (string \<times> change_set_record) list \<Rightarrow>
   (string \<times> change_set_record) list" where
  "restore_retired retired css =
     fold (\<lambda>(k, previous) m. case bt_get m k of
                               None \<Rightarrow> m
                             | Some r \<Rightarrow> bt_insert k (r\<lparr>cs_state := previous\<rparr>) m) retired css"

definition restore_evicted ::
  "change_set_record list \<Rightarrow> (string \<times> change_set_record) list \<Rightarrow> (string \<times> change_set_record) list"
where
  "restore_evicted evicted css = fold (\<lambda>r m. bt_insert (cs_id r) r m) evicted css"

text \<open>
  Retire what is past its deadline, evict what is settled when the store is at capacity, and
  persist both if either did anything; on failure put the replaced states and the evicted records
  back, in that order.
\<close>

definition sweep :: "'z env_scheme \<Rightarrow> coordinator \<Rightarrow> nat \<Rightarrow> unit coord" where
  "sweep E K now =
     bnd (gets mem) (\<lambda>st.
     let retired = retired_list now (st_change_sets st);
         css = bt_map (retire now) (st_change_sets st);
         full = max_change_sets (limits K) \<le> length css;
         evicted = (if full then filter (\<lambda>r. evictable (cs_state r)) (bt_values css) else []);
         kept = (if full then bt_retain (\<lambda>r. \<not> evictable (cs_state r)) css else css);
         st' = st\<lparr>st_change_sets := kept\<rparr>
     in if retired = [] \<and> evicted = [] then put_mem st'
        else store_or_undo E K st'
               (st\<lparr>st_change_sets := restore_evicted evicted (restore_retired retired kept)\<rparr>))"

definition pending_for :: "change_set_record \<Rightarrow> change_set_record \<Rightarrow> bool" where
  "pending_for r existing \<longleftrightarrow>
     cs_owner existing = cs_owner r \<and> cs_device existing = cs_device r \<and> is_pending (cs_state existing)"

definition check_pending ::
  "change_set_record \<Rightarrow> (string \<times> change_set_record) list \<Rightarrow> coord_error + unit" where
  "check_pending r css =
     (case find (pending_for r) (bt_values css) of
        None \<Rightarrow> Inr ()
      | Some b \<Rightarrow> Inl (Coordinator (PendingChangeSet (cs_id b) (cs_state b) (cs_expires_at_unix b))))"

definition insert_change_set ::
  "'z env_scheme \<Rightarrow> coordinator \<Rightarrow> change_set_record \<Rightarrow> unit coord" where
  "insert_change_set E K r0 =
     bnd (lift (insert_checks E K r0)) (\<lambda>r.
     bnd (gets (\<lambda>s. bt_get (st_change_sets (mem s)) (cs_id r))) (\<lambda>found.
     bnd (case found of
            None \<Rightarrow> ret ()
          | Some existing \<Rightarrow> fail (Coordinator (ChangeSetExists (cs_state existing)))) (\<lambda>_.
     bnd (now_unix E) (\<lambda>now.
     bnd (sweep E K now) (\<lambda>_.
     bnd (gets mem) (\<lambda>st.
     bnd (ensure (length (st_change_sets st) < max_change_sets (limits K))
            (Coordinator ChangeSetStoreFull)) (\<lambda>_.
     bnd (lift (check_pending r (st_change_sets st))) (\<lambda>_.
     let css = bt_insert (cs_id r) r (st_change_sets st)
     in store_or_undo E K (st\<lparr>st_change_sets := css\<rparr>)
          (st\<lparr>st_change_sets := bt_remove (cs_id r) css\<rparr>)))))))))"

definition change_set :: "string \<Rightarrow> string \<Rightarrow> change_set_record coord" where
  "change_set cid device =
     bnd (lift (valid_id cid)) (\<lambda>_.
     bnd (gets (\<lambda>s. bt_get (st_change_sets (mem s)) cid)) (\<lambda>found.
     case found of
       None \<Rightarrow> fail (Coordinator UnknownChangeSet)
     | Some r \<Rightarrow> bnd (ensure (cs_device r = device) (Coordinator OtherDevice)) (\<lambda>_. ret r)))"

definition claim_change_set_for_apply ::
  "'z env_scheme \<Rightarrow> coordinator \<Rightarrow> string \<Rightarrow> string \<Rightarrow> apply_handle \<Rightarrow> change_set_record coord" where
  "claim_change_set_for_apply E K cid device handle =
     bnd (lift (valid_id cid)) (\<lambda>_.
     bnd (gets mem) (\<lambda>st.
     case bt_get (st_change_sets st) cid of
       None \<Rightarrow> fail (Coordinator UnknownChangeSet)
     | Some r \<Rightarrow>
         bnd (ensure (cs_device r = device) (Coordinator OtherDevice)) (\<lambda>_.
         bnd (ensure (cs_state r = Approved) (Coordinator (NotClaimable (cs_state r)))) (\<lambda>_.
         let claimed = r\<lparr>cs_state := Applying, cs_apply_without_handle := (handle = HandleNone)\<rparr>;
             st' = st\<lparr>st_change_sets := bt_insert cid claimed (st_change_sets st)\<rparr>
         in bnd (lift (map_err Write (check_change_set_write E (Some r) claimed ApplyClaim))) (\<lambda>_.
            bnd (put_mem st') (\<lambda>_.
            bnd (persist_locked E K st') (\<lambda>_. ret claimed)))))))"

text \<open>The common end of the two update operations.\<close>

definition write_change_set ::
  "'z env_scheme \<Rightarrow> coordinator \<Rightarrow> change_set_record \<Rightarrow> unit coord" where
  "write_change_set E K r0 =
     bnd (gets mem) (\<lambda>st.
     let r = normalise r0;
         css = bt_insert (cs_id r) r (st_change_sets st)
     in bnd (lift (map_err Write
              (check_change_set_write E (bt_get (st_change_sets st) (cs_id r)) r Update))) (\<lambda>_.
        store_or_undo E K (st\<lparr>st_change_sets := css\<rparr>)
          (st\<lparr>st_change_sets :=
             (case bt_get (st_change_sets st) (cs_id r) of
                Some previous \<Rightarrow> bt_insert (cs_id r) previous css
              | None \<Rightarrow> bt_remove (cs_id r) css)\<rparr>)))"

definition update_change_set_from ::
  "'z env_scheme \<Rightarrow> coordinator \<Rightarrow> change_set_state \<Rightarrow> change_set_record \<Rightarrow> unit coord" where
  "update_change_set_from E K observed r =
     bnd (gets (\<lambda>s. bt_get (st_change_sets (mem s)) (cs_id r))) (\<lambda>found.
     case found of
       None \<Rightarrow> fail (Coordinator UnknownChangeSet)
     | Some current \<Rightarrow>
         bnd (ensure (cs_state current = observed)
                (Coordinator (StateMoved (cs_state current) observed))) (\<lambda>_.
         write_change_set E K r))"

definition update_change_set :: "'z env_scheme \<Rightarrow> coordinator \<Rightarrow> change_set_record \<Rightarrow> unit coord" where
  "update_change_set E K r = write_change_set E K r"


section \<open>Device guards\<close>

text \<open>
  A call to \<open>device_guard\<close> that returns has either been cancelled or taken the guard, and it can
  take it only when no other task holds it. Both may be possible at once.
\<close>

definition device_guard :: "'z env_scheme \<Rightarrow> string \<Rightarrow> unit coord" where
  "device_guard E device =
     bnd (yield E) (\<lambda>_.
     bnd (ask (cancelled_at E)) (\<lambda>cancelled.
     bnd (gets held) (\<lambda>h.
     bnd (ensure (\<not> cancelled \<and> device \<notin> set h) (Coordinator OperationCancelled)) (\<lambda>_.
     modify (\<lambda>s. s\<lparr>held := device # held s\<rparr>)))))"

definition release_guard :: "string \<Rightarrow> sys \<Rightarrow> sys" where
  "release_guard device s = s\<lparr>held := remove1 device (held s)\<rparr>"

text \<open>The rest of a method under the guard, which is dropped on every way out.\<close>

definition with_guard :: "'z env_scheme \<Rightarrow> string \<Rightarrow> 'a coord \<Rightarrow> 'a coord" where
  "with_guard E device body =
     bnd (device_guard E device) (\<lambda>_ s. case body s of (r, t) \<Rightarrow> (r, release_guard device t))"


section \<open>Loading\<close>

datatype staged_recovery = DiscardStaged | RetainStaged

definition op_recovers :: "staged_recovery \<Rightarrow> operation_record \<Rightarrow> bool" where
  "op_recovers sr r \<longleftrightarrow>
     \<not> (sr = RetainStaged \<and> op_state r = Staged \<and> op_job_id r = None) \<and>
     op_state r \<in> {Staging, Staged, Validating, Committing}"

definition recover_op :: "staged_recovery \<Rightarrow> operation_record \<Rightarrow> operation_record" where
  "recover_op sr r =
     (if op_recovers sr r then r\<lparr>op_state := Indeterminate, op_details :=
        Some ''server restarted during a non-terminal operation; manual reconciliation required''\<rparr>
      else r)"

definition lost_apply :: "change_set_record \<Rightarrow> bool" where
  "lost_apply r \<longleftrightarrow>
     cs_state r = Applying \<and> cs_task_id r = None \<and> \<not> cs_apply_without_handle r"

definition recover_cs :: "change_set_record \<Rightarrow> change_set_record" where
  "recover_cs r =
     (let r = normalise_task_handle r in if lost_apply r then r\<lparr>cs_state := Failed\<rparr> else r)"

definition cs_recovers :: "change_set_record \<Rightarrow> bool" where
  "cs_recovers r \<longleftrightarrow> cs_task_id r = Some [] \<or> lost_apply (normalise_task_handle r)"

definition recover_state :: "staged_recovery \<Rightarrow> changeset_state \<Rightarrow> changeset_state" where
  "recover_state sr st =
     \<lparr>st_operations = bt_map (recover_op sr) (st_operations st),
      st_change_sets = bt_map recover_cs (st_change_sets st)\<rparr>"

definition recovers :: "staged_recovery \<Rightarrow> changeset_state \<Rightarrow> bool" where
  "recovers sr st \<longleftrightarrow>
     (\<exists>r\<in>set (bt_values (st_operations st)). op_recovers sr r) \<or>
     (\<exists>r\<in>set (bt_values (st_change_sets st)). cs_recovers r)"

definition read_disk :: "'z env_scheme \<Rightarrow> coordinator \<Rightarrow> changeset_state coord" where
  "read_disk E K =
     bnd (gets disk) (\<lambda>d.
     case d of
       None \<Rightarrow> ret empty_state
     | Some _ \<Rightarrow>
         bnd (ask (flock_at E)) (\<lambda>locked.
         bnd (ensure locked (Coordinator LockFileError)) (\<lambda>_.
         bnd (ask (readable_at E)) (\<lambda>readable.
         lift (map_err (\<lambda>e. Coordinator (StateError e))
           (read_state_with_key E readable d (max_state_bytes (limits K)) (approval_digest_key K)))))))"

definition load_with_recovery_and_key ::
  "'z env_scheme \<Rightarrow> coordinator \<Rightarrow> staged_recovery \<Rightarrow> unit coord" where
  "load_with_recovery_and_key E K sr =
     (case state_path K of
        None \<Rightarrow> modify (\<lambda>s. s\<lparr>mem := empty_state, held := []\<rparr>)
      | Some path \<Rightarrow>
          bnd (ensure (starts_with ''/'' path) (Coordinator PathNotAbsolute)) (\<lambda>_.
          bnd (ask (owner_at E)) (\<lambda>owner.
          bnd (case owner of
                 None \<Rightarrow> fail (Coordinator LockFileError)
               | Some got \<Rightarrow> ensure got (Coordinator OwnerLockHeld)) (\<lambda>_.
          bnd (read_disk E K) (\<lambda>st.
          let st' = recover_state sr st
          in bnd (if recovers sr st then
                    bnd (ask (io_at E)) (\<lambda>io. write_disk E (max_state_bytes (limits K)) st' io)
                  else ret ()) (\<lambda>_.
             modify (\<lambda>s. s\<lparr>mem := st', held := []\<rparr>)))))))"

definition load_with_recovery :: "'z env_scheme \<Rightarrow> coordinator \<Rightarrow> staged_recovery \<Rightarrow> unit coord" where
  "load_with_recovery E K sr = load_with_recovery_and_key E (K\<lparr>approval_digest_key := None\<rparr>) sr"

definition load_with_key :: "'z env_scheme \<Rightarrow> coordinator \<Rightarrow> unit coord" where
  "load_with_key E K = load_with_recovery_and_key E K DiscardStaged"

definition load :: "'z env_scheme \<Rightarrow> coordinator \<Rightarrow> unit coord" where
  "load E K = load_with_recovery E K DiscardStaged"

end
