(* ===== verification/Store_Moves.thy ===== *)
theory Store_Moves
  imports Coordinator Persistence_Facts
begin

text \<open>
  An abstract account of what the coordinator's atomic operations can do to the change-set store,
  and the proof that each of them refines it: \<open>css_move\<close> is one abstract change, \<open>moves\<close> says
  that an operation took the store in memory through such changes and left on disk either the old
  file or one written from a store that such changes reach. The invariants and the stable
  properties of later theories are proved once, for \<open>css_move\<close>.
\<close>

type_synonym css = "(string \<times> change_set_record) list"

abbreviation mem_css :: "sys \<Rightarrow> css" where
  "mem_css s \<equiv> st_change_sets (mem s)"

section \<open>The library an environment carries\<close>

definition lib_of :: "'z env_scheme \<Rightarrow> lib" where
  "lib_of E = \<lparr>sha256 = sha256 E, hmac_sha256 = hmac_sha256 E, to_vec = to_vec E,
     url_parse = url_parse E, ser_len = ser_len E\<rparr>"

lemma lib_of_simps [simp]:
  "sha256 (lib_of E) = sha256 E" "hmac_sha256 (lib_of E) = hmac_sha256 E"
  "to_vec (lib_of E) = to_vec E" "url_parse (lib_of E) = url_parse E" "ser_len (lib_of E) = ser_len E"
  by (simp_all add: lib_of_def)

lemma lib_of_digests [simp]:
  "preview_digest (lib_of E) = preview_digest E"
  "change_set_digest_with_targets (lib_of E) = change_set_digest_with_targets E"
  "compute_approval_digest_v4 (lib_of E) = compute_approval_digest_v4 E"
  "compute_approval_digest_v5 (lib_of E) = compute_approval_digest_v5 E"
  "compute_approval_digest_v6 (lib_of E) = compute_approval_digest_v6 E"
  "compute_waiver_digest_v3 (lib_of E) = compute_waiver_digest_v3 E"
  "compute_waiver_digest (lib_of E) = compute_waiver_digest E"
  "compute_approval_digest_legacy (lib_of E) = compute_approval_digest_legacy E"
  by (intro ext; simp add: preview_digest_def digest_hex_def change_set_digest_with_targets_def
      change_set_digest_def compute_approval_digest_v4_def compute_approval_digest_v5_def
      compute_approval_digest_v6_def compute_waiver_digest_v3_def compute_waiver_digest_def
      compute_approval_digest_legacy_def)+

lemma lib_of_checks [simp]:
  "validate_preview (lib_of E) = validate_preview E"
  "check_change_set_write (lib_of E) = check_change_set_write E"
  "file_of (lib_of E) = file_of E"
proof -
  show v: "validate_preview (lib_of E) = validate_preview E"
    unfolding fun_eq_iff validate_preview_def lib_of_digests by simp
  show "check_change_set_write (lib_of E) = check_change_set_write E"
    unfolding fun_eq_iff check_change_set_write_def v by simp
  show "file_of (lib_of E) = file_of E"
    unfolding fun_eq_iff file_of_def lib_of_simps by simp
qed

lemma lib_of_entry: "check_change_set_entry (lib_of E) = check_change_set_entry E"
  unfolding fun_eq_iff check_change_set_entry_def check_approval_def expected_approval_digest_def
    expected_approver_digest_def expected_waiver_digest_def verify_approval_digest_v6_def
    lib_of_digests lib_of_checks
  by simp

lemma lib_of_migrate: "migrate (lib_of E) = migrate E"
  unfolding fun_eq_iff migrate_def migrate_waiver_def migrate_approval_def lib_of_digests by simp

lemma lib_of_read [simp]: "read_state_with_key (lib_of E) = read_state_with_key E"
  unfolding fun_eq_iff read_state_with_key_def validate_state_with_key_def check_operation_entry_def
    lib_of_entry lib_of_migrate lib_of_simps
  by simp

section \<open>Abstract changes of the store\<close>

definition write_ok :: "'z lib_scheme \<Rightarrow> change_set_record \<Rightarrow> change_set_record \<Rightarrow> bool" where
  "write_ok L r r' \<longleftrightarrow> check_change_set_write L (Some r) r' Update = Inr ()"

inductive css_move :: "'z lib_scheme \<Rightarrow> string set \<Rightarrow> css \<Rightarrow> css \<Rightarrow> bool"
  for L :: "'z lib_scheme" and I :: "string set"
where
  move_write: "bt_get m (cs_id r') = Some r \<Longrightarrow> write_ok L r r' \<Longrightarrow> css_move L I m (bt_insert (cs_id r') r' m)"
| move_claim: "bt_get m k = Some r \<Longrightarrow> cs_state r = Approved \<Longrightarrow>
    css_move L I m (bt_insert k (r\<lparr>cs_state := Applying, cs_apply_without_handle := b\<rparr>) m)"
| move_insert: "bt_get m (cs_id r) = None \<Longrightarrow> cs_id r \<in> I \<Longrightarrow> cs_state r = Planned \<Longrightarrow>
    cs_approval r = None \<Longrightarrow> cs_approver r = None \<Longrightarrow> \<not> (\<exists>x\<in>set (bt_values m). pending_for r x) \<Longrightarrow>
    css_move L I m (bt_insert (cs_id r) r m)"
| move_sweep: "bt_ok m' \<Longrightarrow> (\<And>k. bt_get m' k \<in> {bt_get m k, map_option (retire now) (bt_get m k), None}) \<Longrightarrow>
    css_move L I m m'"

abbreviation css_moves :: "'z lib_scheme \<Rightarrow> string set \<Rightarrow> css \<Rightarrow> css \<Rightarrow> bool" where
  "css_moves L I \<equiv> (css_move L I)\<^sup>*\<^sup>*"

definition moves :: "lib \<Rightarrow> coordinator \<Rightarrow> string set \<Rightarrow> sys \<Rightarrow> sys \<Rightarrow> bool" where
  "moves L K I s t \<longleftrightarrow>
     css_moves L I (mem_css s) (mem_css t) \<and>
     (disk t = disk s \<or>
      (state_path K \<noteq> None \<and>
       (\<exists>st. disk t = Some (file_of L st) \<and> css_moves L I (mem_css s) (st_change_sets st))))"

definition ids_ok :: "css \<Rightarrow> bool" where
  "ids_ok m \<longleftrightarrow> bt_ok m \<and> (\<forall>k r. bt_get m k = Some r \<longrightarrow> cs_id r = k)"

lemma write_ok_ident:
  "write_ok L r r' \<Longrightarrow> cs_owner r' = cs_owner r \<and> cs_device r' = cs_device r \<and> cs_digest r' = cs_digest r"
  by (auto simp: write_ok_def check_change_set_write_def split: if_splits)

lemma write_ok_transition:
  "write_ok L r r' \<Longrightarrow> change_set_transition_allowed (cs_state r) (cs_state r')"
  by (auto simp: write_ok_def check_change_set_write_def res_iffs split: if_splits)

lemma write_ok_two_person:
  "write_ok L r r' \<Longrightarrow> cs_approver r' \<noteq> Some (cs_owner r') \<and>
    Option.bind (cs_approval r') ap_approver \<noteq> Some (cs_owner r')"
  by (auto simp: write_ok_def check_change_set_write_def res_iffs split: if_splits)

lemma write_ok_approval:
  "write_ok L r r' \<Longrightarrow> cs_approval r = Some a \<Longrightarrow>
    (ap_approver a \<noteq> None \<longrightarrow> cs_approval r' = Some a) \<and>
    (5 \<le> ap_digest_version a \<longrightarrow> preview_digest_of r' = preview_digest_of r)"
  by (auto simp: write_ok_def check_change_set_write_def check_bound_approval_def res_iffs
      split: if_splits)

lemma write_ok_preview:
  "write_ok L r r' \<Longrightarrow> validate_preview L r' usize_max = Inr ()"
  by (cases "cs_preview r'")
    (auto simp: write_ok_def check_change_set_write_def res_iffs validate_preview_def
      split: if_splits)

lemma ids_ok_insert: "ids_ok m \<Longrightarrow> cs_id r = k \<Longrightarrow> ids_ok (bt_insert k r m)"
  by (auto simp: ids_ok_def bt_ok_insert bt_get_insert)

lemma retire_fields [simp]:
  "cs_id (retire now r) = cs_id r" "cs_owner (retire now r) = cs_owner r"
  "cs_device (retire now r) = cs_device r" "cs_digest (retire now r) = cs_digest r"
  "cs_approval (retire now r) = cs_approval r" "cs_approver (retire now r) = cs_approver r"
  "cs_preview (retire now r) = cs_preview r"
  by (simp_all add: retire_def)

lemma normalise_fields [simp]:
  "cs_id (normalise r) = cs_id r" "cs_owner (normalise r) = cs_owner r"
  "cs_device (normalise r) = cs_device r" "cs_digest (normalise r) = cs_digest r"
  "cs_state (normalise r) = cs_state r" "cs_approver (normalise r) = cs_approver r"
  "cs_approval (normalise r) = cs_approval r" "cs_preview (normalise r) = cs_preview r"
  "cs_actions (normalise r) = cs_actions r" "cs_expires_at_unix (normalise r) = cs_expires_at_unix r"
  "cs_expected_candidate_fingerprint (normalise r) = cs_expected_candidate_fingerprint r"
  "cs_targets (normalise r) = cs_targets r" "cs_policy_signature (normalise r) = cs_policy_signature r"
  "cs_operation_id (normalise r) = cs_operation_id r"
  by (simp_all add: normalise_def normalise_apply_marker_def normalise_task_handle_def)

lemma css_move_ids: "css_move L I m m' \<Longrightarrow> ids_ok m \<Longrightarrow> ids_ok m'"
proof (induction rule: css_move.induct)
  case (move_sweep m' m now)
  have "cs_id r = k" if "bt_get m' k = Some r" for k r
    using move_sweep(2) [of k] move_sweep(3) that by (cases "bt_get m k") (auto simp: ids_ok_def)
  with move_sweep(1) show ?case by (simp add: ids_ok_def)
next
  case (move_claim m k r b)
  then show ?case by (intro ids_ok_insert) (auto simp: ids_ok_def)
qed (auto intro: ids_ok_insert)

lemma css_moves_ids: "css_moves L I m m' \<Longrightarrow> ids_ok m \<Longrightarrow> ids_ok m'"
  by (induction rule: rtranclp_induct) (auto intro: css_move_ids)

lemma css_move_mono: "css_move L I m m' \<Longrightarrow> I \<subseteq> J \<Longrightarrow> css_move L J m m'"
  by (induction rule: css_move.induct) (blast intro: css_move.intros)+

lemma css_move_lib_of: "css_move (lib_of E) = css_move E"
proof -
  have w: "write_ok (lib_of E) = write_ok E" by (simp add: fun_eq_iff write_ok_def)
  have "css_move (lib_of E) I m m' \<longleftrightarrow> css_move E I m m'" for I m m'
    unfolding css_move.simps [of "lib_of E"] css_move.simps [of E] w ..
  then show ?thesis by (simp add: fun_eq_iff)
qed

lemma moves_refl: "moves L K I s s"
  by (simp add: moves_def)

lemma moves_frame:
  "mem_css t = mem_css s \<Longrightarrow> disk t = disk s \<Longrightarrow> moves L K I s t"
  by (simp add: moves_def)

lemma moves_trans: "moves L K I s t \<Longrightarrow> moves L K I t u \<Longrightarrow> moves L K I s u"
  unfolding moves_def by (metis rtranclp_trans)


section \<open>The operations refine the abstract changes\<close>

text \<open>What an action leaves alone: the evidence, the guards and the dialogue with the device.\<close>

definition same_rest :: "sys \<Rightarrow> sys \<Rightarrow> bool" where
  "same_rest s t \<longleftrightarrow> trail t = trail s \<and> durable t = durable s \<and> held t = held s \<and> dialogue t = dialogue s"

lemma write_disk_cases:
  assumes "write_disk E m st io s = (x, t)"
  shows "mem t = mem s \<and> same_rest s t \<and>
    (x = Inr () \<and> disk t = Some (file_of E st) \<or>
     (\<exists>e. x = Inl (Coordinator (StateError e))) \<and> (disk t = disk s \<or> disk t = Some (file_of E st)))"
proof -
  obtain r d where w: "write_state E io st m (disk s) = (r, d)"
    by (cases "write_state E io st m (disk s)")
  have t: "t = s\<lparr>disk := d\<rparr>" and x: "x = map_err (\<lambda>e. Coordinator (StateError e)) r"
    using assms w by (auto simp: write_disk_def)
  show ?thesis
  proof (cases r)
    case (Inl e)
    then show ?thesis using write_state_disk [OF w] t x by (auto simp: same_rest_def map_err_def)
  next
    case (Inr u)
    then show ?thesis
      using write_state_InrD [of E io st _ "disk s" u d] w t x by (auto simp: same_rest_def map_err_def)
  qed
qed

lemma ask_apply [act_simps]: "ask f s = (Inr (f (tick s)), s\<lparr>tick := Suc (tick s)\<rparr>)"
  by (simp add: ask_def)

lemma bnd_gets [act_simps]: "bnd (gets g) f s = f (g s) s"
  by (simp add: bnd_def gets_def)

lemma bnd_modify [act_simps]: "bnd (modify g) f s = f () (g s)"
  by (simp add: bnd_def modify_def)

lemma bnd_fail [act_simps]: "bnd (fail e) f s = (Inl e, s)"
  by (simp add: bnd_def fail_def)

lemma bnd_ask [act_simps]: "bnd (ask g) f s = f (g (tick s)) (s\<lparr>tick := Suc (tick s)\<rparr>)"
  by (simp add: bnd_def ask_def)

lemma bnd_now_unix:
  "bnd (now_unix E) f s = (case clock_at E (tick s) of
     None \<Rightarrow> (Inl (Coordinator ClockBeforeEpoch), s\<lparr>tick := Suc (tick s)\<rparr>)
   | Some n \<Rightarrow> f n (s\<lparr>tick := Suc (tick s)\<rparr>))"
  by (simp add: now_unix_def bnd_def ask_def fail_def ret_def split: option.split)

lemma persist_locked_cases:
  assumes "persist_locked E K st s = (x, t)"
  shows "mem t = mem s \<and> same_rest s t \<and>
    (state_path K = None \<and> x = Inr () \<and> disk t = disk s \<or>
     state_path K \<noteq> None \<and> x = Inr () \<and> disk t = Some (file_of E st) \<or>
     state_path K \<noteq> None \<and> (\<exists>e. x = Inl (Coordinator e)) \<and>
       (disk t = disk s \<or> disk t = Some (file_of E st)))"
proof (cases "state_path K")
  case None
  then show ?thesis using assms by (auto simp: persist_locked_def act_simps same_rest_def)
next
  case (Some p)
  let ?s = "s\<lparr>tick := Suc (Suc (tick s))\<rparr>"
  show ?thesis
  proof (cases "flock_at E (tick s)")
    case True
    then have "write_disk E (max_state_bytes (limits K)) st (io_at E (Suc (tick s))) ?s = (x, t)"
      using assms Some by (simp add: persist_locked_def bnd_def ask_def ensure_def ret_def)
    from write_disk_cases [OF this] show ?thesis using Some by (auto simp: same_rest_def)
  next
    case False
    then show ?thesis using assms Some
      by (auto simp: persist_locked_def bnd_def ask_def ensure_def fail_def same_rest_def)
  qed
qed

lemma store_or_undo_cases:
  assumes "store_or_undo E K st undo s = (x, t)"
  shows "same_rest s t \<and>
    (x = Inr () \<and> mem t = st \<and>
       (state_path K = None \<and> disk t = disk s \<or> state_path K \<noteq> None \<and> disk t = Some (file_of E st)) \<or>
     (\<exists>e. x = Inl (Coordinator e)) \<and> mem t = undo \<and> state_path K \<noteq> None \<and>
       (disk t = disk s \<or> disk t = Some (file_of E st)))"
proof -
  let ?s = "s\<lparr>mem := st\<rparr>"
  obtain y u where p: "persist_locked E K st ?s = (y, u)" by (cases "persist_locked E K st ?s")
  have "x = (case y of Inl e \<Rightarrow> Inl e | Inr v \<Rightarrow> Inr ())" "t = (case y of Inl e \<Rightarrow> u\<lparr>mem := undo\<rparr> | Inr v \<Rightarrow> u)"
    using assms p
    by (auto simp: store_or_undo_def put_mem_def bnd_def catch_def modify_def fail_def ret_def
        split: sum.splits)
  with persist_locked_cases [OF p] show ?thesis
    by (auto simp: same_rest_def)
qed

lemma store_or_undo_moves:
  assumes "store_or_undo E K st undo s = (x, t)"
    and "css_moves E I (mem_css s) (st_change_sets st)" "css_moves E I (mem_css s) (st_change_sets undo)"
  shows "moves (lib_of E) K I s t"
  using store_or_undo_cases [OF assms(1)] assms(2,3)
  unfolding moves_def css_move_lib_of by auto

end
