(* ===== verification/Store_Refinement.thy ===== *)
theory Store_Refinement
  imports Store_Moves
begin

text \<open>
  Every atomic operation of the coordinator refines the abstract store: the judgement \<open>refines\<close>
  with one rule for each combinator, and one lemma for each operation.
\<close>

named_theorems refines_rules

definition refines :: "'z env_scheme \<Rightarrow> coordinator \<Rightarrow> string set \<Rightarrow> 'a coord \<Rightarrow> bool" where
  "refines E K I m \<longleftrightarrow>
     (\<forall>s x t. ids_ok (mem_css s) \<longrightarrow> m s = (x, t) \<longrightarrow> moves (lib_of E) K I s t)"

lemma refinesI:
  "(\<And>s x t. ids_ok (mem_css s) \<Longrightarrow> m s = (x, t) \<Longrightarrow> moves (lib_of E) K I s t) \<Longrightarrow> refines E K I m"
  by (simp add: refines_def)

lemma refinesD: "refines E K I m \<Longrightarrow> ids_ok (mem_css s) \<Longrightarrow> m s = (x, t) \<Longrightarrow> moves (lib_of E) K I s t"
  by (simp add: refines_def)

lemma moves_ids: "moves L K I s t \<Longrightarrow> ids_ok (mem_css s) \<Longrightarrow> ids_ok (mem_css t)"
  by (auto simp: moves_def intro: css_moves_ids)

lemma refines_ret [refines_rules]: "refines E K I (ret x)"
  by (auto simp: refines_def act_simps intro: moves_refl)

lemma refines_fail [refines_rules]: "refines E K I (fail e)"
  by (auto simp: refines_def act_simps intro: moves_refl)

lemma refines_lift [refines_rules]: "refines E K I (lift r)"
  by (auto simp: refines_def act_simps intro: moves_refl)

lemma refines_gets [refines_rules]: "refines E K I (gets f)"
  by (auto simp: refines_def act_simps intro: moves_refl)

lemma refines_ensure [refines_rules]: "refines E K I (ensure b e)"
  by (auto simp: refines_def act_defs intro: moves_refl)

lemma refines_ask [refines_rules]: "refines E K I (ask f)"
  by (auto simp: refines_def act_simps intro: moves_frame)

lemma refines_bnd [refines_rules]:
  assumes "refines E K I m" "\<And>x. refines E K I (f x)"
  shows "refines E K I (bnd m f)"
proof (rule refinesI)
  fix s y t assume s: "ids_ok (mem_css s)" and r: "bnd m f s = (y, t)"
  obtain x u where m: "m s = (x, u)" by (cases "m s")
  have su: "moves (lib_of E) K I s u" by (rule refinesD [OF assms(1) s m])
  show "moves (lib_of E) K I s t"
  proof (cases x)
    case (Inl e)
    then show ?thesis using r m su by (simp add: bnd_def)
  next
    case (Inr z)
    then have "f z u = (y, t)" using r m by (simp add: bnd_def)
    from refinesD [OF assms(2) moves_ids [OF su s] this] su show ?thesis
      by (rule moves_trans [rotated])
  qed
qed

lemma refines_catch [refines_rules]:
  assumes "refines E K I m" "\<And>e. refines E K I (h e)" "\<And>x. refines E K I (k x)"
  shows "refines E K I (catch m h k)"
proof (rule refinesI)
  fix s y t assume s: "ids_ok (mem_css s)" and r: "catch m h k s = (y, t)"
  obtain x u where m: "m s = (x, u)" by (cases "m s")
  have su: "moves (lib_of E) K I s u" by (rule refinesD [OF assms(1) s m])
  have "moves (lib_of E) K I u t"
    using r m by (cases x) (auto simp: catch_def
        intro: refinesD [OF assms(2) moves_ids [OF su s]] refinesD [OF assms(3) moves_ids [OF su s]])
  with su show "moves (lib_of E) K I s t" by (rule moves_trans)
qed

lemma refines_discard [refines_rules]: "refines E K I m \<Longrightarrow> refines E K I (discard m)"
  unfolding refines_def discard_def by (metis old.prod.exhaust snd_conv prod.inject)

lemma refines_if [refines_rules]:
  "(b \<Longrightarrow> refines E K I m) \<Longrightarrow> (\<not> b \<Longrightarrow> refines E K I n) \<Longrightarrow> refines E K I (if b then m else n)"
  by simp

lemma refines_case_option [refines_rules]:
  "(x = None \<Longrightarrow> refines E K I m) \<Longrightarrow> (\<And>y. x = Some y \<Longrightarrow> refines E K I (n y)) \<Longrightarrow>
    refines E K I (case x of None \<Rightarrow> m | Some y \<Rightarrow> n y)"
  by (cases x) auto

lemma refines_case_sum [refines_rules]:
  "(\<And>y. x = Inl y \<Longrightarrow> refines E K I (m y)) \<Longrightarrow> (\<And>y. x = Inr y \<Longrightarrow> refines E K I (n y)) \<Longrightarrow>
    refines E K I (case x of Inl y \<Rightarrow> m y | Inr y \<Rightarrow> n y)"
  by (cases x) auto

lemma refines_modify:
  "(\<And>s. mem (f s) = mem s \<and> disk (f s) = disk s) \<Longrightarrow> refines E K I (modify f)"
  by (auto simp: refines_def act_simps intro!: moves_frame)

text \<open>An action that reads the store first sees the store it then works on.\<close>

lemma refines_gets_mem:
  "(\<And>s x t. ids_ok (mem_css s) \<Longrightarrow> f (mem s) s = (x, t) \<Longrightarrow> moves (lib_of E) K I s t) \<Longrightarrow>
    refines E K I (bnd (gets mem) f)"
  by (auto simp: refines_def bnd_def gets_def)


section \<open>Operations leave the change sets alone\<close>

lemma persist_same_css:
  assumes "persist_locked E K st s = (x, t)" "st_change_sets st = mem_css s"
  shows "moves (lib_of E) K I s t"
  using persist_locked_cases [OF assms(1)] assms(2) unfolding moves_def css_move_lib_of by auto

lemma insert_op_refines: "refines E K I (insert_op E K r)"
  unfolding insert_op_def
proof (rule refines_gets_mem)
  fix s :: sys and x t
  let ?ops = "evict_terminal K (st_operations (mem s))"
  let ?st = "(mem s)\<lparr>st_operations := ?ops\<rparr>"
  let ?st' = "(mem s)\<lparr>st_operations := bt_insert (op_id r) r ?ops\<rparr>"
  let ?undo = "(mem s)\<lparr>st_operations := bt_remove (op_id r) (st_operations ?st')\<rparr>"
  assume r: "(let ops = ?ops; st' = (mem s)\<lparr>st_operations := bt_insert (op_id r) r ops\<rparr>
       in bnd (put_mem ((mem s)\<lparr>st_operations := ops\<rparr>)) (\<lambda>_.
          bnd (ensure (length ops < max_operations (limits K)) (Coordinator OperationStoreFull)) (\<lambda>_.
          bnd (ensure (\<not> (\<exists>x\<in>set (bt_values ops). busy r x)) (Coordinator DeviceBusy)) (\<lambda>_.
          store_or_undo E K st' ((mem s)\<lparr>st_operations := bt_remove (op_id r) (st_operations st')\<rparr>))))) s
       = (x, t)"
  let ?s = "s\<lparr>mem := ?st\<rparr>"
  have f: "moves (lib_of E) K I s ?s" by (rule moves_frame) simp_all
  consider "t = ?s" | "store_or_undo E K ?st' ?undo ?s = (x, t)"
    using r by (auto simp: Let_def put_mem_def bnd_def modify_def ensure_def ret_def fail_def
        split: if_splits)
  then show "moves (lib_of E) K I s t"
  proof cases
    case 2
    from store_or_undo_moves [OF 2] have "moves (lib_of E) K I ?s t" by simp
    with f show ?thesis by (rule moves_trans)
  qed (simp add: f)
qed

lemma update_op_refines: "refines E K I (update_op E K r)"
  unfolding update_op_def Let_def
  by (rule refines_gets_mem) (auto intro: store_or_undo_moves split: option.splits)

lemma remove_op_refines: "refines E K I (remove_op E K oid)"
  unfolding remove_op_def Let_def
proof (rule refines_gets_mem)
  fix s :: sys and x t
  let ?st = "(mem s)\<lparr>st_operations := bt_remove oid (st_operations (mem s))\<rparr>"
  assume r: "bnd (put_mem ?st) (\<lambda>_. discard (persist_locked E K ?st)) s = (x, t)"
  obtain y u where p: "persist_locked E K ?st (s\<lparr>mem := ?st\<rparr>) = (y, u)"
    by (cases "persist_locked E K ?st (s\<lparr>mem := ?st\<rparr>)")
  have "t = u" using r p by (simp add: put_mem_def bnd_def modify_def discard_def)
  moreover have "moves (lib_of E) K I (s\<lparr>mem := ?st\<rparr>) u" by (rule persist_same_css [OF p]) simp
  moreover have "moves (lib_of E) K I s (s\<lparr>mem := ?st\<rparr>)" by (rule moves_frame) simp_all
  ultimately show "moves (lib_of E) K I s t" by (blast intro: moves_trans)
qed

lemma record_op_refines: "refines E K I (record_op oid owner device)"
  unfolding record_op_def by (intro refines_rules)

lemma change_set_refines: "refines E K I (change_set cid device)"
  unfolding change_set_def by (intro refines_rules)


section \<open>Writes and claims\<close>

lemma undo_write:
  assumes "bt_ok m"
  shows "(case bt_get m k of Some p \<Rightarrow> bt_insert k p (bt_insert k r m)
     | None \<Rightarrow> bt_remove k (bt_insert k r m)) = m"
  using assms bt.undo_update [of m k _ r] bt.undo_insert [of m k r] by (simp split: option.split)

lemma write_change_set_refines: "refines E K I (write_change_set E K r0)"
  unfolding write_change_set_def
proof (rule refines_gets_mem)
  fix s x t
  let ?r = "normalise r0" and ?m = "mem_css s"
  let ?css = "bt_insert (cs_id ?r) ?r ?m"
  let ?undo = "(mem s)\<lparr>st_change_sets := (case bt_get ?m (cs_id ?r) of
      Some previous \<Rightarrow> bt_insert (cs_id ?r) previous ?css | None \<Rightarrow> bt_remove (cs_id ?r) ?css)\<rparr>"
  assume ids: "ids_ok ?m" and r: "(let r = ?r; css = bt_insert (cs_id r) r ?m
     in bnd (lift (map_err Write (check_change_set_write E (bt_get ?m (cs_id r)) r Update))) (\<lambda>_.
        store_or_undo E K ((mem s)\<lparr>st_change_sets := css\<rparr>)
          ((mem s)\<lparr>st_change_sets := (case bt_get ?m (cs_id r) of
                Some previous \<Rightarrow> bt_insert (cs_id r) previous css
              | None \<Rightarrow> bt_remove (cs_id r) css)\<rparr>))) s = (x, t)"
  have undo: "?undo = mem s" using undo_write [of ?m "cs_id ?r" ?r] ids by (simp add: ids_ok_def)
  show "moves (lib_of E) K I s t"
  proof (cases "check_change_set_write E (bt_get ?m (cs_id ?r)) ?r Update")
    case (Inl e)
    then have "t = s" using r by (simp add: Let_def act_simps map_err_def)
    then show ?thesis by (simp add: moves_refl)
  next
    case (Inr u)
    then obtain c where c: "bt_get ?m (cs_id ?r) = Some c" "write_ok E c ?r"
      by (cases "bt_get ?m (cs_id ?r)") (auto simp: write_ok_def check_change_set_write_def)
    have "store_or_undo E K ((mem s)\<lparr>st_change_sets := ?css\<rparr>) ?undo s = (x, t)"
      using r Inr by (simp add: Let_def act_simps map_err_def)
    then show ?thesis
      unfolding undo
      by (rule store_or_undo_moves) (use move_write [OF c, of I] in \<open>auto simp del: normalise_fields\<close>)
  qed
qed

lemma update_change_set_refines: "refines E K I (update_change_set E K r)"
  by (simp add: update_change_set_def write_change_set_refines)

lemma update_change_set_from_refines: "refines E K I (update_change_set_from E K observed r)"
  unfolding update_change_set_from_def by (intro refines_rules write_change_set_refines)

lemma claim_refines: "refines E K I (claim_change_set_for_apply E K cid device handle)"
  unfolding claim_change_set_for_apply_def
proof (rule refines_bnd [OF refines_lift], rule refines_gets_mem, goal_cases)
  case (1 _ s x t)
  show ?case
  proof (cases "bt_get (mem_css s) cid")
    case None
    then show ?thesis using 1 by (simp add: act_simps moves_refl)
  next
    case (Some r)
    let ?c = "r\<lparr>cs_state := Applying, cs_apply_without_handle := (handle = HandleNone)\<rparr>"
    let ?st = "(mem s)\<lparr>st_change_sets := bt_insert cid ?c (mem_css s)\<rparr>"
    show ?thesis
    proof (cases "cs_device r = device \<and> cs_state r = Approved")
      case False
      then show ?thesis using 1 Some by (auto simp: bnd_ensure split: if_splits intro: moves_refl)
    next
      case True
      have chk: "check_change_set_write E (Some r) ?c ApplyClaim = Inr ()"
        using True by (simp add: check_change_set_write_def)
      obtain y u where p: "persist_locked E K ?st (s\<lparr>mem := ?st\<rparr>) = (y, u)"
        by (cases "persist_locked E K ?st (s\<lparr>mem := ?st\<rparr>)")
      have "t = u"
        using 1(2) Some True chk p
        by (auto simp: Let_def bnd_def ensure_def ret_def lift_def map_err_def put_mem_def modify_def
            split: sum.splits)
      moreover have "css_move E I (mem_css s) (bt_insert cid ?c (mem_css s))"
        using True by (intro move_claim [OF Some]) simp
      ultimately show ?thesis
        using persist_locked_cases [OF p] unfolding moves_def css_move_lib_of by auto
    qed
  qed
qed


section \<open>The sweep\<close>

text \<open>A store in which every record is the one it was, its retired form, or gone.\<close>

definition swept_from :: "nat \<Rightarrow> css \<Rightarrow> css \<Rightarrow> bool" where
  "swept_from now m m' \<longleftrightarrow>
     bt_ok m' \<and> (\<forall>k. bt_get m' k \<in> {bt_get m k, map_option (retire now) (bt_get m k), None})"

lemma swept_from_move: "swept_from now m m' \<Longrightarrow> css_move L I m m'"
  unfolding swept_from_def by (rule move_sweep [where now = now]) auto

lemma swept_from_kept:
  "bt_ok m \<Longrightarrow> swept_from now m (bt_map (retire now) m)"
  "bt_ok m \<Longrightarrow> swept_from now m (bt_retain p (bt_map (retire now) m))"
  by (simp add: swept_from_def bt_ok_map bt_get_map)
    (auto simp: swept_from_def bt_ok_map bt_get_map bt_ok_retain bt_get_retain bind_eq_Some_conv
      split: if_splits)

lemma retire_undo: "(retire now r)\<lparr>cs_state := cs_state r\<rparr> = r" "r\<lparr>cs_state := cs_state r\<rparr> = r"
  by (simp_all add: retire_def)

lemma restore_retired_swept:
  assumes "swept_from now m m'" "\<forall>(k, p)\<in>set rs. \<exists>r. bt_get m k = Some r \<and> cs_state r = p"
  shows "swept_from now m (restore_retired rs m')"
  using assms
proof (induction rs arbitrary: m')
  case (Cons kp rs)
  obtain k p where kp: "kp = (k, p)" by (cases kp)
  then obtain r where r: "bt_get m k = Some r" "cs_state r = p" using Cons.prems(2) by auto
  let ?m = "case bt_get m' k of None \<Rightarrow> m' | Some x \<Rightarrow> bt_insert k (x\<lparr>cs_state := p\<rparr>) m'"
  have "swept_from now m ?m"
  proof (cases "bt_get m' k")
    case (Some x)
    then have "x = r \<or> x = retire now r"
      using Cons.prems(1) r by (auto simp: swept_from_def dest: spec [of _ k])
    then have "x\<lparr>cs_state := p\<rparr> = r" using r(2) retire_undo by auto
    with Some r(1) Cons.prems(1) show ?thesis
      by (auto simp: swept_from_def bt_ok_insert bt_get_insert)
  qed (use Cons.prems(1) in simp)
  then show ?case
    using Cons.IH [of ?m] Cons.prems(2) kp by (simp add: restore_retired_def)
qed (simp add: restore_retired_def)

lemma restore_evicted_swept:
  assumes "swept_from now m m'" "\<forall>r\<in>set ev. bt_get (bt_map (retire now) m) (cs_id r) = Some r"
  shows "swept_from now m (restore_evicted ev m')"
  using assms
proof (induction ev arbitrary: m')
  case (Cons r ev)
  have "swept_from now m (bt_insert (cs_id r) r m')"
    using Cons.prems by (auto simp: swept_from_def bt_ok_insert bt_get_insert bt_get_map)
  then show ?case using Cons.IH Cons.prems(2) by (simp add: restore_evicted_def)
qed (simp add: restore_evicted_def)

lemma sweep_refines: "refines E K I (sweep E K now)"
  unfolding sweep_def
proof (rule refines_gets_mem)
  fix s :: sys and x t
  assume ids: "ids_ok (mem_css s)"
  let ?m = "mem_css s"
  let ?css = "bt_map (retire now) ?m"
  let ?full = "max_change_sets (limits K) \<le> length ?css"
  let ?ev = "if ?full then filter (\<lambda>r. evictable (cs_state r)) (bt_values ?css) else []"
  let ?kept = "if ?full then bt_retain (\<lambda>r. \<not> evictable (cs_state r)) ?css else ?css"
  let ?ret = "retired_list now ?m"
  let ?undo = "restore_evicted ?ev (restore_retired ?ret ?kept)"
  assume r: "(let retired = ?ret; css = ?css; full = max_change_sets (limits K) \<le> length css;
         evicted = if full then filter (\<lambda>r. evictable (cs_state r)) (bt_values css) else [];
         kept = if full then bt_retain (\<lambda>r. \<not> evictable (cs_state r)) css else css;
         st' = (mem s)\<lparr>st_change_sets := kept\<rparr>
     in if retired = [] \<and> evicted = [] then put_mem st'
        else store_or_undo E K st'
          ((mem s)\<lparr>st_change_sets := restore_evicted evicted (restore_retired retired kept)\<rparr>)) s = (x, t)"
  have ok: "bt_ok ?m" using ids by (simp add: ids_ok_def)
  have kept: "swept_from now ?m ?kept" using swept_from_kept [OF ok] by simp
  have "swept_from now ?m (restore_retired ?ret ?kept)"
    by (rule restore_retired_swept [OF kept]) (auto simp: retired_list_def bt_mem_get [OF ok])
  then have undo: "swept_from now ?m ?undo"
  proof (rule restore_evicted_swept, goal_cases)
    case 1
    have "bt_get ?css (cs_id r) = Some r" if r: "r \<in> set (bt_values ?css)" for r
    proof -
      obtain k where k: "bt_get ?css k = Some r"
        using r bt_values_get [of ?css r] ok by (auto simp: bt_ok_map)
      then obtain q where "bt_get ?m k = Some q" "r = retire now q" by (auto simp: bt_get_map)
      then have "cs_id r = k" using ids by (simp add: ids_ok_def)
      with k show ?thesis by simp
    qed
    then show ?case by simp
  qed
  consider "t = s\<lparr>mem := (mem s)\<lparr>st_change_sets := ?kept\<rparr>\<rparr>"
    | "store_or_undo E K ((mem s)\<lparr>st_change_sets := ?kept\<rparr>) ((mem s)\<lparr>st_change_sets := ?undo\<rparr>) s = (x, t)"
    using r by (auto simp: Let_def put_mem_def modify_def split: if_splits)
  then show "moves (lib_of E) K I s t"
  proof cases
    case 1
    then show ?thesis
      using swept_from_move [OF kept, of E I] unfolding moves_def css_move_lib_of by auto
  next
    case 2
    then show ?thesis
      by (rule store_or_undo_moves)
        (use swept_from_move [OF kept, of E I] swept_from_move [OF undo, of E I] in auto)
  qed
qed

lemma now_unix_refines [refines_rules]: "refines E K I (now_unix E)"
  unfolding now_unix_def by (intro refines_rules)

lemma insert_checks_InrD:
  "insert_checks L K r0 = Inr r \<Longrightarrow>
    r = normalise r0 \<and> cs_state r = Planned \<and> cs_approval r = None \<and> cs_approver r = None \<and>
    validate_target_set r0 (max_targets_per_set (limits K)) = Inr () \<and>
    validate_preview L r0 (max_preview_bytes (limits K)) = Inr ()"
  by (auto simp: insert_checks_def Let_def res_iffs)

lemma check_pending_iff:
  "check_pending r m = Inr u \<longleftrightarrow> \<not> (\<exists>x\<in>set (bt_values m). pending_for r x)"
  by (auto simp: check_pending_def find_None_iff find_Some_iff split: option.split)

lemma css_move_absent: "css_move L I m m' \<Longrightarrow> bt_get m k = None \<Longrightarrow> k \<notin> I \<Longrightarrow> bt_get m' k = None"
proof (induction rule: css_move.induct)
  case (move_sweep m' m now)
  then show ?case using move_sweep(2) [of k] by auto
qed (auto simp: bt_get_insert)

lemma css_moves_absent: "css_moves L I m m' \<Longrightarrow> bt_get m k = None \<Longrightarrow> k \<notin> I \<Longrightarrow> bt_get m' k = None"
  by (induction rule: rtranclp_induct) (auto intro: css_move_absent)

lemma now_unix_cases:
  "now_unix E s = (x, t) \<Longrightarrow> t = s\<lparr>tick := Suc (tick s)\<rparr> \<and>
    (x = Inl (Coordinator ClockBeforeEpoch) \<and> clock_at E (tick s) = None \<or>
     (\<exists>n. x = Inr n \<and> clock_at E (tick s) = Some n))"
  by (auto simp: now_unix_def bnd_def ask_def fail_def ret_def split: option.splits)

text \<open>The way through an insert that reaches its last step.\<close>

lemma insert_change_set_cases:
  assumes "insert_change_set E K r0 s = (x, t)"
  obtains (checks) e where "insert_checks E K r0 = Inl e" "x = Inl e" "t = s"
    | (exists) r c where "insert_checks E K r0 = Inr r" "bt_get (mem_css s) (cs_id r) = Some c"
        "x = Inl (Coordinator (ChangeSetExists (cs_state c)))" "t = s"
    | (clock) r where "insert_checks E K r0 = Inr r" "x = Inl (Coordinator ClockBeforeEpoch)"
        "t = s\<lparr>tick := Suc (tick s)\<rparr>"
    | (sweep) r now e where "insert_checks E K r0 = Inr r" "bt_get (mem_css s) (cs_id r) = None"
        "sweep E K now (s\<lparr>tick := Suc (tick s)\<rparr>) = (Inl e, t)" "x = Inl e"
    | (full) r now where "insert_checks E K r0 = Inr r" "bt_get (mem_css s) (cs_id r) = None"
        "sweep E K now (s\<lparr>tick := Suc (tick s)\<rparr>) = (Inr (), t)" "x = Inl (Coordinator ChangeSetStoreFull)"
        "max_change_sets (limits K) \<le> length (mem_css t)"
    | (pending) r now e where "insert_checks E K r0 = Inr r" "bt_get (mem_css s) (cs_id r) = None"
        "sweep E K now (s\<lparr>tick := Suc (tick s)\<rparr>) = (Inr (), t)" "check_pending r (mem_css t) = Inl e" "x = Inl e"
    | (store) r now u where "insert_checks E K r0 = Inr r" "bt_get (mem_css s) (cs_id r) = None"
        "sweep E K now (s\<lparr>tick := Suc (tick s)\<rparr>) = (Inr (), u)"
        "length (mem_css u) < max_change_sets (limits K)" "check_pending r (mem_css u) = Inr ()"
        "store_or_undo E K ((mem u)\<lparr>st_change_sets := bt_insert (cs_id r) r (mem_css u)\<rparr>)
           ((mem u)\<lparr>st_change_sets := bt_remove (cs_id r) (bt_insert (cs_id r) r (mem_css u))\<rparr>) u = (x, t)"
proof (cases "insert_checks E K r0")
  case (Inl e)
  then show ?thesis using assms checks by (simp add: insert_change_set_def act_simps)
next
  case (Inr r)
  note chk = this
  show ?thesis
  proof (cases "bt_get (mem_css s) (cs_id r)")
    case (Some c)
    have "(x, t) = (Inl (Coordinator (ChangeSetExists (cs_state c))), s)"
      using assms unfolding insert_change_set_def bnd_lift chk sum.case bnd_gets Some option.case
        bnd_fail by simp
    then show ?thesis using exists [OF chk Some] by simp
  next
    case None
    let ?s = "s\<lparr>tick := Suc (tick s)\<rparr>"
    show ?thesis
    proof (cases "clock_at E (tick s)")
      case None
      have "(x, t) = (Inl (Coordinator ClockBeforeEpoch), ?s)"
        using assms unfolding insert_change_set_def bnd_lift chk sum.case bnd_gets
          \<open>bt_get (mem_css s) (cs_id r) = None\<close> option.case bnd_ret bnd_now_unix None by simp
      then show ?thesis using clock [OF chk] by simp
    next
      case (Some now)
      obtain y u where sw: "sweep E K now ?s = (y, u)" by (cases "sweep E K now ?s")
      have eq: "insert_change_set E K r0 s =
          bnd (sweep E K now) (\<lambda>_. bnd (gets mem) (\<lambda>st.
          bnd (ensure (length (st_change_sets st) < max_change_sets (limits K)) (Coordinator ChangeSetStoreFull)) (\<lambda>_.
          bnd (lift (check_pending r (st_change_sets st))) (\<lambda>_.
          store_or_undo E K (st\<lparr>st_change_sets := bt_insert (cs_id r) r (st_change_sets st)\<rparr>)
           (st\<lparr>st_change_sets := bt_remove (cs_id r) (bt_insert (cs_id r) r (st_change_sets st))\<rparr>))))) ?s"
        unfolding insert_change_set_def bnd_lift chk sum.case bnd_gets
          \<open>bt_get (mem_css s) (cs_id r) = None\<close> option.case bnd_ret bnd_now_unix Some Let_def ..
      have rest: "(case y of Inl e \<Rightarrow> (Inl e, u) | Inr _ \<Rightarrow>
          bnd (ensure (length (mem_css u) < max_change_sets (limits K)) (Coordinator ChangeSetStoreFull)) (\<lambda>_.
          bnd (lift (check_pending r (mem_css u))) (\<lambda>_.
          store_or_undo E K ((mem u)\<lparr>st_change_sets := bt_insert (cs_id r) r (mem_css u)\<rparr>)
           ((mem u)\<lparr>st_change_sets := bt_remove (cs_id r) (bt_insert (cs_id r) r (mem_css u))\<rparr>))) u) = (x, t)"
        using assms unfolding eq bnd_def [of "sweep E K now"] sw prod.case bnd_gets .
      note abs = \<open>bt_get (mem_css s) (cs_id r) = None\<close>
      show ?thesis
      proof (cases y)
        case (Inl e)
        show ?thesis by (rule sweep [OF chk abs]) (use rest sw Inl in auto)
      next
        case (Inr v)
        note rest' = rest [unfolded Inr sum.case bnd_ensure bnd_lift]
        have sw': "sweep E K now ?s = (Inr (), u)" using sw Inr by simp
        show ?thesis
        proof (cases "length (mem_css u) < max_change_sets (limits K)")
          case False
          then have xt: "x = Inl (Coordinator ChangeSetStoreFull)" "t = u" using rest' by auto
          show ?thesis by (rule full [OF chk abs]) (use sw' xt False in auto)
        next
          case True
          show ?thesis
          proof (cases "check_pending r (mem_css u)")
            case (Inl e)
            then have xt: "x = Inl e" "t = u" using rest' True by auto
            show ?thesis by (rule pending [OF chk abs]) (use sw' xt Inl in auto)
          next
            case (Inr w)
            then show ?thesis using store [OF chk abs sw' True] rest' True by simp
          qed
        qed
      qed
    qed
  qed
qed

lemma insert_change_set_refines:
  assumes "cs_id r0 \<in> I"
  shows "refines E K I (insert_change_set E K r0)"
proof (rule refinesI)
  fix s :: sys and x t
  assume ids: "ids_ok (mem_css s)" and r: "insert_change_set E K r0 s = (x, t)"
  let ?s = "s\<lparr>tick := Suc (tick s)\<rparr>"
  have tick: "moves (lib_of E) K I s ?s" by (rule moves_frame) simp_all
  have sw: "moves (lib_of E) K I s u" if "sweep E K now ?s = (y, u)" for now y u
    using moves_trans [OF tick refinesD [OF sweep_refines _ that]] ids by simp
  from r show "moves (lib_of E) K I s t"
  proof (cases rule: insert_change_set_cases)
    case (store r now u)
    have su: "moves (lib_of E) K I s u" by (rule sw [OF store(3)])
    have absent: "bt_get (mem_css u) (cs_id r) = None"
      using refinesD [OF sweep_refines [where I = "{}"] _ store(3)] ids store(2)
      by (auto simp: moves_def css_move_lib_of intro: css_moves_absent)
    have ok: "bt_ok (mem_css u)" using moves_ids [OF su ids] by (simp add: ids_ok_def)
    have r': "cs_state r = Planned" "cs_approval r = None" "cs_approver r = None" "cs_id r = cs_id r0"
      using insert_checks_InrD [OF store(1)] by auto
    have "css_move E I (mem_css u) (bt_insert (cs_id r) r (mem_css u))"
      using r' assms absent store(5) by (intro move_insert) (auto simp: check_pending_iff)
    moreover have "bt_remove (cs_id r) (bt_insert (cs_id r) r (mem_css u)) = mem_css u"
      by (rule bt.undo_insert [OF ok absent])
    ultimately have "moves (lib_of E) K I u t"
      using store_or_undo_moves [OF store(6), of I] by auto
    with su show ?thesis by (rule moves_trans)
  qed (auto intro: moves_refl sw tick)
qed

end
