(* ===== verification/Recovery.thy ===== *)
theory Recovery
  imports Coordinator
begin

text \<open>
  \<open>crates/mecmcp-changeset/src/recovery.rs\<close>: the offline repair of a state file, and the two
  locks of \<open>state_lock.rs\<close> as it uses them. The read-modify-write lock is taken for the whole
  repair, so the repair is one atomic action on the file; the owner lock is probed.
\<close>

datatype recovery_disposition = AsCommitted | AsDiscarded

record resolved_operation_output =
  ro_operation_id :: string
  ro_device :: string
  ro_state :: string
  ro_job_id :: "string option"
  ro_candidate_fingerprint :: string
  ro_resolution :: "string option"

fun disposition_word :: "recovery_disposition \<Rightarrow> string" where
  "disposition_word AsCommitted = ''COMMITTED''"
| "disposition_word AsDiscarded = ''DISCARDED''"

fun disposition_state :: "recovery_disposition \<Rightarrow> lifecycle_state" where
  "disposition_state AsCommitted = Committed"
| "disposition_state AsDiscarded = Discarded"

definition expected_confirmation :: "string \<Rightarrow> recovery_disposition \<Rightarrow> string" where
  "expected_confirmation oid d = ''RESOLVED '' @ oid @ '' AS '' @ disposition_word d"

definition resolve_record :: "recovery_disposition \<Rightarrow> operation_record \<Rightarrow> operation_record" where
  "resolve_record d r = r\<lparr>op_state := disposition_state d, op_config_lock_held := False,
     op_details := Some (''operator marked '' @ disposition_word d @ '' from '' @
       lifecycle_as_str (op_state r) @ '' after external device job/candidate/lock reconciliation'')\<rparr>"

definition resolved_output :: "operation_record \<Rightarrow> resolved_operation_output" where
  "resolved_output r = \<lparr>ro_operation_id = op_id r, ro_device = op_device r,
     ro_state = lifecycle_as_str (op_state r), ro_job_id = op_job_id r,
     ro_candidate_fingerprint = op_current r, ro_resolution = op_details r\<rparr>"

definition resolve_persisted_operation ::
  "'z env_scheme \<Rightarrow> string \<Rightarrow> string \<Rightarrow> recovery_disposition \<Rightarrow> string \<Rightarrow> operation_limits \<Rightarrow>
   resolved_operation_output coord" where
  "resolve_persisted_operation E path oid disposition confirmation lims =
     bnd (ensure (starts_with ''/'' path) (Coordinator PathNotAbsolute)) (\<lambda>_.
     bnd (lift (valid_id oid)) (\<lambda>_.
     bnd (ensure (confirmation = expected_confirmation oid disposition)
            (Recovery ConfirmationMismatch)) (\<lambda>_.
     bnd (ask (flock_at E)) (\<lambda>locked.
     bnd (ensure locked (Coordinator LockFileError)) (\<lambda>_.
     bnd (ask (owner_at E)) (\<lambda>owner.
     bnd (case owner of
            None \<Rightarrow> fail (Coordinator LockFileError)
          | Some got \<Rightarrow> ensure got (Recovery ServerRunning)) (\<lambda>_.
     bnd (ask (readable_at E)) (\<lambda>readable.
     bnd (gets disk) (\<lambda>d.
     bnd (lift (map_err (\<lambda>e. Coordinator (StateError e))
            (read_state E readable d (max_state_bytes lims)))) (\<lambda>st.
     case bt_get (st_operations st) oid of
       None \<Rightarrow> fail (Recovery UnknownPersistedOperation)
     | Some r \<Rightarrow>
         bnd (ensure (\<not> terminal (op_state r)) (Recovery (AlreadyTerminal (op_state r)))) (\<lambda>_.
         let r' = resolve_record disposition r;
             st' = st\<lparr>st_operations := bt_insert oid r' (st_operations st)\<rparr>
         in bnd (ask (io_at E)) (\<lambda>io.
            bnd (write_disk E (max_state_bytes lims) st' io) (\<lambda>_.
            ret (resolved_output r'))))))))))))))"

end
