(* ===== verification/Coordinator_System.thy ===== *)
theory Coordinator_System
  imports Store_Refinement Recovery
begin

text \<open>
  The coordinator as a transition system. A node is the shared state and the configuration of the
  server that has it loaded, if one has. A step is one atomic operation of a running coordinator
  with any outcome of the environment, a crash, a start (which may change every part of the
  configuration but the path of the state file), or an offline repair while no server runs. Every
  method of the crate is a sequence of such operations with others in between, so what holds for
  all runs holds for every interleaving of its methods, every failure of the file system and
  every pattern of restarts.
\<close>

type_synonym node = "sys \<times> coordinator option"

datatype label =
  LOp | LInsert string | LWrite string | LClaim string bool | LCrash | LLoad bool | LResolve | LRest

inductive cstep :: "lib \<Rightarrow> string option \<Rightarrow> node \<Rightarrow> label \<Rightarrow> node \<Rightarrow> bool"
  for L :: lib and P :: "string option"
where
  step_insert_op: "lib_of (E :: env) = L \<Longrightarrow> insert_op E K r s = (x, t) \<Longrightarrow> cstep L P (s, Some K) LOp (t, Some K)"
| step_update_op: "lib_of (E :: env) = L \<Longrightarrow> update_op E K r s = (x, t) \<Longrightarrow> cstep L P (s, Some K) LOp (t, Some K)"
| step_remove_op: "lib_of (E :: env) = L \<Longrightarrow> remove_op E K oid s = (x, t) \<Longrightarrow> cstep L P (s, Some K) LOp (t, Some K)"
| step_insert: "lib_of (E :: env) = L \<Longrightarrow> insert_change_set E K r s = (x, t) \<Longrightarrow>
    cstep L P (s, Some K) (LInsert (cs_id r)) (t, Some K)"
| step_update: "lib_of (E :: env) = L \<Longrightarrow> update_change_set E K r s = (x, t) \<Longrightarrow>
    cstep L P (s, Some K) (LWrite (cs_id r)) (t, Some K)"
| step_update_from: "lib_of (E :: env) = L \<Longrightarrow> update_change_set_from E K observed r s = (x, t) \<Longrightarrow>
    cstep L P (s, Some K) (LWrite (cs_id r)) (t, Some K)"
| step_claim: "lib_of (E :: env) = L \<Longrightarrow> claim_change_set_for_apply E K cid device handle s = (x, t) \<Longrightarrow>
    cstep L P (s, Some K) (LClaim cid (\<not> isl x)) (t, Some K)"
| step_rest: "mem t = mem s \<Longrightarrow> disk t = disk s \<Longrightarrow> cstep L P (s, k) LRest (t, k)"
| step_crash: "cstep L P (s, Some K) LCrash (s, None)"
| step_load: "lib_of (E :: env) = L \<Longrightarrow> state_path K = P \<Longrightarrow> load_with_recovery_and_key E K sr s = (x, t) \<Longrightarrow>
    cstep L P (s, None) (LLoad (\<not> isl x)) (t, if isl x then None else Some K)"
| step_resolve: "lib_of (E :: env) = L \<Longrightarrow> P = Some path \<Longrightarrow>
    resolve_persisted_operation E path oid disp conf lims s = (x, t) \<Longrightarrow>
    cstep L P (s, None) LResolve (t, None)"


section \<open>The global invariant\<close>

definition two_person :: "change_set_record \<Rightarrow> bool" where
  "two_person r \<longleftrightarrow> cs_approver r \<noteq> Some (cs_owner r) \<and>
     Option.bind (cs_approval r) ap_approver \<noteq> Some (cs_owner r)"

definition one_pending :: "css \<Rightarrow> bool" where
  "one_pending m \<longleftrightarrow>
     (\<forall>k j r q. bt_get m k = Some r \<longrightarrow> bt_get m j = Some q \<longrightarrow>
        cs_owner r = cs_owner q \<longrightarrow> cs_device r = cs_device q \<longrightarrow>
        is_pending (cs_state r) \<longrightarrow> is_pending (cs_state q) \<longrightarrow> k = j)"

definition store_inv :: "css \<Rightarrow> bool" where
  "store_inv m \<longleftrightarrow> ids_ok m \<and> (\<forall>k r. bt_get m k = Some r \<longrightarrow> two_person r) \<and> one_pending m"

definition disk_css :: "sys \<Rightarrow> (nat \<times> css) option" where
  "disk_css s = (case disk s of
     None \<Rightarrow> None
   | Some f \<Rightarrow> (case f_content f of
       Undecodable \<Rightarrow> None
     | Decoded d \<Rightarrow> Some (od_version d, st_change_sets (od_state d))))"

definition disk_inv :: "sys \<Rightarrow> bool" where
  "disk_inv s \<longleftrightarrow> (\<forall>v m. disk_css s = Some (v, m) \<longrightarrow> bt_ok m \<and> one_pending m)"

definition node_inv :: "string option \<Rightarrow> node \<Rightarrow> bool" where
  "node_inv P n \<longleftrightarrow> (\<forall>K. snd n = Some K \<longrightarrow> state_path K = P \<and> store_inv (mem_css (fst n))) \<and> disk_inv (fst n)"

subsection \<open>Abstract changes keep it\<close>

lemma two_person_cong:
  "cs_owner r' = cs_owner r \<Longrightarrow> cs_approver r' = cs_approver r \<Longrightarrow> cs_approval r' = cs_approval r \<Longrightarrow>
    two_person r' = two_person r"
  by (simp add: two_person_def)

lemma transition_pending:
  "change_set_transition_allowed a b \<Longrightarrow> is_pending b \<Longrightarrow> is_pending a"
  by (cases a; cases b) (simp_all add: is_pending_def)

lemma retire_pending: "is_pending (cs_state (retire now r)) \<Longrightarrow> is_pending (cs_state r)"
  by (auto simp: retire_def is_pending_def split: if_splits)

text \<open>Replacing a record by one that is pending only if it was keeps the pending slots unique.\<close>

lemma one_pending_map:
  assumes "one_pending m"
    and "\<And>k r. bt_get m' k = Some r \<Longrightarrow> \<exists>q. bt_get m k = Some q \<and> cs_owner r = cs_owner q \<and>
      cs_device r = cs_device q \<and> (is_pending (cs_state r) \<longrightarrow> is_pending (cs_state q))"
  shows "one_pending m'"
proof -
  have "k = j" if k: "bt_get m' k = Some r" and j: "bt_get m' j = Some q"
    and same: "cs_owner r = cs_owner q" "cs_device r = cs_device q"
    and pend: "is_pending (cs_state r)" "is_pending (cs_state q)" for k j r q
  proof -
    obtain r0 where r0: "bt_get m k = Some r0" "cs_owner r = cs_owner r0" "cs_device r = cs_device r0"
      "is_pending (cs_state r0)" using assms(2) [OF k] pend(1) by auto
    obtain q0 where q0: "bt_get m j = Some q0" "cs_owner q = cs_owner q0" "cs_device q = cs_device q0"
      "is_pending (cs_state q0)" using assms(2) [OF j] pend(2) by auto
    show ?thesis using assms(1) r0 q0 same unfolding one_pending_def by simp
  qed
  then show ?thesis unfolding one_pending_def by blast
qed

lemma one_pendingD:
  "one_pending m \<Longrightarrow> bt_get m k = Some r \<Longrightarrow> bt_get m j = Some q \<Longrightarrow> cs_owner r = cs_owner q \<Longrightarrow>
    cs_device r = cs_device q \<Longrightarrow> is_pending (cs_state r) \<Longrightarrow> is_pending (cs_state q) \<Longrightarrow> k = j"
  by (simp add: one_pending_def)

lemma css_move_two_person:
  "css_move L I m m' \<Longrightarrow> (\<forall>k r. bt_get m k = Some r \<longrightarrow> two_person r) \<Longrightarrow> bt_get m' k = Some r \<Longrightarrow> two_person r"
proof (induction rule: css_move.induct)
  case (move_sweep m' m now)
  then show ?case using move_sweep(2) [of k]
    by (cases "bt_get m k") (auto simp: two_person_cong [of "retire now _"])
next
  case (move_claim m j q b)
  then show ?case by (auto simp: bt_get_insert two_person_def split: if_splits)
qed (auto simp: bt_get_insert two_person_def dest: write_ok_two_person split: if_splits)

lemma css_move_one_pending:
  assumes "css_move L I m m'" "one_pending m" "bt_ok m"
  shows "one_pending m'"
  using assms
proof (induction rule: css_move.induct)
  case (move_write m r' r)
  show ?case
    by (rule one_pending_map [OF move_write(3)])
      (use move_write(1) write_ok_ident [OF move_write(2)] write_ok_transition [OF move_write(2)]
        in \<open>auto simp: bt_get_insert dest: transition_pending split: if_splits\<close>)
next
  case (move_claim m k r b)
  show ?case
    by (rule one_pending_map [OF move_claim(3)])
      (use move_claim(1,2) in \<open>auto simp: bt_get_insert is_pending_def split: if_splits\<close>)
next
  case (move_insert m r)
  have no: "\<not> pending_for r q" if "bt_get m j = Some q" for j q
    using move_insert(6) bt_values_get [OF move_insert(8), of q] that by auto
  show ?case
    unfolding one_pending_def
  proof (intro allI impI)
    fix k j q q'
    assume k: "bt_get (bt_insert (cs_id r) r m) k = Some q" and j: "bt_get (bt_insert (cs_id r) r m) j = Some q'"
      and same: "cs_owner q = cs_owner q'" "cs_device q = cs_device q'"
      and pend: "is_pending (cs_state q)" "is_pending (cs_state q')"
    consider "k = cs_id r" "j = cs_id r" | "k = cs_id r" "j \<noteq> cs_id r" | "k \<noteq> cs_id r" "j = cs_id r"
      | "k \<noteq> cs_id r" "j \<noteq> cs_id r" by blast
    then show "k = j"
    proof cases
      case 2
      then have "q = r" "bt_get m j = Some q'" using k j by (simp_all add: bt_get_insert)
      with no [of j q'] same pend show ?thesis by (simp add: pending_for_def)
    next
      case 3
      then have "q' = r" "bt_get m k = Some q" using k j by (simp_all add: bt_get_insert)
      with no [of k q] same pend show ?thesis by (simp add: pending_for_def)
    next
      case 4
      then have "bt_get m k = Some q" "bt_get m j = Some q'" using k j by (simp_all add: bt_get_insert)
      from one_pendingD [OF move_insert(7) this same pend] show ?thesis .
    qed simp
  qed
next
  case (move_sweep m' m now)
  show ?case
  proof (rule one_pending_map [OF move_sweep(3)])
    fix k r assume "bt_get m' k = Some r"
    with move_sweep(2) [of k] show "\<exists>q. bt_get m k = Some q \<and> cs_owner r = cs_owner q \<and>
      cs_device r = cs_device q \<and> (is_pending (cs_state r) \<longrightarrow> is_pending (cs_state q))"
      by (cases "bt_get m k") (auto dest: retire_pending)
  qed
qed

lemma css_move_inv: "css_move L I m m' \<Longrightarrow> store_inv m \<Longrightarrow> store_inv m'"
  unfolding store_inv_def
  using css_move_ids [of L I m m'] css_move_one_pending [of L I m m'] css_move_two_person [of L I m m']
  by (auto simp: ids_ok_def)

lemma css_moves_inv: "css_moves L I m m' \<Longrightarrow> store_inv m \<Longrightarrow> store_inv m'"
  by (induction rule: rtranclp_induct) (auto intro: css_move_inv)

subsection \<open>The file\<close>

lemma disk_css_file_of:
  "disk s = Some (file_of L st) \<Longrightarrow> disk_css s =
    Some (select_version (normalise_task_ids st), st_change_sets (normalise_task_ids st))"
  by (simp add: disk_css_def file_of_def on_disk_of_def Let_def)

lemma drop_empty_task_eq: "drop_empty_task = normalise_task_handle"
  by (simp add: fun_eq_iff drop_empty_task_def normalise_task_handle_def)

lemma normalise_task_ids_css:
  "bt_ok (st_change_sets st) \<Longrightarrow>
    st_change_sets (normalise_task_ids st) = bt_map drop_empty_task (st_change_sets st)"
proof (cases "\<exists>r\<in>set (bt_values (st_change_sets st)). cs_task_id r = Some []")
  case False
  have "bt_map drop_empty_task (st_change_sets st) = st_change_sets st"
    by (rule bt_map_id) (use False in \<open>force simp: bt_values_def drop_empty_task_def\<close>)
  with False show ?thesis by (simp add: normalise_task_ids_def)
qed (simp add: normalise_task_ids_def)

lemma one_pending_bt_map:
  assumes "one_pending m" "\<And>r. cs_owner (f r) = cs_owner r" "\<And>r. cs_device (f r) = cs_device r"
    and "\<And>r. is_pending (cs_state (f r)) \<Longrightarrow> is_pending (cs_state r)"
  shows "one_pending (bt_map f m)"
  by (rule one_pending_map [OF assms(1)]) (use assms(2-4) in \<open>auto simp: bt_get_map\<close>)

lemma drop_fields [simp]:
  "cs_id (drop_empty_task r) = cs_id r" "cs_owner (drop_empty_task r) = cs_owner r"
  "cs_device (drop_empty_task r) = cs_device r" "cs_state (drop_empty_task r) = cs_state r"
  "cs_digest (drop_empty_task r) = cs_digest r" "cs_approval (drop_empty_task r) = cs_approval r"
  "cs_approver (drop_empty_task r) = cs_approver r" "cs_preview (drop_empty_task r) = cs_preview r"
  by (simp_all add: drop_empty_task_def)

lemma disk_inv_file_of:
  "disk s = Some (file_of L st) \<Longrightarrow> bt_ok (st_change_sets st) \<Longrightarrow> one_pending (st_change_sets st) \<Longrightarrow> disk_inv s"
  by (auto simp: disk_inv_def disk_css_file_of normalise_task_ids_css bt_ok_map
      intro!: one_pending_bt_map)

lemma moves_disk_inv:
  assumes "moves L K I s t" "store_inv (mem_css s)" "disk_inv s"
  shows "disk_inv t"
proof (cases "disk t = disk s")
  case True
  then show ?thesis using assms(3) by (simp add: disk_inv_def disk_css_def)
next
  case False
  then obtain st where st: "disk t = Some (file_of L st)" "css_moves L I (mem_css s) (st_change_sets st)"
    using assms(1) by (auto simp: moves_def)
  then have "store_inv (st_change_sets st)" using assms(2) by (blast intro: css_moves_inv)
  with st(1) show ?thesis by (auto simp: store_inv_def ids_ok_def intro: disk_inv_file_of)
qed

lemma moves_inv: "moves L K I s t \<Longrightarrow> node_inv P (s, Some K) \<Longrightarrow> node_inv P (t, Some K)"
  by (auto simp: node_inv_def intro: moves_disk_inv css_moves_inv) (auto simp: moves_def intro: css_moves_inv)


subsection \<open>Starting and repairing\<close>

lemma read_state_css:
  assumes "read_state_with_key L rd d m key = Inr st"
  obtains f x where "d = Some f" "f_content f = Decoded x"
    "st_change_sets st = bt_map (migrate_record L (od_version x)) (st_change_sets (od_state x))"
    "\<And>k r. (k, r) \<in> set (st_change_sets (od_state x)) \<Longrightarrow>
      check_change_set_entry L (od_version x) key (k, r) = Inr ()"
proof -
  obtain f x where f: "d = Some f" "f_content f = Decoded x"
    "validate_state_with_key L (od_state x) (od_version x) key = Inr ()"
    "st = migrate L (od_version x) (od_state x)"
    by (rule read_state_InrD [OF assms])
  show ?thesis
    by (rule that [OF f(1,2)]) (use f(3,4) in \<open>auto simp: migrate_eq validate_state_iff\<close>)
qed

lemma migrate_record_two_person: "two_person (migrate_record L v r) = two_person r"
proof -
  have "Option.bind (cs_approval (migrate_record L v r)) ap_approver = Option.bind (cs_approval r) ap_approver"
    using migrate_record_approver [of L v r]
    by (cases "cs_approval r"; cases "cs_approval (migrate_record L v r)") simp_all
  then show ?thesis by (simp add: two_person_def)
qed

lemma entry_two_person': "check_change_set_entry L v key (k, r) = Inr () \<Longrightarrow> two_person r \<and> cs_id r = k"
  using entry_two_person [of L v key k r] by (cases "cs_approval r") (auto simp: two_person_def)

text \<open>A file that is accepted yields a store that satisfies the invariant.\<close>

lemma read_state_store_inv:
  assumes "read_state_with_key L rd (disk s) m key = Inr st" "disk_inv s"
  shows "store_inv (st_change_sets st)"
proof -
  obtain f x where d: "disk s = Some f" "f_content f = Decoded x"
    and css: "st_change_sets st = bt_map (migrate_record L (od_version x)) (st_change_sets (od_state x))"
    and chk: "\<And>k r. (k, r) \<in> set (st_change_sets (od_state x)) \<Longrightarrow>
      check_change_set_entry L (od_version x) key (k, r) = Inr ()"
    by (rule read_state_css [OF assms(1)]) blast
  let ?m = "st_change_sets (od_state x)"
  have ok: "bt_ok ?m" and pend: "one_pending ?m"
    using assms(2) d by (auto simp: disk_inv_def disk_css_def)
  have entry: "two_person r \<and> cs_id r = k" if "bt_get ?m k = Some r" for k r
    using entry_two_person' chk [OF bt_get_mem [OF that]] by blast
  have "one_pending (bt_map (migrate_record L (od_version x)) ?m)"
    by (rule one_pending_bt_map [OF pend]) simp_all
  then show ?thesis
    unfolding css store_inv_def ids_ok_def
    using ok entry by (auto simp: bt_ok_map bt_get_map migrate_record_two_person)
qed

lemma recover_cs_fields [simp]:
  "cs_id (recover_cs r) = cs_id r" "cs_owner (recover_cs r) = cs_owner r"
  "cs_device (recover_cs r) = cs_device r" "cs_digest (recover_cs r) = cs_digest r"
  "cs_approval (recover_cs r) = cs_approval r" "cs_approver (recover_cs r) = cs_approver r"
  "cs_preview (recover_cs r) = cs_preview r" "cs_actions (recover_cs r) = cs_actions r"
  by (simp_all add: recover_cs_def normalise_task_handle_def Let_def)

lemma recover_cs_state:
  "cs_state (recover_cs r) = cs_state r \<or> (cs_state r = Applying \<and> cs_state (recover_cs r) = Failed)"
  by (auto simp: recover_cs_def Let_def lost_apply_def normalise_task_handle_def)

lemma recover_cs_pending: "is_pending (cs_state (recover_cs r)) \<Longrightarrow> is_pending (cs_state r)"
  using recover_cs_state [of r] by (auto simp: is_pending_def)

lemma recover_store_inv:
  assumes "store_inv (st_change_sets st)"
  shows "store_inv (st_change_sets (recover_state sr st))"
proof -
  have "one_pending (bt_map recover_cs (st_change_sets st))"
    by (rule one_pending_bt_map)
      (use assms recover_cs_pending in \<open>auto simp: store_inv_def\<close>)
  then show ?thesis
    using assms unfolding recover_state_def store_inv_def ids_ok_def
    by (auto simp: bt_ok_map bt_get_map two_person_cong [of "recover_cs _"])
qed

lemma store_inv_empty: "store_inv []"
  by (simp add: store_inv_def ids_ok_def one_pending_def)

text \<open>The way a start ends: without touching the file, or after writing the recovered state.\<close>

definition read_source :: "'z env_scheme \<Rightarrow> coordinator \<Rightarrow> sys \<Rightarrow> changeset_state \<Rightarrow> bool" where
  "read_source E K s st \<longleftrightarrow>
     (state_path K = None \<or> disk s = None) \<and> st = empty_state \<or>
     state_path K \<noteq> None \<and> (\<exists>rd. read_state_with_key E rd (disk s) (max_state_bytes (limits K))
       (approval_digest_key K) = Inr st)"

lemma read_disk_cases:
  assumes "read_disk E K s = (x, t)"
  shows "mem t = mem s \<and> disk t = disk s \<and> same_rest s t \<and>
    (\<forall>st. x = Inr st \<longrightarrow> disk s = None \<and> st = empty_state \<or>
      (\<exists>rd. read_state_with_key E rd (disk s) (max_state_bytes (limits K)) (approval_digest_key K) = Inr st))"
  using assms
  by (cases "disk s")
    (auto simp: read_disk_def bnd_gets bnd_ask bnd_ensure act_apply same_rest_def map_err_def
      split: if_splits sum.splits)

lemma load_cases:
  assumes "load_with_recovery_and_key E K sr s = (x, t)"
  shows "(isl x \<and> (disk t = disk s \<or>
       (state_path K \<noteq> None \<and> (\<exists>st. read_source E K s st \<and> recovers sr st \<and> disk t = Some (file_of E (recover_state sr st)))))) \<or>
    (x = Inr () \<and> (\<exists>st. read_source E K s st \<and> mem t = recover_state sr st \<and> held t = [] \<and>
       (disk t = disk s \<and> (state_path K = None \<or> \<not> recovers sr st) \<or>
        state_path K \<noteq> None \<and> recovers sr st \<and> disk t = Some (file_of E (recover_state sr st)))))"
proof (cases "state_path K")
  case None
  have "recover_state sr empty_state = empty_state"
    by (simp add: recover_state_def empty_state_def bt_map_def)
  then show ?thesis
    using assms None by (auto simp: load_with_recovery_and_key_def act_apply read_source_def)
next
  case (Some p)
  let ?s = "s\<lparr>tick := Suc (tick s)\<rparr>"
  obtain y u where rd: "read_disk E K ?s = (y, u)" by (cases "read_disk E K ?s")
  have frame: "mem u = mem s" "disk u = disk s" using read_disk_cases [OF rd] by auto
  show ?thesis
  proof (cases "starts_with ''/'' p \<and> owner_at E (tick s) = Some True")
    case False
    then show ?thesis
      using assms Some
      by (auto simp: load_with_recovery_and_key_def bnd_ensure bnd_ask bnd_fail split: if_splits option.splits)
  next
    case True
    have step: "load_with_recovery_and_key E K sr s = bnd (read_disk E K) (\<lambda>st.
          let st' = recover_state sr st
          in bnd (if recovers sr st then
                    bnd (ask (io_at E)) (\<lambda>io. write_disk E (max_state_bytes (limits K)) st' io)
                  else ret ()) (\<lambda>_.
             modify (\<lambda>s. s\<lparr>mem := st', held := []\<rparr>))) ?s"
      using True by (simp add: load_with_recovery_and_key_def Some bnd_ensure bnd_ask ensure_def bnd_ret)
    show ?thesis
    proof (cases y)
      case (Inl e)
      then show ?thesis using assms step rd frame by (auto simp: bnd_def)
    next
      case (Inr st)
      have src: "read_source E K s st"
        using read_disk_cases [OF rd] Inr Some unfolding read_source_def by auto
      show ?thesis
      proof (cases "recovers sr st")
        case False
        then show ?thesis
          using assms step rd Inr frame src by (auto simp: bnd_def ret_def modify_def)
      next
        case rec: True
        let ?u = "u\<lparr>tick := Suc (tick u)\<rparr>" and ?st = "recover_state sr st"
        obtain z w where w: "write_disk E (max_state_bytes (limits K)) ?st (io_at E (tick u)) ?u = (z, w)"
          by (cases "write_disk E (max_state_bytes (limits K)) ?st (io_at E (tick u)) ?u")
        have "(x, t) = (case z of Inl e \<Rightarrow> (Inl e, w) | Inr v \<Rightarrow> (Inr (), w\<lparr>mem := ?st, held := []\<rparr>))"
          using assms step rd Inr rec w
          by (cases z) (auto simp: bnd_def ask_def modify_def Let_def)
        with write_disk_cases [OF w] frame src rec Some show ?thesis
          by (cases z) auto
      qed
    qed
  qed
qed

lemma resolve_cases:
  assumes "resolve_persisted_operation E path oid disp conf lims s = (x, t)"
  shows "disk t = disk s \<or>
    (\<exists>rd st ops. read_state_with_key E rd (disk s) (max_state_bytes lims) None = Inr st \<and>
       disk t = Some (file_of E (st\<lparr>st_operations := ops\<rparr>)))"
proof -
  have disk: "bnd (write_disk E n st io) (\<lambda>_. ret v) u = (y, t) \<Longrightarrow>
      disk t = disk u \<or> disk t = Some (file_of E st)" for n st io u y v
    by (cases "write_disk E n st io u")
      (auto simp: bnd_def ret_def dest: write_disk_cases split: sum.splits)
  show ?thesis
    using assms unfolding resolve_persisted_operation_def
    by (auto simp: bnd_ensure bnd_lift bnd_ask bnd_gets bnd_fail act_apply Let_def read_state_def
        valid_id_def map_err_def
        split: if_splits option.splits sum.splits dest!: disk)
qed


subsection \<open>Every step keeps the invariant\<close>

lemma inv_down: "node_inv P (s, None) \<longleftrightarrow> disk_inv s"
  by (simp add: node_inv_def)

lemma inv_up: "node_inv P (s, Some K) \<longleftrightarrow> state_path K = P \<and> store_inv (mem_css s) \<and> disk_inv s"
  by (auto simp: node_inv_def)

lemma read_source_inv: "read_source E K s st \<Longrightarrow> disk_inv s \<Longrightarrow> store_inv (st_change_sets st)"
  by (auto simp: read_source_def empty_state_def store_inv_empty intro: read_state_store_inv)

lemma disk_inv_cong: "disk t = disk s \<Longrightarrow> disk_inv t = disk_inv s"
  by (simp add: disk_inv_def disk_css_def)

lemma store_inv_disk_inv: "disk t = Some (file_of L st) \<Longrightarrow> store_inv (st_change_sets st) \<Longrightarrow> disk_inv t"
  by (auto simp: store_inv_def ids_ok_def intro: disk_inv_file_of)

lemma load_inv:
  assumes "load_with_recovery_and_key E K sr s = (x, t)" "disk_inv s"
  shows "disk_inv t \<and> (\<not> isl x \<longrightarrow> store_inv (mem_css t))"
proof -
  have src: "store_inv (st_change_sets (recover_state sr st))" if "read_source E K s st" for st
    by (rule recover_store_inv [OF read_source_inv [OF that assms(2)]])
  from load_cases [OF assms(1)] show ?thesis
    using assms(2) src disk_inv_cong [of t s] store_inv_disk_inv [of t E] by auto
qed

lemma refines_step:
  assumes "refines E K I m" "m s = (x, t)" "node_inv P (s, Some K)"
  shows "node_inv P (t, Some K)"
  using moves_inv [OF refinesD [OF assms(1) _ assms(2)] assms(3)] assms(3)
  by (simp add: inv_up store_inv_def)

lemmas op_refines = insert_op_refines update_op_refines remove_op_refines update_change_set_refines
  update_change_set_from_refines claim_refines

lemma cstep_inv: "cstep L P n l n' \<Longrightarrow> node_inv P n \<Longrightarrow> node_inv P n'"
proof (induction rule: cstep.induct)
  case (step_insert E K r s x t)
  from refines_step [OF insert_change_set_refines [of r UNIV E K] step_insert(2,3)] show ?case by simp
next
  case (step_load E K sr s x t)
  then show ?case using load_inv [OF step_load(3)] by (auto simp: inv_down inv_up)
next
  case (step_resolve E path oid disp conf lims s x t)
  have "disk_inv s" using step_resolve(4) by (simp add: inv_down)
  from resolve_cases [OF step_resolve(3)] show ?case
  proof
    assume "\<exists>rd st ops. read_state_with_key E rd (disk s) (max_state_bytes lims) None = Inr st \<and>
       disk t = Some (file_of E (st\<lparr>st_operations := ops\<rparr>))"
    then obtain rd st ops where r: "read_state_with_key E rd (disk s) (max_state_bytes lims) None = Inr st"
      and d: "disk t = Some (file_of E (st\<lparr>st_operations := ops\<rparr>))" by blast
    from store_inv_disk_inv [OF d] read_state_store_inv [OF r \<open>disk_inv s\<close>] show ?thesis
      by (simp add: inv_down)
  qed (use \<open>disk_inv s\<close> disk_inv_cong [of t s] in \<open>simp add: inv_down\<close>)
next
  case (step_rest t s k)
  then show ?case by (simp add: node_inv_def disk_inv_def disk_css_def)
next
  case (step_insert_op E K r s x t)
  from refines_step [OF op_refines(1) [where I = "{}"] step_insert_op(2,3)] show ?case .
next
  case (step_update_op E K r s x t)
  from refines_step [OF op_refines(2) [where I = "{}"] step_update_op(2,3)] show ?case .
next
  case (step_remove_op E K oid s x t)
  from refines_step [OF op_refines(3) [where I = "{}"] step_remove_op(2,3)] show ?case .
next
  case (step_update E K r s x t)
  from refines_step [OF op_refines(4) [where I = "{}"] step_update(2,3)] show ?case .
next
  case (step_update_from E K observed r s x t)
  from refines_step [OF op_refines(5) [where I = "{}"] step_update_from(2,3)] show ?case .
next
  case (step_claim E K cid device handle s x t)
  from refines_step [OF op_refines(6) [where I = "{}"] step_claim(2,3)] show ?case .
qed (simp add: inv_down inv_up)

interpretation coord: inductive_invariant "cstep L P" "node_inv P" for L P
  by unfold_locales (rule cstep_inv)

end
