(* ===== verification/Stable_Records.thy ===== *)
theory Stable_Records
  imports Coordinator_System
begin

text \<open>
  Properties of a stored change set that nothing can take away. The locale \<open>stable_record\<close> asks
  that a property survive each kind of change a record can undergo; then it survives every run
  of the system in which the record's id is not inserted again, in memory and in the file.
\<close>

definition all_at :: "(change_set_record \<Rightarrow> bool) \<Rightarrow> string \<Rightarrow> css \<Rightarrow> bool" where
  "all_at Q k m \<longleftrightarrow> (\<forall>r. bt_get m k = Some r \<longrightarrow> Q r)"

definition stable_at :: "lib \<Rightarrow> string option \<Rightarrow> (change_set_record \<Rightarrow> bool) \<Rightarrow> string \<Rightarrow> node \<Rightarrow> bool" where
  "stable_at L P Q k n \<longleftrightarrow>
     (snd n \<noteq> None \<longrightarrow> all_at Q k (mem_css (fst n))) \<and>
     (P \<noteq> None \<longrightarrow> (\<forall>v m. disk_css (fst n) = Some (v, m) \<longrightarrow> all_at Q k (bt_map (migrate_record L v) m)))"

definition reinserts :: "string \<Rightarrow> label \<Rightarrow> bool" where
  "reinserts k l \<longleftrightarrow> l = LInsert k"

lemma migrate_select_css:
  "bt_map (migrate_record L (select_version st)) (st_change_sets st) = st_change_sets st"
  using migrate_select [of L st] unfolding migrate_eq by (metis changeset_state.select_convs(2)
      changeset_state.surjective changeset_state.update_convs(2))

lemma stable_at_up:
  "stable_at L P Q k (s, Some K) \<longleftrightarrow> all_at Q k (mem_css s) \<and> stable_at L P Q k (s, None)"
  by (simp add: stable_at_def)

lemma stable_at_disk_cong: "disk t = disk s \<Longrightarrow> stable_at L P Q k (t, None) = stable_at L P Q k (s, None)"
  by (simp add: stable_at_def disk_css_def)

text \<open>Memory and file in step: the file is the one written from the store in memory.\<close>

definition in_sync :: "lib \<Rightarrow> string option \<Rightarrow> sys \<Rightarrow> bool" where
  "in_sync L P s \<longleftrightarrow> P = None \<or> disk s = Some (file_of L (mem s))"

locale stable_record =
  fixes L :: lib and P :: "string option" and Q :: "change_set_record \<Rightarrow> bool"
  assumes write_closed: "Q r \<Longrightarrow> write_ok L r r' \<Longrightarrow> Q r'"
    and claim_closed: "Q r \<Longrightarrow> cs_state r = Approved \<Longrightarrow>
      Q (r\<lparr>cs_state := Applying, cs_apply_without_handle := b\<rparr>)"
    and retire_closed: "Q r \<Longrightarrow> Q (retire now r)"
    and recover_closed: "Q r \<Longrightarrow> Q (recover_cs r)"
    and drop_closed: "Q r \<Longrightarrow> Q (drop_empty_task r)"
begin

lemma css_move_stable: "css_move L I m m' \<Longrightarrow> k \<notin> I \<Longrightarrow> all_at Q k m \<Longrightarrow> all_at Q k m'"
proof (induction rule: css_move.induct)
  case (move_sweep m' m now)
  then show ?case
    using move_sweep(2) [of k] by (cases "bt_get m k") (auto simp: all_at_def retire_closed)
qed (auto simp: all_at_def bt_get_insert intro: write_closed claim_closed)

lemma css_moves_stable: "css_moves L I m m' \<Longrightarrow> k \<notin> I \<Longrightarrow> all_at Q k m \<Longrightarrow> all_at Q k m'"
  by (induction rule: rtranclp_induct) (auto intro: css_move_stable)

lemma file_stable:
  assumes "disk s = Some (file_of L st)" "bt_ok (st_change_sets st)" "all_at Q k (st_change_sets st)"
  shows "stable_at L P Q k (s, None)"
proof -
  let ?st = "normalise_task_ids st"
  have "bt_map (migrate_record L (select_version ?st)) (st_change_sets ?st) =
      bt_map drop_empty_task (st_change_sets st)"
    by (rule trans [OF migrate_select_css normalise_task_ids_css [OF assms(2)]])
  moreover have "all_at Q k (bt_map drop_empty_task (st_change_sets st))"
    using assms(3) by (auto simp: all_at_def bt_get_map intro: drop_closed)
  ultimately show ?thesis
    using disk_css_file_of [OF assms(1)] by (simp add: stable_at_def)
qed

lemma in_sync_stable:
  assumes "in_sync L P s" "bt_ok (mem_css s)" "all_at Q k (mem_css s)"
  shows "stable_at L P Q k (s, Some K)"
proof (cases "P = None")
  case True
  then show ?thesis using assms(3) by (simp add: stable_at_def)
next
  case False
  then have "disk s = Some (file_of L (mem s))" using assms(1) by (auto simp: in_sync_def)
  from file_stable [OF this assms(2,3)] assms(3) show ?thesis by (simp add: stable_at_up)
qed

lemma moves_stable:
  assumes "moves L K I s t" "k \<notin> I" "stable_at L P Q k (s, Some K)" "ids_ok (mem_css s)"
  shows "stable_at L P Q k (t, Some K)"
proof -
  have m: "all_at Q k (mem_css t)"
    using assms(1-3) by (auto simp: moves_def stable_at_up intro: css_moves_stable)
  have "stable_at L P Q k (t, None)"
  proof (cases "disk t = disk s")
    case True
    then show ?thesis using assms(3) stable_at_disk_cong [of t s] by (simp add: stable_at_up)
  next
    case False
    then obtain st where st: "disk t = Some (file_of L st)" "css_moves L I (mem_css s) (st_change_sets st)"
      using assms(1) by (auto simp: moves_def)
    show ?thesis
      by (rule file_stable [OF st(1)])
        (use st(2) assms css_moves_ids [OF st(2)] in
          \<open>auto simp: ids_ok_def stable_at_up intro: css_moves_stable\<close>)
  qed
  with m show ?thesis by (simp add: stable_at_up)
qed

lemma read_stable:
  assumes "read_state_with_key L rd (disk s) m key = Inr st" "stable_at L P Q k (s, None)" "P \<noteq> None"
  shows "all_at Q k (st_change_sets st)"
proof -
  obtain f x where "disk s = Some f" "f_content f = Decoded x"
    "st_change_sets st = bt_map (migrate_record L (od_version x)) (st_change_sets (od_state x))"
    by (rule read_state_css [OF assms(1)]) blast
  then show ?thesis using assms(2,3) by (simp add: stable_at_def disk_css_def)
qed

lemma recover_stable: "all_at Q k (st_change_sets st) \<Longrightarrow> all_at Q k (st_change_sets (recover_state sr st))"
  by (auto simp: all_at_def recover_state_def bt_get_map intro: recover_closed)

lemma refines_stable:
  assumes "refines E K I m" "m s = (x, t)" "lib_of E = L" "k \<notin> I"
    and "node_inv P (s, Some K)" "stable_at L P Q k (s, Some K)"
  shows "stable_at L P Q k (t, Some K)"
proof -
  have ids: "ids_ok (mem_css s)" using assms(5) by (simp add: inv_up store_inv_def)
  from refinesD [OF assms(1) ids assms(2)] show ?thesis
    unfolding assms(3) using assms(4,6) ids by (rule moves_stable)
qed

lemma load_stable:
  assumes "load_with_recovery_and_key E K sr s = (x, t)" "lib_of E = L" "state_path K = P"
    and "disk_inv s" "stable_at L P Q k (s, None)"
  shows "stable_at L P Q k (t, if isl x then None else Some K)"
proof -
  have src: "all_at Q k (st_change_sets (recover_state sr st))" if rs: "read_source E K s st" for st
  proof (rule recover_stable, cases "st = empty_state")
    case True
    then show "all_at Q k (st_change_sets st)" by (simp add: all_at_def empty_state_def)
  next
    case False
    then obtain rd where "P \<noteq> None"
      "read_state_with_key L rd (disk s) (max_state_bytes (limits K)) (approval_digest_key K) = Inr st"
      using rs unfolding read_source_def assms(2) [symmetric] assms(3) lib_of_read by blast
    then show "all_at Q k (st_change_sets st)" using read_stable assms(5) by metis
  qed
  have written: "stable_at L P Q k (t, None)"
    if "disk t = Some (file_of E (recover_state sr st))" "read_source E K s st" for st
  proof (rule file_stable)
    show "disk t = Some (file_of L (recover_state sr st))" using that(1) assms(2) by auto
    show "bt_ok (st_change_sets (recover_state sr st))"
      using recover_store_inv [OF read_source_inv [OF that(2) assms(4)]]
      by (simp add: store_inv_def ids_ok_def)
  qed (rule src [OF that(2)])
  from load_cases [OF assms(1)] show ?thesis
    using written src assms(5) stable_at_disk_cong [of t s]
    by (auto simp: stable_at_up)
qed

lemma resolve_stable:
  assumes "resolve_persisted_operation E path oid disp conf lims s = (x, t)" "lib_of E = L" "P \<noteq> None"
    and "disk_inv s" "stable_at L P Q k (s, None)"
  shows "stable_at L P Q k (t, None)"
  using resolve_cases [OF assms(1)]
proof
  assume "\<exists>rd st ops. read_state_with_key E rd (disk s) (max_state_bytes lims) None = Inr st \<and>
     disk t = Some (file_of E (st\<lparr>st_operations := ops\<rparr>))"
  then obtain rd st ops where r: "read_state_with_key L rd (disk s) (max_state_bytes lims) None = Inr st"
    and d: "disk t = Some (file_of L (st\<lparr>st_operations := ops\<rparr>))" using assms(2) by auto
  show ?thesis
    by (rule file_stable [OF d])
      (use read_state_store_inv [OF r assms(4)] read_stable [OF r assms(5,3)] in
        \<open>simp_all add: store_inv_def ids_ok_def\<close>)
qed (use assms(5) stable_at_disk_cong [of t s] in simp)

lemma cstep_stable:
  assumes "cstep L P n l n'" "node_inv P n" "stable_at L P Q k n" "\<not> reinserts k l"
  shows "stable_at L P Q k n'"
  using assms
proof (induction rule: cstep.induct)
  case (step_insert E K r s x t)
  show ?case
    by (rule refines_stable [OF insert_change_set_refines [of r "{cs_id r}"] step_insert(2,1)])
      (use step_insert in \<open>auto simp: reinserts_def\<close>)
next
  case (step_load E K sr s x t)
  show ?case
    by (rule load_stable [OF step_load(3,1,2)]) (use step_load(4,5) in \<open>simp_all add: inv_down\<close>)
next
  case (step_resolve E path oid disp conf lims s x t)
  show ?case
    by (rule resolve_stable [OF step_resolve(3,1)]) (use step_resolve(2,4,5) in \<open>simp_all add: inv_down\<close>)
next
  case (step_rest t s j)
  then show ?case by (simp add: stable_at_def disk_css_def)
next
  case (step_crash s K)
  then show ?case by (simp add: stable_at_up)
next
  case (step_insert_op E K r s x t)
  show ?case
    by (rule refines_stable [OF insert_op_refines [where I = "{}"] step_insert_op(2,1)]) (use step_insert_op(3,4) in simp_all)
next
  case (step_update_op E K r s x t)
  show ?case
    by (rule refines_stable [OF update_op_refines [where I = "{}"] step_update_op(2,1)]) (use step_update_op(3,4) in simp_all)
next
  case (step_remove_op E K oid s x t)
  show ?case
    by (rule refines_stable [OF remove_op_refines [where I = "{}"] step_remove_op(2,1)]) (use step_remove_op(3,4) in simp_all)
next
  case (step_update E K r s x t)
  show ?case
    by (rule refines_stable [OF update_change_set_refines [where I = "{}"] step_update(2,1)]) (use step_update(3,4) in simp_all)
next
  case (step_update_from E K obs r s x t)
  show ?case
    by (rule refines_stable [OF update_change_set_from_refines [where I = "{}"] step_update_from(2,1)]) (use step_update_from(3,4) in simp_all)
next
  case (step_claim E K cid device handle s x t)
  show ?case
    by (rule refines_stable [OF claim_refines [where I = "{}"] step_claim(2,1)]) (use step_claim(3,4) in simp_all)
qed

end

sublocale stable_record \<subseteq> gi: guarded_invariant "cstep L P" "node_inv P" "stable_at L P Q" reinserts
  by unfold_locales (blast intro: cstep_inv cstep_stable)+

end
