(* ===== verification/Coordinator_Facts.thy ===== *)
theory Coordinator_Facts
  imports Stable_Records
begin

text \<open>
  The stable properties of a change set, as interpretations of \<open>stable_record\<close> on the model: an
  approval that was spent stays spent, the identity of a plan is fixed, a granted approval is
  fixed, and with it the preview it binds. And what a successful claim and a successful write
  leave behind.
\<close>

section \<open>Stable properties\<close>

interpretation spent: stable_record L P "\<lambda>r. spent (cs_state r)" for L P
proof
  fix r r' assume "spent (cs_state r)" "write_ok L r r'"
  then show "spent (cs_state r')" using write_ok_transition transition_spent by blast
next
  fix r :: change_set_record assume "spent (cs_state r)"
  then show "spent (cs_state (recover_cs r))" using recover_cs_state [of r] by auto
qed (simp_all add: retire_def)

interpretation ident: stable_record L P "\<lambda>r. (cs_owner r, cs_device r, cs_digest r) = i" for L P i
  by unfold_locales (use write_ok_ident in \<open>auto simp: split: prod.splits\<close>)

interpretation granted: stable_record L P "\<lambda>r. ap_approver a \<noteq> None \<and> cs_approval r = Some a" for L P a
proof
  fix r r' assume "ap_approver a \<noteq> None \<and> cs_approval r = Some a" "write_ok L r r'"
  then show "ap_approver a \<noteq> None \<and> cs_approval r' = Some a" using write_ok_approval by blast
qed simp_all

interpretation preview: stable_record L P
  "\<lambda>r. ap_approver a \<noteq> None \<and> 5 \<le> ap_digest_version a \<and> cs_approval r = Some a \<and>
     preview_digest_of r = d" for L P a d
proof
  fix r r' assume "ap_approver a \<noteq> None \<and> 5 \<le> ap_digest_version a \<and> cs_approval r = Some a \<and>
     preview_digest_of r = d" "write_ok L r r'"
  then show "ap_approver a \<noteq> None \<and> 5 \<le> ap_digest_version a \<and> cs_approval r' = Some a \<and>
     preview_digest_of r' = d" using write_ok_approval [of L r r' a] by auto
qed (simp_all add: preview_digest_of_def)



section \<open>What a claim and a write leave behind\<close>

lemma claim_success:
  assumes "claim_change_set_for_apply E K cid device handle s = (Inr c, t)"
  obtains r where "bt_get (mem_css s) cid = Some r" "cs_state r = Approved" "cs_device r = device"
    "c = r\<lparr>cs_state := Applying, cs_apply_without_handle := (handle = HandleNone)\<rparr>"
    "mem t = (mem s)\<lparr>st_change_sets := bt_insert cid c (mem_css s)\<rparr>"
    "state_path K = None \<and> disk t = disk s \<or> state_path K \<noteq> None \<and> disk t = Some (file_of E (mem t))"
    "same_rest s t"
proof -
  obtain r where r: "bt_get (mem_css s) cid = Some r" "cs_device r = device" "cs_state r = Approved"
    and rest: "(let claimed = r\<lparr>cs_state := Applying, cs_apply_without_handle := (handle = HandleNone)\<rparr>;
             st' = (mem s)\<lparr>st_change_sets := bt_insert cid claimed (mem_css s)\<rparr>
         in bnd (lift (map_err Write (check_change_set_write E (Some r) claimed ApplyClaim))) (\<lambda>_.
            bnd (put_mem st') (\<lambda>_.
            bnd (persist_locked E K st') (\<lambda>_. ret claimed)))) s = (Inr c, t)"
    using assms unfolding claim_change_set_for_apply_def
    by (auto simp: bnd_lift bnd_gets bnd_ensure act_apply valid_id_def
        split: if_splits option.splits)
  let ?c = "r\<lparr>cs_state := Applying, cs_apply_without_handle := (handle = HandleNone)\<rparr>"
  let ?st = "(mem s)\<lparr>st_change_sets := bt_insert cid ?c (mem_css s)\<rparr>"
  obtain y u where p: "persist_locked E K ?st (s\<lparr>mem := ?st\<rparr>) = (y, u)"
    by (cases "persist_locked E K ?st (s\<lparr>mem := ?st\<rparr>)")
  have chk: "check_change_set_write E (Some r) ?c ApplyClaim = Inr ()"
    using r(3) by (simp add: check_change_set_write_def)
  have y: "y = Inr ()" "c = ?c" "t = u"
    using rest p chk
    by (auto simp: Let_def lift_def map_err_def put_mem_def modify_def bnd_def ret_def split: sum.splits)
  show ?thesis
    by (rule that [OF r(1,3,2) y(2)])
      (use persist_locked_cases [OF p] y in \<open>auto simp: same_rest_def\<close>)
qed

end
