(* ===== verification/Sample_System.thy ===== *)
theory Sample_System
  imports Coordinator_Facts Persistence_Properties
begin

text \<open>A concrete environment, coordinator and store, in which an approved change set is claimed.\<close>

definition sample_env :: env where
  "sample_env = lib.extend sample_lib \<lparr>clock_at = (\<lambda>_. Some 10), rng_at = (\<lambda>_. Some (replicate 32 (CHR ''r''))),
     io_at = (\<lambda>_. IoOk), flock_at = (\<lambda>_. True), owner_at = (\<lambda>_. Some True), readable_at = (\<lambda>_. True),
     spool_at = (\<lambda>_. None), cancelled_at = (\<lambda>_. False), others_at = (\<lambda>_ s. s),
     err_text = (\<lambda>_. ''error''), nonce_at = (\<lambda>_. ''0000000000000000''), decodes = (\<lambda>_. True),
     requires_config_lock = True, fingerprint_at = (\<lambda>_. Inr sample_fingerprint),
     stage_at = (\<lambda>_. Inr ''handle''), diff_at = (\<lambda>_. Inr ''diff''), validation_at = (\<lambda>_. Inr ''valid''),
     commit_at = (\<lambda>_. Inr (Reconciled True None None)),
     rollback_at = (\<lambda>_. Inr \<lparr>ro_succeeded = True, ro_details = None\<rparr>),
     lock_at = (\<lambda>_. Inr ()), unlock_at = (\<lambda>_. Inr Released)\<rparr>"

lemma sample_env_simps [simp]:
  "clock_at sample_env n = Some 10" "rng_at sample_env n = Some (replicate 32 (CHR ''r''))"
  "io_at sample_env n = IoOk" "flock_at sample_env n" "owner_at sample_env n = Some True"
  "readable_at sample_env n" "spool_at sample_env n = None" "\<not> cancelled_at sample_env n"
  "others_at sample_env n s = s" "decodes sample_env j" "requires_config_lock sample_env"
  "fingerprint_at sample_env n = Inr sample_fingerprint" "stage_at sample_env n = Inr ''handle''"
  "commit_at sample_env n = Inr (Reconciled True None None)"
  "lock_at sample_env n = Inr ()" "unlock_at sample_env n = Inr Released"
  "rollback_at sample_env n = Inr \<lparr>ro_succeeded = True, ro_details = None\<rparr>"
  "validation_at sample_env n = Inr ''valid''" "diff_at sample_env n = Inr ''diff''"
  by (simp_all add: sample_env_def lib.defs)

lemma sample_lib_of [simp]: "lib_of sample_env = sample_lib"
  by (simp add: lib_of_def sample_env_def lib.defs sample_lib_def)

lemma sample_ser_len [simp]: "ser_len sample_env d = length (st_change_sets (od_state d))"
  by (simp add: sample_env_def lib.defs sample_lib_def)

definition sample_coordinator :: coordinator where
  "sample_coordinator = default_coordinator\<lparr>state_path := Some ''/state'', evidence_on := True, has_spool := True\<rparr>"

definition sample_approved :: change_set_record where
  "sample_approved = sample_change_set\<lparr>cs_state := Approved, cs_policy_signature := ''p'',
     cs_approver := Some ''bob'',
     cs_approval := Some \<lparr>ap_approver = Some ''bob'', ap_approved_at_unix = 5,
       ap_digest = compute_approval_digest_v5 sample_lib sample_id sample_plan_digest None
         ''alice'' ''bob'' 5, ap_digest_version = 5, ap_waived = None\<rparr>\<rparr>"

definition sample_store :: changeset_state where
  "sample_store = \<lparr>st_operations = [], st_change_sets = [(sample_id, sample_approved)]\<rparr>"

definition sample_sys :: sys where
  "sample_sys = \<lparr>mem = sample_store, disk = Some (file_of sample_lib sample_store), trail = [],
     durable = 0, held = [], dialogue = [], tick = 0\<rparr>"

abbreviation sample_node :: node where
  "sample_node \<equiv> (sample_sys, Some sample_coordinator)"

lemma sample_store_inv: "store_inv (st_change_sets sample_store)"
  by (auto simp: store_inv_def ids_ok_def one_pending_def two_person_def sample_store_def
      sample_approved_def sample_change_set_def split: if_splits)

lemma sample_node_inv: "node_inv (Some ''/state'') sample_node"
proof -
  have "disk_inv sample_sys"
    by (rule store_inv_disk_inv [of _ sample_lib sample_store])
      (simp_all add: sample_sys_def sample_store_inv)
  then show ?thesis
    using sample_store_inv by (simp add: inv_up sample_coordinator_def sample_sys_def)
qed

lemma sample_in_sync: "in_sync sample_lib (Some ''/state'') sample_sys"
  by (simp add: in_sync_def sample_sys_def)

lemma sample_get: "bt_get (mem_css sample_sys) sample_id = Some sample_approved"
  by (simp add: sample_sys_def sample_store_def)

text \<open>With the disk in order, an approved change set can be claimed.\<close>

lemma persist_succeeds:
  assumes "state_path K = None \<or> (\<forall>n. flock_at E n \<and> io_at E n = IoOk) \<and>
      ser_len E (on_disk_of st) \<le> max_state_bytes (limits K)"
  obtains t where "persist_locked E K st s = (Inr (), t)"
  using assms
  by (cases "state_path K")
    (auto simp: persist_locked_def act_apply bnd_ask bnd_ensure write_disk_def write_state_def map_err_def)

lemma claim_succeeds:
  assumes "hex64 cid" "bt_get (mem_css s) cid = Some r" "cs_state r = Approved" "cs_device r = device"
    and c: "c = r\<lparr>cs_state := Applying, cs_apply_without_handle := (handle = HandleNone)\<rparr>"
    and st: "st = (mem s)\<lparr>st_change_sets := bt_insert cid c (mem_css s)\<rparr>"
    and ok: "state_path K = None \<or> (\<forall>n. flock_at E n \<and> io_at E n = IoOk) \<and>
      ser_len E (on_disk_of st) \<le> max_state_bytes (limits K)"
  shows "\<exists>t. claim_change_set_for_apply E K cid device handle s = (Inr c, t)"
proof -
  obtain t where p: "persist_locked E K st (s\<lparr>mem := st\<rparr>) = (Inr (), t)"
    by (rule persist_succeeds [OF ok])
  have "valid_id cid = Inr ()" using assms(1) by (simp add: valid_id_def hex64_def)
  moreover have "check_change_set_write E (Some r) c ApplyClaim = Inr ()"
    using assms(3) by (simp add: check_change_set_write_def c)
  ultimately have "claim_change_set_for_apply E K cid device handle s =
      bnd (persist_locked E K st) (\<lambda>_. ret c) (s\<lparr>mem := st\<rparr>)"
    unfolding claim_change_set_for_apply_def
    by (simp add: bnd_lift bnd_gets bnd_ensure Let_def map_err_def put_mem_def bnd_modify
        assms(2-4) flip: c st)
  then show ?thesis using p by (simp add: bnd_def ret_def)
qed

lemma sample_claim:
  "\<exists>t. cstep sample_lib (Some ''/state'') sample_node (LClaim sample_id True) (t, Some sample_coordinator) \<and>
     bt_get (mem_css t) sample_id = Some (sample_approved\<lparr>cs_state := Applying\<rparr>)"
proof -
  let ?c = "sample_approved\<lparr>cs_state := Applying\<rparr>"
  have same: "sample_approved\<lparr>cs_state := Applying, cs_apply_without_handle := (HandleExpected = HandleNone)\<rparr> = ?c"
    by (simp add: sample_approved_def sample_change_set_def)
  have "\<exists>t. claim_change_set_for_apply sample_env sample_coordinator sample_id ''fw-01'' HandleExpected sample_sys =
      (Inr (sample_approved\<lparr>cs_state := Applying, cs_apply_without_handle := (HandleExpected = HandleNone)\<rparr>), t)"
    by (rule claim_succeeds [OF sample_formats(1) sample_get _ _ refl refl])
      (auto simp: sample_approved_def sample_change_set_def sample_ser_len on_disk_of_def
        Let_def normalise_task_ids_def sample_coordinator_def default_coordinator_def default_limits_def
        sample_sys_def sample_store_def)
  then obtain t where t: "claim_change_set_for_apply sample_env sample_coordinator sample_id ''fw-01''
      HandleExpected sample_sys = (Inr ?c, t)" unfolding same by blast
  have "cstep sample_lib (Some ''/state'') sample_node (LClaim sample_id (\<not> isl (Inr ?c :: coord_error + _)))
      (t, Some sample_coordinator)"
    by (rule step_claim [OF sample_lib_of t])
  moreover have "bt_get (mem_css t) sample_id = Some ?c"
    by (rule claim_success [OF t]) (simp add: bt_get_insert)
  ultimately show ?thesis by auto
qed

lemma sample_claim_run:
  obtains t where "run (cstep sample_lib (Some ''/state'')) sample_node [LClaim sample_id True] (t, Some sample_coordinator)"
    "bt_get (mem_css t) sample_id = Some (sample_approved\<lparr>cs_state := Applying\<rparr>)"
proof -
  obtain t where t: "cstep sample_lib (Some ''/state'') sample_node (LClaim sample_id True) (t, Some sample_coordinator)"
    "bt_get (mem_css t) sample_id = Some (sample_approved\<lparr>cs_state := Applying\<rparr>)"
    using sample_claim by blast
  have "run (cstep sample_lib (Some ''/state'')) sample_node [LClaim sample_id True] (t, Some sample_coordinator)"
    by (rule run_single) (rule t(1))
  from that [OF this t(2)] show ?thesis .
qed

end
