(* ===== verification/Coordinator_Properties.thy ===== *)
theory Coordinator_Properties
  imports Sample_System
begin

text \<open>The properties of the coordinator's store over every run of the system.\<close>

lemma claim_stepE:
  assumes "cstep L P n (LClaim k True) n'"
  obtains E K device handle s c t where "n = (s, Some K)" "n' = (t, Some K)" "lib_of (E :: env) = L"
    "claim_change_set_for_apply E K k device handle s = (Inr c, t)"
  using assms
proof (cases rule: cstep.cases)
  case (step_claim E K device handle s x t)
  then obtain c where "x = Inr c" by (cases x) auto
  with step_claim that show ?thesis by auto
qed

lemma claim_step:
  assumes "cstep L P n (LClaim k True) n'" "node_inv P n"
  shows "snd n \<noteq> None \<and> (\<exists>r. bt_get (mem_css (fst n)) k = Some r \<and> cs_state r = Approved) \<and>
    stable_at L P (\<lambda>r. spent (cs_state r)) k n'"
proof -
  obtain E :: env and K device handle s c t where n: "n = (s, Some K)" "n' = (t, Some K)"
    and L: "lib_of E = L" and cl: "claim_change_set_for_apply E K k device handle s = (Inr c, t)"
    by (rule claim_stepE [OF assms(1)])
  have up: "node_inv P (s, Some K)" using assms(2) n by simp
  obtain r where r: "bt_get (mem_css s) k = Some r" "cs_state r = Approved"
    "c = r\<lparr>cs_state := Applying, cs_apply_without_handle := (handle = HandleNone)\<rparr>"
    "mem t = (mem s)\<lparr>st_change_sets := bt_insert k c (mem_css s)\<rparr>"
    and d: "state_path K = None \<and> disk t = disk s \<or> state_path K \<noteq> None \<and> disk t = Some (file_of E (mem t))"
    by (rule claim_success [OF cl]) blast
  have "in_sync L P t"
    using d up L by (auto simp: in_sync_def inv_up)
  moreover have "bt_ok (mem_css t)"
    using up r(4) by (simp add: inv_up store_inv_def ids_ok_def bt_ok_insert)
  moreover have "all_at (\<lambda>r. spent (cs_state r)) k (mem_css t)"
    using r(3,4) by (simp add: all_at_def bt_get_insert)
  ultimately have "stable_at L P (\<lambda>r. spent (cs_state r)) k (t, Some K)"
    by (rule spent.in_sync_stable)
  then show ?thesis using n r(1,2) by auto
qed


section \<open>Two-person control\<close>

text \<open>A step leaves the file alone or replaces it by a store that satisfies the invariant.\<close>

definition sound_write :: "sys \<Rightarrow> sys \<Rightarrow> bool" where
  "sound_write s t \<longleftrightarrow>
     disk t = disk s \<or> (\<exists>L st. disk t = Some (file_of (L :: lib) st) \<and> store_inv (st_change_sets st))"

lemma sound_writeI:
  "disk t = disk s \<or> (\<exists>st. disk t = Some (file_of (E :: 'z env_scheme) st) \<and> store_inv (st_change_sets st)) \<Longrightarrow> sound_write s t"
  unfolding sound_write_def by (elim disjE exE conjE) (simp, metis lib_of_checks(3))

lemma refines_sound_write:
  assumes "refines E K I m" "m s = (x, t)" "node_inv P (s, Some K)"
  shows "sound_write s t"
proof -
  have "store_inv (mem_css s)" using assms(3) by (simp add: inv_up)
  moreover from this have "moves (lib_of E) K I s t"
    by (intro refinesD [OF assms(1) _ assms(2)]) (simp add: store_inv_def)
  ultimately show ?thesis unfolding moves_def sound_write_def by (blast intro: css_moves_inv)
qed

lemma cstep_sound_write: "cstep L P n l n' \<Longrightarrow> node_inv P n \<Longrightarrow> sound_write (fst n) (fst n')"
proof (induction rule: cstep.induct)
  case (step_insert E K r s x t)
  from refines_sound_write [OF insert_change_set_refines [of r UNIV E K] step_insert(2,3)] show ?case by simp
next
  case (step_load E K sr s x t)
  have src: "store_inv (st_change_sets (recover_state sr st))" if "read_source E K s st" for st
    by (rule recover_store_inv [OF read_source_inv [OF that]]) (use step_load(4) in \<open>simp add: inv_down\<close>)
  from load_cases [OF step_load(3)]
  have "disk t = disk s \<or> (\<exists>st. read_source E K s st \<and> disk t = Some (file_of E (recover_state sr st)))" by blast
  then show ?case using src by (intro sound_writeI [of _ _ E]) auto
next
  case (step_resolve E path oid disp conf lims s x t)
  have "store_inv (st_change_sets st)" if "read_state_with_key E rd (disk s) (max_state_bytes lims) None = Inr st" for rd st
    by (rule read_state_store_inv [OF that]) (use step_resolve(4) in \<open>simp add: inv_down\<close>)
  with resolve_cases [OF step_resolve(3)] show ?case by (intro sound_writeI [of _ _ E]) fastforce
next
  case (step_rest t s k)
  then show ?case by (simp add: sound_write_def)
next
  case (step_insert_op E K r s x t)
  from refines_sound_write [OF op_refines(1) [where I = "{}"] step_insert_op(2,3)] show ?case by simp
next
  case (step_update_op E K r s x t)
  from refines_sound_write [OF op_refines(2) [where I = "{}"] step_update_op(2,3)] show ?case by simp
next
  case (step_remove_op E K oid s x t)
  from refines_sound_write [OF op_refines(3) [where I = "{}"] step_remove_op(2,3)] show ?case by simp
next
  case (step_update E K r s x t)
  from refines_sound_write [OF op_refines(4) [where I = "{}"] step_update(2,3)] show ?case by simp
next
  case (step_update_from E K observed r s x t)
  from refines_sound_write [OF op_refines(5) [where I = "{}"] step_update_from(2,3)] show ?case by simp
next
  case (step_claim E K cid device handle s x t)
  from refines_sound_write [OF op_refines(6) [where I = "{}"] step_claim(2,3)] show ?case by simp
qed (simp add: sound_write_def)

definition file_from :: "state_file option \<Rightarrow> node \<Rightarrow> bool" where
  "file_from d n \<longleftrightarrow> disk (fst n) = d \<or>
     (\<exists>L st. disk (fst n) = Some (file_of (L :: lib) st) \<and> store_inv (st_change_sets st))"

interpretation coord_file: inductive_invariant "cstep L P" "\<lambda>n. node_inv P n \<and> file_from d n" for L P d
proof
  fix n l n' assume n: "node_inv P n \<and> file_from d n" "cstep L P n l n'"
  then have "sound_write (fst n) (fst n')" by (blast intro: cstep_sound_write)
  then show "node_inv P n' \<and> file_from d n'" using n cstep_inv [OF n(2)] by (auto simp: sound_write_def file_from_def)
qed

lemma claim_on_file:
  assumes "cstep L P n (LClaim k True) n'" "node_inv P n" "P \<noteq> None"
  obtains v m r where "disk_css (fst n') = Some (v, m)" "bt_get m k = Some r" "cs_state r = Applying"
proof -
  obtain E :: env and K device handle s c t where n: "n = (s, Some K)" "n' = (t, Some K)"
    and cl: "claim_change_set_for_apply E K k device handle s = (Inr c, t)"
    by (rule claim_stepE [OF assms(1)])
  have K: "state_path K \<noteq> None" "bt_ok (mem_css s)"
    using assms(2,3) n by (simp_all add: inv_up store_inv_def ids_ok_def)
  have t: "disk t = Some (file_of E (mem t))" "mem_css t = bt_insert k c (mem_css s)" "cs_state c = Applying"
    by (rule claim_success [OF cl], use K in simp)+
  have "disk_css t = Some (select_version (normalise_task_ids (mem t)), bt_map drop_empty_task (mem_css t))"
    using K(2) by (simp add: disk_css_file_of [OF t(1)] normalise_task_ids_css t(2) bt_ok_insert)
  then show ?thesis using that [of _ _ "drop_empty_task c"] n t by (simp add: bt_get_map bt_get_insert)
qed

text \<open>
  C4. Two-person control: in every run of the system from a node whose invariant holds (a server
  that is down satisfies it with any file of a well-formed state in which nobody has two pending
  sets on one device), no change set in a loaded store is ever approved by its own owner, in the
  tamper-evident record or in the legacy field, whatever updates are attempted. The same holds of
  the file, unless it is still the file the run started from.
\<close>

theorem approver_is_never_owner:
  assumes "node_inv P n" "run (cstep L P) n ls n'"
    and "snd n' \<noteq> None \<and> m = mem_css (fst n') \<or> disk (fst n') \<noteq> disk (fst n) \<and> disk_css (fst n') = Some (v, m)"
    and "bt_get m k = Some r"
  shows "cs_approver r \<noteq> Some (cs_owner r) \<and>
    (\<forall>a. cs_approval r = Some a \<longrightarrow> ap_approver a \<noteq> Some (cs_owner r))"
proof -
  have inv: "node_inv P n' \<and> file_from (disk (fst n)) n'"
    by (rule coord_file.run_inv [OF assms(2)]) (simp add: assms(1) file_from_def)
  from assms(3) have "two_person r"
  proof
    assume "snd n' \<noteq> None \<and> m = mem_css (fst n')"
    then show ?thesis using inv assms(4) by (auto simp: node_inv_def store_inv_def)
  next
    assume d: "disk (fst n') \<noteq> disk (fst n) \<and> disk_css (fst n') = Some (v, m)"
    then obtain L' :: lib and st where st: "disk (fst n') = Some (file_of L' st)" "store_inv (st_change_sets st)"
      using inv by (auto simp: file_from_def)
    then have "m = bt_map drop_empty_task (st_change_sets st)"
      using d by (simp add: disk_css_file_of [OF st(1)] normalise_task_ids_css store_inv_def ids_ok_def)
    then show ?thesis using st(2) assms(4) by (auto simp: store_inv_def bt_get_map two_person_cong [of "drop_empty_task _"])
  qed
  then show ?thesis by (auto simp: two_person_def)
qed

theorem approver_is_never_owner_witness:
  "\<exists>t. run (cstep sample_lib (Some ''/state'')) sample_node [LClaim sample_id True] (t, Some sample_coordinator) \<and>
     (\<exists>r. bt_get (mem_css t) sample_id = Some r \<and> cs_approver r \<noteq> Some (cs_owner r)) \<and>
     (\<exists>r v m. disk_css t = Some (v, m) \<and> bt_get m sample_id = Some r \<and> cs_state r = Applying \<and>
        cs_approver r \<noteq> Some (cs_owner r))"
proof -
  let ?c = "sample_approved\<lparr>cs_state := Applying\<rparr>"
  obtain t where t: "run (cstep sample_lib (Some ''/state'')) sample_node [LClaim sample_id True] (t, Some sample_coordinator)"
    "bt_get (mem_css t) sample_id = Some ?c"
    and cl: "cstep sample_lib (Some ''/state'') sample_node (LClaim sample_id True) (t, Some sample_coordinator)"
    using sample_claim run_single by metis
  obtain v m r where d: "disk_css t = Some (v, m)" "bt_get m sample_id = Some r" "cs_state r = Applying"
    using claim_on_file [OF cl sample_node_inv] by auto
  have "disk t \<noteq> disk sample_sys"
  proof
    assume "disk t = disk sample_sys"
    then have "disk_css t = disk_css sample_sys" by (simp add: disk_css_def)
    also have "disk_css sample_sys = Some (select_version (normalise_task_ids sample_store), st_change_sets (normalise_task_ids sample_store))"
      by (rule disk_css_file_of [of _ sample_lib]) (simp add: sample_sys_def)
    finally have "m = bt_map drop_empty_task (st_change_sets sample_store)"
      using d(1) sample_store_inv by (simp add: normalise_task_ids_css store_inv_def ids_ok_def)
    then show False using d(2,3) by (auto simp: sample_store_def sample_approved_def bt_get_map)
  qed
  then show ?thesis
    using t d approver_is_never_owner [OF sample_node_inv t(1), of "mem_css t" 0 sample_id ?c]
      approver_is_never_owner [OF sample_node_inv t(1), of m v sample_id r] by auto
qed


section \<open>One approval, one execution\<close>

text \<open>
  C1. An approval is spent at most once: after a successful claim of a change set, no later claim
  of that id succeeds, through every interleaving, persistence failure, crash, restart and offline
  repair, unless the id is inserted again.
\<close>

theorem claimed_at_most_once:
  assumes "node_inv P n" "run (cstep L P) n (xs @ LClaim k True # ys) n'" "LInsert k \<notin> set ys"
  shows "LClaim k True \<notin> set ys"
proof
  assume "LClaim k True \<in> set ys"
  then obtain as bs where ys: "ys = as @ LClaim k True # bs" by (auto dest: split_list)
  obtain n1 where n1: "run (cstep L P) n xs n1" "run (cstep L P) n1 (LClaim k True # ys) n'"
    using assms(2) by (rule run_appendE)
  obtain n2 where n2: "cstep L P n1 (LClaim k True) n2" "run (cstep L P) n2 ys n'"
    using n1(2) by (rule run_consE)
  obtain n3 where n3: "run (cstep L P) n2 as n3" "run (cstep L P) n3 (LClaim k True # bs) n'"
    using n2(2) unfolding ys by (rule run_appendE)
  obtain n4 where n4: "cstep L P n3 (LClaim k True) n4" using n3(2) by (rule run_consE)
  have inv1: "node_inv P n1" by (rule coord.run_inv [OF n1(1) assms(1)])
  have inv2: "node_inv P n2" by (rule cstep_inv [OF n2(1) inv1])
  have inv3: "node_inv P n3" by (rule coord.run_inv [OF n3(1) inv2])
  have "stable_at L P (\<lambda>r. spent (cs_state r)) k n3"
    by (rule spent.gi.run_ginv [OF n3(1) inv2])
      (use claim_step [OF n2(1) inv1] assms(3) in \<open>auto simp: ys reinserts_def\<close>)
  moreover obtain r where "bt_get (mem_css (fst n3)) k = Some r" "cs_state r = Approved"
    using claim_step [OF n4 inv3] by blast
  moreover have "snd n3 \<noteq> None" using claim_step [OF n4 inv3] by blast
  ultimately show False by (auto simp: stable_at_def all_at_def)
qed

theorem claimed_at_most_once_witness:
  "(\<exists>n'. run (cstep sample_lib (Some ''/state'')) sample_node ([] @ LClaim sample_id True # [LCrash]) n') \<and>
   LClaim sample_id True \<notin> set [LCrash]"
proof -
  obtain t where "cstep sample_lib (Some ''/state'') sample_node (LClaim sample_id True) (t, Some sample_coordinator)"
    using sample_claim by blast
  then have r: "run (cstep sample_lib (Some ''/state'')) sample_node ([] @ LClaim sample_id True # [LCrash]) (t, None)"
    by (auto intro: run_cons run_single step_crash)
  with claimed_at_most_once [OF sample_node_inv r] show ?thesis by auto
qed


section \<open>What an approval freezes\<close>

text \<open>
  C7. From a moment at which memory and file agree, and as long as the id is not inserted again,
  the owner, the device and the plan digest of a change set never change; an approval granted by
  a person is never rewritten or removed; the preview digest it binds (digest version 5 and up)
  never changes; and a spent approval never becomes available again. This holds across restarts.
\<close>

theorem record_is_frozen:
  assumes "node_inv P (s, Some K)" "in_sync L P s" "bt_get (mem_css s) k = Some r"
    and "run (cstep L P) (s, Some K) ls (t, Some K')" "LInsert k \<notin> set ls"
    and "bt_get (mem_css t) k = Some r'"
  shows "cs_owner r' = cs_owner r \<and> cs_device r' = cs_device r \<and> cs_digest r' = cs_digest r \<and>
    (\<forall>a. cs_approval r = Some a \<longrightarrow> ap_approver a \<noteq> None \<longrightarrow>
       cs_approval r' = Some a \<and>
       (5 \<le> ap_digest_version a \<longrightarrow> preview_digest_of r' = preview_digest_of r)) \<and>
    (spent (cs_state r) \<longrightarrow> spent (cs_state r'))"
proof -
  have ok: "bt_ok (mem_css s)" using assms(1) by (simp add: inv_up store_inv_def ids_ok_def)
  have nr: "\<forall>l\<in>set ls. \<not> reinserts k l" using assms(5) by (auto simp: reinserts_def)
  have fin: "Q r'" if "stable_at L P Q k (t, Some K')" for Q
    using that assms(6) by (simp add: stable_at_def all_at_def)
  have i: "(cs_owner r', cs_device r', cs_digest r') = (cs_owner r, cs_device r, cs_digest r)"
    by (rule fin, rule ident.gi.run_ginv [OF assms(4,1) ident.in_sync_stable [OF assms(2) ok] nr])
      (use assms(3) in \<open>simp add: all_at_def\<close>)
  have a: "cs_approval r' = Some a" if "cs_approval r = Some a" "ap_approver a \<noteq> None" for a
    using fin [OF granted.gi.run_ginv [OF assms(4,1) granted.in_sync_stable [OF assms(2) ok] nr, of a]]
      that assms(3) by (simp add: all_at_def)
  have p: "preview_digest_of r' = preview_digest_of r"
    if "cs_approval r = Some a" "ap_approver a \<noteq> None" "5 \<le> ap_digest_version a" for a
    using fin [OF preview.gi.run_ginv [OF assms(4,1) preview.in_sync_stable [OF assms(2) ok] nr,
          of a "preview_digest_of r"]]
      that assms(3) by (simp add: all_at_def)
  have sp: "spent (cs_state r')" if "spent (cs_state r)"
    using fin [OF spent.gi.run_ginv [OF assms(4,1) spent.in_sync_stable [OF assms(2) ok] nr]]
      that assms(3) by (simp add: all_at_def)
  show ?thesis using i a p sp by blast
qed

theorem record_is_frozen_witness:
  "\<exists>t r'. bt_get (mem_css t) sample_id = Some r' \<and> cs_approval r' = cs_approval sample_approved \<and>
     run (cstep sample_lib (Some ''/state'')) sample_node [LClaim sample_id True] (t, Some sample_coordinator)"
proof -
  obtain t where t: "run (cstep sample_lib (Some ''/state'')) sample_node [LClaim sample_id True] (t, Some sample_coordinator)"
    "bt_get (mem_css t) sample_id = Some (sample_approved\<lparr>cs_state := Applying\<rparr>)"
    by (rule sample_claim_run)
  have "\<forall>a. cs_approval sample_approved = Some a \<longrightarrow> ap_approver a \<noteq> None \<longrightarrow>
      cs_approval (sample_approved\<lparr>cs_state := Applying\<rparr>) = Some a"
    using record_is_frozen [OF sample_node_inv sample_in_sync sample_get t(1) _ t(2)]
    by auto
  with t t(1) show ?thesis by (fastforce simp: sample_approved_def)
qed


section \<open>Pending slots\<close>

text \<open>
  C31. At any time a principal has at most one change set on a device that is planned, approved or
  applying.
\<close>

theorem one_pending_per_principal:
  assumes "node_inv P n" "run (cstep L P) n ls (s, Some K)"
    and "bt_get (mem_css s) k = Some r" "bt_get (mem_css s) j = Some q"
    and "cs_owner r = cs_owner q" "cs_device r = cs_device q"
    and "is_pending (cs_state r)" "is_pending (cs_state q)"
  shows "k = j"
proof -
  have "one_pending (mem_css s)" using coord.run_inv [OF assms(2,1)] by (simp add: inv_up store_inv_def)
  from one_pendingD [OF this assms(3-8)] show ?thesis .
qed

theorem one_pending_per_principal_witness:
  "\<exists>t. \<forall>j q. bt_get (mem_css t) j = Some q \<and> cs_owner q = ''alice'' \<and> cs_device q = ''fw-01'' \<and>
     is_pending (cs_state q) \<longrightarrow> j = sample_id"
proof -
  obtain t where t: "run (cstep sample_lib (Some ''/state'')) sample_node [LClaim sample_id True] (t, Some sample_coordinator)"
    "bt_get (mem_css t) sample_id = Some (sample_approved\<lparr>cs_state := Applying\<rparr>)"
    by (rule sample_claim_run)
  have "j = sample_id" if "bt_get (mem_css t) j = Some q" "cs_owner q = ''alice''"
    "cs_device q = ''fw-01''" "is_pending (cs_state q)" for j q
    by (rule one_pending_per_principal [OF sample_node_inv t(1) that(1) t(2)])
      (use that in \<open>simp_all add: sample_approved_def sample_change_set_def is_pending_def\<close>)
  then show ?thesis by blast
qed

end
