(* ===== verification/Operation.thy ===== *)
theory Operation
  imports Coordinator
begin

text \<open>
  \<open>crates/mecmcp-changeset/src/operation.rs\<close>: one operation on a device, from staging to commit or
  discard. Every device call enters the dialogue and lets the other tasks of the server run; the staged
  handle of a vendor is a string.
\<close>

section \<open>Endpoints\<close>

text \<open>
  \<open>Url::parse\<close> is a parameter. A host it returns is ASCII (international names are encoded), so
  lowering its ASCII letters is what \<open>str::to_lowercase\<close> does to it.
\<close>

definition endpoint_text :: "string \<Rightarrow> string \<Rightarrow> url \<Rightarrow> string" where
  "endpoint_text scheme host u =
     scheme @ ''://'' @ to_lowercase host @
     (case url_port u of None \<Rightarrow> [] | Some p \<Rightarrow> '':'' @ decimal p) @
     trim_end_matches (CHR ''/'') (url_path u)"

definition canonicalize_endpoint :: "'z lib_scheme \<Rightarrow> string \<Rightarrow> coord_error + string" where
  "canonicalize_endpoint L endpoint =
     res_bind (require (starts_with ''https://'' endpoint \<or> starts_with ''HTTPS://'' endpoint)
                 (Operation EndpointNotHttps)) (\<lambda>_.
     case url_parse L endpoint of
       None \<Rightarrow> Inl (Apply EndpointInvalid)
     | Some u \<Rightarrow>
         res_bind (require (url_scheme u = ''https'') (Operation EndpointNotHttps)) (\<lambda>_.
         case url_host u of
           None \<Rightarrow> Inl (Apply EndpointNoHost)
         | Some host \<Rightarrow> Inr (endpoint_text ''https'' host u)))"


section \<open>Shared steps\<close>

text \<open>A vendor error whose text becomes the message of a \<open>transaction\<close> error.\<close>

abbreviation device_try :: "(string + 'a) coord \<Rightarrow> 'a coord" where
  "device_try \<equiv> or_fail (\<lambda>t. Operation (TransactionError t))"

definition not_cancelled :: "'z env_scheme \<Rightarrow> unit coord" where
  "not_cancelled E = bnd (is_cancelled E) (\<lambda>c. ensure (\<not> c) (Coordinator OperationCancelled))"

text \<open>Read the device's fingerprint and compare it with the caller's and with the record's.\<close>

definition guard_fingerprint :: "'z env_scheme \<Rightarrow> operation_record \<Rightarrow> string \<Rightarrow> unit coord" where
  "guard_fingerprint E r expected =
     bnd (device_try (dev_fingerprint E)) (\<lambda>actual.
     lift (map_err (\<lambda>e. Operation (GuardFailed e)) (require_operation_fingerprint r expected actual)))"


section \<open>Staging\<close>

record stage_output =
  so_operation_id :: string
  so_staged :: string
  so_before_fingerprint :: string
  so_after_fingerprint :: string

definition staging_record ::
  "string \<Rightarrow> string \<Rightarrow> string \<Rightarrow> string \<Rightarrow> string \<Rightarrow> string option \<Rightarrow> json list \<Rightarrow> string \<Rightarrow> string \<Rightarrow>
   string option \<Rightarrow> operation_record" where
  "staging_record oid owner device endpoint discriminator target actions fp policy authority =
     \<lparr>op_id = oid, op_owner = owner, op_device = device, op_endpoint = endpoint,
      op_action = JStr discriminator, op_xpath = target, op_actions = actions,
      op_change_set_id = None, op_current = fp, op_state = Staging, op_job_id = None,
      op_details = None, op_config_lock_held = False, op_policy_signature = policy,
      op_attribution = None, op_rollback_deadline_unix = None, op_config_authority = authority\<rparr>"

text \<open>
  The inner block of \<open>stage_operation\<close>. Its error carries what the block has set before it ended:
  the record, whether the device was touched and whether the device lock was acquired.
\<close>

record stage_failure =
  sf_error :: coord_error
  sf_record :: operation_record
  sf_touched :: bool
  sf_locked :: bool

definition failing_with ::
  "operation_record \<Rightarrow> bool \<Rightarrow> bool \<Rightarrow> 'a coord \<Rightarrow> (sys, stage_failure, 'a) act" where
  "failing_with r touched locked m s = (case m s of (x, t) \<Rightarrow>
     (map_err (\<lambda>e. \<lparr>sf_error = e, sf_record = r, sf_touched = touched, sf_locked = locked\<rparr>) x, t))"

definition stage_block ::
  "'z env_scheme \<Rightarrow> coordinator \<Rightarrow> operation_record \<Rightarrow> string \<Rightarrow>
   (sys, stage_failure, string \<times> string \<times> string) act" where
  "stage_block E K r0 expected =
     (let r = r0\<lparr>op_config_lock_held := True\<rparr>;
          needs = requires_config_lock E
      in bnd (if needs then
                bnd (failing_with r False False (await E (update_op E K r))) (\<lambda>_.
                failing_with r False False
                  (or_fail (\<lambda>t. Operation (ConfigLockError t))
                     (dev_lock E (''mecmcp operation '' @ op_id r0))))
              else ret ()) (\<lambda>_.
         bnd (failing_with (if needs then r else r0) False needs
                (bnd (device_try (dev_fingerprint E)) (\<lambda>before.
                 bnd (ensure (expected = before) (Operation CandidateMoved)) (\<lambda>_. ret before)))) (\<lambda>before.
         bnd (failing_with r False needs (await E (update_op E K r))) (\<lambda>_.
         failing_with r True needs
           (bnd (device_try (dev_stage E (op_actions r0))) (\<lambda>staged.
            bnd (device_try (dev_fingerprint E)) (\<lambda>after.
            ret (before, after, staged))))))))"

text \<open>The three ways on from the block: it succeeded, it touched the device, it did not.\<close>

definition stage_succeeded ::
  "'z env_scheme \<Rightarrow> coordinator \<Rightarrow> operation_record \<Rightarrow> string \<times> string \<times> string \<Rightarrow> stage_output coord" where
  "stage_succeeded E K r0 result =
     (case result of (before, after, staged) \<Rightarrow>
        let r = r0\<lparr>op_current := after, op_state := Staged, op_config_lock_held := True\<rparr>
        in catch (await E (update_op E K r))
             (\<lambda>e. bnd (discard (await E (update_op E K (r\<lparr>op_state := Indeterminate,
                     op_details := Some (''staging succeeded but final persistence failed: '' @ err_text E e)\<rparr>))))
                  (\<lambda>_. fail (Operation StageStateError)))
             (\<lambda>_. ret \<lparr>so_operation_id = op_id r0, so_staged = staged,
                     so_before_fingerprint = before, so_after_fingerprint = after\<rparr>))"

definition stage_touched ::
  "'z env_scheme \<Rightarrow> coordinator \<Rightarrow> stage_failure \<Rightarrow> 'a coord" where
  "stage_touched E K f =
     bnd (discard (await E (update_op E K ((sf_record f)\<lparr>op_state := Indeterminate,
            op_details := Some (''staging failed after the candidate was touched: '' @ err_text E (sf_error f)),
            op_config_lock_held := True\<rparr>))))
       (\<lambda>_. fail (Operation StageIndeterminate))"

text \<open>Release a lock taken on the way in; a release that is not confirmed keeps the record.\<close>

definition lock_released :: "'z env_scheme \<Rightarrow> bool \<Rightarrow> bool coord" where
  "lock_released E locked =
     (if locked then bnd (dev_unlock E) (\<lambda>u. ret (u = Inr Released))
      else ret True)"

definition stage_untouched ::
  "'z env_scheme \<Rightarrow> coordinator \<Rightarrow> stage_failure \<Rightarrow> 'a coord" where
  "stage_untouched E K f =
     bnd (lock_released E (sf_locked f)) (\<lambda>released.
     if released then
       bnd (await E (remove_op E K (op_id (sf_record f)))) (\<lambda>_. fail (sf_error f))
     else
       bnd (discard (await E (update_op E K ((sf_record f)\<lparr>op_state := Indeterminate,
              op_details := Some (''staging failed and the device lock could not be confirmed released: '' @
                err_text E (sf_error f)),
              op_config_lock_held := True\<rparr>))))
         (\<lambda>_. fail (Operation StageLockHeld)))"

definition stage_body ::
  "'z env_scheme \<Rightarrow> coordinator \<Rightarrow> operation_record \<Rightarrow> string \<Rightarrow> stage_output coord" where
  "stage_body E K r expected =
     attempt (stage_block E K r expected) (\<lambda>result.
     case result of
       Inr staged \<Rightarrow> stage_succeeded E K r staged
     | Inl f \<Rightarrow> if sf_touched f then stage_touched E K f else stage_untouched E K f)"

definition stage_operation ::
  "'z env_scheme \<Rightarrow> coordinator \<Rightarrow> string \<Rightarrow> string \<Rightarrow> string \<Rightarrow> string \<Rightarrow> json option list \<Rightarrow> string \<Rightarrow>
   string option \<Rightarrow> string \<Rightarrow> string option \<Rightarrow> stage_output coord" where
  "stage_operation E K device owner expected endpoint actions discriminator target policy authority =
     bnd (ensure (actions \<noteq> []) (Operation EmptyActions)) (\<lambda>_.
     bnd (lift (canonicalize_endpoint E endpoint)) (\<lambda>canonical.
     with_guard E device
       (bnd (not_cancelled E) (\<lambda>_.
        bnd (new_operation_id E) (\<lambda>oid.
        bnd (lift (map_err (\<lambda>e. Changeset (FingerprintMalformed e)) (validate_fingerprint expected))) (\<lambda>_.
        bnd (ensure (None \<notin> set actions) (Changeset ActionNotSerializable)) (\<lambda>_.
        let r = staging_record oid owner device canonical discriminator target (map the actions)
                  expected policy authority
        in bnd (await E (insert_op E K r)) (\<lambda>_. stage_body E K r expected))))))))"


section \<open>Diff and validation\<close>

definition diff_operation ::
  "'z env_scheme \<Rightarrow> string \<Rightarrow> string \<Rightarrow> string \<Rightarrow> string \<Rightarrow> string \<Rightarrow> string coord" where
  "diff_operation E oid device owner expected staged =
     bnd (await E (record_op oid owner device)) (\<lambda>r0.
     with_guard E (op_device r0)
       (bnd (not_cancelled E) (\<lambda>_.
        bnd (await E (record_op oid owner device)) (\<lambda>r.
        bnd (ensure (op_state r \<in> {Staged, Validated, OpFailed}) (Operation DiffNotMeaningful)) (\<lambda>_.
        bnd (guard_fingerprint E r expected) (\<lambda>_.
        device_try (dev_diff E staged)))))))"

definition validate_operation ::
  "'z env_scheme \<Rightarrow> coordinator \<Rightarrow> string \<Rightarrow> string \<Rightarrow> string \<Rightarrow> string \<Rightarrow> string \<Rightarrow> string coord" where
  "validate_operation E K oid device owner expected staged =
     bnd (await E (record_op oid owner device)) (\<lambda>r0.
     bnd (ensure (op_state r0 = Staged) (Operation NotStaged)) (\<lambda>_.
     with_guard E (op_device r0)
       (bnd (not_cancelled E) (\<lambda>_.
        bnd (await E (record_op oid owner device)) (\<lambda>r.
        bnd (ensure (op_state r = Staged) (Operation NotStaged)) (\<lambda>_.
        bnd (guard_fingerprint E r expected) (\<lambda>_.
        bnd (await E (update_op E K (r\<lparr>op_state := Validating\<rparr>))) (\<lambda>_.
        bnd (dev_validate E staged) (\<lambda>answer.
        case answer of
          Inr v \<Rightarrow>
            bnd (await E (update_op E K (r\<lparr>op_state := Validated, op_details := None\<rparr>))) (\<lambda>_. ret v)
        | Inl e \<Rightarrow>
            bnd (await E (update_op E K (r\<lparr>op_state := OpFailed, op_details := Some e\<rparr>)))
              (\<lambda>_. fail (Operation (TransactionError e))))))))))))"


section \<open>Commit\<close>

text \<open>Put the intent on the trail, and refuse to go on when the spool does not take it.\<close>

definition apply_intent ::
  "'z env_scheme \<Rightarrow> coordinator \<Rightarrow> string \<Rightarrow> string \<Rightarrow> string \<Rightarrow> string \<Rightarrow> unit coord" where
  "apply_intent E K request changeset device who =
     (if evidence_on K then
        bnd (append_evidence (EvApplyIntent request changeset device who)) (\<lambda>_.
        bnd (flush_evidence E K) (\<lambda>stored. ensure stored (Operation CommitRefused)))
      else ret ())"

text \<open>Put the outcome on the trail; a spool that refuses it is only logged.\<close>

definition result_receipt ::
  "'z env_scheme \<Rightarrow> coordinator \<Rightarrow> string \<Rightarrow> string \<Rightarrow> string \<Rightarrow> string \<Rightarrow> bool \<Rightarrow> string \<Rightarrow> unit coord" where
  "result_receipt E K request changeset device who succeeded error =
     (if evidence_on K then
        bnd (append_evidence (EvReceipt request changeset device who succeeded
               (if error = [] then None else Some error))) (\<lambda>_.
        bnd (flush_evidence E K) (\<lambda>_. ret ()))
      else ret ())"

definition evidence_id :: "operation_record \<Rightarrow> string \<Rightarrow> string" where
  "evidence_id r oid = (case op_change_set_id r of None \<Rightarrow> oid | Some c \<Rightarrow> c)"

text \<open>The record after each answer of the device to a commit.\<close>

fun after_commit :: "commit_outcome \<Rightarrow> operation_record \<Rightarrow> operation_record" where
  "after_commit (Reconciled succeeded job details) r =
     r\<lparr>op_state := (if succeeded then Committed else OpFailed),
       op_job_id := job, op_details := details,
       op_config_lock_held := (if succeeded then False else op_config_lock_held r)\<rparr>"
| "after_commit (Detached job) r = r\<lparr>op_job_id := job\<rparr>"
| "after_commit (IndeterminateOutcome reason) r =
     r\<lparr>op_state := Indeterminate, op_details := Some reason\<rparr>"
| "after_commit (AwaitingConfirmation job deadline details) r =
     r\<lparr>op_job_id := job, op_details := details, op_rollback_deadline_unix := Some deadline,
       op_config_lock_held := False\<rparr>"

fun commit_evidence ::
  "'z env_scheme \<Rightarrow> coordinator \<Rightarrow> attribution \<Rightarrow> operation_record \<Rightarrow> string \<Rightarrow> commit_outcome \<Rightarrow>
   unit coord" where
  "commit_evidence E K a r oid (Reconciled succeeded job details) =
     result_receipt E K (at_request_id a) (evidence_id r oid) (op_device r)
       (principal_to_string (at_principal a)) succeeded
       (if succeeded then [] else case details of None \<Rightarrow> [] | Some d \<Rightarrow> d)"
| "commit_evidence E K a r oid _ = ret ()"

definition settle_commit ::
  "'z env_scheme \<Rightarrow> coordinator \<Rightarrow> attribution \<Rightarrow> operation_record \<Rightarrow> string \<Rightarrow>
   string + commit_outcome \<Rightarrow> commit_outcome coord" where
  "settle_commit E K a r oid answer =
     (case answer of
        Inr outcome \<Rightarrow>
          bnd (commit_evidence E K a r oid outcome) (\<lambda>_.
          bnd (await E (update_op E K (after_commit outcome r))) (\<lambda>_. ret outcome))
      | Inl e \<Rightarrow>
          bnd (await E (update_op E K (r\<lparr>op_state := OpFailed, op_details := Some e\<rparr>)))
            (\<lambda>_. fail (Operation (TransactionError e))))"

definition cancelled_text :: string where
  "cancelled_text = ''commit cancelled; outcome unknown''"

text \<open>
  When the cancellation wins the race against the commit, the commit may or may not have reached
  the device; the dialogue holds the call in both cases.
\<close>

definition send_commit ::
  "'z env_scheme \<Rightarrow> coordinator \<Rightarrow> attribution \<Rightarrow> nat option \<Rightarrow> operation_record \<Rightarrow> string \<Rightarrow> string \<Rightarrow>
   commit_outcome coord" where
  "send_commit E K a confirm r oid staged =
     bnd (dev_commit E staged a confirm) (\<lambda>answer.
     case answer of
       None \<Rightarrow>
         bnd (await E (update_op E K (r\<lparr>op_state := Indeterminate, op_details := Some cancelled_text\<rparr>)))
           (\<lambda>_. ret (IndeterminateOutcome cancelled_text))
     | Some result \<Rightarrow> settle_commit E K a r oid result)"

definition commit_operation ::
  "'z env_scheme \<Rightarrow> coordinator \<Rightarrow> string \<Rightarrow> string \<Rightarrow> string \<Rightarrow> string \<Rightarrow> string \<Rightarrow> string \<Rightarrow>
   attribution \<Rightarrow> nat option \<Rightarrow> commit_outcome coord" where
  "commit_operation E K oid device owner expected policy staged a confirm =
     bnd (await E (record_op oid owner device)) (\<lambda>r0.
     with_guard E (op_device r0)
       (bnd (not_cancelled E) (\<lambda>_.
        bnd (await E (record_op oid owner device)) (\<lambda>r.
        bnd (ensure (op_state r = Validated) (Operation MustValidateFirst)) (\<lambda>_.
        bnd (lift (map_err (\<lambda>e. Operation (GuardFailed e)) (require_operation_policy r policy))) (\<lambda>_.
        bnd (guard_fingerprint E r expected) (\<lambda>_.
        bnd (is_cancelled E) (\<lambda>cancelled.
        bnd (ensure (\<not> cancelled) (Operation CancelledBeforeCommit)) (\<lambda>_.
        bnd (apply_intent E K (at_request_id a) (evidence_id r oid) (op_device r)
               (principal_to_string (at_principal a))) (\<lambda>_.
        let r' = r\<lparr>op_attribution := Some (persisted_attribution_from a), op_state := Committing\<rparr>
        in bnd (await E (update_op E K r')) (\<lambda>_.
           send_commit E K a confirm r' oid staged)))))))))))"


section \<open>Discard\<close>

definition discardable :: "lifecycle_state \<Rightarrow> bool" where
  "discardable st \<longleftrightarrow> st \<notin> {Validating, Committing, Committed, Discarded, Indeterminate}"

definition discard_unlock ::
  "'z env_scheme \<Rightarrow> coordinator \<Rightarrow> operation_record \<Rightarrow> operation_record coord" where
  "discard_unlock E K r =
     bnd (dev_unlock E) (\<lambda>answer.
     case answer of
       Inr Released \<Rightarrow>
         ret (r\<lparr>op_config_lock_held := False, op_state := Discarded, op_details := Some ''candidate reverted''\<rparr>)
     | Inr Unsupported \<Rightarrow>
         bnd (await E (update_op E K (r\<lparr>op_state := Indeterminate,
                op_details := Some (''candidate reverted; the transaction offers no explicit unlock, '' @
                  ''so the configuration lock state is unchanged'')\<rparr>)))
           (\<lambda>_. fail (Operation LockStateUnverified))
     | Inl e \<Rightarrow>
         bnd (await E (update_op E K (r\<lparr>op_state := Indeterminate,
                op_details := Some (''candidate reverted but unlock failed: '' @ e),
                op_config_lock_held := True\<rparr>)))
           (\<lambda>_. fail (Operation (LockNotReleased e))))"

definition discard_rollback ::
  "'z env_scheme \<Rightarrow> coordinator \<Rightarrow> operation_record \<Rightarrow> unit coord" where
  "discard_rollback E K r =
     bnd (dev_rollback E CandidateRevert) (\<lambda>answer.
     case answer of
       Inl e \<Rightarrow>
         bnd (await E (update_op E K (r\<lparr>op_state := Indeterminate,
                op_details := Some (''rollback outcome unknown: '' @ e)\<rparr>)))
           (\<lambda>_. fail (Operation (TransactionError e)))
     | Inr outcome \<Rightarrow>
         if ro_succeeded outcome then ret ()
         else
           bnd (await E (update_op E K (r\<lparr>op_state := OpFailed, op_details := ro_details outcome\<rparr>)))
             (\<lambda>_. fail (Operation (RollbackFailed (ro_details outcome)))))"

definition discard_finish ::
  "'z env_scheme \<Rightarrow> coordinator \<Rightarrow> operation_record \<Rightarrow> string coord" where
  "discard_finish E K r =
     bnd (dev_fingerprint E) (\<lambda>answer.
     case answer of
       Inr fp \<Rightarrow> bnd (await E (update_op E K (r\<lparr>op_current := fp\<rparr>))) (\<lambda>_. ret fp)
     | Inl e \<Rightarrow>
         bnd (await E (update_op E K (r\<lparr>op_state := Indeterminate,
                op_details := Some (''candidate reverted; fingerprint read failed: '' @ e)\<rparr>)))
           (\<lambda>_. fail (Operation (TransactionError e))))"

definition discard_operation ::
  "'z env_scheme \<Rightarrow> coordinator \<Rightarrow> string \<Rightarrow> string \<Rightarrow> string \<Rightarrow> string \<Rightarrow> string coord" where
  "discard_operation E K oid device owner expected =
     bnd (await E (record_op oid owner device)) (\<lambda>r0.
     bnd (ensure (discardable (op_state r0)) (Operation CannotDiscard)) (\<lambda>_.
     with_guard E (op_device r0)
       (bnd (not_cancelled E) (\<lambda>_.
        bnd (await E (record_op oid owner device)) (\<lambda>r.
        bnd (ensure (discardable (op_state r)) (Operation CannotDiscard)) (\<lambda>_.
        bnd (guard_fingerprint E r expected) (\<lambda>_.
        bnd (await E (update_op E K (r\<lparr>op_state := Indeterminate, op_details := Some ''rollback in progress''\<rparr>))) (\<lambda>_.
        bnd (discard_rollback E K r) (\<lambda>_.
        bnd (await E (update_op E K (r\<lparr>op_state := Indeterminate,
               op_details := Some ''candidate reverted; verifying lock release''\<rparr>))) (\<lambda>_.
        bnd (discard_unlock E K r) (\<lambda>r'.
        discard_finish E K r')))))))))))"

end
