(* ===== verification/Changeset.thy ===== *)
theory Changeset
  imports Coordinator
begin

text \<open>
  \<open>crates/mecmcp-changeset/src/changeset.rs\<close>: the life of a change set up to its application.
  Each method is a sequence of coordinator operations; \<open>await\<close> lets the other tasks of the server
  run before each of them.
\<close>

record change_set_output =
  out_change_set_id :: string
  out_owner :: string
  out_device :: string
  out_digest :: string
  out_state :: change_set_state
  out_approver :: "string option"
  out_expires_at_unix :: nat
  out_action_count :: nat
  out_approval_waiver :: "string option"
  out_actions :: "json list option"

definition output_of :: "change_set_record \<Rightarrow> change_set_output" where
  "output_of r = \<lparr>out_change_set_id = cs_id r, out_owner = cs_owner r, out_device = cs_device r,
     out_digest = cs_digest r, out_state = cs_state r, out_approver = cs_approver r,
     out_expires_at_unix = cs_expires_at_unix r, out_action_count = length (cs_actions r),
     out_approval_waiver = map_option wv_reason (Option.bind (cs_approval r) ap_waived),
     out_actions = None\<rparr>"

definition planned_record ::
  "'z lib_scheme \<Rightarrow> string \<Rightarrow> string \<Rightarrow> string \<Rightarrow> string \<Rightarrow> json list \<Rightarrow> nat \<Rightarrow> string \<Rightarrow> change_set_record"
where
  "planned_record L cid owner device fingerprint actions expires policy_signature =
     \<lparr>cs_id = cid, cs_owner = owner, cs_device = device,
      cs_expected_candidate_fingerprint = fingerprint, cs_actions = actions,
      cs_digest = change_set_digest L owner device fingerprint actions,
      cs_state = Planned, cs_approver = None, cs_approval = None, cs_expires_at_unix = expires,
      cs_operation_id = None, cs_policy_signature = policy_signature, cs_targets = [],
      cs_preview = None, cs_task_id = None, cs_apply_without_handle = False\<rparr>"

definition create_change_set ::
  "'z env_scheme \<Rightarrow> coordinator \<Rightarrow> string \<Rightarrow> json option list \<Rightarrow> string \<Rightarrow> string \<Rightarrow> string \<Rightarrow>
   change_set_output coord" where
  "create_change_set E K device actions owner expected_fingerprint policy_signature =
     bnd (lift (map_err (\<lambda>e. Changeset (FingerprintMalformed e)) (validate_fingerprint expected_fingerprint))) (\<lambda>_.
     bnd (lift (map_err (\<lambda>e. Changeset (ActionsInvalid e)) (validate_change_set_actions E actions (limits K)))) (\<lambda>_.
     bnd (now_unix E) (\<lambda>now.
     bnd (new_operation_id E) (\<lambda>cid.
     bnd (ensure (None \<notin> set actions) (Changeset ActionNotSerializable)) (\<lambda>_.
     let r = planned_record E cid owner device expected_fingerprint (map the actions)
               (saturating_add now (approval_ttl K)) policy_signature
     in bnd (await E (insert_change_set E K r)) (\<lambda>_.
        bnd (when_evidence K (EvProposal cid device owner (cs_digest r))) (\<lambda>_.
        ret (output_of r))))))))"

text \<open>The way out when the approval window has closed: the record is retired first.\<close>

definition expire_and_fail ::
  "'z env_scheme \<Rightarrow> coordinator \<Rightarrow> change_set_record \<Rightarrow> coord_error \<Rightarrow> 'a coord" where
  "expire_and_fail E K r e =
     bnd (await E (update_change_set_from E K (cs_state r) (r\<lparr>cs_state := Expired\<rparr>))) (\<lambda>_. fail e)"

text \<open>The digest of an approval and its version: keyed when the coordinator has a key.\<close>

definition approval_signature ::
  "'z lib_scheme \<Rightarrow> coordinator \<Rightarrow> string \<Rightarrow> change_set_record \<Rightarrow> string \<Rightarrow> nat \<Rightarrow> string \<times> nat" where
  "approval_signature L K cid r approver now =
     (case approval_digest_key K of
        Some key \<Rightarrow> (compute_approval_digest_v6 L key cid (cs_digest r) (preview_digest_of r)
                       (cs_owner r) approver now, 6)
      | None \<Rightarrow> (compute_approval_digest_v5 L cid (cs_digest r) (preview_digest_of r)
                       (cs_owner r) approver now, 5))"

definition approved_record ::
  "'z lib_scheme \<Rightarrow> coordinator \<Rightarrow> string \<Rightarrow> change_set_record \<Rightarrow> string \<Rightarrow> nat \<Rightarrow> change_set_record" where
  "approved_record L K cid r approver now =
     (case approval_signature L K cid r approver now of
        (digest, version) \<Rightarrow> r\<lparr>cs_state := Approved, cs_approver := Some approver,
          cs_approval := Some \<lparr>ap_approver = Some approver, ap_approved_at_unix = now,
            ap_digest = digest, ap_digest_version = version, ap_waived = None\<rparr>\<rparr>)"

definition approve_change_set ::
  "'z env_scheme \<Rightarrow> coordinator \<Rightarrow> string \<Rightarrow> string \<Rightarrow> string \<Rightarrow> string \<Rightarrow> actor_type \<Rightarrow>
   change_set_output coord" where
  "approve_change_set E K cid device approver expected_digest approver_actor_type =
     bnd (lift (map_err (\<lambda>e. Changeset (DigestMalformed e)) (validate_digest expected_digest ''expected_digest''))) (\<lambda>_.
     bnd (await E (change_set cid device)) (\<lambda>r.
     bnd (ensure (cs_owner r \<noteq> approver) (Changeset OwnPlan)) (\<lambda>_.
     bnd (ensure (approver_actor_type = Human) (Changeset ApproverNotHuman)) (\<lambda>_.
     bnd (ensure (cs_state r = Planned) (Changeset NotAwaitingApproval)) (\<lambda>_.
     bnd (now_unix E) (\<lambda>now.
     if cs_expires_at_unix r \<le> now then expire_and_fail E K r (Changeset ApprovalWindowExpired)
     else
     bnd (ensure (cs_digest r = expected_digest) (Changeset DigestMismatch)) (\<lambda>_.
     bnd (lift (map_err (\<lambda>e. Changeset (PrincipalInvalid e)) (validate_principal_for_digest ''owner'' (cs_owner r)))) (\<lambda>_.
     bnd (lift (map_err (\<lambda>e. Changeset (PrincipalInvalid e)) (validate_principal_for_digest ''approver'' approver))) (\<lambda>_.
     bnd (lift (map_err (\<lambda>e. Changeset (StoredPreviewInvalid e)) (validate_preview E r usize_max))) (\<lambda>_.
     let r' = approved_record E K cid r approver now
     in bnd (await E (update_change_set_from E K (cs_state r) r')) (\<lambda>_.
        bnd (when_evidence K (EvApproval cid approver ''approved'')) (\<lambda>_.
        ret (output_of r')))))))))))))"

definition waived_record ::
  "'z lib_scheme \<Rightarrow> string \<Rightarrow> change_set_record \<Rightarrow> waiver_record \<Rightarrow> nat \<Rightarrow> change_set_record" where
  "waived_record L cid r w now = r\<lparr>cs_state := Approved, cs_approver := None,
     cs_approval := Some \<lparr>ap_approver = None, ap_approved_at_unix = now,
       ap_digest = compute_waiver_digest_v3 L cid (cs_digest r) (cs_owner r) now w,
       ap_digest_version = 4, ap_waived = Some w\<rparr>\<rparr>"

text \<open>The common end of the two waivers: write the waived record and put it on the trail.\<close>

definition record_waiver ::
  "'z env_scheme \<Rightarrow> coordinator \<Rightarrow> string \<Rightarrow> change_set_record \<Rightarrow> waiver_record \<Rightarrow> nat \<Rightarrow>
   change_set_output coord" where
  "record_waiver E K cid r w now =
     (let r' = waived_record E cid r w now
      in bnd (await E (update_change_set_from E K (cs_state r) r')) (\<lambda>_.
         bnd (when_evidence K (EvWaived cid (waiver_kind_as_str (wv_kind w)) (wv_reason w)
                (wv_expires_at_unix w) (wv_ticket w))) (\<lambda>_.
         ret (output_of r'))))"

definition waive_approval ::
  "'z env_scheme \<Rightarrow> coordinator \<Rightarrow> string \<Rightarrow> string \<Rightarrow> string \<Rightarrow> string \<Rightarrow> change_set_output coord" where
  "waive_approval E K cid device owner expected_digest =
     bnd (ensure (lab_mode K) (Changeset LabModeRequired)) (\<lambda>_.
     bnd (lift (map_err (\<lambda>e. Changeset (DigestMalformed e)) (validate_digest expected_digest ''expected_digest''))) (\<lambda>_.
     bnd (await E (change_set cid device)) (\<lambda>r.
     bnd (ensure (cs_owner r = owner) (Changeset OnlyOwnerWaives)) (\<lambda>_.
     bnd (ensure (cs_state r = Planned) (Changeset NotAwaitingApproval)) (\<lambda>_.
     bnd (now_unix E) (\<lambda>now.
     if cs_expires_at_unix r \<le> now then expire_and_fail E K r (Changeset ApprovalWindowExpired)
     else
     bnd (ensure (cs_digest r = expected_digest) (Changeset DigestMismatch)) (\<lambda>_.
     record_waiver E K cid r
       \<lparr>wv_kind = LabMode, wv_reason = ''lab-mode'', wv_expires_at_unix = None, wv_ticket = None\<rparr> now)))))))"

definition waive_approval_operator ::
  "'z env_scheme \<Rightarrow> coordinator \<Rightarrow> string \<Rightarrow> string \<Rightarrow> string \<Rightarrow> string \<Rightarrow> waiver_kind \<Rightarrow> string \<Rightarrow>
   nat option \<Rightarrow> string option \<Rightarrow> change_set_output coord" where
  "waive_approval_operator E K cid device owner expected_digest kind reason expires ticket =
     bnd (ensure (kind \<noteq> LabMode) (Changeset LabModeKind)) (\<lambda>_.
     bnd (lift (map_err (\<lambda>e. Changeset (DigestMalformed e)) (validate_digest expected_digest ''expected_digest''))) (\<lambda>_.
     bnd (await E (change_set cid device)) (\<lambda>r.
     bnd (ensure (cs_owner r = owner) (Changeset OnlyOwnerWaives)) (\<lambda>_.
     bnd (ensure (cs_state r = Planned) (Changeset NotAwaitingApproval)) (\<lambda>_.
     bnd (now_unix E) (\<lambda>now.
     if cs_expires_at_unix r \<le> now then expire_and_fail E K r (Changeset ApprovalWindowExpired)
     else
     bnd (ensure (cs_digest r = expected_digest) (Changeset DigestMismatch)) (\<lambda>_.
     bnd (ensure (\<forall>t\<in>set_option expires. now < t) (Changeset WaiverExpiryPast)) (\<lambda>_.
     record_waiver E K cid r
       \<lparr>wv_kind = kind, wv_reason = reason, wv_expires_at_unix = expires, wv_ticket = ticket\<rparr> now))))))))"

definition retire_if_deadline_passed ::
  "'z env_scheme \<Rightarrow> coordinator \<Rightarrow> change_set_record \<Rightarrow> change_set_record coord" where
  "retire_if_deadline_passed E K r =
     bnd (now_unix E) (\<lambda>now.
     if (cs_state r = Planned \<and> cs_expires_at_unix r \<le> now) \<or>
        (is_expirable (cs_state r) \<and> waiver_lapsed r now) then
       let r' = r\<lparr>cs_state := Expired\<rparr>
       in bnd (await E (update_change_set_from E K (cs_state r) r')) (\<lambda>_. ret r')
     else ret r)"

definition change_set_status ::
  "'z env_scheme \<Rightarrow> coordinator \<Rightarrow> string \<Rightarrow> string \<Rightarrow> change_set_output coord" where
  "change_set_status E K cid device =
     bnd (await E (change_set cid device)) (\<lambda>r.
     bnd (retire_if_deadline_passed E K r) (\<lambda>r. ret (output_of r)))"

definition change_set_status_with_actions ::
  "'z env_scheme \<Rightarrow> coordinator \<Rightarrow> string \<Rightarrow> string \<Rightarrow> change_set_output coord" where
  "change_set_status_with_actions E K cid device =
     bnd (await E (change_set cid device)) (\<lambda>r.
     bnd (retire_if_deadline_passed E K r) (\<lambda>r.
     ret ((output_of r)\<lparr>out_actions := Some (cs_actions r)\<rparr>)))"

definition cancel_change_set ::
  "'z env_scheme \<Rightarrow> coordinator \<Rightarrow> string \<Rightarrow> string \<Rightarrow> string \<Rightarrow> change_set_output coord" where
  "cancel_change_set E K cid device who =
     bnd (await E (change_set cid device)) (\<lambda>r.
     if cs_state r = Cancelled then ret (output_of r)
     else
     bnd (ensure (cs_owner r = who \<or> cs_approver r = Some who) (Changeset OnlyOwnerOrApproverCancels)) (\<lambda>_.
     bnd (ensure (cs_state r \<notin> {Applying, Applied}) (Changeset (CannotCancel (cs_state r)))) (\<lambda>_.
     let r' = r\<lparr>cs_state := Cancelled\<rparr>
     in bnd (await E (update_change_set_from E K (cs_state r) r')) (\<lambda>_. ret (output_of r')))))"

end
