(* ===== verification/Apply.thy ===== *)
theory Apply
  imports Operation Changeset Trust
begin

text \<open>
  \<open>crates/mecmcp-changeset/src/apply.rs\<close>: applying an approved change set. The method is split at
  the points where the code changes what it has to clean up: before the device guard, under the
  guard, from the claim on, and after staging.
\<close>

section \<open>Inputs and the approval\<close>

definition apply_canonicalize_endpoint :: "'z lib_scheme \<Rightarrow> string \<Rightarrow> coord_error + string" where
  "apply_canonicalize_endpoint L endpoint =
     (case url_parse L endpoint of
        None \<Rightarrow> Inl (Apply EndpointInvalid)
      | Some u \<Rightarrow>
          (case url_host u of
             None \<Rightarrow> Inl (Apply EndpointNoHost)
           | Some host \<Rightarrow> Inr (endpoint_text (url_scheme u) host u)))"

definition waiver_expiry_error :: "change_set_record \<Rightarrow> nat \<Rightarrow> string \<Rightarrow> coord_error + unit" where
  "waiver_expiry_error r now gate = require (\<not> waiver_lapsed r now) (Apply (WaiverExpired gate))"

definition check_recorded_approval :: "coordinator \<Rightarrow> change_set_record \<Rightarrow> coord_error + unit" where
  "check_recorded_approval K r =
     (case cs_approval r of
        Some a \<Rightarrow>
          res_bind (require (ap_approver a \<noteq> None \<or> ap_waived a \<noteq> None) (Apply ApprovalEmpty)) (\<lambda>_.
          res_bind (require (ap_approver a \<noteq> Some (cs_owner r)) (Apply ApprovedByOwner)) (\<lambda>_.
          require (ap_waived a = None \<or> lab_mode K) (Apply LabModeOff)))
      | None \<Rightarrow>
          res_bind (require (cs_approver r \<noteq> None) (Apply ApprovalMissing)) (\<lambda>_.
          require (cs_approver r \<noteq> Some (cs_owner r)) (Apply ApprovedByOwner)))"

definition undecodable :: "'z env_scheme \<Rightarrow> json list \<Rightarrow> nat option" where
  "undecodable E actions = find (\<lambda>i. \<not> decodes E (actions ! i)) [0..<length actions]"

record apply_output =
  ao_operation_id :: string
  ao_before_fingerprint :: string
  ao_after_fingerprint :: string
  ao_staged :: string
  ao_recorded_state :: change_set_state

definition expire_and_refuse ::
  "'z env_scheme \<Rightarrow> coordinator \<Rightarrow> change_set_record \<Rightarrow> coord_error \<Rightarrow> 'a coord" where
  "expire_and_refuse E K r e =
     bnd (await E (update_change_set E K (r\<lparr>cs_state := Expired\<rparr>))) (\<lambda>_. fail e)"

definition apply_operation_record ::
  "string \<Rightarrow> string \<Rightarrow> string \<Rightarrow> string \<Rightarrow> string \<Rightarrow> string \<Rightarrow> string option \<Rightarrow> string option \<Rightarrow> string \<Rightarrow>
   change_set_record \<Rightarrow> operation_record" where
  "apply_operation_record oid cid owner device endpoint discriminator target authority before r =
     \<lparr>op_id = oid, op_owner = owner, op_device = device, op_endpoint = endpoint,
      op_action = JStr discriminator, op_xpath = target, op_actions = cs_actions r,
      op_change_set_id = Some cid, op_current = before, op_state = Staging, op_job_id = None,
      op_details = Some (''staging change set '' @ cid @ '' with '' @ decimal (length (cs_actions r)) @
        '' actions''),
      op_config_lock_held = False, op_policy_signature = cs_policy_signature r,
      op_attribution = None, op_rollback_deadline_unix = None, op_config_authority = authority\<rparr>"


section \<open>Cleaning up\<close>

text \<open>Nothing was staged: drop the reservation, fail the change set, report the error.\<close>

definition abandon ::
  "'z env_scheme \<Rightarrow> coordinator \<Rightarrow> string \<Rightarrow> change_set_record \<Rightarrow> coord_error \<Rightarrow> 'a coord" where
  "abandon E K oid c e =
     bnd (await E (remove_op E K oid)) (\<lambda>_.
     bnd (discard (await E (update_change_set E K (c\<lparr>cs_state := Failed\<rparr>)))) (\<lambda>_.
     fail e))"

definition unlock_and_abandon ::
  "'z env_scheme \<Rightarrow> coordinator \<Rightarrow> bool \<Rightarrow> string \<Rightarrow> change_set_record \<Rightarrow> coord_error \<Rightarrow> 'a coord" where
  "unlock_and_abandon E K locked oid c e =
     bnd (if locked then discard (dev_unlock E) else ret ()) (\<lambda>_.
     abandon E K oid c e)"

definition drop_reservation ::
  "'z env_scheme \<Rightarrow> coordinator \<Rightarrow> string \<Rightarrow> coord_error \<Rightarrow> 'a coord" where
  "drop_reservation E K oid e = bnd (await E (remove_op E K oid)) (\<lambda>_. fail e)"

definition tagged_error :: "'z env_scheme \<Rightarrow> string \<Rightarrow> string \<Rightarrow> string coord" where
  "tagged_error E source e = bnd (ask (nonce_at E)) (\<lambda>nonce. ret (render_tagged nonce source e))"


section \<open>After a successful stage\<close>

text \<open>The fingerprint cannot be read: the operation is indeterminate, the change set failed.\<close>

definition settle_unreadable ::
  "'z env_scheme \<Rightarrow> coordinator \<Rightarrow> string \<Rightarrow> string \<Rightarrow> string \<Rightarrow> change_set_record \<Rightarrow> string \<Rightarrow> 'a coord" where
  "settle_unreadable E K oid owner device c e =
     bnd (tagged_error E ''device.fingerprint_error'' e) (\<lambda>tagged.
     bnd (await E (record_op oid owner device)) (\<lambda>o1.
     bnd (await E (update_op E K (o1\<lparr>op_state := Indeterminate,
            op_details := Some (''fingerprint read failed after staging: '' @ tagged @
              ''; staged changes remain on device'')\<rparr>))) (\<lambda>_.
     bnd (discard (await E (update_change_set E K (c\<lparr>cs_state := Failed\<rparr>)))) (\<lambda>_.
     fail (Apply (AfterFingerprintFailed tagged))))))"

text \<open>Record the staged operation, or that it could not be recorded; the handle is kept.\<close>

definition record_staged ::
  "'z env_scheme \<Rightarrow> coordinator \<Rightarrow> string \<Rightarrow> string \<Rightarrow> nat \<Rightarrow> operation_record \<Rightarrow> unit coord" where
  "record_staged E K cid after n o1 =
     (let o2 = o1\<lparr>op_current := after, op_state := Staged,
               op_details := Some (''applied change set '' @ cid @ '' with '' @ decimal n @ '' actions''),
               op_config_lock_held := True\<rparr>
      in catch (await E (update_op E K o2))
           (\<lambda>_. discard (await E (update_op E K (o2\<lparr>op_state := Indeterminate,
              op_details := Some ''staging succeeded but Staged record persistence failed; handle returned''\<rparr>))))
           (\<lambda>_. ret ()))"

definition settle_applied ::
  "'z env_scheme \<Rightarrow> coordinator \<Rightarrow> string \<Rightarrow> string \<Rightarrow> string \<Rightarrow> string \<Rightarrow> string \<Rightarrow> nat \<Rightarrow> change_set_record \<Rightarrow>
   string \<Rightarrow> apply_output coord" where
  "settle_applied E K cid oid owner device before n c staged =
     bnd (dev_fingerprint E) (\<lambda>answer.
     case answer of
       Inl e \<Rightarrow> settle_unreadable E K oid owner device c e
     | Inr after \<Rightarrow>
         bnd (await E (record_op oid owner device)) (\<lambda>o1.
         bnd (record_staged E K cid after n o1) (\<lambda>_.
         bnd (catch (await E (update_change_set E K (c\<lparr>cs_state := Applied\<rparr>)))
                (\<lambda>_. ret Applying) (\<lambda>_. ret Applied)) (\<lambda>recorded.
         ret \<lparr>ao_operation_id = oid, ao_before_fingerprint = before,
              ao_after_fingerprint = after, ao_staged = staged, ao_recorded_state = recorded\<rparr>))))"


section \<open>From the claim to the stage\<close>

definition stage_refused ::
  "'z env_scheme \<Rightarrow> coordinator \<Rightarrow> string \<Rightarrow> change_set_record \<Rightarrow> string \<Rightarrow> 'a coord" where
  "stage_refused E K oid c e =
     attempt (await E (update_change_set E K (c\<lparr>cs_state := Failed\<rparr>))) (\<lambda>updated.
     bnd (await E (remove_op E K oid)) (\<lambda>_.
     bnd (lift updated) (\<lambda>_.
     bnd (tagged_error E ''device.stage_error'' e) (\<lambda>tagged.
     fail (Apply (StagingFailed tagged))))))"

definition stage_claimed ::
  "'z env_scheme \<Rightarrow> coordinator \<Rightarrow> string \<Rightarrow> string \<Rightarrow> string \<Rightarrow> string \<Rightarrow> string \<Rightarrow> string \<Rightarrow> json list \<Rightarrow>
   bool \<Rightarrow> change_set_record \<Rightarrow> apply_output coord" where
  "stage_claimed E K cid oid owner device expected before actions locked c =
     bnd (dev_fingerprint E) (\<lambda>answer.
     case answer of
       Inl e \<Rightarrow> unlock_and_abandon E K locked oid c (Apply (PreStageFingerprintFailed e))
     | Inr fp \<Rightarrow>
         if fp \<noteq> expected then unlock_and_abandon E K locked oid c (Apply (PreStageDrift expected fp))
         else
           bnd (dev_stage E actions) (\<lambda>result.
           case result of
             Inl e \<Rightarrow> stage_refused E K oid c e
           | Inr staged \<Rightarrow>
               settle_applied E K cid oid owner device before (length actions) c staged))"

definition lock_claimed ::
  "'z env_scheme \<Rightarrow> coordinator \<Rightarrow> string \<Rightarrow> string \<Rightarrow> string \<Rightarrow> string \<Rightarrow> string \<Rightarrow> string \<Rightarrow> json list \<Rightarrow>
   change_set_record \<Rightarrow> apply_output coord" where
  "lock_claimed E K cid oid owner device expected before actions c =
     bnd (await E (record_op oid owner device)) (\<lambda>pre.
     catch (await E (update_op E K (pre\<lparr>op_config_lock_held := True\<rparr>)))
       (\<lambda>e. abandon E K oid c e)
       (\<lambda>_. if requires_config_lock E then
          bnd (dev_lock E (''mecmcp change set '' @ cid)) (\<lambda>answer.
          case answer of
            Inl e \<Rightarrow> abandon E K oid c (Apply (ConfigLockFailed e))
          | Inr _ \<Rightarrow> stage_claimed E K cid oid owner device expected before actions True c)
        else stage_claimed E K cid oid owner device expected before actions False c))"

definition claim_and_stage ::
  "'z env_scheme \<Rightarrow> coordinator \<Rightarrow> string \<Rightarrow> string \<Rightarrow> string \<Rightarrow> string \<Rightarrow> string \<Rightarrow> string \<Rightarrow>
   change_set_record \<Rightarrow> apply_output coord" where
  "claim_and_stage E K cid oid owner device expected before r =
     catch (await E (claim_change_set_for_apply E K (cs_id r) (cs_device r) HandleExpected))
       (drop_reservation E K oid)
       (\<lambda>claimed. let c = claimed\<lparr>cs_operation_id := Some oid\<rparr>
          in catch (await E (update_change_set E K c))
               (drop_reservation E K oid)
               (\<lambda>_. lock_claimed E K cid oid owner device expected before (cs_actions r) c))"


section \<open>The method\<close>

definition apply_guarded ::
  "'z env_scheme \<Rightarrow> coordinator \<Rightarrow> string \<Rightarrow> string \<Rightarrow> string \<Rightarrow> string \<Rightarrow> string \<Rightarrow> string \<Rightarrow> string \<Rightarrow>
   string option \<Rightarrow> string option \<Rightarrow> apply_output coord" where
  "apply_guarded E K cid device endpoint owner expected_digest expected discriminator target authority =
     bnd (not_cancelled E) (\<lambda>_.
     bnd (await E (change_set cid device)) (\<lambda>r.
     bnd (now_unix E) (\<lambda>now.
     bnd (ensure (cs_owner r = owner \<and> cs_state r = Approved \<and> cs_digest r = expected_digest \<and>
                  cs_expected_candidate_fingerprint r = expected) (Apply NoLongerApproved)) (\<lambda>_.
     bnd (lift (waiver_expiry_error r now ''after acquiring device guard'')) (\<lambda>_.
     if cs_expires_at_unix r \<le> now then expire_and_refuse E K r (Apply ExpiredWaiting)
     else
     bnd (or_fail (\<lambda>t. Apply (FingerprintFailed t)) (dev_fingerprint E)) (\<lambda>before.
     bnd (ensure (before = expected) (Apply (DeviceDrift expected before))) (\<lambda>_.
     bnd (ensure (cs_policy_signature r \<noteq> []) (Apply NoPolicySignature)) (\<lambda>_.
     bnd (case undecodable E (cs_actions r) of
            None \<Rightarrow> ret () | Some i \<Rightarrow> fail (Apply (ActionUndecodable i))) (\<lambda>_.
     bnd (new_operation_id E) (\<lambda>oid.
     bnd (await E (insert_op E K (apply_operation_record oid cid owner device endpoint discriminator
            target authority before r))) (\<lambda>_.
     claim_and_stage E K cid oid owner device expected before r)))))))))))"

definition apply_change_set ::
  "'z env_scheme \<Rightarrow> coordinator \<Rightarrow> string \<Rightarrow> string \<Rightarrow> string \<Rightarrow> string \<Rightarrow> string \<Rightarrow> string \<Rightarrow> string \<Rightarrow>
   string option \<Rightarrow> string option \<Rightarrow> apply_output coord" where
  "apply_change_set E K cid device endpoint owner expected_digest expected discriminator target authority =
     bnd (lift (map_err (\<lambda>e. Changeset (DigestMalformed e)) (validate_digest expected_digest ''expected_digest''))) (\<lambda>_.
     bnd (lift (map_err (\<lambda>e. Changeset (FingerprintMalformed e)) (validate_fingerprint expected))) (\<lambda>_.
     bnd (lift (apply_canonicalize_endpoint E endpoint)) (\<lambda>canonical.
     bnd (await E (change_set cid device)) (\<lambda>r.
     bnd (ensure (cs_owner r = owner) (Apply OnlyOwnerApplies)) (\<lambda>_.
     bnd (ensure (cs_state r = Approved) (Apply ApprovalRequired)) (\<lambda>_.
     bnd (now_unix E) (\<lambda>now_for_waiver.
     bnd (lift (waiver_expiry_error r now_for_waiver ''before device guard'')) (\<lambda>_.
     bnd (lift (check_recorded_approval K r)) (\<lambda>_.
     bnd (now_unix E) (\<lambda>now.
     if cs_expires_at_unix r \<le> now then expire_and_refuse E K r (Apply ApprovedExpired)
     else
     bnd (ensure (cs_digest r = expected_digest \<and> cs_expected_candidate_fingerprint r = expected)
            (Apply PlanMismatch)) (\<lambda>_.
     with_guard E device
       (apply_guarded E K cid device canonical owner expected_digest expected discriminator target authority))))))))))))"

end
