(* ===== verification/Tools.thy ===== *)
theory Tools
  imports Apply Store_Refinement
begin

text \<open>
  The tools of the change-set crate as one family: \<open>tool\<close> has one constructor for each public
  method that works on change sets and operations, \<open>run_tool\<close> runs it. Three locales state what a
  relation between states has to offer: \<open>state_relation\<close> is closed under sequences,
  \<open>store_relation\<close> under the store operations and evidence, \<open>tool_relation\<close> also under what the
  other tasks do, and then every tool keeps the relation at every interleaving.
\<close>

datatype tool =
    Create string "json option list" string string string
  | Approve string string string string actor_type
  | Waive string string string string
  | WaiveOperator string string string string waiver_kind string "nat option" "string option"
  | Status string string
  | StatusWithActions string string
  | Cancel string string string
  | ApplySet string string string string string string string "string option" "string option"
  | Stage string string string string "json option list" string "string option" string "string option"
  | Diff string string string string string
  | Validate string string string string string
  | Commit string string string string string string attribution "nat option"
  | Discard string string string string

definition finish :: "'a coord \<Rightarrow> unit coord" where
  "finish m = bnd m (\<lambda>_. ret ())"

fun run_tool :: "'z env_scheme \<Rightarrow> coordinator \<Rightarrow> tool \<Rightarrow> unit coord" where
  "run_tool E K (Create d acts ow fp pol) = finish (create_change_set E K d acts ow fp pol)"
| "run_tool E K (Approve c d ap dg ty) = finish (approve_change_set E K c d ap dg ty)"
| "run_tool E K (Waive c d ow dg) = finish (waive_approval E K c d ow dg)"
| "run_tool E K (WaiveOperator c d ow dg kind rs ex tk) =
     finish (waive_approval_operator E K c d ow dg kind rs ex tk)"
| "run_tool E K (Status c d) = finish (change_set_status E K c d)"
| "run_tool E K (StatusWithActions c d) = finish (change_set_status_with_actions E K c d)"
| "run_tool E K (Cancel c d who) = finish (cancel_change_set E K c d who)"
| "run_tool E K (ApplySet c d ep ow dg fp disc tgt auth) =
     finish (apply_change_set E K c d ep ow dg fp disc tgt auth)"
| "run_tool E K (Stage d ow fp ep acts disc tgt pol auth) =
     finish (stage_operation E K d ow fp ep acts disc tgt pol auth)"
| "run_tool E K (Diff i d ow fp st) = finish (diff_operation E i d ow fp st)"
| "run_tool E K (Validate i d ow fp st) = finish (validate_operation E K i d ow fp st)"
| "run_tool E K (Commit i d ow fp pol st a cf) = finish (commit_operation E K i d ow fp pol st a cf)"
| "run_tool E K (Discard i d ow fp) = finish (discard_operation E K i d ow fp)"


section \<open>Relations every tool keeps\<close>

named_theorems steps_rules

definition steps :: "(sys \<Rightarrow> sys \<Rightarrow> bool) \<Rightarrow> (sys, 'e, 'a) act \<Rightarrow> bool" where
  "steps R m \<longleftrightarrow> (\<forall>s x t. m s = (x, t) \<longrightarrow> R s t)"

lemma stepsI: "(\<And>s x t. m s = (x, t) \<Longrightarrow> R s t) \<Longrightarrow> steps R m"
  by (simp add: steps_def)

lemma stepsD: "steps R m \<Longrightarrow> m s = (x, t) \<Longrightarrow> R s t"
  by (simp add: steps_def)

definition same_store :: "sys \<Rightarrow> sys \<Rightarrow> bool" where
  "same_store s t \<longleftrightarrow> mem t = mem s \<and> disk t = disk s \<and> trail t = trail s \<and> durable t = durable s"

locale state_relation =
  fixes R :: "sys \<Rightarrow> sys \<Rightarrow> bool"
  assumes R_frame: "same_store s t \<Longrightarrow> R s t"
    and R_trans: "R s t \<Longrightarrow> R t u \<Longrightarrow> R s u"
begin

lemma steps_bnd [steps_rules]:
  assumes "steps R m" "\<And>x. steps R (f x)"
  shows "steps R (bnd m f)"
proof (rule stepsI)
  fix s y t assume "bnd m f s = (y, t)"
  then show "R s t"
    using assms by (fastforce simp: bnd_def steps_def split: prod.splits sum.splits intro: R_trans)
qed

lemma steps_catch [steps_rules]:
  assumes "steps R m" "\<And>e. steps R (h e)" "\<And>x. steps R (k x)"
  shows "steps R (catch m h k)"
proof (rule stepsI)
  fix s y t assume "catch m h k s = (y, t)"
  then show "R s t"
    using assms by (fastforce simp: catch_def steps_def split: prod.splits sum.splits intro: R_trans)
qed

lemma steps_attempt [steps_rules]:
  assumes "steps R m" "\<And>x. steps R (k x)"
  shows "steps R (attempt m k)"
proof (rule stepsI)
  fix s y t assume "attempt m k s = (y, t)"
  then show "R s t"
    using assms by (fastforce simp: attempt_def steps_def split: prod.splits intro: R_trans)
qed

lemma steps_still [steps_rules]:
  "steps R (ret x)" "steps R (fail e)" "steps R (lift r)" "steps R (gets f)" "steps R (ensure b e)"
  by (auto simp: steps_def act_defs same_store_def intro!: R_frame)

lemma steps_discard [steps_rules]: "steps R m \<Longrightarrow> steps R (discard m)"
  by (auto simp: steps_def act_defs) (metis prod.collapse)

lemma steps_ask [steps_rules]: "steps R (ask f)" "steps R (is_cancelled E)"
  by (auto simp: steps_def ask_def is_cancelled_def same_store_def intro!: R_frame)

lemma steps_log [steps_rules]: "steps R (log_event f)"
  by (auto simp: steps_def log_event_def act_defs same_store_def intro!: R_frame)

lemma steps_if [steps_rules]:
  "steps R m \<Longrightarrow> steps R n \<Longrightarrow> steps R (if b then m else n)"
  by simp

lemma steps_case_option [steps_rules]:
  "steps R m \<Longrightarrow> (\<And>y. steps R (n y)) \<Longrightarrow> steps R (case x of None \<Rightarrow> m | Some y \<Rightarrow> n y)"
  by (cases x) auto

lemma steps_case_sum [steps_rules]:
  "(\<And>y. steps R (m y)) \<Longrightarrow> (\<And>y. steps R (n y)) \<Longrightarrow>
    steps R (case x of Inl y \<Rightarrow> m y | Inr y \<Rightarrow> n y)"
  by (cases x) auto

lemma steps_case_prod [steps_rules]:
  "(\<And>a b. steps R (m a b)) \<Longrightarrow> steps R (case x of (a, b) \<Rightarrow> m a b)"
  by (cases x) auto

lemma steps_case_unlock [steps_rules]:
  "steps R m \<Longrightarrow> steps R n \<Longrightarrow> steps R (case x of Released \<Rightarrow> m | Unsupported \<Rightarrow> n)"
  by (cases x) auto

lemma steps_let [steps_rules]: "steps R (f x) \<Longrightarrow> steps R (let y = x in f y)"
  by simp

end

text \<open>The store operations of a task that works on existing change sets, and its evidence.\<close>

locale store_relation = state_relation R for R +
  fixes E :: "'z env_scheme" and K :: coordinator
  assumes R_insert_op: "steps R (insert_op E K r)"
    and R_update_op: "steps R (update_op E K r)"
    and R_remove_op: "steps R (remove_op E K oid)"
    and R_write_change_set: "steps R (write_change_set E K c)"
    and R_claim: "steps R (claim_change_set_for_apply E K cid d h)"
    and R_append: "steps R (append_evidence ev)"
    and R_append_flush: "steps R (bnd (append_evidence ev) (\<lambda>_. flush_evidence E K))"

locale tool_relation = store_relation +
  assumes R_others: "R s (others_at E n s)"
    and R_insert_change_set: "steps R (insert_change_set E K c)"
begin

lemma steps_yield [steps_rules]: "steps R (yield E)"
proof (rule stepsI)
  fix s x t assume "yield E s = (x, t)"
  then have "same_store (others_at E (tick s) s) t" by (auto simp: yield_def same_store_def)
  then show "R s t" by (rule R_trans [OF R_others R_frame])
qed

lemmas [steps_rules] = R_insert_op R_update_op R_remove_op R_insert_change_set R_write_change_set
  R_claim

lemma steps_await [steps_rules]: "steps R m \<Longrightarrow> steps R (await E m)"
  unfolding await_def by (intro steps_rules)

lemma steps_update_change_set [steps_rules]:
  "steps R (update_change_set E K c)" "steps R (update_change_set_from E K st c)"
  unfolding update_change_set_def update_change_set_from_def by (intro steps_rules)+

lemma steps_reads [steps_rules]:
  "steps R (now_unix E)" "steps R (new_operation_id E)" "steps R (change_set cid d)"
  "steps R (record_op oid ow d)" "steps R (not_cancelled E)"
  unfolding now_unix_def new_operation_id_def change_set_def record_op_def not_cancelled_def
  by (intro steps_rules)+

lemma steps_rpc [steps_rules]: "steps R (device_rpc E c a v)"
  unfolding device_rpc_def by (intro steps_rules)

lemma steps_dev [steps_rules]:
  "steps R (dev_fingerprint E)" "steps R (dev_stage E as)" "steps R (dev_diff E h)"
  "steps R (dev_validate E h)" "steps R (dev_rollback E to)" "steps R (dev_lock E txt)"
  "steps R (dev_unlock E)" "steps R (dev_commit E h a cf)"
  unfolding dev_fingerprint_def dev_stage_def dev_diff_def dev_validate_def dev_rollback_def
    dev_lock_def dev_unlock_def dev_commit_def
  by (intro steps_rules)+

lemma steps_or_fail [steps_rules]: "steps R m \<Longrightarrow> steps R (or_fail g m)"
  unfolding or_fail_def by (intro steps_rules)

lemma steps_when_evidence [steps_rules]: "steps R (when_evidence K ev)"
  unfolding when_evidence_def by (intro steps_rules R_append)

lemma steps_intent [steps_rules]:
  "steps R (apply_intent E K rq c d p)" "steps R (result_receipt E K rq c d p ok er)"
  unfolding apply_intent_def result_receipt_def bnd_assoc by (intro steps_rules R_append_flush)+

lemma steps_with_guard [steps_rules]:
  assumes "steps R m"
  shows "steps R (with_guard E d m)"
proof -
  have g: "steps R (device_guard E d)"
    unfolding device_guard_def
    by (intro steps_rules) (auto simp: steps_def act_defs same_store_def intro!: R_frame)
  have "steps R (\<lambda>s. case m s of (r, t) \<Rightarrow> (r, release_guard d t))"
    using assms
    by (fastforce simp: steps_def release_guard_def same_store_def split: prod.splits
        intro: R_trans [OF _ R_frame])
  with g show ?thesis unfolding with_guard_def by (intro steps_rules)
qed

subsection \<open>Change sets\<close>

lemma steps_changeset [steps_rules]:
  "steps R (create_change_set E K d acts ow fp pol)"
  "steps R (expire_and_fail E K r e)"
  "steps R (record_waiver E K cid r w now)"
  "steps R (retire_if_deadline_passed E K r)"
  unfolding create_change_set_def expire_and_fail_def record_waiver_def retire_if_deadline_passed_def
  by (intro steps_rules)+

lemma steps_decisions [steps_rules]:
  "steps R (approve_change_set E K cid d ap dg ty)"
  "steps R (waive_approval E K cid d ow dg)"
  "steps R (waive_approval_operator E K cid d ow dg kind rs ex tk)"
  "steps R (change_set_status E K cid d)"
  "steps R (change_set_status_with_actions E K cid d)"
  "steps R (cancel_change_set E K cid d who)"
  unfolding approve_change_set_def waive_approval_def waive_approval_operator_def
    change_set_status_def change_set_status_with_actions_def cancel_change_set_def
  by (intro steps_rules)+


subsection \<open>Operations\<close>

lemma steps_failing_with [steps_rules]: "steps R m \<Longrightarrow> steps R (failing_with r a b m)"
  by (auto simp: steps_def failing_with_def split: prod.splits)

lemma steps_stage_parts [steps_rules]:
  "steps R (stage_block E K r fp)" "steps R (stage_succeeded E K r res)"
  "steps R (stage_touched E K f)" "steps R (stage_untouched E K f)"
  unfolding stage_block_def stage_succeeded_def stage_touched_def stage_untouched_def lock_released_def
  by (intro steps_rules)+

lemma steps_stage_body [steps_rules]: "steps R (stage_body E K r fp)"
  unfolding stage_body_def by (intro steps_rules)

lemma steps_guard_fingerprint [steps_rules]: "steps R (guard_fingerprint E r fp)"
  unfolding guard_fingerprint_def by (intro steps_rules)

lemma steps_commit_evidence [steps_rules]: "steps R (commit_evidence E K a r oid out)"
  by (cases out) (simp_all add: steps_rules)

lemma steps_commit_parts [steps_rules]:
  "steps R (settle_commit E K a r oid ans)" "steps R (send_commit E K a cf r oid h)"
  unfolding settle_commit_def send_commit_def by (intro steps_rules)+

lemma steps_discard_parts [steps_rules]:
  "steps R (discard_unlock E K r)" "steps R (discard_rollback E K r)" "steps R (discard_finish E K r)"
  unfolding discard_unlock_def discard_rollback_def discard_finish_def by (intro steps_rules)+

lemma steps_operation [steps_rules]:
  "steps R (stage_operation E K d ow fp ep acts disc tgt pol auth)"
  "steps R (diff_operation E oid d ow fp h)"
  "steps R (validate_operation E K oid d ow fp h)"
  "steps R (commit_operation E K oid d ow fp pol h a cf)"
  "steps R (discard_operation E K oid d ow fp)"
  unfolding stage_operation_def diff_operation_def validate_operation_def commit_operation_def
    discard_operation_def
  by (intro steps_rules)+


subsection \<open>Applying\<close>

lemma steps_cleanup [steps_rules]:
  "steps R (abandon E K oid c e)" "steps R (unlock_and_abandon E K b oid c e)"
  "steps R (drop_reservation E K oid e)" "steps R (tagged_error E src txt)"
  "steps R (expire_and_refuse E K c e)"
  unfolding unlock_and_abandon_def abandon_def drop_reservation_def tagged_error_def
    expire_and_refuse_def
  by (intro steps_rules)+

lemma steps_stage_refused [steps_rules]: "steps R (stage_refused E K oid c e)"
  unfolding stage_refused_def by (intro steps_rules)

lemma steps_settle [steps_rules]:
  "steps R (settle_unreadable E K oid ow d c e)" "steps R (record_staged E K cid fp n r)"
  "steps R (settle_applied E K cid oid ow d fp n c h)"
  unfolding settle_applied_def settle_unreadable_def record_staged_def by (intro steps_rules)+

lemma steps_claimed [steps_rules]:
  "steps R (stage_claimed E K cid oid ow d fp bf acts b c)"
  "steps R (lock_claimed E K cid oid ow d fp bf acts c)"
  "steps R (claim_and_stage E K cid oid ow d fp bf r)"
  unfolding claim_and_stage_def lock_claimed_def stage_claimed_def by (intro steps_rules)+

lemma steps_apply [steps_rules]:
  "steps R (apply_guarded E K cid d ep ow dg fp disc tgt auth)"
  "steps R (apply_change_set E K cid d ep ow dg fp disc tgt auth)"
  unfolding apply_change_set_def apply_guarded_def by (intro steps_rules)+

theorem tool_steps: "steps R (run_tool E K T)"
  by (cases T) (auto simp: finish_def intro: steps_rules)

end

end
