(* ===== verification/Tool_Runs.thy ===== *)
theory Tool_Runs
  imports Tools Coordinator_System
begin

text \<open>
  Two relations every tool keeps, as interpretations of \<open>tool_relation\<close>.

  \<^item> \<open>runs_to\<close>: the tool, with everything that happens while it waits, is a run of the step
    relation \<open>cstep\<close>, so every invariant of the store holds after it.
  \<^item> \<open>later\<close>: the evidence trail only grows, what is durable stays durable, and the operations
    stay filed under their own identifiers.
\<close>

section \<open>Tools are runs of the system\<close>

definition runs_to :: "env \<Rightarrow> coordinator \<Rightarrow> sys \<Rightarrow> sys \<Rightarrow> bool" where
  "runs_to E K s t \<longleftrightarrow> (\<exists>ls. run (cstep (lib_of E) (state_path K)) (s, Some K) ls (t, Some K))"

text \<open>What the other tasks do while this one waits is itself a run of the system.\<close>

definition tame :: "env \<Rightarrow> coordinator \<Rightarrow> bool" where
  "tame E K \<longleftrightarrow> (\<forall>n s. runs_to E K s (others_at E n s))"

lemma runs_to_step: "cstep (lib_of E) (state_path K) (s, Some K) l (t, Some K) \<Longrightarrow> runs_to E K s t"
  unfolding runs_to_def by (blast intro: run_single)

lemma runs_to_frame: "mem t = mem s \<Longrightarrow> disk t = disk s \<Longrightarrow> runs_to E K s t"
  by (rule runs_to_step) (rule step_rest)

lemma runs_to_trans: "runs_to E K s t \<Longrightarrow> runs_to E K t u \<Longrightarrow> runs_to E K s u"
  unfolding runs_to_def by (blast intro: run_append)

lemma append_evidence_frame: "append_evidence ev s = (x, t) \<Longrightarrow> mem t = mem s \<and> disk t = disk s"
  by (auto simp: append_evidence_def act_defs)

lemma append_flush_frame:
  "bnd (append_evidence ev) (\<lambda>_. flush_evidence E K) s = (x, t) \<Longrightarrow> mem t = mem s \<and> disk t = disk s"
  by (auto simp: append_evidence_def flush_evidence_def act_defs ask_def split: if_splits option.splits)

interpretation tool_run: tool_relation "\<lambda>s t. tame E K \<longrightarrow> runs_to E K s t" E K for E :: env and K
proof (unfold_locales, goal_cases)
  case (1 s t)
  then show ?case by (simp add: same_store_def runs_to_frame)
next
  case (2 s t u)
  then show ?case by (blast intro: runs_to_trans)
next
  case (3 r)
  then show ?case by (auto intro!: stepsI intro: runs_to_step [OF step_insert_op])
next
  case (4 r)
  then show ?case by (auto intro!: stepsI intro: runs_to_step [OF step_update_op])
next
  case (5 oid)
  then show ?case by (auto intro!: stepsI intro: runs_to_step [OF step_remove_op])
next
  case (6 c)
  then show ?case
    by (auto simp: update_change_set_def [symmetric] intro!: stepsI intro: runs_to_step [OF step_update])
next
  case (7 cid d h)
  then show ?case by (auto intro!: stepsI intro: runs_to_step [OF step_claim])
next
  case (8 ev)
  then show ?case by (auto intro!: stepsI runs_to_frame dest: append_evidence_frame)
next
  case (9 ev)
  then show ?case by (auto intro!: stepsI runs_to_frame dest: append_flush_frame)
next
  case (10 s n)
  then show ?case by (simp add: tame_def)
next
  case (11 c)
  then show ?case by (auto intro!: stepsI intro: runs_to_step [OF step_insert])
qed

lemma tool_runs: "tame E K \<Longrightarrow> run_tool E K T s = (x, t) \<Longrightarrow> runs_to E K s t"
  using tool_run.tool_steps by (auto dest: stepsD)


section \<open>The trail only grows\<close>

definition keyed_ops :: "(string \<times> operation_record) list \<Rightarrow> bool" where
  "keyed_ops m \<longleftrightarrow> bt_ok m \<and> (\<forall>k r. bt_get m k = Some r \<longrightarrow> op_id r = k)"

abbreviation ops_keyed :: "sys \<Rightarrow> bool" where
  "ops_keyed s \<equiv> keyed_ops (st_operations (mem s))"

definition durable_ok :: "sys \<Rightarrow> bool" where
  "durable_ok s \<longleftrightarrow> durable s \<le> length (trail s)"

definition later :: "sys \<Rightarrow> sys \<Rightarrow> bool" where
  "later s t \<longleftrightarrow> (ops_keyed s \<longrightarrow> ops_keyed t) \<and> (\<exists>l. trail t = trail s @ l) \<and>
     (durable_ok s \<longrightarrow> durable_ok t \<and> durable s \<le> durable t)"

text \<open>The other tasks respect a relation.\<close>

definition abides :: "(sys \<Rightarrow> sys \<Rightarrow> bool) \<Rightarrow> 'z env_scheme \<Rightarrow> bool" where
  "abides R E \<longleftrightarrow> (\<forall>n s. R s (others_at E n s))"

abbreviation polite :: "'z env_scheme \<Rightarrow> bool" where
  "polite \<equiv> abides later"

lemma later_trans: "later s t \<Longrightarrow> later t u \<Longrightarrow> later s u"
  unfolding later_def by (force simp: durable_ok_def)

lemma later_frame:
  "same_rest s t \<Longrightarrow> (ops_keyed s \<Longrightarrow> ops_keyed t) \<Longrightarrow> later s t"
  by (auto simp: later_def same_rest_def durable_ok_def)

lemma later_refl: "later s s"
  by (rule later_frame) (auto simp: same_rest_def)

lemma later_tick: "later s (s\<lparr>tick := n\<rparr>)"
  by (rule later_frame) (auto simp: same_rest_def)

lemma keyed_ops_insert: "keyed_ops m \<Longrightarrow> op_id r = k \<Longrightarrow> keyed_ops (bt_insert k r m)"
  by (auto simp: keyed_ops_def bt_ok_insert bt_get_insert split: if_splits)

lemma keyed_ops_remove: "keyed_ops m \<Longrightarrow> keyed_ops (bt_remove k m)"
  by (auto simp: keyed_ops_def bt_ok_remove bt_get_remove split: if_splits)

lemma keyed_ops_evict: "keyed_ops m \<Longrightarrow> keyed_ops (evict_terminal K m)"
  by (auto simp: keyed_ops_def evict_terminal_def bt_ok_retain bt_get_retain bind_eq_Some_conv split: if_splits)

interpretation trail_steps: state_relation later
proof
  fix s t assume "same_store s t"
  then show "later s t" by (auto simp: later_def same_store_def durable_ok_def)
qed (rule later_trans)

lemma gets_mem_later:
  "(\<And>s x t. f (mem s) s = (x, t) \<Longrightarrow> later s t) \<Longrightarrow> steps later (bnd (gets mem) f)"
  by (auto intro!: stepsI simp: bnd_gets)

lemma store_or_undo_later:
  assumes "store_or_undo E K st undo s = (x, t)"
    and "ops_keyed s \<Longrightarrow> keyed_ops (st_operations st)" "ops_keyed s \<Longrightarrow> keyed_ops (st_operations undo)"
  shows "later s t"
  using store_or_undo_cases [OF assms(1)] assms(2,3) by (auto intro!: later_frame)

lemma put_persist_later:
  assumes "persist_locked E K st (s\<lparr>mem := st'\<rparr>) = (x, t)"
    and "ops_keyed s \<Longrightarrow> keyed_ops (st_operations st')"
  shows "later s t"
  using persist_locked_cases [OF assms(1)] assms(2) by (auto intro!: later_frame simp: same_rest_def)

lemma update_op_later: "steps later (update_op E K r)"
  unfolding update_op_def Let_def
proof (rule gets_mem_later, erule store_or_undo_later)
  fix s assume "ops_keyed s"
  then show "keyed_ops (st_operations ((mem s)\<lparr>st_operations := bt_insert (op_id r) r (st_operations (mem s))\<rparr>))"
    by (simp add: keyed_ops_insert)
  show "keyed_ops (st_operations ((mem s)\<lparr>st_operations :=
      case bt_get (st_operations (mem s)) (op_id r) of
        None \<Rightarrow> bt_remove (op_id r) (bt_insert (op_id r) r (st_operations (mem s)))
      | Some previous \<Rightarrow> bt_insert (op_id r) previous (bt_insert (op_id r) r (st_operations (mem s)))\<rparr>))"
    using \<open>ops_keyed s\<close>
    by (auto simp: keyed_ops_def bt_ok_insert bt_ok_remove bt_get_insert bt_get_remove
        split: option.split if_splits)
qed

lemma insert_op_later: "steps later (insert_op E K r)"
  unfolding insert_op_def Let_def
proof (rule gets_mem_later)
  fix s :: sys and x t
  let ?ops = "evict_terminal K (st_operations (mem s))"
  assume r: "bnd (put_mem ((mem s)\<lparr>st_operations := ?ops\<rparr>)) (\<lambda>_.
       bnd (ensure (length ?ops < max_operations (limits K)) (Coordinator OperationStoreFull)) (\<lambda>_.
       bnd (ensure (\<not> (\<exists>x\<in>set (bt_values ?ops). busy r x)) (Coordinator DeviceBusy)) (\<lambda>_.
       store_or_undo E K ((mem s)\<lparr>st_operations := bt_insert (op_id r) r ?ops\<rparr>)
         ((mem s)\<lparr>st_operations := bt_remove (op_id r)
            (st_operations ((mem s)\<lparr>st_operations := bt_insert (op_id r) r ?ops\<rparr>))\<rparr>)))) s = (x, t)"
  let ?s = "s\<lparr>mem := (mem s)\<lparr>st_operations := ?ops\<rparr>\<rparr>"
  have l: "later s ?s" by (rule later_frame) (auto simp: same_rest_def keyed_ops_evict)
  consider "t = ?s" | "store_or_undo E K ((mem s)\<lparr>st_operations := bt_insert (op_id r) r ?ops\<rparr>)
      ((mem s)\<lparr>st_operations := bt_remove (op_id r) (bt_insert (op_id r) r ?ops)\<rparr>) ?s = (x, t)"
    using r by (auto simp: put_mem_def bnd_def modify_def ensure_def ret_def fail_def split: if_splits)
  then show "later s t"
  proof cases
    case 2
    have "later ?s t"
      by (rule store_or_undo_later [OF 2]) (simp_all add: keyed_ops_insert keyed_ops_remove)
    with l show ?thesis by (rule later_trans)
  qed (simp add: l)
qed

lemma remove_op_later: "steps later (remove_op E K oid)"
  unfolding remove_op_def Let_def
proof (rule gets_mem_later)
  fix s :: sys and x t
  let ?st = "(mem s)\<lparr>st_operations := bt_remove oid (st_operations (mem s))\<rparr>"
  assume "bnd (put_mem ?st) (\<lambda>_. discard (persist_locked E K ?st)) s = (x, t)"
  then obtain y where "persist_locked E K ?st (s\<lparr>mem := ?st\<rparr>) = (y, t)"
    by (auto simp: put_mem_def bnd_def modify_def discard_def) (metis prod.collapse)
  then show "later s t" by (rule put_persist_later) (simp add: keyed_ops_remove)
qed

lemma write_change_set_later: "steps later (write_change_set E K c)"
  unfolding write_change_set_def Let_def
  by (rule gets_mem_later)
    (auto simp: bnd_lift split: sum.splits intro: store_or_undo_later later_frame simp: same_rest_def)

lemma claim_later: "steps later (claim_change_set_for_apply E K cid d h)"
  unfolding claim_change_set_for_apply_def
proof (rule trail_steps.steps_bnd [OF trail_steps.steps_still(3)], rule gets_mem_later)
  fix s :: sys and x t
  assume r: "(case bt_get (st_change_sets (mem s)) cid of None \<Rightarrow> fail (Coordinator UnknownChangeSet)
     | Some r \<Rightarrow>
         bnd (ensure (cs_device r = d) (Coordinator OtherDevice)) (\<lambda>_.
         bnd (ensure (cs_state r = Approved) (Coordinator (NotClaimable (cs_state r)))) (\<lambda>_.
         let claimed = r\<lparr>cs_state := Applying, cs_apply_without_handle := (h = HandleNone)\<rparr>;
             st' = (mem s)\<lparr>st_change_sets := bt_insert cid claimed (st_change_sets (mem s))\<rparr>
         in bnd (lift (map_err Write (check_change_set_write E (Some r) claimed ApplyClaim))) (\<lambda>_.
            bnd (put_mem st') (\<lambda>_. bnd (persist_locked E K st') (\<lambda>_. ret claimed)))))) s = (x, t)"
  have refl: "later s s" by (rule later_frame) (auto simp: same_rest_def)
  show "later s t"
  proof (cases "bt_get (mem_css s) cid")
    case None
    with r refl show ?thesis by (simp add: act_simps)
  next
    case (Some c)
    let ?c = "c\<lparr>cs_state := Applying, cs_apply_without_handle := (h = HandleNone)\<rparr>"
    let ?st = "(mem s)\<lparr>st_change_sets := bt_insert cid ?c (mem_css s)\<rparr>"
    obtain y u where p: "persist_locked E K ?st (s\<lparr>mem := ?st\<rparr>) = (y, u)"
      by (cases "persist_locked E K ?st (s\<lparr>mem := ?st\<rparr>)")
    have "t = s \<or> t = u"
      using r Some p by (auto simp: Let_def bnd_def ensure_def ret_def fail_def lift_def map_err_def
          put_mem_def modify_def split: sum.splits if_splits)
    with refl put_persist_later [OF p] show ?thesis by auto
  qed
qed

lemma sweep_later: "steps later (sweep E K now)"
  unfolding sweep_def Let_def
  by (rule gets_mem_later)
    (auto simp: put_mem_def act_defs split: if_splits
      intro: store_or_undo_later later_frame simp: same_rest_def)

lemma insert_change_set_later: "steps later (insert_change_set E K c)"
proof (rule stepsI)
  fix s x t assume "insert_change_set E K c s = (x, t)"
  then show "later s t"
  proof (cases rule: insert_change_set_cases)
    case (clock r)
    then show ?thesis by (simp add: later_tick)
  next
    case (sweep r now e)
    then show ?thesis by (blast intro: later_trans [OF later_tick] stepsD [OF sweep_later])
  next
    case (full r now)
    then show ?thesis by (blast intro: later_trans [OF later_tick] stepsD [OF sweep_later])
  next
    case (pending r now e)
    then show ?thesis by (blast intro: later_trans [OF later_tick] stepsD [OF sweep_later])
  next
    case (store r now u)
    from store(3) have "later s u" by (blast intro: later_trans [OF later_tick] stepsD [OF sweep_later])
    moreover from store(6) have "later u t" by (rule store_or_undo_later) simp_all
    ultimately show ?thesis by (rule later_trans)
  qed (simp_all add: later_refl)
qed

lemma append_later: "steps later (append_evidence ev)"
  by (auto simp: append_evidence_def steps_def act_defs later_def durable_ok_def)

lemma append_flush_later: "steps later (bnd (append_evidence ev) (\<lambda>_. flush_evidence E K))"
  by (auto simp: append_evidence_def flush_evidence_def steps_def act_defs ask_def later_def
      durable_ok_def split: if_splits option.splits)

interpretation trail: store_relation later E K for E :: "'z env_scheme" and K
  by unfold_locales (rule update_op_later insert_op_later remove_op_later write_change_set_later
      claim_later append_later append_flush_later)+

interpretation tool_trail: tool_relation "\<lambda>s t. polite E \<longrightarrow> later s t" E K
  for E :: "'z env_scheme" and K
proof (unfold_locales, goal_cases)
  case (1 s t)
  then show ?case by (simp add: trail_steps.R_frame)
next
  case (2 s t u)
  then show ?case by (blast intro: later_trans)
next
  case (10 s n)
  then show ?case by (simp add: abides_def)
qed (auto intro!: stepsI dest: stepsD [OF update_op_later] stepsD [OF insert_op_later]
    stepsD [OF remove_op_later] stepsD [OF insert_change_set_later] stepsD [OF write_change_set_later]
    stepsD [OF claim_later] stepsD [OF append_later] stepsD [OF append_flush_later])

lemma tool_later: "polite E \<Longrightarrow> run_tool E K T s = (x, t) \<Longrightarrow> later s t"
  using tool_trail.tool_steps by (auto dest: stepsD)

end
