(* ===== verification/Dialogue.thy ===== *)
theory Dialogue
  imports Tool_Runs
begin

text \<open>
  Rules for what a transaction says to its device, for any relation \<open>R\<close> the other tasks abide by.
  A precondition \<open>at l G\<close> gives the dialogue so far and a fact that lasts while other tasks run;
  \<open>just l G N\<close> adds a fact that holds until the next wait. The rules, one for each kind of step,
  are lemmas of the locales \<open>state_relation\<close> and \<open>store_relation\<close>.
\<close>

definition lasting :: "(sys \<Rightarrow> sys \<Rightarrow> bool) \<Rightarrow> (sys \<Rightarrow> bool) \<Rightarrow> bool" where
  "lasting R G \<longleftrightarrow> (\<forall>s t. G s \<longrightarrow> R s t \<longrightarrow> G t)"

definition at :: "device_event list \<Rightarrow> (sys \<Rightarrow> bool) \<Rightarrow> sys \<Rightarrow> bool" where
  "at l G s \<longleftrightarrow> dialogue s = l \<and> G s"

definition just :: "device_event list \<Rightarrow> (sys \<Rightarrow> bool) \<Rightarrow> (sys \<Rightarrow> bool) \<Rightarrow> sys \<Rightarrow> bool" where
  "just l G N s \<longleftrightarrow> dialogue s = l \<and> G s \<and> N s"

lemma lasting_conj: "lasting R G \<Longrightarrow> lasting R H \<Longrightarrow> lasting R (\<lambda>s. G s \<and> H s)"
  by (auto simp: lasting_def)

lemma lasting_imp: "lasting R G \<Longrightarrow> lasting R (\<lambda>s. b \<longrightarrow> G s)"
  by (auto simp: lasting_def)

lemma lasting_mono: "lasting R G \<Longrightarrow> (\<And>s t. S s t \<Longrightarrow> R s t) \<Longrightarrow> lasting S G"
  by (auto simp: lasting_def)

lemma lasting_keyed: "lasting later ops_keyed"
  by (auto simp: lasting_def later_def)

lemma lasting_durable: "lasting later durable_ok"
  by (auto simp: lasting_def later_def)

lemma lasting_recorded: "lasting later (\<lambda>s. ev \<in> set (trail s))"
  by (auto simp: lasting_def later_def)

lemma lasting_stored: "lasting later (\<lambda>s. durable_ok s \<and> ev \<in> set (take (durable s) (trail s)))"
proof (unfold lasting_def, intro allI impI)
  fix s t assume s: "durable_ok s \<and> ev \<in> set (take (durable s) (trail s))" and l: "later s t"
  then obtain k where k: "trail t = trail s @ k" "durable s \<le> durable t" "durable_ok t"
    by (auto simp: later_def)
  have "take (durable s) (trail t) = take (durable s) (trail s)"
    using s k by (simp add: durable_ok_def)
  moreover have "set (take (durable s) (trail t)) \<subseteq> set (take (durable t) (trail t))"
    using k(2) by (rule set_take_subset_set_take)
  ultimately show "durable_ok t \<and> ev \<in> set (take (durable t) (trail t))" using s k(3) by auto
qed

lemma yield_dialogue: "dialogue (snd (yield E s)) = dialogue s"
  by (simp add: yield_def)

lemma talk_forget: "spec (at l G) m Q X \<Longrightarrow> spec (just l G N) m Q X"
  by (auto simp: spec_def at_def just_def)

lemma spec_just: "spec (just l G M) m Q X \<Longrightarrow> (\<And>s. N s \<Longrightarrow> M s) \<Longrightarrow> spec (just l G N) m Q X"
  by (auto simp: spec_def just_def)

lemma talk_ensure:
  "(b \<Longrightarrow> spec (at l G) (f ()) Q X) \<Longrightarrow> (\<And>t. \<not> b \<Longrightarrow> at l G t \<Longrightarrow> X e t) \<Longrightarrow>
    spec (at l G) (bnd (ensure b e) f) Q X"
  by (rule spec_ensure_bnd)

lemma talk_lift:
  "(\<And>x. r = Inr x \<Longrightarrow> spec (at l G) (f x) Q X) \<Longrightarrow> (\<And>e t. r = Inl e \<Longrightarrow> at l G t \<Longrightarrow> X e t) \<Longrightarrow>
    spec (at l G) (bnd (lift r) f) Q X"
  by (rule spec_lift_bnd)

lemma bnd_or_fail: "bnd (or_fail g m) f = bnd m (\<lambda>r. case r of Inl e \<Rightarrow> fail (g e) | Inr x \<Rightarrow> f x)"
  by (rule ext) (simp add: or_fail_def bnd_def lift_def map_err_def fail_def split: prod.split sum.split)

lemma bnd_await: "bnd (await E m) f = await E (bnd m f)"
  by (rule ext) (simp add: await_def bnd_def split: prod.split sum.split)


section \<open>Operations of the store say nothing\<close>

definition store_step :: "(sys \<Rightarrow> sys \<Rightarrow> bool) \<Rightarrow> (sys, 'e, 'a) act \<Rightarrow> bool" where
  "store_step R m \<longleftrightarrow> (\<forall>s x t. m s = (x, t) \<longrightarrow> dialogue t = dialogue s \<and> R s t)"

lemma store_step_keeps:
  assumes "steps R m" "\<And>l. keeps (\<lambda>s. dialogue s = l) m"
  shows "store_step R m"
proof (unfold store_step_def, intro allI impI)
  fix s x t assume m: "m s = (x, t)"
  from keepsD [OF assms(2) refl m] stepsD [OF assms(1) m] show "dialogue t = dialogue s \<and> R s t" ..
qed

lemma hush_put_mem [keeps_rules]: "keeps (\<lambda>s. dialogue s = l) (put_mem st)"
  by (simp add: keeps_def put_mem_def act_defs)

lemma hush_ask [keeps_rules]: "keeps (\<lambda>s. dialogue s = l) (ask f)"
  by (simp add: keeps_def ask_def)

lemma hush_persist [keeps_rules]: "keeps (\<lambda>s. dialogue s = l) (persist_locked E K st)"
proof (rule keepsI)
  fix s :: sys assume "dialogue s = l"
  moreover obtain x t where "persist_locked E K st s = (x, t)" by (rule prod.exhaust)
  ultimately show "dialogue (snd (persist_locked E K st s)) = l"
    by (auto dest!: persist_locked_cases simp: same_rest_def)
qed

lemma hush_let [keeps_rules]: "keeps P (f x) \<Longrightarrow> keeps P (let y = x in f y)"
  by simp

lemma hush_store_or_undo [keeps_rules]: "keeps (\<lambda>s. dialogue s = l) (store_or_undo E K st undo)"
  unfolding store_or_undo_def by (intro keeps_rules)

lemma hush_reads [keeps_rules]:
  "keeps (\<lambda>s. dialogue s = l) (record_op oid ow d)" "keeps (\<lambda>s. dialogue s = l) (change_set cid d)"
  "keeps (\<lambda>s. dialogue s = l) (now_unix E)" "keeps (\<lambda>s. dialogue s = l) (new_operation_id E)"
  unfolding record_op_def change_set_def now_unix_def new_operation_id_def by (intro keeps_rules)+

lemma hush_writes [keeps_rules]:
  "keeps (\<lambda>s. dialogue s = l) (update_op E K r)" "keeps (\<lambda>s. dialogue s = l) (insert_op E K r)"
  "keeps (\<lambda>s. dialogue s = l) (remove_op E K oid)"
  "keeps (\<lambda>s. dialogue s = l) (claim_change_set_for_apply E K cid d h)"
  "keeps (\<lambda>s. dialogue s = l) (update_change_set E K c)"
  unfolding update_op_def insert_op_def remove_op_def update_change_set_def write_change_set_def
    claim_change_set_for_apply_def
  by (intro keeps_rules)+

text \<open>The file holds what memory holds, when there is a file.\<close>

definition written :: "'z lib_scheme \<Rightarrow> coordinator \<Rightarrow> sys \<Rightarrow> bool" where
  "written L K s \<longleftrightarrow> state_path K = None \<or> disk s = Some (file_of L (mem s))"

abbreviation op_at :: "string \<Rightarrow> sys \<Rightarrow> operation_record option" where
  "op_at oid s \<equiv> bt_get (st_operations (mem s)) oid"

lemma update_op_InrD:
  assumes "update_op E K r s = (Inr x, t)"
  shows "op_at (op_id r) t = Some r" "written E K t"
  using store_or_undo_cases [OF assms [unfolded update_op_def bnd_gets Let_def]]
  by (auto simp: written_def same_rest_def bt_get_insert)

lemma update_op_InlD: "update_op E K r s = (Inl x, t) \<Longrightarrow> \<exists>e. x = Coordinator e"
  unfolding update_op_def bnd_gets Let_def by (drule store_or_undo_cases) auto

lemma record_op_InlD: "record_op oid ow d s = (Inl x, t) \<Longrightarrow> \<exists>e. x = Coordinator e"
  by (auto simp: record_op_def valid_id_def bnd_lift bnd_gets bnd_ensure act_apply
      split: sum.splits option.splits if_splits)

lemma record_op_InrD:
  "record_op oid ow d s = (Inr r, t) \<Longrightarrow> t = s \<and> op_at oid s = Some r \<and> op_owner r = ow \<and> op_device r = d"
  by (auto simp: record_op_def bnd_lift bnd_gets bnd_ensure act_apply split: sum.splits option.splits if_splits)


section \<open>Rules for any relation\<close>

context state_relation
begin

lemma R_tick: "R s (s\<lparr>tick := n\<rparr>)"
  by (rule R_frame) (simp add: same_store_def)

lemma yield_R: "abides R E \<Longrightarrow> R s (snd (yield E s))"
proof -
  assume "abides R E"
  then have "R s (others_at E (tick s) s)" by (simp add: abides_def)
  moreover have "R (others_at E (tick s) s) (snd (yield E s))"
    by (rule R_frame) (simp add: yield_def same_store_def)
  ultimately show ?thesis by (rule R_trans)
qed

lemma talk_await:
  assumes "abides R E" "lasting R G" "spec (at l G) m Q X"
  shows "spec (at l G) (await E m) Q X"
proof -
  have "at l G (snd (yield E s))" if "at l G s" for s
    using that yield_R [OF assms(1), of s] assms(2) yield_dialogue [of E s]
    by (auto simp: at_def lasting_def)
  moreover have "fst (yield E s) = Inr ()" for s by (simp add: yield_def)
  ultimately have "spec (at l G) (yield E) (\<lambda>_. at l G) X"
    by (auto simp: spec_def yield_def)
  then show ?thesis unfolding await_def by (rule spec_bnd) (rule assms(3))
qed

lemma talk_store:
  assumes "store_step R m" "lasting R G"
    and "\<And>x. spec (just l G (\<lambda>t. \<exists>s. at l G s \<and> m s = (Inr x, t))) (f x) Q X"
    and "\<And>e s t. at l G s \<Longrightarrow> m s = (Inl e, t) \<Longrightarrow> at l G t \<Longrightarrow> X e t"
  shows "spec (at l G) (bnd m f) Q X"
proof (rule spec_bnd)
  have step: "at l G t" if "m s = (x, t)" "at l G s" for s x t
    using that assms(1,2) by (fastforce simp: at_def store_step_def lasting_def)
  show "spec (at l G) m (\<lambda>x. just l G (\<lambda>t. \<exists>s. at l G s \<and> m s = (Inr x, t))) X"
  proof (rule specI)
    fix s x t assume "at l G s" "m s = (Inr x, t)"
    with step [of s "Inr x" t] show "just l G (\<lambda>t. \<exists>s. at l G s \<and> m s = (Inr x, t)) t"
      by (auto simp: just_def at_def)
  qed (use step assms(4) in blast)
qed (rule assms(3))

lemma talk_step:
  assumes "abides R E" "lasting R G" "store_step R m"
    and "\<And>x. spec (just l G (\<lambda>t. \<exists>s. at l G s \<and> m s = (Inr x, t))) (f x) Q X"
    and "\<And>e s t. at l G s \<Longrightarrow> m s = (Inl e, t) \<Longrightarrow> at l G t \<Longrightarrow> X e t"
  shows "spec (at l G) (bnd (await E m) f) Q X"
  unfolding bnd_await by (rule talk_await [OF assms(1,2) talk_store [OF assms(3,2,4,5)]])

lemma talk_ask:
  assumes "lasting R G" "\<And>n. spec (at l G) (f (g n)) Q X"
  shows "spec (at l G) (bnd (ask g) f) Q X"
proof -
  have "at l G (s\<lparr>tick := n\<rparr>)" if "at l G s" for s n
    using that assms(1) R_tick [of s n] by (auto simp: at_def lasting_def)
  then show ?thesis using assms(2) by (simp add: spec_def bnd_ask)
qed

lemma talk_not_cancelled:
  "lasting R G \<Longrightarrow> spec (at l G) (f ()) Q X \<Longrightarrow> (\<And>t. at l G t \<Longrightarrow> X (Coordinator OperationCancelled) t) \<Longrightarrow>
    spec (at l G) (bnd (not_cancelled E) f) Q X"
  unfolding not_cancelled_def is_cancelled_def bnd_assoc [symmetric]
  by (rule talk_ask) (auto intro: talk_ensure)

text \<open>A device call: what holds when it is sent is kept with it.\<close>

lemma talk_rpc:
  assumes "abides R E" "lasting R G" "\<And>s. dialogue s = l \<Longrightarrow> G s \<Longrightarrow> N s \<Longrightarrow> M (moment_of s)"
    and "\<And>n mo. M mo \<Longrightarrow> spec (at (l @ [Sent c mo, Got (v (a n))]) G) (f (a n)) Q X"
  shows "spec (just l G N) (bnd (device_rpc E c a v) f) Q X"
proof -
  have lat: "G (s\<lparr>tick := n, dialogue := d\<rparr>)" if "G s" for s d n
  proof -
    have "R s (s\<lparr>tick := n, dialogue := d\<rparr>)" by (rule R_frame) (simp add: same_store_def)
    with that assms(2) show ?thesis by (auto simp: lasting_def)
  qed
  have "case bnd (device_rpc E c a v) f s of (Inl e, t) \<Rightarrow> X e t | (Inr x, t) \<Rightarrow> Q x t"
    if s: "dialogue s = l" "G s" "N s" for s
  proof -
    let ?s = "s\<lparr>dialogue := l @ [Sent c (moment_of s)]\<rparr>"
    let ?u = "snd (yield E ?s)"
    let ?w = "?u\<lparr>tick := Suc (tick ?u), dialogue := dialogue ?u @ [Got (v (a (tick ?u)))]\<rparr>"
    have "bnd (device_rpc E c a v) f s = f (a (tick ?u)) ?w"
      using s(1) by (simp add: device_rpc_def log_event_def await_def bnd_def modify_def ret_def ask_def yield_def)
    moreover have "at (l @ [Sent c (moment_of s), Got (v (a (tick ?u)))]) G ?w"
    proof -
      have "G ?s" using lat [where s = s and d = "l @ [Sent c (moment_of s)]" and n = "tick s"] s(2) by simp
      then have "G ?u" using yield_R [OF assms(1), of ?s] assms(2) by (auto simp: lasting_def)
      then have "G ?w" by (rule lat)
      then show ?thesis by (simp add: at_def yield_dialogue)
    qed
    ultimately show ?thesis
      using assms(4) [OF assms(3) [OF s], of "tick ?u"] by (simp add: spec_def)
  qed
  then show ?thesis by (simp add: spec_def just_def)
qed

lemma talk_rpc_at:
  assumes "abides R E" "lasting R G"
    and "\<And>n mo. spec (at (l @ [Sent c mo, Got (v (a n))]) G) (f (a n)) Q X"
  shows "spec (at l G) (bnd (device_rpc E c a v) f) Q X"
proof -
  have "spec (just l G (\<lambda>_. True)) (bnd (device_rpc E c a v) f) Q X"
    by (rule talk_rpc [OF assms(1,2), where M = "\<lambda>_. True"]) (use assms(3) in auto)
  then show ?thesis by (simp add: spec_def at_def just_def)
qed

lemma talk_guard:
  assumes "abides R E" "lasting R G" "spec (at l G) m Q X"
    and "\<And>x t h. Q x t \<Longrightarrow> Q x (t\<lparr>held := h\<rparr>)" "\<And>e t h. X e t \<Longrightarrow> X e (t\<lparr>held := h\<rparr>)"
    and "\<And>t. at l G t \<Longrightarrow> X (Coordinator OperationCancelled) t"
  shows "spec (at l G) (with_guard E d m) Q X"
proof -
  have held: "at l G (s\<lparr>held := h\<rparr>)" if "at l G s" for s h
  proof -
    have "R s (s\<lparr>held := h\<rparr>)" by (rule R_frame) (simp add: same_store_def)
    with that assms(2) show ?thesis by (auto simp: lasting_def at_def)
  qed
  have body: "spec (at l G) (\<lambda>s. case m s of (r, t) \<Rightarrow> (r, release_guard d t)) Q X"
    using assms(3-5) by (force simp: spec_def release_guard_def split: prod.splits sum.splits)
  have take: "spec (at l G) (bnd (modify (\<lambda>s. s\<lparr>held := d # held s\<rparr>))
      (\<lambda>_ s. case m s of (r, t) \<Rightarrow> (r, release_guard d t))) Q X"
    using body held by (auto simp: spec_def bnd_modify)
  have "with_guard E d m = await E (bnd (ask (cancelled_at E)) (\<lambda>c. bnd (gets held) (\<lambda>h.
      bnd (ensure (\<not> c \<and> d \<notin> set h) (Coordinator OperationCancelled)) (\<lambda>_.
      bnd (modify (\<lambda>s. s\<lparr>held := d # held s\<rparr>)) (\<lambda>_ s. case m s of (r, t) \<Rightarrow> (r, release_guard d t))))))"
    by (rule ext) (simp add: with_guard_def device_guard_def await_def bnd_def split: prod.split sum.split)
  moreover have "spec (at l G) (bnd (gets held) (\<lambda>h.
      bnd (ensure (\<not> c \<and> d \<notin> set h) (Coordinator OperationCancelled)) (\<lambda>_.
      bnd (modify (\<lambda>s. s\<lparr>held := d # held s\<rparr>)) (\<lambda>_ s. case m s of (r, t) \<Rightarrow> (r, release_guard d t))))) Q X" for c
  proof -
    have "spec (at l G) (bnd (ensure b (Coordinator OperationCancelled)) (\<lambda>_.
      bnd (modify (\<lambda>s. s\<lparr>held := d # held s\<rparr>)) (\<lambda>_ s. case m s of (r, t) \<Rightarrow> (r, release_guard d t)))) Q X" for b
      by (rule talk_ensure [OF take assms(6)])
    then show ?thesis by (simp add: spec_def bnd_gets)
  qed
  ultimately show ?thesis using assms(1,2) by (simp add: talk_await talk_ask)
qed

lemma store_step_reads:
  "store_step R (record_op oid ow d)" "store_step R (change_set cid d)" "store_step R (now_unix E)"
  "store_step R (new_operation_id E)"
  by ((rule store_step_keeps, (unfold record_op_def change_set_def now_unix_def new_operation_id_def,
        intro steps_rules)[1], intro keeps_rules))+

lemma talk_record:
  assumes "abides R E" "lasting R G" "\<And>s. G s \<Longrightarrow> ops_keyed s"
    and "\<And>r. op_id r = oid \<Longrightarrow> op_owner r = ow \<Longrightarrow> op_device r = d \<Longrightarrow> spec (at l G) (f r) Q X"
    and "\<And>e t. at l G t \<Longrightarrow> X (Coordinator e) t"
  shows "spec (at l G) (bnd (await E (record_op oid ow d)) f) Q X"
proof (rule talk_step [OF assms(1,2) store_step_reads(1)])
  fix r
  show "spec (just l G (\<lambda>t. \<exists>s. at l G s \<and> record_op oid ow d s = (Inr r, t))) (f r) Q X"
  proof (cases "op_id r = oid \<and> op_owner r = ow \<and> op_device r = d")
    case True
    then show ?thesis by (intro talk_forget assms(4)) auto
  next
    case False
    then show ?thesis
      using assms(3) by (auto simp: spec_def just_def at_def keyed_ops_def dest!: record_op_InrD)
  qed
qed (use assms(5) in \<open>auto dest!: record_op_InlD\<close>)

end


section \<open>Rules for writing\<close>

context store_relation
begin

lemma store_step_writes:
  "store_step R (update_op E K r)" "store_step R (insert_op E K r)" "store_step R (remove_op E K oid)"
  "store_step R (update_change_set E K c)" "store_step R (claim_change_set_for_apply E K cid d h)"
  unfolding update_change_set_def
  by (rule store_step_keeps, rule R_update_op R_insert_op R_remove_op R_write_change_set R_claim,
      intro keeps_rules hush_writes(5) [unfolded update_change_set_def])+

lemma talk_update:
  assumes "abides R E" "lasting R G"
    and "spec (just l G (\<lambda>t. op_at (op_id r) t = Some r \<and> written E K t)) (f ()) Q X"
    and "\<And>e t. at l G t \<Longrightarrow> X (Coordinator e) t"
  shows "spec (at l G) (bnd (await E (update_op E K r)) f) Q X"
  by (rule talk_step [OF assms(1,2) store_step_writes(1)])
    (use assms(3,4) in \<open>auto intro: spec_just dest: update_op_InrD dest!: update_op_InlD\<close>)

end

end
