(* ===== verification/Operation_Facts.thy ===== *)
theory Operation_Facts
  imports Dialogue
begin

text \<open>What the methods of an operation say to the device, and when.\<close>

lemmas dev_defs = dev_fingerprint_def dev_stage_def dev_diff_def dev_validate_def dev_rollback_def
  dev_lock_def dev_unlock_def dev_commit_def

text \<open>The fingerprint guard: past it the device has just answered with the expected fingerprint.\<close>

context state_relation
begin

lemma talk_fingerprint:
  assumes "abides R E" "lasting R G"
    and "\<And>mo. op_current r = fp \<Longrightarrow>
      spec (at (l @ [Sent CallFingerprint mo, Got (AnsFingerprint (Inr fp))]) G) (f ()) Q X"
    and "\<And>mo a e t. at (l @ [Sent CallFingerprint mo, Got (AnsFingerprint a)]) G t \<Longrightarrow>
      X (Operation (TransactionError e)) t"
    and "\<And>mo a e t. at (l @ [Sent CallFingerprint mo, Got (AnsFingerprint a)]) G t \<Longrightarrow>
      X (Operation (GuardFailed e)) t"
  shows "spec (at l G) (bnd (guard_fingerprint E r fp) f) Q X"
proof -
  have "spec (at (l @ [Sent CallFingerprint mo, Got (AnsFingerprint a)]) G)
      (bnd (case a of Inl e \<Rightarrow> fail (Operation (TransactionError e))
       | Inr actual \<Rightarrow> lift (map_err (\<lambda>e. Operation (GuardFailed e))
           (require_operation_fingerprint r fp actual))) f) Q X" for mo a
  proof (cases a)
    case (Inl e)
    then show ?thesis using assms(4) by (auto simp: bnd_failed intro: spec_fail)
  next
    case (Inr actual)
    then show ?thesis
      using assms(3,5) by (auto intro!: talk_lift simp: require_operation_fingerprint_iff map_err_def split: sum.splits)
  qed
  then show ?thesis
    unfolding guard_fingerprint_def bnd_assoc [symmetric] bnd_or_fail dev_defs
    by (rule talk_rpc_at [OF assms(1,2)])
qed

end


section \<open>Commit\<close>

text \<open>What is on record about an intent: its evidence, and with a spool that it is durable.\<close>

definition intent_kept :: "coordinator \<Rightarrow> evidence \<Rightarrow> sys \<Rightarrow> bool" where
  "intent_kept K ev s \<longleftrightarrow> (evidence_on K \<longrightarrow> ev \<in> set (trail s)) \<and>
     (evidence_on K \<and> has_spool K \<longrightarrow> durable_ok s \<and> ev \<in> set (take (durable s) (trail s)))"

lemma lasting_intent: "lasting later (intent_kept K ev)"
  unfolding intent_kept_def
  by (intro lasting_conj lasting_imp lasting_recorded lasting_stored)

lemma talk_intent:
  assumes "lasting later G" "\<And>s. G s \<Longrightarrow> durable_ok s"
    and "spec (at l (\<lambda>s. G s \<and> intent_kept K (EvApplyIntent rq c d p) s)) (f ()) Q R"
    and "\<And>e t. at l G t \<Longrightarrow> R e t"
  shows "spec (at l G) (bnd (apply_intent E K rq c d p) f) Q R"
proof (rule spec_bnd [where M = "\<lambda>_. at l (\<lambda>s. G s \<and> intent_kept K (EvApplyIntent rq c d p) s)"])
  have "G t" if "apply_intent E K rq c d p s = (x, t)" "G s" for s x t
  proof -
    have "later s t"
      using that(1) append_flush_later [of "EvApplyIntent rq c d p" E K]
      unfolding apply_intent_def bnd_assoc
      by (cases "evidence_on K") (auto simp: bnd_def act_defs steps_def later_refl split: prod.splits sum.splits if_splits)
    with that(2) assms(1) show ?thesis by (auto simp: lasting_def)
  qed
  moreover have "dialogue t = dialogue s" if "apply_intent E K rq c d p s = (x, t)" for s x t
    using that by (auto simp: apply_intent_def append_evidence_def flush_evidence_def act_defs ask_def
        split: if_splits option.splits)
  moreover have "intent_kept K (EvApplyIntent rq c d p) t"
    if "apply_intent E K rq c d p s = (Inr x, t)" "durable_ok s" for s x t
    using that by (auto simp: apply_intent_def intent_kept_def durable_ok_def append_evidence_def
        flush_evidence_def act_defs ask_def split: if_splits option.splits)
  ultimately show "spec (at l G) (apply_intent E K rq c d p)
      (\<lambda>_. at l (\<lambda>s. G s \<and> intent_kept K (EvApplyIntent rq c d p) s)) R"
    using assms(2,4) by (intro specI) (auto simp: at_def)
qed (use assms(3) in simp)

text \<open>The moment a commit may be sent.\<close>

definition commit_ready ::
  "'z lib_scheme \<Rightarrow> coordinator \<Rightarrow> string \<Rightarrow> string \<Rightarrow> string \<Rightarrow> string \<Rightarrow> string \<Rightarrow> attribution \<Rightarrow> moment \<Rightarrow> bool"
where
  "commit_ready L K oid device owner expected policy a mo \<longleftrightarrow>
     (\<exists>r. bt_get (st_operations (mo_mem mo)) oid = Some r \<and> op_state r = Committing \<and>
        op_owner r = owner \<and> op_device r = device \<and> op_current r = expected \<and>
        op_policy_signature r = policy \<and> op_attribution r = Some (persisted_attribution_from a) \<and>
        (state_path K \<noteq> None \<longrightarrow> mo_disk mo = Some (file_of L (mo_mem mo))) \<and>
        (evidence_on K \<longrightarrow>
           (let ev = EvApplyIntent (at_request_id a) (evidence_id r oid) device (principal_to_string (at_principal a))
            in ev \<in> set (mo_trail mo) \<and>
               (has_spool K \<longrightarrow> ev \<in> set (take (mo_durable mo) (mo_trail mo))))))"

definition commit_said ::
  "'z lib_scheme \<Rightarrow> coordinator \<Rightarrow> string \<Rightarrow> string \<Rightarrow> string \<Rightarrow> string \<Rightarrow> string \<Rightarrow> string \<Rightarrow> attribution \<Rightarrow>
   nat option \<Rightarrow> (string + commit_outcome) option \<Rightarrow> device_event list \<Rightarrow> device_event list \<Rightarrow> bool"
where
  "commit_said L K oid device owner expected policy staged a confirm ans l d \<longleftrightarrow>
     (\<exists>mo mo'. d = l @ [Sent CallFingerprint mo, Got (AnsFingerprint (Inr expected)),
        Sent (CallCommit staged a confirm) mo', Got (AnsCommit ans)] \<and>
        commit_ready L K oid device owner expected policy a mo')"

definition only_fingerprint :: "device_event list \<Rightarrow> device_event list \<Rightarrow> bool" where
  "only_fingerprint l d \<longleftrightarrow> d = l \<or> (\<exists>mo ans. d = l @ [Sent CallFingerprint mo, Got (AnsFingerprint ans)])"

text \<open>The state of an operation after each outcome of its commit.\<close>

fun committed_state :: "commit_outcome \<Rightarrow> lifecycle_state" where
  "committed_state (Reconciled succeeded _ _) = (if succeeded then Committed else OpFailed)"
| "committed_state (IndeterminateOutcome _) = Indeterminate"
| "committed_state (Detached _) = Committing"
| "committed_state (AwaitingConfirmation _ _ _) = Committing"

definition settled :: "'z lib_scheme \<Rightarrow> coordinator \<Rightarrow> string \<Rightarrow> lifecycle_state \<Rightarrow> sys \<Rightarrow> bool" where
  "settled L K oid st t \<longleftrightarrow> written L K t \<and> (\<exists>r. op_at oid t = Some r \<and> op_state r = st)"

lemma after_commit_fields [simp]:
  "op_id (after_commit out r) = op_id r"
  "op_state r = Committing \<Longrightarrow> op_state (after_commit out r) = committed_state out"
  by (cases out; simp)+

lemma talk_receipt:
  assumes "lasting later G" "spec (at l G) (f ()) Q R"
  shows "spec (at l G) (bnd (commit_evidence E K a r oid out) f) Q R"
proof -
  let ?m = "commit_evidence E K a r oid out"
  have "later s (snd (?m s)) \<and> dialogue (snd (?m s)) = dialogue s \<and> fst (?m s) = Inr ()" for s
  proof (cases "\<exists>b j d. out = Reconciled b j d \<and> evidence_on K")
    case True
    then obtain b j d where out: "out = Reconciled b j d" and on: "evidence_on K" by blast
    let ?ev = "EvReceipt (at_request_id a) (evidence_id r oid) (op_device r)
       (principal_to_string (at_principal a)) b (if (if b then [] else case d of None \<Rightarrow> [] | Some d \<Rightarrow> d) = [] then None
         else Some (if b then [] else case d of None \<Rightarrow> [] | Some d \<Rightarrow> d))"
    have "?m = bnd (bnd (append_evidence ?ev) (\<lambda>_. flush_evidence E K)) (\<lambda>_. ret ())"
      using out on by (simp add: result_receipt_def bnd_assoc)
    then have eq: "snd (?m s) = snd (bnd (append_evidence ?ev) (\<lambda>_. flush_evidence E K) s)"
      "fst (?m s) = Inr ()"
      by (auto simp: append_evidence_def flush_evidence_def act_defs ask_def split: option.splits)
    moreover have "later s (snd (bnd (append_evidence ?ev) (\<lambda>_. flush_evidence E K) s))"
      using append_flush_later [of ?ev E K] by (metis steps_def prod.collapse)
    moreover have "dialogue (snd (bnd (append_evidence ?ev) (\<lambda>_. flush_evidence E K) s)) = dialogue s"
      by (auto simp: append_evidence_def flush_evidence_def act_defs ask_def split: option.splits)
    ultimately show ?thesis by simp
  next
    case False
    then show ?thesis by (cases out) (auto simp: result_receipt_def act_defs later_refl)
  qed
  then have "spec (at l G) ?m (\<lambda>_. at l G) R"
    using assms(1) by (fastforce simp: spec_def at_def lasting_def split: prod.split sum.split)
  then show ?thesis by (rule spec_bnd) (use assms(2) in simp)
qed

lemma talk_settle_commit:
  assumes "polite E" "lasting later G" "op_id r = oid" "op_state r = Committing"
    and "commit_said E K oid device owner expected policy staged a confirm (Some ans) l0 l"
  shows "spec (at l G) (settle_commit E K a r oid ans)
    (\<lambda>out t. commit_said E K oid device owner expected policy staged a confirm (Some (Inr out)) l0 (dialogue t) \<and>
       settled E K oid (committed_state out) t)
    (\<lambda>_ t. commit_said E K oid device owner expected policy staged a confirm (Some ans) l0 (dialogue t))"
proof (cases ans)
  case (Inl e)
  show ?thesis
    unfolding settle_commit_def Inl sum.case
    by (rule trail.talk_update [OF assms(1,2)]) (use assms Inl in \<open>auto intro!: spec_fail simp: at_def just_def\<close>)
next
  case (Inr out)
  show ?thesis
    unfolding settle_commit_def Inr sum.case
    by (rule talk_receipt [OF assms(2) trail.talk_update [OF assms(1,2)]])
      (use assms Inr in \<open>auto intro!: spec_ret simp: settled_def at_def just_def\<close>)
qed

lemma talk_send_commit:
  assumes "polite E" "lasting later G" "op_id r = oid" "op_state r = Committing"
    and "\<And>s. G s \<Longrightarrow> op_at oid s = Some r \<Longrightarrow> written E K s \<Longrightarrow>
      commit_ready E K oid device owner expected policy a (moment_of s)"
    and "l = l0 @ [Sent CallFingerprint mo, Got (AnsFingerprint (Inr expected))]"
  shows "spec (just l G (\<lambda>t. op_at oid t = Some r \<and> written E K t)) (send_commit E K a confirm r oid staged)
    (\<lambda>out t. (commit_said E K oid device owner expected policy staged a confirm (Some (Inr out)) l0 (dialogue t) \<or>
        out = IndeterminateOutcome cancelled_text \<and>
        commit_said E K oid device owner expected policy staged a confirm None l0 (dialogue t)) \<and>
       settled E K oid (committed_state out) t)
    (\<lambda>_ t. \<exists>ans. commit_said E K oid device owner expected policy staged a confirm ans l0 (dialogue t))"
  unfolding send_commit_def dev_commit_def
proof (rule trail_steps.talk_rpc [OF assms(1,2), where M = "commit_ready E K oid device owner expected policy a"])
  fix n mo'
  let ?ans = "if cancelled_at E n then None else Some (commit_at E n)"
  assume "commit_ready E K oid device owner expected policy a mo'"
  then have said: "commit_said E K oid device owner expected policy staged a confirm ?ans l0
      (l @ [Sent (CallCommit staged a confirm) mo', Got (AnsCommit ?ans)])"
    using assms(6) by (auto simp: commit_said_def)
  show "spec (at (l @ [Sent (CallCommit staged a confirm) mo', Got (AnsCommit ?ans)]) G)
     (case ?ans of
        None \<Rightarrow> bnd (await E (update_op E K (r\<lparr>op_state := Indeterminate, op_details := Some cancelled_text\<rparr>)))
           (\<lambda>_. ret (IndeterminateOutcome cancelled_text))
      | Some result \<Rightarrow> settle_commit E K a r oid result)
    (\<lambda>out t. (commit_said E K oid device owner expected policy staged a confirm (Some (Inr out)) l0 (dialogue t) \<or>
        out = IndeterminateOutcome cancelled_text \<and>
        commit_said E K oid device owner expected policy staged a confirm None l0 (dialogue t)) \<and>
       settled E K oid (committed_state out) t)
    (\<lambda>_ t. \<exists>ans. commit_said E K oid device owner expected policy staged a confirm ans l0 (dialogue t))"
  proof (cases "cancelled_at E n")
    case True
    then show ?thesis
      using said assms(3) unfolding if_P [OF True] option.case
      by (intro trail.talk_update [OF assms(1,2)]) (auto intro!: spec_ret simp: settled_def at_def just_def)
  next
    case False
    then have f: "?ans = Some (commit_at E n)" by simp
    show ?thesis
      unfolding f option.case
      by (rule spec_weaken [OF talk_settle_commit [OF assms(1-4) said [unfolded f]]]) auto
  qed
qed (use assms(5) in auto)

lemma commit_operation_spec:
  assumes "polite E"
  shows "spec (at l (\<lambda>s. ops_keyed s \<and> durable_ok s))
    (commit_operation E K oid device owner expected policy staged a confirm)
    (\<lambda>out t. (commit_said E K oid device owner expected policy staged a confirm (Some (Inr out)) l (dialogue t) \<or>
        out = IndeterminateOutcome cancelled_text \<and>
        commit_said E K oid device owner expected policy staged a confirm None l (dialogue t)) \<and>
       settled E K oid (committed_state out) t)
    (\<lambda>_ t. only_fingerprint l (dialogue t) \<or>
       (\<exists>ans. commit_said E K oid device owner expected policy staged a confirm ans l (dialogue t)))"
    (is "spec (at l ?G) _ ?Q ?R")
proof -
  have lg: "lasting later ?G" by (intro lasting_conj lasting_keyed lasting_durable)
  have body: "spec (at (l @ [Sent CallFingerprint mo, Got (AnsFingerprint (Inr expected))]) ?G)
      (bnd (is_cancelled E) (\<lambda>cancelled.
       bnd (ensure (\<not> cancelled) (Operation CancelledBeforeCommit)) (\<lambda>_.
       bnd (apply_intent E K (at_request_id a) (evidence_id r oid) (op_device r)
              (principal_to_string (at_principal a))) (\<lambda>_.
       let r' = r\<lparr>op_attribution := Some (persisted_attribution_from a), op_state := Committing\<rparr>
       in bnd (await E (update_op E K r')) (\<lambda>_. send_commit E K a confirm r' oid staged))))) ?Q ?R"
    if r: "op_id r = oid" "op_owner r = owner" "op_device r = device" "op_policy_signature r = policy"
      "op_current r = expected" for r mo
  proof -
    let ?ev = "EvApplyIntent (at_request_id a) (evidence_id r oid) (op_device r) (principal_to_string (at_principal a))"
    let ?H = "\<lambda>s. ?G s \<and> intent_kept K ?ev s"
    let ?r = "r\<lparr>op_attribution := Some (persisted_attribution_from a), op_state := Committing\<rparr>"
    let ?l = "l @ [Sent CallFingerprint mo, Got (AnsFingerprint (Inr expected))]"
    have lh: "lasting later ?H" by (intro lasting_conj [OF lg] lasting_intent)
    have "commit_ready E K oid device owner expected policy a (moment_of s)"
      if "?H s" "op_at oid s = Some ?r" "written E K s" for s
      using that r by (auto simp: commit_ready_def moment_of_def written_def intent_kept_def Let_def evidence_id_def)
    from talk_send_commit [OF assms lh _ _ this, where r = ?r and l = ?l and ?l0.0 = l]
    have send: "spec (just ?l ?H (\<lambda>t. op_at oid t = Some ?r \<and> written E K t))
        (send_commit E K a confirm ?r oid staged) ?Q ?R"
      by (rule spec_weaken) (use r in auto)
    show ?thesis
      unfolding is_cancelled_def Let_def
      by (intro trail_steps.talk_ask [OF lg] talk_ensure talk_intent [OF lg] trail.talk_update [OF assms lh])
        (use send r in \<open>auto simp: at_def only_fingerprint_def\<close>)
  qed
  show ?thesis
    unfolding commit_operation_def
    by (intro trail_steps.talk_record [OF assms lg] trail_steps.talk_guard [OF assms lg] trail_steps.talk_not_cancelled [OF lg] talk_ensure
        talk_lift trail_steps.talk_fingerprint [OF assms lg] body)
      (auto simp: require_operation_policy_iff settled_def written_def at_def only_fingerprint_def)
qed


section \<open>Validation\<close>

lemma validate_operation_spec:
  assumes "polite E"
  shows "spec (at l ops_keyed) (validate_operation E K oid device owner expected staged)
    (\<lambda>v t. (\<exists>mo mo'. dialogue t = l @ [Sent CallFingerprint mo, Got (AnsFingerprint (Inr expected)),
        Sent (CallValidate staged) mo', Got (AnsValidate (Inr v))]) \<and> settled E K oid Validated t)
    (\<lambda>e t. only_fingerprint l (dialogue t) \<or>
       (\<exists>mo mo' ans. dialogue t = l @ [Sent CallFingerprint mo, Got (AnsFingerprint (Inr expected)),
          Sent (CallValidate staged) mo', Got (AnsValidate ans)] \<and>
          (\<forall>txt. ans = Inl txt \<longrightarrow> e = Operation (TransactionError txt) \<longrightarrow> settled E K oid OpFailed t)))"
    (is "spec _ _ ?Q ?X")
proof -
  note lg = lasting_keyed
  have body: "spec (at (l @ [Sent CallFingerprint mo, Got (AnsFingerprint (Inr expected))]) ops_keyed)
     (bnd (await E (update_op E K (r\<lparr>op_state := Validating\<rparr>))) (\<lambda>_.
      bnd (dev_validate E staged) (\<lambda>answer.
      case answer of
        Inr v \<Rightarrow>
          bnd (await E (update_op E K (r\<lparr>op_state := Validated, op_details := None\<rparr>))) (\<lambda>_. ret v)
      | Inl e \<Rightarrow>
          bnd (await E (update_op E K (r\<lparr>op_state := OpFailed, op_details := Some e\<rparr>)))
            (\<lambda>_. fail (Operation (TransactionError e)))))) ?Q ?X"
    if "op_id r = oid" for r mo
  proof (rule trail.talk_update [OF assms lg], unfold dev_defs, rule talk_forget,
      rule trail_steps.talk_rpc_at [OF assms lg])
    fix n mo'
    show "spec (at ((l @ [Sent CallFingerprint mo, Got (AnsFingerprint (Inr expected))]) @
         [Sent (CallValidate staged) mo', Got (AnsValidate (validation_at E n))]) ops_keyed)
       (case validation_at E n of
          Inr v \<Rightarrow>
            bnd (await E (update_op E K (r\<lparr>op_state := Validated, op_details := None\<rparr>))) (\<lambda>_. ret v)
        | Inl e \<Rightarrow>
            bnd (await E (update_op E K (r\<lparr>op_state := OpFailed, op_details := Some e\<rparr>)))
              (\<lambda>_. fail (Operation (TransactionError e)))) ?Q ?X"
    proof (cases "validation_at E n")
      case (Inl e)
      show ?thesis
        unfolding Inl sum.case
        by (rule trail.talk_update [OF assms lg])
          (use that in \<open>auto intro!: spec_fail simp: settled_def at_def just_def\<close>)
    next
      case (Inr v)
      show ?thesis
        unfolding Inr sum.case
        by (rule trail.talk_update [OF assms lg])
          (use that in \<open>auto intro!: spec_ret simp: settled_def at_def just_def\<close>)
    qed
  qed (auto simp: at_def only_fingerprint_def)
  show ?thesis
    unfolding validate_operation_def
    by (intro trail_steps.talk_record [OF assms lg] trail_steps.talk_guard [OF assms lg]
        trail_steps.talk_not_cancelled [OF lg] talk_ensure trail_steps.talk_fingerprint [OF assms lg] body)
      (auto simp: settled_def written_def at_def only_fingerprint_def)
qed


section \<open>Discard\<close>

text \<open>The moment a revert or an unlock may be sent: the record on file says the outcome is unknown.\<close>

definition parked :: "'z lib_scheme \<Rightarrow> coordinator \<Rightarrow> string \<Rightarrow> moment \<Rightarrow> bool" where
  "parked L K oid mo \<longleftrightarrow>
     (\<exists>r. bt_get (st_operations (mo_mem mo)) oid = Some r \<and> op_state r = Indeterminate) \<and>
     (state_path K \<noteq> None \<longrightarrow> mo_disk mo = Some (file_of L (mo_mem mo)))"

lemma parkedI: "op_at oid s = Some r \<Longrightarrow> op_state r = Indeterminate \<Longrightarrow> written L K s \<Longrightarrow> parked L K oid (moment_of s)"
  by (auto simp: parked_def moment_of_def written_def)

text \<open>The errors that only a discard gives that has sent its rollback.\<close>

fun after_revert :: "coord_error \<Rightarrow> bool" where
  "after_revert (Operation (RollbackFailed _)) = True"
| "after_revert (Operation LockStateUnverified) = True"
| "after_revert (Operation (LockNotReleased _)) = True"
| "after_revert _ = False"

fun discard_error_state :: "coord_error \<Rightarrow> lifecycle_state" where
  "discard_error_state (Operation (RollbackFailed _)) = OpFailed"
| "discard_error_state _ = Indeterminate"

definition discard_failed ::
  "'z lib_scheme \<Rightarrow> coordinator \<Rightarrow> string \<Rightarrow> device_event list \<Rightarrow> coord_error \<Rightarrow> sys \<Rightarrow> bool" where
  "discard_failed L K oid l e t \<longleftrightarrow>
     (\<exists>d. dialogue t = l @ d \<and> (\<forall>c mo. Sent c mo \<in> set d \<longrightarrow> c = CallFingerprint \<or> parked L K oid mo)) \<and>
     (only_fingerprint l (dialogue t) \<and> \<not> after_revert e \<or> (\<exists>c. e = Coordinator c) \<or>
      settled L K oid (discard_error_state e) t)"

definition discard_said ::
  "'z lib_scheme \<Rightarrow> coordinator \<Rightarrow> string \<Rightarrow> string \<Rightarrow> string \<Rightarrow> device_event list \<Rightarrow> device_event list \<Rightarrow> bool" where
  "discard_said L K oid expected after l d \<longleftrightarrow>
     (\<exists>mo1 mo2 mo3 mo4 o1. d = l @ [Sent CallFingerprint mo1, Got (AnsFingerprint (Inr expected)),
        Sent (CallRollback CandidateRevert) mo2, Got (AnsRollback (Inr o1)),
        Sent CallUnlock mo3, Got (AnsUnlock (Inr Released)),
        Sent CallFingerprint mo4, Got (AnsFingerprint (Inr after))] \<and>
        ro_succeeded o1 \<and> parked L K oid mo2 \<and> parked L K oid mo3)"

abbreviation discard_ok ::
  "'z lib_scheme \<Rightarrow> coordinator \<Rightarrow> string \<Rightarrow> string \<Rightarrow> device_event list \<Rightarrow> string \<Rightarrow> sys \<Rightarrow> bool" where
  "discard_ok L K oid expected l after t \<equiv>
     discard_said L K oid expected after l (dialogue t) \<and> settled L K oid Discarded t"

abbreviation "after_guard l expected mo1 \<equiv> l @ [Sent CallFingerprint mo1, Got (AnsFingerprint (Inr expected))]"
abbreviation "after_rollback l expected mo1 mo2 a \<equiv>
  after_guard l expected mo1 @ [Sent (CallRollback CandidateRevert) mo2, Got (AnsRollback a)]"
abbreviation "after_unlock l expected mo1 mo2 a mo3 u \<equiv>
  after_rollback l expected mo1 mo2 a @ [Sent CallUnlock mo3, Got (AnsUnlock u)]"

lemma talk_discard_finish:
  assumes pol: "polite E" and p: "parked E K oid mo2" "parked E K oid mo3" "ro_succeeded o1" "op_id r = oid"
  shows "spec (at (after_unlock l expected mo1 mo2 (Inr o1) mo3 (Inr Released)) ops_keyed)
      (discard_finish E K (r\<lparr>op_config_lock_held := False, op_state := Discarded, op_details := Some d\<rparr>)) (discard_ok E K oid expected l) (discard_failed E K oid l)"
  unfolding discard_finish_def dev_defs
proof (rule trail_steps.talk_rpc_at [OF pol lasting_keyed])
  fix n mo4
  let ?r = "r\<lparr>op_config_lock_held := False, op_state := Discarded, op_details := Some d\<rparr>"
  show "spec (at (after_unlock l expected mo1 mo2 (Inr o1) mo3 (Inr Released) @
       [Sent CallFingerprint mo4, Got (AnsFingerprint (fingerprint_at E n))]) ops_keyed)
     (case fingerprint_at E n of
        Inr fp \<Rightarrow> bnd (await E (update_op E K (?r\<lparr>op_current := fp\<rparr>))) (\<lambda>_. ret fp)
      | Inl e \<Rightarrow> bnd (await E (update_op E K (?r\<lparr>op_state := Indeterminate,
          op_details := Some (''candidate reverted; fingerprint read failed: '' @ e)\<rparr>)))
          (\<lambda>_. fail (Operation (TransactionError e)))) (discard_ok E K oid expected l) (discard_failed E K oid l)"
  proof (cases "fingerprint_at E n")
    case (Inl e)
    show ?thesis
      unfolding Inl sum.case
      by (rule trail.talk_update [OF pol lasting_keyed])
        (use p in \<open>auto intro!: spec_fail simp: settled_def just_def at_def discard_failed_def\<close>)
  next
    case (Inr fp)
    show ?thesis
      unfolding Inr sum.case
      by (rule trail.talk_update [OF pol lasting_keyed])
        (use p in \<open>auto intro!: spec_ret simp: settled_def just_def at_def discard_failed_def discard_said_def\<close>)
  qed
qed

lemma talk_discard_unlock:
  assumes pol: "polite E" and p: "parked E K oid mo2" "ro_succeeded o1" "op_id r = oid"
  shows "spec (just (after_rollback l expected mo1 mo2 (Inr o1)) ops_keyed (\<lambda>t. parked E K oid (moment_of t)))
      (bnd (discard_unlock E K r) (discard_finish E K)) (discard_ok E K oid expected l) (discard_failed E K oid l)"
  unfolding discard_unlock_def bnd_assoc [symmetric] dev_defs
proof (rule trail_steps.talk_rpc [OF pol lasting_keyed, where M = "parked E K oid"])
  fix n mo3 assume p3: "parked E K oid mo3"
  show "spec (at (after_unlock l expected mo1 mo2 (Inr o1) mo3 (unlock_at E n)) ops_keyed)
     (bnd (case unlock_at E n of
        Inr Released \<Rightarrow> ret (r\<lparr>op_config_lock_held := False, op_state := Discarded, op_details := Some ''candidate reverted''\<rparr>)
      | Inr Unsupported \<Rightarrow> bnd (await E (update_op E K (r\<lparr>op_state := Indeterminate,
              op_details := Some (''candidate reverted; the transaction offers no explicit unlock, '' @
                ''so the configuration lock state is unchanged'')\<rparr>))) (\<lambda>_. fail (Operation LockStateUnverified))
      | Inl e \<Rightarrow> bnd (await E (update_op E K (r\<lparr>op_state := Indeterminate,
              op_details := Some (''candidate reverted but unlock failed: '' @ e),
              op_config_lock_held := True\<rparr>))) (\<lambda>_. fail (Operation (LockNotReleased e)))) (discard_finish E K)) (discard_ok E K oid expected l) (discard_failed E K oid l)"
  proof (cases "unlock_at E n")
    case (Inl e)
    show ?thesis
      unfolding Inl sum.case bnd_assoc [symmetric] bnd_failed
      by (rule trail.talk_update [OF pol lasting_keyed])
        (use p p3 in \<open>auto intro!: spec_fail simp: settled_def just_def at_def discard_failed_def\<close>)
  next
    case (Inr u)
    show ?thesis
    proof (cases u)
      case Released
      then show ?thesis using talk_discard_finish [OF pol p(1) p3 p(2,3)] Inr by (simp add: bnd_ret)
    next
      case Unsupported
      show ?thesis
        unfolding Inr Unsupported sum.case unlock_outcome.case bnd_assoc [symmetric] bnd_failed
        by (rule trail.talk_update [OF pol lasting_keyed])
          (use p p3 in \<open>auto intro!: spec_fail simp: settled_def just_def at_def discard_failed_def\<close>)
    qed
  qed
qed auto

lemma talk_discard_rollback:
  assumes pol: "polite E" and p: "op_id r = oid"
  shows "spec (just (after_guard l expected mo1) ops_keyed (\<lambda>t. parked E K oid (moment_of t)))
      (bnd (discard_rollback E K r) (\<lambda>_. bnd (await E (update_op E K (r\<lparr>op_state := Indeterminate,
               op_details := Some ''candidate reverted; verifying lock release''\<rparr>))) (\<lambda>_.
        bnd (discard_unlock E K r) (discard_finish E K)))) (discard_ok E K oid expected l) (discard_failed E K oid l)"
  unfolding discard_rollback_def bnd_assoc [symmetric] dev_defs
proof (rule trail_steps.talk_rpc [OF pol lasting_keyed, where M = "parked E K oid"])
  fix n mo2 assume p2: "parked E K oid mo2"
  let ?k = "\<lambda>_ :: unit. bnd (await E (update_op E K (r\<lparr>op_state := Indeterminate,
             op_details := Some ''candidate reverted; verifying lock release''\<rparr>))) (\<lambda>_.
      bnd (discard_unlock E K r) (discard_finish E K))"
  show "spec (at (after_rollback l expected mo1 mo2 (rollback_at E n)) ops_keyed)
     (bnd (case rollback_at E n of
        Inl e \<Rightarrow> bnd (await E (update_op E K (r\<lparr>op_state := Indeterminate,
              op_details := Some (''rollback outcome unknown: '' @ e)\<rparr>))) (\<lambda>_. fail (Operation (TransactionError e)))
      | Inr outcome \<Rightarrow>
          if ro_succeeded outcome then ret ()
          else bnd (await E (update_op E K (r\<lparr>op_state := OpFailed, op_details := ro_details outcome\<rparr>)))
            (\<lambda>_. fail (Operation (RollbackFailed (ro_details outcome))))) ?k) (discard_ok E K oid expected l) (discard_failed E K oid l)"
  proof (cases "rollback_at E n")
    case (Inl e)
    show ?thesis
      unfolding Inl sum.case bnd_assoc [symmetric] bnd_failed
      by (rule trail.talk_update [OF pol lasting_keyed])
        (use p p2 in \<open>auto intro!: spec_fail simp: settled_def just_def at_def discard_failed_def\<close>)
  next
    case (Inr o1)
    show ?thesis
    proof (cases "ro_succeeded o1")
      case True
      show ?thesis
        unfolding Inr sum.case if_P [OF True] bnd_ret
      proof (rule trail.talk_update [OF pol lasting_keyed])
        show "spec (just (after_rollback l expected mo1 mo2 (Inr o1)) ops_keyed (\<lambda>t. op_at (op_id (r\<lparr>op_state := Indeterminate,
             op_details := Some ''candidate reverted; verifying lock release''\<rparr>)) t = Some (r\<lparr>op_state := Indeterminate,
             op_details := Some ''candidate reverted; verifying lock release''\<rparr>) \<and> written E K t))
            (bnd (discard_unlock E K r) (discard_finish E K)) (discard_ok E K oid expected l) (discard_failed E K oid l)"
          by (rule spec_just [OF talk_discard_unlock [OF pol p2 True p]]) (use p in \<open>auto intro: parkedI\<close>)
      qed (use p2 in \<open>auto simp: at_def discard_failed_def\<close>)
    next
      case False
      show ?thesis
        unfolding Inr sum.case if_not_P [OF False] bnd_assoc [symmetric] bnd_failed
        by (rule trail.talk_update [OF pol lasting_keyed])
          (use p p2 in \<open>auto intro!: spec_fail simp: settled_def just_def at_def discard_failed_def\<close>)
    qed
  qed
qed auto

lemma discard_operation_spec:
  assumes "polite E"
  shows "spec (at l ops_keyed) (discard_operation E K oid device owner expected)
    (discard_ok E K oid expected l) (discard_failed E K oid l)"
  unfolding discard_operation_def
  by (intro trail_steps.talk_record [OF assms lasting_keyed] trail_steps.talk_guard [OF assms lasting_keyed]
      trail_steps.talk_not_cancelled [OF lasting_keyed] talk_ensure
      trail_steps.talk_fingerprint [OF assms lasting_keyed] trail.talk_update [OF assms lasting_keyed]
      spec_just [OF talk_discard_rollback [OF assms]])
    (auto intro: parkedI simp: settled_def written_def at_def discard_failed_def only_fingerprint_def)

end
