(* ===== verification/Staging_Facts.thy ===== *)
theory Staging_Facts
  imports Operation_Facts
begin

text \<open>What \<open>stage_operation\<close> says to the device, and what it leaves on record.\<close>

lemma spec_ex: "(\<And>y. spec (P y) m Q X) \<Longrightarrow> spec (\<lambda>s. \<exists>y. P y s) m Q X"
  by (rule specI) (auto dest: spec_InrD spec_InlD)

lemma spec_conjI: "(A \<Longrightarrow> spec P m Q X) \<Longrightarrow> spec (\<lambda>s. A \<and> P s) m Q X"
  by (auto simp: spec_def)

lemma spec_failing_with:
  "spec P m Q (\<lambda>e. X \<lparr>sf_error = e, sf_record = r, sf_touched = a, sf_locked = b\<rparr>) \<Longrightarrow>
    spec P (failing_with r a b m) Q X"
  by (auto simp: spec_def failing_with_def map_err_def split: prod.splits sum.splits)

lemma spec_or_fail:
  assumes "spec P m M X" "\<And>y t. M (Inl y) t \<Longrightarrow> X (g y) t"
  shows "spec P (or_fail g m) (\<lambda>x. M (Inr x)) X"
  unfolding or_fail_def
proof (rule spec_bnd [OF assms(1)])
  fix x
  show "spec (M x) (lift (map_err g x)) (\<lambda>x. M (Inr x)) X"
    using assms(2) by (cases x) (auto simp: spec_def lift_def map_err_def)
qed

lemma bnd_ret_right: "bnd m ret = m"
  by (rule ext) (simp add: bnd_def ret_def split: prod.split sum.split)

lemma update_spec:
  assumes "polite E" "lasting later G"
  shows "spec (at l G) (await E (update_op E K r))
    (\<lambda>_. just l G (\<lambda>t. op_at (op_id r) t = Some r \<and> written E K t))
    (\<lambda>e t. at l G t \<and> (\<exists>e'. e = Coordinator e'))"
  using trail.talk_update [OF assms, where f = ret and Q = "\<lambda>_. just l G (\<lambda>t. op_at (op_id r) t = Some r \<and> written E K t)"
    and X = "\<lambda>e t. at l G t \<and> (\<exists>e'. e = Coordinator e')"]
  unfolding bnd_ret_right by (auto intro: spec_ret)

lemma rpc_spec:
  assumes "polite E" "lasting later G" "\<And>s. dialogue s = l \<Longrightarrow> G s \<Longrightarrow> N s \<Longrightarrow> M (moment_of s)"
  shows "spec (just l G N) (device_rpc E c a v)
    (\<lambda>x t. \<exists>mo. M mo \<and> at (l @ [Sent c mo, Got (v x)]) G t) X"
  using trail_steps.talk_rpc [OF assms(1,2), where f = ret and M = M and N = N and l = l and c = c and a = a and v = v
      and Q = "\<lambda>x t. \<exists>mo. M mo \<and> at (l @ [Sent c mo, Got (v x)]) G t" and X = X] assms(3)
  unfolding bnd_ret_right by (auto intro: spec_ret)


section \<open>The dialogue before and after the stage call\<close>

fun stage_event :: "device_event \<Rightarrow> bool" where
  "stage_event (Sent (CallStage _) _) = True"
| "stage_event _ = False"

definition no_stage :: "device_event list \<Rightarrow> device_event list \<Rightarrow> bool" where
  "no_stage l0 l \<longleftrightarrow> (\<exists>d. l = l0 @ d \<and> list_all (\<lambda>e. \<not> stage_event e) d)"

text \<open>The moment a stage call may be sent: the record on file says that a lock may be held.\<close>

definition armed :: "'z lib_scheme \<Rightarrow> coordinator \<Rightarrow> operation_record \<Rightarrow> moment \<Rightarrow> bool" where
  "armed L K r mo \<longleftrightarrow> bt_get (st_operations (mo_mem mo)) (op_id r) = Some r \<and>
     op_state r = Staging \<and> op_config_lock_held r \<and>
     (state_path K \<noteq> None \<longrightarrow> mo_disk mo = Some (file_of L (mo_mem mo)))"

definition staged_once ::
  "'z lib_scheme \<Rightarrow> coordinator \<Rightarrow> string \<Rightarrow> operation_record \<Rightarrow> string + string \<Rightarrow> device_event list \<Rightarrow>
   device_event list \<Rightarrow> bool" where
  "staged_once L K expected r ans l0 l \<longleftrightarrow>
     (\<exists>p q mo. no_stage l0 (p @ [Got (AnsFingerprint (Inr expected))]) \<and> no_stage [] q \<and> armed L K r mo \<and>
        l = p @ [Got (AnsFingerprint (Inr expected)), Sent (CallStage (op_actions r)) mo, Got (AnsStage ans)] @ q)"

lemma no_stage_refl: "no_stage l l"
  by (simp add: no_stage_def)

lemma no_stage_snoc:
  "no_stage l0 l \<Longrightarrow> \<not> stage_event (Sent c mo) \<Longrightarrow> no_stage l0 (l @ [Sent c mo, Got a])"
  by (auto simp: no_stage_def)

lemma staged_once_snoc:
  "staged_once L K fp r ans l0 l \<Longrightarrow> \<not> stage_event (Sent c mo) \<Longrightarrow> staged_once L K fp r ans l0 (l @ [Sent c mo, Got a])"
proof -
  assume "staged_once L K fp r ans l0 l" and c: "\<not> stage_event (Sent c mo)"
  then obtain p q mo' where p: "no_stage l0 (p @ [Got (AnsFingerprint (Inr fp))])" "no_stage [] q" "armed L K r mo'"
    "l = p @ [Got (AnsFingerprint (Inr fp)), Sent (CallStage (op_actions r)) mo', Got (AnsStage ans)] @ q"
    by (auto simp: staged_once_def)
  moreover have "no_stage [] (q @ [Sent c mo, Got a])" using p(2) c by (auto simp: no_stage_def)
  moreover have "l @ [Sent c mo, Got a] = p @ [Got (AnsFingerprint (Inr fp)), Sent (CallStage (op_actions r)) mo',
      Got (AnsStage ans)] @ (q @ [Sent c mo, Got a])" using p(4) by simp
  ultimately show ?thesis unfolding staged_once_def by blast
qed

text \<open>How the inner block can fail.\<close>

definition block_failed ::
  "'z lib_scheme \<Rightarrow> coordinator \<Rightarrow> string \<Rightarrow> operation_record \<Rightarrow> device_event list \<Rightarrow> stage_failure \<Rightarrow> sys \<Rightarrow> bool" where
  "block_failed L K expected r l0 f t \<longleftrightarrow> ops_keyed t \<and>
     op_id (sf_record f) = op_id r \<and>
     (if sf_touched f then \<exists>ans. staged_once L K expected r ans l0 (dialogue t)
      else no_stage l0 (dialogue t))"

lemma stage_call_spec:
  assumes pol: "polite E" and l: "no_stage l0 (p @ [Got (AnsFingerprint (Inr expected))])"
    and r: "op_state r = Staging" "op_config_lock_held r"
  shows "spec (just (p @ [Got (AnsFingerprint (Inr expected))]) ops_keyed
       (\<lambda>t. op_at (op_id r) t = Some r \<and> written E K t))
    (failing_with r True needs
       (bnd (device_try (dev_stage E (op_actions r))) (\<lambda>staged.
        bnd (device_try (dev_fingerprint E)) (\<lambda>after. ret (before, after, staged)))))
    (\<lambda>(b, after, staged) t. b = before \<and> ops_keyed t \<and> staged_once E K expected r (Inr staged) l0 (dialogue t))
    (block_failed E K expected r l0)"
proof (rule spec_failing_with)
  let ?l = "p @ [Got (AnsFingerprint (Inr expected))]"
  let ?X = "\<lambda>e. block_failed E K expected r l0 \<lparr>sf_error = e, sf_record = r, sf_touched = True, sf_locked = needs\<rparr>"
  have once: "staged_once E K expected r ans l0 (?l @ [Sent (CallStage (op_actions r)) mo, Got (AnsStage ans)])"
    if "armed E K r mo" for mo ans
    using l that by (fastforce simp: staged_once_def no_stage_def)
  have "spec (just ?l ops_keyed (\<lambda>t. op_at (op_id r) t = Some r \<and> written E K t)) (dev_stage E (op_actions r))
     (\<lambda>ans t. \<exists>mo. armed E K r mo \<and> at (?l @ [Sent (CallStage (op_actions r)) mo, Got (AnsStage ans)]) ops_keyed t) ?X"
    unfolding dev_defs by (rule rpc_spec [OF pol lasting_keyed])
      (use r in \<open>auto simp: armed_def moment_of_def written_def\<close>)
  then have "spec (just ?l ops_keyed (\<lambda>t. op_at (op_id r) t = Some r \<and> written E K t))
     (device_try (dev_stage E (op_actions r)))
     (\<lambda>h t. \<exists>mo. armed E K r mo \<and> at (?l @ [Sent (CallStage (op_actions r)) mo, Got (AnsStage (Inr h))]) ops_keyed t) ?X"
    by (rule spec_or_fail) (use once in \<open>auto simp: at_def block_failed_def intro!: exI\<close>)
  then show "spec (just ?l ops_keyed (\<lambda>t. op_at (op_id r) t = Some r \<and> written E K t))
    (bnd (device_try (dev_stage E (op_actions r))) (\<lambda>staged.
     bnd (device_try (dev_fingerprint E)) (\<lambda>after. ret (before, after, staged))))
    (\<lambda>(b, after, staged) t. b = before \<and> ops_keyed t \<and> staged_once E K expected r (Inr staged) l0 (dialogue t)) ?X"
  proof (rule spec_bnd, intro spec_ex spec_conjI)
    fix h mo assume a: "armed E K r mo"
    let ?l' = "?l @ [Sent (CallStage (op_actions r)) mo, Got (AnsStage (Inr h))]"
    have "spec (at ?l' ops_keyed) (bnd (device_rpc E CallFingerprint (fingerprint_at E) AnsFingerprint)
        (\<lambda>x. case x of Inl e \<Rightarrow> fail (Operation (TransactionError e)) | Inr after \<Rightarrow> ret (before, after, h)))
      (\<lambda>(b, after, staged) t. b = before \<and> ops_keyed t \<and> staged_once E K expected r (Inr staged) l0 (dialogue t)) ?X"
    proof (rule trail_steps.talk_rpc_at [OF pol lasting_keyed])
      fix n mo'
      have "staged_once E K expected r (Inr h) l0 (?l' @ [Sent CallFingerprint mo', Got (AnsFingerprint x)])" for x
        by (rule staged_once_snoc [OF once [OF a]]) simp
      then show "spec (at (?l' @ [Sent CallFingerprint mo', Got (AnsFingerprint (fingerprint_at E n))]) ops_keyed)
        (case fingerprint_at E n of Inl e \<Rightarrow> fail (Operation (TransactionError e)) | Inr after \<Rightarrow> ret (before, after, h))
        (\<lambda>(b, after, staged) t. b = before \<and> ops_keyed t \<and> staged_once E K expected r (Inr staged) l0 (dialogue t)) ?X"
        by (auto split: sum.split intro!: spec_fail spec_ret exI [of _ "Inr h"] simp: at_def block_failed_def)
    qed
    then show "spec (at ?l' ops_keyed) (bnd (device_try (dev_fingerprint E)) (\<lambda>after. ret (before, after, h)))
      (\<lambda>(b, after, staged) t. b = before \<and> ops_keyed t \<and> staged_once E K expected r (Inr staged) l0 (dialogue t)) ?X"
      unfolding bnd_or_fail dev_defs .
  qed
qed

lemma stage_fingerprint_spec:
  assumes pol: "polite E" and l: "no_stage l0 l" and r: "op_id r' = op_id r"
  shows "spec (at l ops_keyed)
    (failing_with r' False needs
       (bnd (device_try (dev_fingerprint E)) (\<lambda>before.
        bnd (ensure (expected = before) (Operation CandidateMoved)) (\<lambda>_. ret before))))
    (\<lambda>before t. before = expected \<and> (\<exists>p. no_stage l0 (p @ [Got (AnsFingerprint (Inr expected))]) \<and>
       at (p @ [Got (AnsFingerprint (Inr expected))]) ops_keyed t))
    (block_failed E K expected r l0)"
proof (rule spec_failing_with, unfold bnd_or_fail dev_defs, rule trail_steps.talk_rpc_at [OF pol lasting_keyed])
  fix n mo
  let ?X = "\<lambda>e. block_failed E K expected r l0 \<lparr>sf_error = e, sf_record = r', sf_touched = False, sf_locked = needs\<rparr>"
  have q: "no_stage l0 (l @ [Sent CallFingerprint mo, Got (AnsFingerprint x)])" for x
    by (rule no_stage_snoc [OF l]) simp
  then have q': "no_stage l0 ((l @ [Sent CallFingerprint mo]) @ [Got (AnsFingerprint x)])" for x
    by simp
  show "spec (at (l @ [Sent CallFingerprint mo, Got (AnsFingerprint (fingerprint_at E n))]) ops_keyed)
     (case fingerprint_at E n of
        Inl e \<Rightarrow> fail (Operation (TransactionError e))
      | Inr before \<Rightarrow> bnd (ensure (expected = before) (Operation CandidateMoved)) (\<lambda>_. ret before))
     (\<lambda>before t. before = expected \<and> (\<exists>p. no_stage l0 (p @ [Got (AnsFingerprint (Inr expected))]) \<and>
        at (p @ [Got (AnsFingerprint (Inr expected))]) ops_keyed t)) ?X"
  proof (cases "fingerprint_at E n")
    case (Inl e)
    then show ?thesis using q r by (auto intro!: spec_fail simp: at_def block_failed_def)
  next
    case (Inr before)
    show ?thesis
      unfolding Inr sum.case
      by (rule talk_ensure) (use q q' r in \<open>auto intro!: spec_ret exI [of _ "l @ [Sent CallFingerprint mo]"]
          simp: at_def block_failed_def\<close>)
  qed
qed

lemma stage_lock_spec:
  assumes pol: "polite E" and r: "op_id r' = op_id r"
  shows "spec (at l0 ops_keyed)
    (if requires_config_lock E then
       bnd (failing_with r' False False (await E (update_op E K r'))) (\<lambda>_.
       failing_with r' False False (or_fail (\<lambda>t. Operation (ConfigLockError t)) (dev_lock E txt)))
     else ret ())
    (\<lambda>_ t. \<exists>l. no_stage l0 l \<and> at l ops_keyed t) (block_failed E K expected r l0)"
proof (cases "requires_config_lock E")
  case True
  let ?X = "\<lambda>e. block_failed E K expected r l0 \<lparr>sf_error = e, sf_record = r', sf_touched = False, sf_locked = False\<rparr>"
  have u: "spec (at l0 ops_keyed) (failing_with r' False False (await E (update_op E K r')))
      (\<lambda>_. at l0 ops_keyed) (block_failed E K expected r l0)"
    by (rule spec_failing_with, rule spec_weaken [OF update_spec [OF pol lasting_keyed]])
      (use r in \<open>auto simp: just_def at_def block_failed_def no_stage_refl\<close>)
  have s: "no_stage l0 (l0 @ [Sent (CallLock txt) mo, Got (AnsLock x)])" for mo x
    by (rule no_stage_snoc [OF no_stage_refl]) simp
  have "spec (just l0 ops_keyed (\<lambda>_. True)) (device_rpc E (CallLock txt) (lock_at E) AnsLock)
     (\<lambda>x t. \<exists>mo. True \<and> at (l0 @ [Sent (CallLock txt) mo, Got (AnsLock x)]) ops_keyed t) ?X"
    by (rule rpc_spec [OF pol lasting_keyed]) simp
  then have "spec (just l0 ops_keyed (\<lambda>_. True)) (or_fail (\<lambda>t. Operation (ConfigLockError t)) (dev_lock E txt))
     (\<lambda>x t. \<exists>mo. True \<and> at (l0 @ [Sent (CallLock txt) mo, Got (AnsLock (Inr x))]) ops_keyed t) ?X"
    unfolding dev_defs by (rule spec_or_fail) (use s r in \<open>auto simp: at_def block_failed_def\<close>)
  then have "spec (at l0 ops_keyed) (failing_with r' False False
      (or_fail (\<lambda>t. Operation (ConfigLockError t)) (dev_lock E txt)))
     (\<lambda>_ t. \<exists>l. no_stage l0 l \<and> at l ops_keyed t) (block_failed E K expected r l0)"
    by - (rule spec_failing_with, erule spec_weaken, use s in \<open>auto simp: at_def just_def\<close>)
  with u True show ?thesis by (auto intro: spec_bnd)
next
  case False
  then show ?thesis by (auto intro!: spec_ret simp: no_stage_refl at_def)
qed

lemma stage_block_spec:
  assumes pol: "polite E" and r0: "op_state r0 = Staging"
  defines "r \<equiv> r0\<lparr>op_config_lock_held := True\<rparr>"
  shows "spec (at l0 ops_keyed) (stage_block E K r0 expected)
    (\<lambda>(b, after, staged) t. b = expected \<and> ops_keyed t \<and> staged_once E K expected r (Inr staged) l0 (dialogue t))
    (block_failed E K expected r l0)"
proof -
  let ?P = "\<lambda>p. p @ [Got (AnsFingerprint (Inr expected))]"
  have r: "op_state r = Staging" "op_config_lock_held r" "op_id r0 = op_id r" "op_actions r0 = op_actions r"
    using r0 by (simp_all add: r_def)
  have stage: "spec (at (?P p) ops_keyed)
      (bnd (failing_with r False (requires_config_lock E) (await E (update_op E K r))) (\<lambda>_.
       failing_with r True (requires_config_lock E)
         (bnd (device_try (dev_stage E (op_actions r0))) (\<lambda>staged.
          bnd (device_try (dev_fingerprint E)) (\<lambda>after. ret (expected, after, staged))))))
      (\<lambda>(b, after, staged) t. b = expected \<and> ops_keyed t \<and> staged_once E K expected r (Inr staged) l0 (dialogue t))
      (block_failed E K expected r l0)" if p: "no_stage l0 (?P p)" for p
    unfolding r(4)
    by (rule spec_bnd [OF spec_failing_with [OF spec_weaken [OF update_spec [OF pol lasting_keyed]]]],
        assumption, assumption) (use p stage_call_spec [OF pol p r(1,2)] in \<open>auto simp: at_def block_failed_def\<close>)
  have fp: "spec (at l ops_keyed)
      (bnd (failing_with (if requires_config_lock E then r else r0) False (requires_config_lock E)
         (bnd (device_try (dev_fingerprint E)) (\<lambda>before.
          bnd (ensure (expected = before) (Operation CandidateMoved)) (\<lambda>_. ret before)))) (\<lambda>before.
       bnd (failing_with r False (requires_config_lock E) (await E (update_op E K r))) (\<lambda>_.
       failing_with r True (requires_config_lock E)
         (bnd (device_try (dev_stage E (op_actions r0))) (\<lambda>staged.
          bnd (device_try (dev_fingerprint E)) (\<lambda>after. ret (before, after, staged)))))))
      (\<lambda>(b, after, staged) t. b = expected \<and> ops_keyed t \<and> staged_once E K expected r (Inr staged) l0 (dialogue t))
      (block_failed E K expected r l0)" if l: "no_stage l0 l" for l
  proof (rule spec_bnd [OF stage_fingerprint_spec [OF pol l]])
    show "op_id (if requires_config_lock E then r else r0) = op_id r" using r(3) by simp
  qed (intro spec_conjI spec_ex, use stage in simp)
  show ?thesis
    unfolding stage_block_def Let_def r_def [symmetric]
    by (rule spec_bnd [OF stage_lock_spec [OF pol refl]]) (intro spec_ex spec_conjI fp)
qed


section \<open>The whole method\<close>

lemma step_keeps:
  assumes "polite E" "lasting later G" "store_step later m"
  shows "keeps (at l G) (await E m)"
proof (rule keepsI)
  fix s assume s: "at l G s"
  have "spec (at l G) (bnd (await E m) ret) (\<lambda>_. at l G) (\<lambda>_. at l G)"
    by (rule trail_steps.talk_step [OF assms]) (auto intro!: spec_ret simp: just_def at_def)
  then have "\<forall>s. at l G s \<longrightarrow> (\<forall>x t. await E m s = (x, t) \<longrightarrow> at l G t)"
    unfolding bnd_ret_right by (auto simp: spec_def split: sum.splits)
  then show "at l G (snd (await E m s))" using s surjective_pairing by blast
qed

lemma spec_at:
  assumes "\<And>l. C l \<Longrightarrow> spec (at l G) m Q X" and "\<And>s. P s \<Longrightarrow> C (dialogue s) \<and> G s"
  shows "spec P m Q X"
  unfolding spec_def
proof (intro allI impI)
  fix s :: sys assume "P s"
  then have c: "C (dialogue s)" and a: "at (dialogue s) G s" using assms(2) by (auto simp: at_def)
  show "case m s of (Inl e, t) \<Rightarrow> X e t | (Inr x, t) \<Rightarrow> Q x t"
    by (rule assms(1) [OF c, unfolded spec_def, rule_format, OF a])
qed

definition stage_failed ::
  "'z lib_scheme \<Rightarrow> coordinator \<Rightarrow> string \<Rightarrow> device_event list \<Rightarrow> coord_error \<Rightarrow> sys \<Rightarrow> bool" where
  "stage_failed L K expected l0 e t \<longleftrightarrow> no_stage l0 (dialogue t) \<or>
     e \<in> {Operation StageIndeterminate, Operation StageStateError} \<and>
     (\<exists>r ans. staged_once L K expected r ans l0 (dialogue t))"

definition stage_done ::
  "'z lib_scheme \<Rightarrow> coordinator \<Rightarrow> string \<Rightarrow> operation_record \<Rightarrow> device_event list \<Rightarrow> stage_output \<Rightarrow> sys \<Rightarrow> bool" where
  "stage_done L K expected r l0 out t \<longleftrightarrow> so_before_fingerprint out = expected \<and>
     so_operation_id out = op_id r \<and> staged_once L K expected r (Inr (so_staged out)) l0 (dialogue t) \<and>
     settled L K (so_operation_id out) Staged t"

lemma stage_failedI:
  "no_stage l0 (dialogue t) \<Longrightarrow> stage_failed L K expected l0 e t"
  "staged_once L K expected r ans l0 (dialogue t) \<Longrightarrow>
     e \<in> {Operation StageIndeterminate, Operation StageStateError} \<Longrightarrow> stage_failed L K expected l0 e t"
  unfolding stage_failed_def by blast+

lemma stage_succeeded_spec:
  assumes pol: "polite E" and l: "staged_once E K expected r (Inr staged) l0 l" and r: "op_id r0 = op_id r"
  shows "spec (at l ops_keyed) (stage_succeeded E K r0 (expected, after, staged))
    (stage_done E K expected r l0) (stage_failed E K expected l0)"
  unfolding stage_succeeded_def prod.case Let_def
proof (rule spec_catch [OF update_spec [OF pol lasting_keyed]])
  fix e
  show "spec (\<lambda>t. at l ops_keyed t \<and> (\<exists>e'. e = Coordinator e'))
    (bnd (discard (await E (update_op E K (r0\<lparr>op_current := after, op_state := Staged, op_config_lock_held := True,
        op_state := Indeterminate,
        op_details := Some (''staging succeeded but final persistence failed: '' @ err_text E e)\<rparr>))))
      (\<lambda>_. fail (Operation StageStateError))) (stage_done E K expected r l0) (stage_failed E K expected l0)"
    by (rule spec_weaken [OF spec_discard_bnd [OF step_keeps [OF pol lasting_keyed trail.store_step_writes(1)]]])
      (use l in \<open>auto intro!: spec_fail stage_failedI(2) simp: at_def\<close>)
next
  fix u
  show "spec (just l ops_keyed (\<lambda>t. op_at (op_id (r0\<lparr>op_current := after, op_state := Staged, op_config_lock_held := True\<rparr>)) t =
        Some (r0\<lparr>op_current := after, op_state := Staged, op_config_lock_held := True\<rparr>) \<and> written E K t))
     (ret \<lparr>so_operation_id = op_id r0, so_staged = staged, so_before_fingerprint = expected, so_after_fingerprint = after\<rparr>)
     (stage_done E K expected r l0) (stage_failed E K expected l0)"
    using l r by (auto intro!: spec_ret simp: stage_done_def settled_def just_def)
qed

lemma stage_touched_spec:
  assumes pol: "polite E" and l: "staged_once E K expected r ans l0 l"
  shows "spec (at l ops_keyed) (stage_touched E K f) Q (stage_failed E K expected l0)"
  unfolding stage_touched_def
  by (rule spec_discard_bnd [OF step_keeps [OF pol lasting_keyed trail.store_step_writes(1)]])
    (use l in \<open>auto intro!: spec_fail stage_failedI(2) simp: at_def\<close>)

lemma stage_untouched_spec:
  assumes pol: "polite E" and l: "no_stage l0 l"
  shows "spec (at l ops_keyed) (stage_untouched E K f) Q (stage_failed E K expected l0)"
proof -
  have rest: "spec (at l' ops_keyed)
      (if released then bnd (await E (remove_op E K (op_id (sf_record f)))) (\<lambda>_. fail (sf_error f))
       else bnd (discard (await E (update_op E K ((sf_record f)\<lparr>op_state := Indeterminate,
              op_details := Some (''staging failed and the device lock could not be confirmed released: '' @
                err_text E (sf_error f)), op_config_lock_held := True\<rparr>))))
         (\<lambda>_. fail (Operation StageLockHeld))) Q (stage_failed E K expected l0)" if l': "no_stage l0 l'" for l' released
  proof (cases released)
    case True
    then show ?thesis
      using l' by (auto intro!: trail_steps.talk_step [OF pol lasting_keyed trail.store_step_writes(3)] spec_fail
          stage_failedI(1) simp: at_def just_def)
  next
    case False
    then show ?thesis
      using l' by (auto intro!: spec_discard_bnd [OF step_keeps [OF pol lasting_keyed trail.store_step_writes(1)]]
          spec_fail stage_failedI(1) simp: at_def)
  qed
  show ?thesis
  proof (cases "sf_locked f")
    case True
    have q: "no_stage l0 (l @ [Sent CallUnlock mo, Got (AnsUnlock u)])" for mo u
      by (rule no_stage_snoc [OF l]) simp
    show ?thesis
      unfolding stage_untouched_def lock_released_def if_P [OF True] bnd_assoc [symmetric] dev_defs
      by (rule trail_steps.talk_rpc_at [OF pol lasting_keyed]) (use rest q in \<open>simp add: bnd_ret\<close>)
  next
    case False
    show ?thesis
      unfolding stage_untouched_def lock_released_def if_not_P [OF False] bnd_ret by (rule rest [OF l])
  qed
qed

lemma stage_body_spec:
  assumes pol: "polite E" and r0: "op_state r0 = Staging"
  shows "spec (at l0 ops_keyed) (stage_body E K r0 expected)
    (stage_done E K expected (r0\<lparr>op_config_lock_held := True\<rparr>) l0) (stage_failed E K expected l0)"
  unfolding stage_body_def
proof (rule spec_attempt [OF stage_block_spec [OF pol r0]], unfold sum.case)
  fix f
  show "spec (block_failed E K expected (r0\<lparr>op_config_lock_held := True\<rparr>) l0 f)
      (if sf_touched f then stage_touched E K f else stage_untouched E K f)
      (stage_done E K expected (r0\<lparr>op_config_lock_held := True\<rparr>) l0) (stage_failed E K expected l0)"
  proof (cases "sf_touched f")
    case True
    show ?thesis
      unfolding if_P [OF True]
      by (rule spec_at [where C = "\<lambda>l. \<exists>ans. staged_once E K expected (r0\<lparr>op_config_lock_held := True\<rparr>) ans l0 l"
            and G = ops_keyed]) (use True stage_touched_spec [OF pol] in \<open>auto simp: block_failed_def\<close>)
  next
    case False
    show ?thesis
      unfolding if_not_P [OF False]
      by (rule spec_at [where C = "no_stage l0" and G = ops_keyed])
        (use False stage_untouched_spec [OF pol] in \<open>auto simp: block_failed_def\<close>)
  qed
next
  fix x :: "string \<times> string \<times> string"
  obtain b after staged where x: "x = (b, after, staged)" by (cases x)
  show "spec (case x of (b, after, staged) \<Rightarrow> \<lambda>t. b = expected \<and> ops_keyed t \<and>
        staged_once E K expected (r0\<lparr>op_config_lock_held := True\<rparr>) (Inr staged) l0 (dialogue t))
      (stage_succeeded E K r0 x)
      (stage_done E K expected (r0\<lparr>op_config_lock_held := True\<rparr>) l0) (stage_failed E K expected l0)"
    unfolding x prod.case
    by (rule spec_at [where C = "\<lambda>l. b = expected \<and> staged_once E K expected (r0\<lparr>op_config_lock_held := True\<rparr>)
            (Inr staged) l0 l" and G = ops_keyed])
      (use stage_succeeded_spec [OF pol, of K expected "r0\<lparr>op_config_lock_held := True\<rparr>" staged l0 _ r0 after] in auto)
qed

definition staged_for ::
  "string \<Rightarrow> string \<Rightarrow> string \<Rightarrow> json option list \<Rightarrow> string \<Rightarrow> operation_record \<Rightarrow> bool" where
  "staged_for device owner expected actions policy r \<longleftrightarrow> op_device r = device \<and> op_owner r = owner \<and>
     op_current r = expected \<and> map Some (op_actions r) = actions \<and> op_policy_signature r = policy"

lemma stage_operation_spec:
  assumes pol: "polite E"
  shows "spec (at l0 ops_keyed)
    (stage_operation E K device owner expected endpoint actions discriminator target policy authority)
    (\<lambda>out t. \<exists>r. staged_for device owner expected actions policy r \<and> stage_done E K expected r l0 out t)
    (stage_failed E K expected l0)"
proof -
  have some: "map Some (map the actions) = actions" if "None \<notin> set actions"
    using that by (induction actions) auto
  have body: "spec (at l0 ops_keyed)
      (stage_body E K (staging_record oid owner device ep discriminator target (map the actions) expected policy authority) expected)
      (\<lambda>out t. \<exists>r. staged_for device owner expected actions policy r \<and> stage_done E K expected r l0 out t)
      (stage_failed E K expected l0)" if "None \<notin> set actions" for oid ep
    by (rule spec_weaken [OF stage_body_spec [OF pol]])
      (use some that in \<open>auto simp: staging_record_def staged_for_def intro!: exI\<close>)
  show ?thesis
    unfolding stage_operation_def Let_def
    by (intro talk_ensure talk_lift trail_steps.talk_guard [OF pol lasting_keyed]
        trail_steps.talk_not_cancelled [OF lasting_keyed]
        trail_steps.talk_store [OF trail_steps.store_step_reads(4) lasting_keyed] talk_forget
        trail_steps.talk_step [OF pol lasting_keyed trail.store_step_writes(2)] body)
      (auto simp: at_def stage_failed_def stage_done_def settled_def written_def no_stage_refl)
qed

end
