(* ===== verification/Sample_Runs.thy ===== *)
theory Sample_Runs
  imports Staging_Facts Sample_System
begin

text \<open>
  Concrete runs of the operation methods in the sample environment, where every outside step
  succeeds and no other task interferes.
\<close>

definition sample_operation :: operation_record where
  "sample_operation = \<lparr>op_id = sample_id, op_owner = ''alice'', op_device = ''fw-01'',
     op_endpoint = ''https://fw/'', op_action = JStr ''set'', op_xpath = None, op_actions = [sample_action],
     op_change_set_id = None, op_current = sample_fingerprint, op_state = Validated, op_job_id = None,
     op_details = None, op_config_lock_held = True, op_policy_signature = ''p'', op_attribution = None,
     op_rollback_deadline_unix = None, op_config_authority = None\<rparr>"

definition op_sys :: "lifecycle_state \<Rightarrow> sys" where
  "op_sys st = sample_sys\<lparr>mem := sample_store\<lparr>st_operations := [(sample_id, sample_operation\<lparr>op_state := st\<rparr>)]\<rparr>\<rparr>"

definition sample_attribution :: attribution where
  "sample_attribution = \<lparr>at_principal = Token ''alice'', at_actor_type = Human, at_agent = None,
     at_on_behalf_of = None, at_change_ref = None, at_request_id = ''r1'',
     at_token_verified_fields = token_verified_none, at_approver = None, at_change_set_id = None\<rparr>"

text \<open>An environment in which the server is alone and its file system and spool work.\<close>

definition calm :: "env \<Rightarrow> bool" where
  "calm E \<longleftrightarrow> lib_of E = sample_lib \<and> (\<forall>n s. others_at E n s = s) \<and> (\<forall>n. io_at E n = IoOk \<and> flock_at E n \<and>
     spool_at E n = None \<and> \<not> cancelled_at E n)"

lemma calm_sample [simp]:
  "calm sample_env" "calm (sample_env\<lparr>unlock_at := u\<rparr>)" "calm (sample_env\<lparr>stage_at := f\<rparr>)"
  by (simp_all add: calm_def) (simp_all add: lib_of_def sample_env_def lib.defs sample_lib_def)

lemma calm_polite: "calm E \<Longrightarrow> polite E"
  by (simp add: calm_def abides_def later_refl)

lemmas sample_polite = calm_polite [OF calm_sample(1)]

lemma calm_simps [simp]:
  "calm E \<Longrightarrow> others_at E n s = s" "calm E \<Longrightarrow> io_at E n = IoOk" "calm E \<Longrightarrow> flock_at E n"
  "calm E \<Longrightarrow> spool_at E n = None" "calm E \<Longrightarrow> \<not> cancelled_at E n"
  by (simp_all add: calm_def)

lemma calm_ser_len [simp]:
  assumes "calm E"
  shows "ser_len E d = length (st_change_sets (od_state d))"
proof -
  have "ser_len E d = ser_len (lib_of E) d" by (simp add: lib_of_def)
  also have "\<dots> = ser_len sample_lib d" using assms unfolding calm_def by (elim conjE) (rule arg_cong)
  finally show ?thesis by (simp add: sample_lib_def)
qed

lemma op_sys_facts:
  "ops_keyed (op_sys st)" "durable_ok (op_sys st)" "dialogue (op_sys st) = []"
  by (simp_all add: op_sys_def sample_sys_def durable_ok_def keyed_ops_def sample_operation_def bt_ok_def)

lemma sample_valid_id: "valid_id sample_id = Inr ()"
  using sample_formats(1) by (simp add: valid_id_def hex64_def)

lemma sample_await [simp]:
  "calm E \<Longrightarrow> await E m s = m (s\<lparr>tick := Suc (tick s)\<rparr>)"
  by (simp add: await_def yield_def bnd_def)

lemma normalise_length [simp]: "length (st_change_sets (normalise_task_ids st)) = length (st_change_sets st)"
  by (simp add: normalise_task_ids_def bt_map_def)

lemma sample_persist [simp]:
  "calm E \<Longrightarrow> length (st_change_sets st) \<le> 1 \<Longrightarrow> persist_locked E sample_coordinator st s =
     (Inr (), s\<lparr>disk := Some (file_of E st), tick := Suc (Suc (tick s))\<rparr>)"
  by (simp add: persist_locked_def sample_coordinator_def act_simps ask_def write_disk_def write_state_def
      default_coordinator_def default_limits_def file_of_def on_disk_of_def Let_def map_err_def)

lemma sample_update [simp]:
  "calm E \<Longrightarrow> length (st_change_sets (mem s)) \<le> 1 \<Longrightarrow> update_op E sample_coordinator r s =
     (let st = (mem s)\<lparr>st_operations := bt_insert (op_id r) r (st_operations (mem s))\<rparr>
      in (Inr (), s\<lparr>mem := st, disk := Some (file_of E st), tick := Suc (Suc (tick s))\<rparr>))"
  by (simp add: update_op_def store_or_undo_def put_mem_def act_simps Let_def catch_def)

lemma sample_rpc [simp]:
  "calm E \<Longrightarrow> device_rpc E c a v s = (Inr (a (Suc (tick s))),
     s\<lparr>tick := Suc (Suc (tick s)), dialogue := dialogue s @ [Sent c (moment_of s), Got (v (a (Suc (tick s))))]\<rparr>)"
  by (simp add: device_rpc_def log_event_def act_simps ask_def moment_of_def)

lemma sample_record [simp]:
  "bt_get (st_operations (mem s)) sample_id = Some r \<Longrightarrow> op_owner r = ow \<Longrightarrow> op_device r = d \<Longrightarrow>
    record_op sample_id ow d s = (Inr r, s)"
  by (simp add: record_op_def act_simps sample_valid_id)

lemma sample_guard [simp]:
  "calm E \<Longrightarrow> held s = [] \<Longrightarrow> with_guard E d m s =
     (case m (s\<lparr>tick := Suc (Suc (tick s)), held := [d]\<rparr>) of (r, t) \<Rightarrow> (r, release_guard d t))"
  by (simp add: with_guard_def device_guard_def act_simps yield_def ask_def)

lemma ensure_apply [simp]: "ensure True e s = (Inr (), s)" "ensure False e s = (Inl e, s)"
  by (simp_all add: ensure_def ret_def fail_def)

lemma sample_asks [simp]:
  "calm E \<Longrightarrow> not_cancelled E s = (Inr (), s\<lparr>tick := Suc (tick s)\<rparr>)"
  "calm E \<Longrightarrow> bnd (is_cancelled E) f s = f False (s\<lparr>tick := Suc (tick s)\<rparr>)"
  by (simp_all add: not_cancelled_def is_cancelled_def act_simps bnd_def ask_def)

lemma sample_flush [simp]:
  "calm E \<Longrightarrow> bnd (flush_evidence E sample_coordinator) f s =
     f True (s\<lparr>tick := Suc (tick s), durable := length (trail s)\<rparr>)"
  "append_evidence ev s = (Inr (), s\<lparr>trail := trail s @ [ev]\<rparr>)"
  by (simp_all add: flush_evidence_def append_evidence_def act_simps bnd_def ask_def sample_coordinator_def)

lemma sample_on [simp]: "evidence_on sample_coordinator" "has_spool sample_coordinator" "state_path sample_coordinator = Some ''/state''"
  by (simp_all add: sample_coordinator_def)

lemma sample_operation_fields [simp]:
  "op_id sample_operation = sample_id" "op_owner sample_operation = ''alice''" "op_device sample_operation = ''fw-01''"
  "op_current sample_operation = sample_fingerprint" "op_policy_signature sample_operation = ''p''"
  "op_change_set_id sample_operation = None" "op_config_lock_held sample_operation"
  by (simp_all add: sample_operation_def)

lemma sample_fingerprint_valid: "validate_fingerprint sample_fingerprint = Inr ()"
  by code_simp

lemma sample_guards [simp]:
  "op_current r = sample_fingerprint \<Longrightarrow> require_operation_fingerprint r sample_fingerprint sample_fingerprint = Inr ()"
  "op_policy_signature r = ''p'' \<Longrightarrow> require_operation_policy r ''p'' = Inr ()"
  by (simp_all add: require_operation_fingerprint_def require_operation_policy_def sample_fingerprint_valid)

lemmas sample_run_defs = act_simps op_sys_def sample_sys_def sample_store_def guard_fingerprint_def dev_defs
  or_fail_def Let_def map_err_def

lemma sample_commit:
  "\<exists>t. commit_operation sample_env sample_coordinator sample_id ''fw-01'' ''alice'' sample_fingerprint ''p''
     ''handle'' sample_attribution None (op_sys Validated) = (Inr (Reconciled True None None), t)"
  by (simp add: commit_operation_def sample_run_defs send_commit_def settle_commit_def apply_intent_def result_receipt_def)

lemma sample_validate:
  "\<exists>t. validate_operation sample_env sample_coordinator sample_id ''fw-01'' ''alice'' sample_fingerprint
     ''handle'' (op_sys Staged) = (Inr ''valid'', t)"
  by (simp add: validate_operation_def sample_run_defs)

lemma sample_discard:
  "\<exists>t. discard_operation sample_env sample_coordinator sample_id ''fw-01'' ''alice'' sample_fingerprint
     (op_sys Staged) = (Inr sample_fingerprint, t)"
  by (simp add: discard_operation_def discardable_def discard_rollback_def discard_unlock_def discard_finish_def sample_run_defs)

lemma sample_limits: "max_operations (limits sample_coordinator) = 1024"
  by (simp add: sample_coordinator_def default_coordinator_def default_limits_def)

lemma sample_endpoint: "\<exists>u. canonicalize_endpoint sample_env ''https://fw'' = Inr u"
proof -
  have "url_parse sample_env = sample_url" by (simp add: sample_env_def lib.defs sample_lib_def)
  moreover have "starts_with ''https://'' ''https://fw''" by code_simp
  moreover have "sample_url ''https://fw'' \<noteq> None" by code_simp
  ultimately show ?thesis
    by (auto simp: canonicalize_endpoint_def sample_url_def)
qed

lemma sample_insert [simp]:
  "calm E \<Longrightarrow> st_operations (mem s) = [] \<Longrightarrow> length (st_change_sets (mem s)) \<le> 1 \<Longrightarrow>
    insert_op E sample_coordinator r s =
     (let st = (mem s)\<lparr>st_operations := [(op_id r, r)]\<rparr>
      in (Inr (), s\<lparr>mem := st, disk := Some (file_of E st), tick := Suc (Suc (tick s))\<rparr>))"
  by (simp add: insert_op_def store_or_undo_def put_mem_def act_simps Let_def catch_def evict_terminal_def
      sample_limits bt_values_def)

lemma sample_stage:
  "\<exists>out t. stage_operation sample_env sample_coordinator ''fw-01'' ''alice'' sample_fingerprint ''https://fw''
     [Some sample_action] ''set'' None ''p'' None sample_sys = (Inr out, t)"
proof -
  obtain u where u: "canonicalize_endpoint sample_env ''https://fw'' = Inr u" using sample_endpoint by blast
  show ?thesis
    by (simp add: u stage_operation_def stage_body_def stage_block_def stage_succeeded_def staging_record_def
        failing_with_def attempt_def catch_def new_operation_id_def ask_def sample_fingerprint_valid sample_run_defs)
qed

lemma sample_discard_failure:
  "\<exists>t. discard_operation (sample_env\<lparr>unlock_at := \<lambda>_. Inr Unsupported\<rparr>) sample_coordinator sample_id ''fw-01''
     ''alice'' sample_fingerprint (op_sys Staged) = (Inl (Operation LockStateUnverified), t)"
  by (simp add: discard_operation_def discardable_def discard_rollback_def discard_unlock_def discard_finish_def sample_run_defs)


section \<open>Applying\<close>

lemma sample_change_set_read [simp]:
  "bt_get (mem_css s) sample_id = Some r \<Longrightarrow> cs_device r = d \<Longrightarrow> change_set sample_id d s = (Inr r, s)"
  by (simp add: change_set_def act_simps sample_valid_id)

lemma sample_claims [simp]:
  "calm E \<Longrightarrow> bt_get (mem_css s) sample_id = Some r \<Longrightarrow> cs_device r = d \<Longrightarrow> cs_state r = Approved \<Longrightarrow> length (mem_css s) \<le> 1 \<Longrightarrow>
    mem_css s = [(sample_id, r)] \<Longrightarrow>
    claim_change_set_for_apply E sample_coordinator sample_id d HandleExpected s =
     (let c = r\<lparr>cs_state := Applying, cs_apply_without_handle := False\<rparr>;
          st = (mem s)\<lparr>st_change_sets := [(sample_id, c)]\<rparr>
      in (Inr c, s\<lparr>mem := st, disk := Some (file_of E st), tick := Suc (Suc (tick s))\<rparr>))"
  by (simp add: claim_change_set_for_apply_def act_simps sample_valid_id Let_def put_mem_def
      check_change_set_write_def map_err_def)

lemma sample_overwrite [simp]:
  assumes "calm E" "mem_css s = [(sample_id, r)]" "cs_id c = sample_id"
    "check_change_set_write E (Some r) (normalise c) Update = Inr ()"
  shows "update_change_set E sample_coordinator c s =
     (let st = (mem s)\<lparr>st_change_sets := [(sample_id, normalise c)]\<rparr>
      in (Inr (), s\<lparr>mem := st, disk := Some (file_of E st), tick := Suc (Suc (tick s))\<rparr>))"
proof -
  have "cs_id (normalise c) = sample_id"
    using assms(3) by (simp add: normalise_def normalise_apply_marker_def normalise_task_handle_def)
  then show ?thesis
    using assms by (simp add: update_change_set_def write_change_set_def act_simps Let_def store_or_undo_def put_mem_def
        map_err_def catch_def)
qed

lemma sample_oid_valid: "valid_id (hex_string (replicate 32 (CHR ''r''))) = Inr ()"
  by code_simp

lemma sample_oid_record [simp]:
  "bt_get (st_operations (mem s)) (hex_string (replicate 32 (CHR ''r''))) = Some r \<Longrightarrow> op_owner r = ow \<Longrightarrow> op_device r = d \<Longrightarrow>
    record_op (hex_string (replicate 32 (CHR ''r''))) ow d s = (Inr r, s)"
  by (simp add: record_op_def act_simps sample_oid_valid)

lemma sample_endpoint_apply: "\<exists>u. apply_canonicalize_endpoint sample_env ''https://fw'' = Inr u"
proof -
  have "url_parse sample_env = sample_url" by (simp add: sample_env_def lib.defs sample_lib_def)
  moreover have "sample_url ''https://fw'' \<noteq> None" by code_simp
  ultimately show ?thesis by (auto simp: apply_canonicalize_endpoint_def sample_url_def)
qed

lemma sample_apply:
  "\<exists>out t. apply_change_set sample_env sample_coordinator sample_id ''fw-01'' ''https://fw'' ''alice'' sample_plan_digest
     sample_fingerprint ''set'' None None sample_sys = (Inr out, t)"
proof -
  obtain u where u: "apply_canonicalize_endpoint sample_env ''https://fw'' = Inr u" using sample_endpoint_apply by blast
  have d: "validate_digest sample_plan_digest ''expected_digest'' = Inr ()"
    using sample_formats(3) by (simp add: validate_digest_iff)
  show ?thesis
    by (simp add: u d apply_change_set_def apply_guarded_def claim_and_stage_def lock_claimed_def stage_claimed_def
        settle_applied_def record_staged_def apply_operation_record_def waiver_expiry_error_def waiver_lapsed_def
        check_recorded_approval_def undecodable_def now_unix_def
        catch_def new_operation_id_def ask_def sample_fingerprint_valid sample_run_defs sample_approved_def sample_change_set_def
        check_change_set_write_def check_bound_approval_def preview_digest_of_def normalise_def
        normalise_apply_marker_def normalise_task_handle_def)
qed

lemma sample_cancel:
  "\<exists>x t r. run_tool sample_env sample_coordinator (Cancel sample_id ''fw-01'' ''alice'') sample_sys = (x, t) \<and>
     bt_get (mem_css t) sample_id = Some r \<and> cs_state r = Cancelled"
  by (simp add: cancel_change_set_def finish_def update_change_set_from_def sample_run_defs sample_approved_def
      sample_change_set_def check_change_set_write_def check_bound_approval_def preview_digest_of_def normalise_def
      normalise_apply_marker_def normalise_task_handle_def flip: bnd_assoc update_change_set_def)

end
