(* ===== verification/Operation_Properties.thy ===== *)
theory Operation_Properties
  imports Sample_Runs "HOL-Library.Sublist"
begin

text \<open>The properties of the operation methods, over every interleaving with polite tasks.\<close>

lemma at_start: "G s \<Longrightarrow> at (dialogue s) G s"
  by (simp add: at_def)

section \<open>Commit\<close>

text \<open>
  C3. No commit without a durable intent. Whatever \<open>commit_operation\<close> returns, and whatever the
  other tasks do while it waits, either it has asked the device for nothing but its fingerprint,
  or it has sent exactly one commit, directly after the device reported the expected fingerprint.
  At the moment that commit was sent the operation was recorded as committing, for this owner,
  device, fingerprint, policy and attribution; the state file, where there is one, held that
  record; and the apply intent was on the evidence trail, in its durable part where there is a spool.
\<close>

theorem commit_follows_durable_intent:
  assumes "polite E" "ops_keyed s" "durable_ok s"
    and "commit_operation E K oid device owner expected policy staged a confirm s = (x, t)"
  shows "only_fingerprint (dialogue s) (dialogue t) \<or>
    (\<exists>ans. commit_said E K oid device owner expected policy staged a confirm ans (dialogue s) (dialogue t))"
proof (cases x)
  case (Inl e)
  with spec_InlD [OF commit_operation_spec [OF assms(1)] at_start assms(4) [unfolded Inl]] assms(2,3)
  show ?thesis by blast
next
  case (Inr out)
  with spec_InrD [OF commit_operation_spec [OF assms(1)] at_start assms(4) [unfolded Inr]] assms(2,3)
  show ?thesis by blast
qed

theorem commit_follows_durable_intent_witness:
  "\<exists>t. commit_operation sample_env sample_coordinator sample_id ''fw-01'' ''alice'' sample_fingerprint ''p''
     ''handle'' sample_attribution None (op_sys Validated) = (Inr (Reconciled True None None), t) \<and>
   (only_fingerprint [] (dialogue t) \<or>
    (\<exists>ans. commit_said sample_env sample_coordinator sample_id ''fw-01'' ''alice'' sample_fingerprint ''p''
       ''handle'' sample_attribution None ans [] (dialogue t)))"
  using sample_commit commit_follows_durable_intent [OF sample_polite op_sys_facts(1,2)]
  unfolding op_sys_facts(3) by blast

text \<open>
  C17. The record agrees with the outcome. When \<open>commit_operation\<close> returns an outcome, the device
  gave that outcome, or the cancellation came first and the outcome says it is unknown; and the
  store and the state file hold the operation in the state of that outcome: committed or failed
  when it is reconciled, indeterminate when it is not known, and still committing while a job runs
  or a confirmation is awaited.
\<close>

theorem commit_outcome_recorded:
  assumes "polite E" "ops_keyed s" "durable_ok s"
    and "commit_operation E K oid device owner expected policy staged a confirm s = (Inr out, t)"
  shows "(last (dialogue t) = Got (AnsCommit (Some (Inr out))) \<or>
      last (dialogue t) = Got (AnsCommit None) \<and> out = IndeterminateOutcome cancelled_text) \<and>
    (\<exists>r. bt_get (st_operations (mem t)) oid = Some r \<and> op_state r = committed_state out) \<and>
    (state_path K \<noteq> None \<longrightarrow> disk t = Some (file_of E (mem t)))"
  using spec_InrD [OF commit_operation_spec [OF assms(1)] at_start assms(4)] assms(2,3)
  by (auto simp: commit_said_def settled_def written_def)

theorem commit_outcome_recorded_witness:
  "\<exists>t. commit_operation sample_env sample_coordinator sample_id ''fw-01'' ''alice'' sample_fingerprint ''p''
     ''handle'' sample_attribution None (op_sys Validated) = (Inr (Reconciled True None None), t) \<and>
   (\<exists>r. bt_get (st_operations (mem t)) sample_id = Some r \<and> op_state r = Committed)"
  using sample_commit commit_outcome_recorded [OF sample_polite op_sys_facts(1,2)] by fastforce


section \<open>Validation\<close>

text \<open>
  C35. Validation is what it says. When \<open>validate_operation\<close> succeeds, the device reported the
  expected fingerprint and then validated the staged handle, nothing else was sent, and the
  operation is stored and on file as validated, the only state from which a commit starts.
\<close>

theorem validation_recorded:
  assumes "polite E" "ops_keyed s"
    and "validate_operation E K oid device owner expected staged s = (Inr v, t)"
  shows "(\<exists>mo mo'. dialogue t = dialogue s @ [Sent CallFingerprint mo, Got (AnsFingerprint (Inr expected)),
      Sent (CallValidate staged) mo', Got (AnsValidate (Inr v))]) \<and> settled E K oid Validated t"
  using spec_InrD [OF validate_operation_spec [OF assms(1)] at_start assms(3)] assms(2) by auto

theorem validation_recorded_witness:
  "\<exists>t. validate_operation sample_env sample_coordinator sample_id ''fw-01'' ''alice'' sample_fingerprint
     ''handle'' (op_sys Staged) = (Inr ''valid'', t) \<and> settled sample_env sample_coordinator sample_id Validated t"
  using sample_validate validation_recorded [OF sample_polite op_sys_facts(1)] by blast


section \<open>Discard\<close>

text \<open>
  C32. A discard is complete or it is on record that it is not. When \<open>discard_operation\<close> succeeds,
  the device reverted the candidate, confirmed that the lock is released and reported the
  fingerprint that is returned, in this order, and the operation is stored and on file as
  discarded. During the rollback and the unlock the operation was on file as indeterminate, so a
  crash at that point cannot pass for a finished discard.
\<close>

theorem discard_complete:
  assumes "polite E" "ops_keyed s"
    and "discard_operation E K oid device owner expected s = (Inr after, t)"
  shows "discard_said E K oid expected after (dialogue s) (dialogue t) \<and> settled E K oid Discarded t"
  using spec_InrD [OF discard_operation_spec [OF assms(1)] at_start assms(3)] assms(2) by auto

theorem discard_complete_witness:
  "\<exists>t. discard_operation sample_env sample_coordinator sample_id ''fw-01'' ''alice'' sample_fingerprint
     (op_sys Staged) = (Inr sample_fingerprint, t) \<and> settled sample_env sample_coordinator sample_id Discarded t"
  using sample_discard discard_complete [OF sample_polite op_sys_facts(1)] by blast

text \<open>
  C33. A discard that fails leaves the truth on file. Every call it sent besides fingerprint reads
  was sent while the operation was on file as indeterminate. There are three cases for every
  error. The call asked the device for nothing but its fingerprint, and then the error is not one
  that speaks of the rollback or the lock; or the error is the coordinator's, of the state write
  or of a check before it; or the operation is stored and on file, as failed when the error says
  that the device refused the rollback and as indeterminate for every other error, never as
  discarded.
\<close>

theorem discard_failure_recorded:
  assumes "polite E" "ops_keyed s"
    and "discard_operation E K oid device owner expected s = (Inl e, t)"
  shows "(\<exists>d. dialogue t = dialogue s @ d \<and>
      (\<forall>c mo. Sent c mo \<in> set d \<longrightarrow> c = CallFingerprint \<or> parked E K oid mo)) \<and>
    (only_fingerprint (dialogue s) (dialogue t) \<and> \<not> after_revert e \<or> (\<exists>c. e = Coordinator c) \<or>
     settled E K oid (discard_error_state e) t)"
  using spec_InlD [OF discard_operation_spec [OF assms(1)] at_start assms(3)] assms(2)
  by (auto simp: discard_failed_def)

theorem discard_failure_recorded_witness:
  "\<exists>t. discard_operation (sample_env\<lparr>unlock_at := \<lambda>_. Inr Unsupported\<rparr>) sample_coordinator sample_id ''fw-01''
     ''alice'' sample_fingerprint (op_sys Staged) = (Inl (Operation LockStateUnverified), t) \<and>
   settled (sample_env\<lparr>unlock_at := \<lambda>_. Inr Unsupported\<rparr>) sample_coordinator sample_id Indeterminate t"
proof -
  obtain t where t: "discard_operation (sample_env\<lparr>unlock_at := \<lambda>_. Inr Unsupported\<rparr>) sample_coordinator sample_id
      ''fw-01'' ''alice'' sample_fingerprint (op_sys Staged) = (Inl (Operation LockStateUnverified), t)"
    using sample_discard_failure by blast
  from discard_failure_recorded [OF calm_polite [OF calm_sample(2)] op_sys_facts(1) t] t show ?thesis by simp
qed


section \<open>Staging\<close>

text \<open>
  C30. Staging touches the device at most once, and says so. When \<open>stage_operation\<close> succeeds, it has
  sent one stage call, with the actions of the request, after the device reported the expected
  fingerprint and while a record on file held the lock flag; the operation is stored and on file
  as staged. When it fails with any error other than the two that announce an unknown or
  unrecorded result, no stage call was sent at all.
\<close>

theorem staging_touches_once:
  assumes "polite E" "ops_keyed s"
    and "stage_operation E K device owner expected endpoint actions discriminator target policy authority s = (x, t)"
  shows "case x of
      Inr out \<Rightarrow> \<exists>r. staged_for device owner expected actions policy r \<and>
        stage_done E K expected r (dialogue s) out t
    | Inl e \<Rightarrow> no_stage (dialogue s) (dialogue t) \<or>
        e \<in> {Operation StageIndeterminate, Operation StageStateError} \<and>
        (\<exists>r ans. staged_once E K expected r ans (dialogue s) (dialogue t))"
proof -
  have "at (dialogue s) ops_keyed s" using assms(2) by (simp add: at_def)
  then show ?thesis
    using stage_operation_spec [OF assms(1), of "dialogue s" K device owner expected endpoint actions
        discriminator target policy authority] assms(3)
    by (cases x) (auto simp: spec_def stage_failed_def)
qed

theorem staging_touches_once_witness:
  "\<exists>out t. stage_operation sample_env sample_coordinator ''fw-01'' ''alice'' sample_fingerprint ''https://fw''
     [Some sample_action] ''set'' None ''p'' None sample_sys = (Inr out, t) \<and>
   (\<exists>r. staged_for ''fw-01'' ''alice'' sample_fingerprint [Some sample_action] ''p'' r \<and>
      stage_done sample_env sample_coordinator sample_fingerprint r [] out t)"
proof -
  obtain out t where t: "stage_operation sample_env sample_coordinator ''fw-01'' ''alice'' sample_fingerprint
      ''https://fw'' [Some sample_action] ''set'' None ''p'' None sample_sys = (Inr out, t)"
    using sample_stage by blast
  have "ops_keyed sample_sys" by (simp add: sample_sys_def sample_store_def keyed_ops_def)
  from staging_touches_once [OF sample_polite this t] t show ?thesis by (auto simp: sample_sys_def)
qed


section \<open>Every tool\<close>




text \<open>
  No method of the crate removes or rewrites a record of the evidence trail, and what the spool has
  accepted stays accepted, as long as the other tasks do the same.
\<close>

lemma evidence_only_grows:
  assumes "polite E" "run_tool E K T s = (x, t)" "durable_ok s"
  shows "prefix (trail s) (trail t) \<and> prefix (take (durable s) (trail s)) (take (durable t) (trail t))"
proof -
  have l: "later s t" by (rule tool_later [OF assms(1,2)])
  then obtain l where "trail t = trail s @ l" "durable s \<le> durable t" "durable_ok t"
    using assms(3) by (auto simp: later_def)
  then show ?thesis
    using assms(3) by (auto simp: durable_ok_def take_is_prefix min_def prefix_def intro!: exI [of _ "take (durable t - durable s) (drop (durable s) (trail s @ l))"])
      (metis append_take_drop_id le_add_diff_inverse take_add drop_append)
qed

end
