(* ===== verification/Plan_Moves.thy ===== *)
theory Plan_Moves
  imports Staging_Facts Coordinator_Facts
begin

text \<open>
  The relation the other tasks abide by while a change set is applied: \<open>kept L cid\<close> says that they
  change the store only by the moves every operation of the coordinator refines, and do not insert
  \<open>cid\<close> again. And the rules for what a transaction says under such a relation.
\<close>

section \<open>Moves that keep a change set\<close>

definition kept :: "lib \<Rightarrow> string \<Rightarrow> sys \<Rightarrow> sys \<Rightarrow> bool" where
  "kept L cid s t \<longleftrightarrow> later s t \<and> (ids_ok (mem_css s) \<longrightarrow> css_moves L (- {cid}) (mem_css s) (mem_css t))"

lemma kept_later: "kept L cid s t \<Longrightarrow> later s t"
  by (simp add: kept_def)

lemma kept_refines: "steps later m \<Longrightarrow> refines E K (- {cid}) m \<Longrightarrow> steps (kept (lib_of E) cid) m"
  by (auto simp: steps_def kept_def moves_def dest: refinesD)

lemma kept_same: "later s t \<Longrightarrow> mem t = mem s \<Longrightarrow> kept L cid s t"
  by (simp add: kept_def)

interpretation keeping: state_relation "kept L cid" for L cid
proof
  fix s t assume "same_store s t"
  then show "kept L cid s t" using trail_steps.R_frame by (auto simp: same_store_def intro: kept_same)
next
  fix s t u assume st: "kept L cid s t" and tu: "kept L cid t u"
  have "later s u" using st tu by (auto simp: kept_def intro: later_trans)
  moreover have "css_moves L (- {cid}) (mem_css s) (mem_css u)" if "ids_ok (mem_css s)"
    using st tu that css_moves_ids [of L "- {cid}" "mem_css s" "mem_css t"] by (auto simp: kept_def)
  ultimately show "kept L cid s u" by (simp add: kept_def)
qed

interpretation keep: store_relation "kept (lib_of E) cid" E K for E :: "'z env_scheme" and K cid
proof (unfold_locales, goal_cases)
  case (1 r) show ?case by (rule kept_refines [OF insert_op_later insert_op_refines])
next
  case (2 r) show ?case by (rule kept_refines [OF update_op_later update_op_refines])
next
  case (3 oid) show ?case by (rule kept_refines [OF remove_op_later remove_op_refines])
next
  case (4 c) show ?case by (rule kept_refines [OF write_change_set_later write_change_set_refines])
next
  case (5 c d h) show ?case by (rule kept_refines [OF claim_later claim_refines])
next
  case (6 ev)
  show ?case
    by (rule stepsI, rule kept_same) (auto dest: stepsD [OF append_later] append_evidence_frame)
next
  case (7 ev)
  show ?case
    by (rule stepsI, rule kept_same) (auto dest: stepsD [OF append_flush_later] append_flush_frame)
qed

lemma lasting_kept: "lasting later G \<Longrightarrow> lasting (kept L cid) G"
  by (auto intro: lasting_mono dest: kept_later)

lemma lasting_ids: "lasting (kept L cid) (\<lambda>s. ids_ok (mem_css s))"
  by (auto simp: lasting_def kept_def intro: css_moves_ids)

lemma lasting_from: "lasting (kept L cid) (kept L cid s0)"
  unfolding lasting_def using keeping.R_trans by blast

text \<open>A stable property of the change set lasts.\<close>

context stable_record
begin

lemma lasting_stable: "lasting (kept L cid) (\<lambda>s. ids_ok (mem_css s) \<and> all_at Q cid (mem_css s))"
  using lasting_ids [of L cid] css_moves_stable [of "- {cid}" _ _ cid]
  by (auto simp: lasting_def kept_def)

end


section \<open>Further rules\<close>

lemma talk_add:
  assumes "spec (at l (\<lambda>s. G s \<and> H s)) m Q X" "\<And>s. G s \<Longrightarrow> N s \<Longrightarrow> H s"
  shows "spec (just l G N) m Q X"
  by (rule spec_weaken [OF assms(1)]) (auto simp: just_def at_def assms(2))

lemma talk_weaken:
  assumes "spec (at l H) m Q X" "\<And>s. G s \<Longrightarrow> H s"
  shows "spec (at l G) m Q X"
  by (rule spec_weaken [OF assms(1)]) (auto simp: at_def assms(2))

lemma talk_just_facts:
  assumes "\<And>s. G s \<Longrightarrow> N s \<Longrightarrow> F" "F \<Longrightarrow> spec (just l G N) m Q X"
  shows "spec (just l G N) m Q X"
proof (rule specI)
  fix s x t assume s: "just l G N s" "m s = (Inr x, t)"
  then have F by (auto simp: just_def intro: assms(1))
  from spec_InrD [OF assms(2) [OF this] s] show "Q x t" .
next
  fix s e t assume s: "just l G N s" "m s = (Inl e, t)"
  then have F by (auto simp: just_def intro: assms(1))
  from spec_InlD [OF assms(2) [OF this] s] show "X e t" .
qed

lemma spec_ask:
  assumes "\<And>s n. P s \<Longrightarrow> P (s\<lparr>tick := n\<rparr>)" "\<And>n. spec P (h (g n)) Q X"
  shows "spec P (bnd (ask g) h) Q X"
  using assms by (simp add: spec_def bnd_ask)

lemma spec_keeps_bnd:
  assumes "keeps P m" "\<And>x. spec P (f x) Q X" "\<And>e t. P t \<Longrightarrow> X e t"
  shows "spec P (bnd m f) Q X"
  by (rule spec_bnd [where M = "\<lambda>_. P", OF spec_weaken [OF spec_keeps [OF assms(1)]]]) (auto intro: assms(2,3))

context state_relation
begin

lemma step_spec:
  assumes "abides R E" "lasting R G" "store_step R m"
  shows "spec (at l G) (await E m) (\<lambda>x. just l G (\<lambda>t. \<exists>s. at l G s \<and> m s = (Inr x, t)))
    (\<lambda>e t. at l G t \<and> (\<exists>s. at l G s \<and> m s = (Inl e, t)))"
  using talk_step [OF assms, where f = ret and Q = "\<lambda>x. just l G (\<lambda>t. \<exists>s. at l G s \<and> m s = (Inr x, t))"
      and X = "\<lambda>e t. at l G t \<and> (\<exists>s. at l G s \<and> m s = (Inl e, t))"]
  unfolding bnd_ret_right by (auto intro: spec_ret)

lemma hush_keeps:
  assumes "abides R E" "lasting R G" "store_step R m"
  shows "keeps (at l G) (await E m)"
proof (rule keepsI)
  fix s assume s: "at l G s"
  obtain x t where x: "await E m s = (x, t)" by (rule prod.exhaust)
  show "at l G (snd (await E m s))"
  proof (cases x)
    case (Inl e)
    from spec_InlD [OF step_spec [OF assms] s x [unfolded Inl]] x show ?thesis by simp
  next
    case (Inr y)
    from spec_InrD [OF step_spec [OF assms] s x [unfolded Inr]] x show ?thesis by (simp add: just_def at_def)
  qed
qed

text \<open>Reading the clock leaves a fact about the store untouched.\<close>

lemma talk_now:
  assumes "lasting R G" "\<And>s n. N s \<Longrightarrow> N (s\<lparr>tick := n\<rparr>)"
    and "\<And>n now. clock_at E n = Some now \<Longrightarrow> spec (just l G N) (f now) Q X"
    and "\<And>t. at l G t \<Longrightarrow> X (Coordinator ClockBeforeEpoch) t"
  shows "spec (just l G N) (bnd (now_unix E) f) Q X"
  unfolding now_unix_def bnd_assoc [symmetric]
proof (rule spec_ask)
  fix s n assume "just l G N s"
  then show "just l G N (s\<lparr>tick := n\<rparr>)"
    using assms(1) R_tick [of s n] assms(2) by (auto simp: just_def lasting_def)
next
  fix n
  show "spec (just l G N) (bnd (case clock_at E n of None \<Rightarrow> fail (Coordinator ClockBeforeEpoch) | Some n \<Rightarrow> ret n) f) Q X"
  proof (cases "clock_at E n")
    case None
    then show ?thesis using assms(4) by (auto simp: spec_def act_simps just_def at_def)
  next
    case (Some now)
    from assms(3) [OF this] show ?thesis by (simp add: Some bnd_ret)
  qed
qed

lemma talk_read:
  assumes "abides R E" "lasting R G"
    and "\<And>r. cs_device r = d \<Longrightarrow> spec (just l G (\<lambda>t. bt_get (mem_css t) cid = Some r)) (f r) Q X"
    and "\<And>e t. at l G t \<Longrightarrow> X (Coordinator e) t"
  shows "spec (at l G) (bnd (await E (change_set cid d)) f) Q X"
proof (rule talk_step [OF assms(1,2) store_step_reads(2)])
  have r: "t = s \<and> bt_get (mem_css s) cid = Some r \<and> cs_device r = d" if "change_set cid d s = (Inr r, t)" for s r t
    using that by (auto simp: change_set_def bnd_lift bnd_gets bnd_ensure act_apply split: sum.splits option.splits if_splits)
  fix r
  show "spec (just l G (\<lambda>t. \<exists>s. at l G s \<and> change_set cid d s = (Inr r, t))) (f r) Q X"
    by (rule talk_just_facts [where F = "cs_device r = d"], use r in blast,
        rule spec_just [OF assms(3)], use r in auto)
next
  fix e s t assume "at l G t" "change_set cid d s = (Inl e, t)"
  then show "X e t"
    using assms(4) by (auto simp: change_set_def bnd_lift bnd_gets bnd_ensure act_apply valid_id_def
        split: sum.splits option.splits if_splits)
qed

end

end
