(* ===== verification/Apply_Facts.thy ===== *)
theory Apply_Facts
  imports Plan_Moves
begin

text \<open>
  What \<open>apply_change_set\<close> says to the device, from the first fingerprint read to the record of the
  outcome, and what the store holds at the moment of each call.
\<close>

section \<open>What is said\<close>

text \<open>The plan a caller asks to have applied.\<close>

record plan =
  pl_id :: string
  pl_device :: string
  pl_owner :: string
  pl_digest :: string
  pl_fingerprint :: string

abbreviation ident_of :: "plan \<Rightarrow> change_set_record \<Rightarrow> bool" where
  "ident_of P \<equiv> \<lambda>r. (cs_owner r, cs_device r, cs_digest r) = (pl_owner P, pl_device P, pl_digest P)"

text \<open>The state in which the method reads the change set: the other tasks have run once.\<close>

definition first_read :: "'z env_scheme \<Rightarrow> sys \<Rightarrow> sys" where
  "first_read E s = snd (yield E s)"

text \<open>
  The change set at the moment of the first device call: approved, unexpired, with the owner, device,
  digest and fingerprint the caller named; and the record the method had read first passed the
  approval check, its approval by a person, if it is one, still being on the record.
\<close>

definition approved_for ::
  "'z env_scheme \<Rightarrow> coordinator \<Rightarrow> plan \<Rightarrow> sys \<Rightarrow> change_set_record \<Rightarrow> moment \<Rightarrow> bool" where
  "approved_for E K P s0 r mo \<longleftrightarrow>
     bt_get (st_change_sets (mo_mem mo)) (pl_id P) = Some r \<and> cs_state r = Approved \<and> ident_of P r \<and>
     cs_expected_candidate_fingerprint r = pl_fingerprint P \<and>
     (\<exists>n now. clock_at E n = Some now \<and> now < cs_expires_at_unix r \<and> \<not> waiver_lapsed r now) \<and>
     (\<exists>r'. bt_get (mem_css (first_read E s0)) (pl_id P) = Some r' \<and>
        check_recorded_approval K r' = Inr () \<and>
        (\<forall>a. cs_approval r' = Some a \<longrightarrow> ap_approver a \<noteq> None \<longrightarrow> cs_approval r = Some a))"

text \<open>The change set at the moment of the stage call: its approval is spent.\<close>

definition claimed_at :: "plan \<Rightarrow> moment \<Rightarrow> bool" where
  "claimed_at P mo \<longleftrightarrow> all_at (\<lambda>r. spent (cs_state r)) (pl_id P) (st_change_sets (mo_mem mo)) \<and>
     all_at (ident_of P) (pl_id P) (st_change_sets (mo_mem mo))"

text \<open>The reservation at the moment of the lock call: on file, and flagged as holding the lock.\<close>

definition lock_on_record :: "'z lib_scheme \<Rightarrow> coordinator \<Rightarrow> plan \<Rightarrow> string \<Rightarrow> moment \<Rightarrow> bool" where
  "lock_on_record L K P oid mo \<longleftrightarrow>
     (\<exists>r. bt_get (st_operations (mo_mem mo)) oid = Some r \<and> op_device r = pl_device P \<and>
        op_owner r = pl_owner P \<and> op_config_lock_held r) \<and>
     (state_path K \<noteq> None \<longrightarrow> mo_disk mo = Some (file_of L (mo_mem mo)))"

definition locked_by :: "'z env_scheme \<Rightarrow> coordinator \<Rightarrow> plan \<Rightarrow> string \<Rightarrow> device_event list \<Rightarrow> bool" where
  "locked_by E K P oid e \<longleftrightarrow>
     (if requires_config_lock E
      then \<exists>txt mo. e = [Sent (CallLock txt) mo, Got (AnsLock (Inr ()))] \<and> lock_on_record E K P oid mo
      else e = [])"

definition stage_sent ::
  "'z env_scheme \<Rightarrow> coordinator \<Rightarrow> plan \<Rightarrow> sys \<Rightarrow> string \<Rightarrow> change_set_record \<Rightarrow> string + string \<Rightarrow>
   device_event list \<Rightarrow> device_event list \<Rightarrow> bool" where
  "stage_sent E K P s0 oid r ans l0 l \<longleftrightarrow>
     (\<exists>mo0 e mo1 mo2. l = l0 @ [Sent CallFingerprint mo0, Got (AnsFingerprint (Inr (pl_fingerprint P)))] @ e @
        [Sent CallFingerprint mo1, Got (AnsFingerprint (Inr (pl_fingerprint P))),
         Sent (CallStage (cs_actions r)) mo2, Got (AnsStage ans)] \<and>
        approved_for E K P s0 r mo0 \<and> locked_by E K P oid e \<and> claimed_at P mo2)"

fun harmless :: "device_event \<Rightarrow> bool" where
  "harmless (Sent CallFingerprint _) = True"
| "harmless (Sent (CallLock _) _) = True"
| "harmless (Sent CallUnlock _) = True"
| "harmless (Sent _ _) = False"
| "harmless (Got (AnsFingerprint _)) = True"
| "harmless (Got (AnsLock _)) = True"
| "harmless (Got (AnsUnlock _)) = True"
| "harmless (Got _) = False"

definition only_harmless :: "device_event list \<Rightarrow> device_event list \<Rightarrow> bool" where
  "only_harmless l0 l \<longleftrightarrow> (\<exists>e. l = l0 @ e \<and> list_all harmless e)"

text \<open>How the method leaves the dialogue, and the reservation when the device refused to stage.\<close>

definition apply_left ::
  "'z env_scheme \<Rightarrow> coordinator \<Rightarrow> plan \<Rightarrow> sys \<Rightarrow> device_event list \<Rightarrow> sys \<Rightarrow> bool" where
  "apply_left E K P s0 l0 t \<longleftrightarrow> only_harmless l0 (dialogue t) \<or>
     (\<exists>oid r ans l post. stage_sent E K P s0 oid r ans l0 l \<and> dialogue t = l @ post \<and>
        (case ans of Inl _ \<Rightarrow> post = [] \<and> bt_get (st_operations (mem t)) oid = None
         | Inr _ \<Rightarrow> \<exists>mo fp. post = [Sent CallFingerprint mo, Got (AnsFingerprint fp)]))"

definition apply_done ::
  "'z env_scheme \<Rightarrow> coordinator \<Rightarrow> plan \<Rightarrow> sys \<Rightarrow> device_event list \<Rightarrow> apply_output \<Rightarrow> sys \<Rightarrow> bool" where
  "apply_done E K P s0 l0 out t \<longleftrightarrow> ao_before_fingerprint out = pl_fingerprint P \<and>
     (\<exists>r l mo. stage_sent E K P s0 (ao_operation_id out) r (Inr (ao_staged out)) l0 l \<and>
        dialogue t = l @ [Sent CallFingerprint mo, Got (AnsFingerprint (Inr (ao_after_fingerprint out)))]) \<and>
     (ao_recorded_state out = Applying \<or>
      ao_recorded_state out = Applied \<and> written E K t \<and>
      (\<exists>c. bt_get (mem_css t) (pl_id P) = Some c \<and> cs_state c = Applied \<and>
         cs_operation_id c = Some (ao_operation_id out)))"

lemma only_harmless_refl: "only_harmless l l"
  by (simp add: only_harmless_def)

lemma only_harmless_snoc: "only_harmless l0 l \<Longrightarrow> harmless x \<Longrightarrow> harmless y \<Longrightarrow> only_harmless l0 (l @ [x, y])"
  by (auto simp: only_harmless_def)

lemma apply_left_quiet: "only_harmless l0 (dialogue t) \<Longrightarrow> apply_left E K P s0 l0 t"
  by (simp add: apply_left_def)

lemma apply_left_refused:
  "stage_sent E K P s0 oid r (Inl e) l0 (dialogue t) \<Longrightarrow> bt_get (st_operations (mem t)) oid = None \<Longrightarrow>
     apply_left E K P s0 l0 t"
  unfolding apply_left_def
  by (intro disjI2 exI [of _ oid] exI [of _ r] exI [of _ "Inl e"] exI [of _ "dialogue t"] exI [of _ "[]"]) simp

lemma apply_left_read:
  "stage_sent E K P s0 oid r (Inr h) l0 l \<Longrightarrow> dialogue t = l @ [Sent CallFingerprint mo, Got (AnsFingerprint fp)] \<Longrightarrow>
     apply_left E K P s0 l0 t"
  unfolding apply_left_def
  by (rule disjI2, rule exI [of _ oid], rule exI [of _ r], rule exI [of _ "Inr h"], rule exI [of _ l],
      rule exI [of _ "[Sent CallFingerprint mo, Got (AnsFingerprint fp)]"]) auto

lemma apply_left_frame [simp]:
  "apply_left E K P s0 l0 (t\<lparr>tick := n\<rparr>) = apply_left E K P s0 l0 t"
  "apply_left E K P s0 l0 (t\<lparr>held := h\<rparr>) = apply_left E K P s0 l0 t"
  by (simp_all add: apply_left_def cong: sum.case_cong)

lemma normalise_keeps [simp]:
  "cs_id (normalise c) = cs_id c" "cs_state (normalise c) = cs_state c"
  "cs_operation_id (normalise c) = cs_operation_id c"
  by (auto simp: normalise_def normalise_apply_marker_def normalise_task_handle_def)

lemma update_change_set_InrD:
  assumes "update_change_set E K c s = (Inr x, t)"
  shows "bt_get (mem_css t) (cs_id c) = Some (normalise c)" "written E K t"
proof -
  obtain st undo where "store_or_undo E K st undo s = (Inr x, t)"
    "st_change_sets st = bt_insert (cs_id c) (normalise c) (mem_css s)"
    using assms unfolding update_change_set_def write_change_set_def
    by (auto simp: bnd_gets bnd_lift Let_def split: sum.splits)
  with store_or_undo_cases [of E K st undo s "Inr x" t]
  show "bt_get (mem_css t) (cs_id c) = Some (normalise c)" "written E K t"
    by (auto simp: written_def same_rest_def bt_get_insert)
qed


section \<open>After the stage call\<close>

definition based :: "'z env_scheme \<Rightarrow> plan \<Rightarrow> sys \<Rightarrow> sys \<Rightarrow> bool" where
  "based E P s0 s \<longleftrightarrow> kept (lib_of E) (pl_id P) s0 s \<and> ops_keyed s \<and> ids_ok (mem_css s)"

abbreviation considerate :: "'z env_scheme \<Rightarrow> plan \<Rightarrow> bool" where
  "considerate E P \<equiv> abides (kept (lib_of E) (pl_id P)) E"

lemma lasting_based: "lasting (kept (lib_of E) (pl_id P)) (based E P s0)"
  unfolding based_def by (intro lasting_conj lasting_from lasting_ids lasting_kept [OF lasting_keyed])

lemma spec_at_left:
  "spec P m Q (\<lambda>_. at l G) \<Longrightarrow> (\<And>t. dialogue t = l \<Longrightarrow> apply_left E K pl s0 l0 t) \<Longrightarrow>
     spec P m Q (\<lambda>_. apply_left E K pl s0 l0)"
  by (erule spec_weaken) (auto simp: at_def)

lemma talk_tagged:
  assumes "lasting (kept L cid) G" "\<And>x. spec (at l G) (f x) Q X"
  shows "spec (at l G) (bnd (tagged_error E src e) f) Q X"
  unfolding tagged_error_def bnd_assoc [symmetric] bnd_ret by (rule keeping.talk_ask [OF assms(1)]) (rule assms(2))

lemma settle_unreadable_spec:
  assumes "considerate E P" "\<And>t. dialogue t = l \<Longrightarrow> apply_left E K P s0 l0 t"
  shows "spec (at l (based E P s0)) (settle_unreadable E K oid ow d c e) Q
    (\<lambda>_. apply_left E K P s0 l0)"
  unfolding settle_unreadable_def
  by (intro talk_tagged [OF lasting_based] keeping.talk_record [OF assms(1) lasting_based]
      keep.talk_update [OF assms(1) lasting_based] talk_forget
      spec_discard_bnd [OF keeping.hush_keeps [OF assms(1) lasting_based keep.store_step_writes(4)]] spec_fail)
    (use assms(2) in \<open>auto simp: at_def based_def\<close>)

lemma record_staged_keeps:
  assumes "considerate E P"
  shows "keeps (at l (based E P s0)) (record_staged E K cid fp n r)"
  unfolding record_staged_def Let_def
  by (intro keeps_rules keeping.hush_keeps [OF assms lasting_based keep.store_step_writes(1)])

lemma settle_applied_spec:
  assumes con: "considerate E P" and l: "stage_sent E K P s0 oid r (Inr staged) l0 l"
    and c: "cs_id c = pl_id P" "cs_operation_id c = Some oid"
  shows "spec (at l (based E P s0)) (settle_applied E K cid oid ow d (pl_fingerprint P) n c staged)
    (apply_done E K P s0 l0) (\<lambda>_. apply_left E K P s0 l0)"
  unfolding settle_applied_def dev_defs
proof (rule keeping.talk_rpc_at [OF con lasting_based])
  fix m mo
  let ?l = "l @ [Sent CallFingerprint mo, Got (AnsFingerprint (fingerprint_at E m))]"
  have said: "apply_left E K P s0 l0 t" if "dialogue t = ?l" for t by (rule apply_left_read [OF l that])
  show "spec (at ?l (based E P s0)) (case fingerprint_at E m of
       Inl e \<Rightarrow> settle_unreadable E K oid ow d c e
     | Inr after \<Rightarrow>
         bnd (await E (record_op oid ow d)) (\<lambda>o1.
         bnd (record_staged E K cid after n o1) (\<lambda>_.
         bnd (catch (await E (update_change_set E K (c\<lparr>cs_state := Applied\<rparr>)))
                (\<lambda>_. ret Applying) (\<lambda>_. ret Applied)) (\<lambda>recorded.
         ret \<lparr>ao_operation_id = oid, ao_before_fingerprint = pl_fingerprint P,
              ao_after_fingerprint = after, ao_staged = staged, ao_recorded_state = recorded\<rparr>))))
     (apply_done E K P s0 l0) (\<lambda>_. apply_left E K P s0 l0)"
  proof (cases "fingerprint_at E m")
    case (Inl e)
    show ?thesis unfolding Inl sum.case by (rule settle_unreadable_spec [OF con]) (use said Inl in simp)
  next
    case (Inr after)
    have fin: "spec (at ?l (based E P s0)) (bnd (catch (await E (update_change_set E K (c\<lparr>cs_state := Applied\<rparr>)))
          (\<lambda>_. ret Applying) (\<lambda>_. ret Applied)) (\<lambda>recorded.
         ret \<lparr>ao_operation_id = oid, ao_before_fingerprint = pl_fingerprint P,
              ao_after_fingerprint = after, ao_staged = staged, ao_recorded_state = recorded\<rparr>))
        (apply_done E K P s0 l0) (\<lambda>_. apply_left E K P s0 l0)"
    proof (rule spec_bnd [OF spec_catch [OF keeping.step_spec [OF con lasting_based keep.store_step_writes(4)]]])
      show "spec (\<lambda>t. at ?l (based E P s0) t \<and> (\<exists>s. at ?l (based E P s0) s \<and> update_change_set E K (c\<lparr>cs_state := Applied\<rparr>) s = (Inl e, t)))
        (ret Applying) (\<lambda>st t. dialogue t = ?l \<and> (st = Applying \<or> st = Applied \<and> written E K t \<and>
           bt_get (mem_css t) (pl_id P) = Some (normalise (c\<lparr>cs_state := Applied\<rparr>)))) (\<lambda>_. apply_left E K P s0 l0)" for e
        by (rule spec_ret) (auto simp: at_def)
    next
      show "spec (just ?l (based E P s0) (\<lambda>t. \<exists>s. at ?l (based E P s0) s \<and> update_change_set E K (c\<lparr>cs_state := Applied\<rparr>) s = (Inr x, t)))
        (ret Applied) (\<lambda>st t. dialogue t = ?l \<and> (st = Applying \<or> st = Applied \<and> written E K t \<and>
           bt_get (mem_css t) (pl_id P) = Some (normalise (c\<lparr>cs_state := Applied\<rparr>)))) (\<lambda>_. apply_left E K P s0 l0)" for x
        by (rule spec_ret) (use c(1) in \<open>auto simp: just_def dest: update_change_set_InrD\<close>)
    next
      fix st
      show "spec (\<lambda>t. dialogue t = ?l \<and> (st = Applying \<or> st = Applied \<and> written E K t \<and>
           bt_get (mem_css t) (pl_id P) = Some (normalise (c\<lparr>cs_state := Applied\<rparr>))))
        (ret \<lparr>ao_operation_id = oid, ao_before_fingerprint = pl_fingerprint P,
              ao_after_fingerprint = after, ao_staged = staged, ao_recorded_state = st\<rparr>)
        (apply_done E K P s0 l0) (\<lambda>_. apply_left E K P s0 l0)"
        by (rule spec_ret) (use l c(2) Inr in \<open>auto simp: apply_done_def\<close>)
    qed
    show ?thesis
      unfolding Inr sum.case
      by (intro keeping.talk_record [OF con lasting_based] spec_keeps_bnd [OF record_staged_keeps [OF con]])
        (use fin said Inr in \<open>auto simp: at_def based_def\<close>)
  qed
qed


section \<open>From the claim to the stage call\<close>

lemma abandon_spec:
  assumes "considerate E P" "lasting (kept (lib_of E) (pl_id P)) G"
  shows "spec (at l G) (abandon E K oid c e) Q (\<lambda>_. at l G)"
  unfolding abandon_def
  by (intro spec_keeps_bnd [OF keeping.hush_keeps [OF assms keep.store_step_writes(3)]]
      spec_discard_bnd [OF keeping.hush_keeps [OF assms keep.store_step_writes(4)]] spec_fail) auto

lemma unlock_answers: "bnd (discard (dev_unlock E)) (\<lambda>_. m) = bnd (dev_unlock E) (\<lambda>_. m)"
  by (rule ext) (simp add: dev_unlock_def device_rpc_def log_event_def await_def yield_def ask_def act_defs)

lemma unlock_and_abandon_spec:
  assumes con: "considerate E P" and G: "lasting (kept (lib_of E) (pl_id P)) G" and l: "only_harmless l0 l"
  shows "spec (at l G) (unlock_and_abandon E K locked oid c e) Q (\<lambda>_. apply_left E K P s0 l0)"
proof (cases locked)
  case True
  have "spec (at l G) (bnd (dev_unlock E) (\<lambda>_. abandon E K oid c e)) Q (\<lambda>_. apply_left E K P s0 l0)"
    unfolding dev_defs
  proof (rule keeping.talk_rpc_at [OF con G])
    fix n mo
    have "only_harmless l0 (l @ [Sent CallUnlock mo, Got (AnsUnlock (unlock_at E n))])"
      by (rule only_harmless_snoc [OF l]) simp_all
    then show "spec (at (l @ [Sent CallUnlock mo, Got (AnsUnlock (unlock_at E n))]) G) (abandon E K oid c e) Q
        (\<lambda>_. apply_left E K P s0 l0)"
      by (intro spec_at_left [OF abandon_spec [OF con G]] apply_left_quiet) simp
  qed
  then show ?thesis unfolding unlock_and_abandon_def if_P [OF True] unlock_answers .
next
  case False
  then show ?thesis
    unfolding unlock_and_abandon_def
    using spec_at_left [OF abandon_spec [OF con G] apply_left_quiet] l by (simp add: bnd_ret)
qed

lemma remove_op_removes: "remove_op E K oid s = (x, t) \<Longrightarrow> bt_get (st_operations (mem t)) oid = None"
proof -
  assume r: "remove_op E K oid s = (x, t)"
  let ?st = "(mem s)\<lparr>st_operations := bt_remove oid (st_operations (mem s))\<rparr>"
  obtain y u where p: "persist_locked E K ?st (s\<lparr>mem := ?st\<rparr>) = (y, u)" by (cases "persist_locked E K ?st (s\<lparr>mem := ?st\<rparr>)")
  have "t = u" using r p by (simp add: remove_op_def put_mem_def Let_def bnd_gets bnd_modify act_apply)
  then show ?thesis using persist_locked_cases [OF p] by (simp add: bt_get_remove)
qed

lemma stage_refused_spec:
  assumes con: "considerate E P" and G: "lasting (kept (lib_of E) (pl_id P)) G"
    and l: "stage_sent E K P s0 oid r (Inl x) l0 l"
  shows "spec (at l G) (stage_refused E K oid c e) Q (\<lambda>_. apply_left E K P s0 l0)"
proof -
  have fin: "spec (apply_left E K P s0 l0) (bnd (lift u) (\<lambda>_.
     bnd (tagged_error E ''device.stage_error'' e) (\<lambda>tagged. fail (Apply (StagingFailed tagged)))))
    Q (\<lambda>_. apply_left E K P s0 l0)" for u :: "coord_error + unit"
    unfolding tagged_error_def bnd_assoc [symmetric] bnd_ret by (intro spec_lift_bnd spec_ask spec_fail) simp_all
  have rest: "spec (at l G) (bnd (await E (remove_op E K oid)) (\<lambda>_. bnd (lift u) (\<lambda>_.
     bnd (tagged_error E ''device.stage_error'' e) (\<lambda>tagged. fail (Apply (StagingFailed tagged))))))
    Q (\<lambda>_. apply_left E K P s0 l0)" for u :: "coord_error + unit"
  proof (rule keeping.talk_step [OF con G keep.store_step_writes(3)])
    show "spec (just l G (\<lambda>t. \<exists>s. at l G s \<and> remove_op E K oid s = (Inr v, t))) (bnd (lift u) (\<lambda>_.
     bnd (tagged_error E ''device.stage_error'' e) (\<lambda>tagged. fail (Apply (StagingFailed tagged)))))
    Q (\<lambda>_. apply_left E K P s0 l0)" for v
      by (rule spec_weaken [OF fin]) (use l in \<open>auto simp: just_def dest!: remove_op_removes intro: apply_left_refused\<close>)
    show "apply_left E K P s0 l0 t" if "remove_op E K oid s = (Inl e', t)" "at l G t" for e' s t
      using that l remove_op_removes [OF that(1)] apply_left_refused by (simp add: at_def) blast
  qed
  show ?thesis
    unfolding stage_refused_def
    by (rule spec_attempt [OF spec_keeps [OF keeping.hush_keeps [OF con G keep.store_step_writes(4)]]])
      (rule rest)+
qed

definition claimed :: "'z env_scheme \<Rightarrow> plan \<Rightarrow> sys \<Rightarrow> sys \<Rightarrow> bool" where
  "claimed E P s0 s \<longleftrightarrow> based E P s0 s \<and>
     (ids_ok (mem_css s) \<and> all_at (\<lambda>r. spent (cs_state r)) (pl_id P) (mem_css s)) \<and>
     (ids_ok (mem_css s) \<and> all_at (ident_of P) (pl_id P) (mem_css s))"

lemma lasting_claimed: "lasting (kept (lib_of E) (pl_id P)) (claimed E P s0)"
  unfolding claimed_def
  by (intro lasting_conj [OF lasting_based] lasting_conj spent.lasting_stable ident.lasting_stable)

lemma claimed_moment: "claimed E P s0 s \<Longrightarrow> claimed_at P (moment_of s)"
  by (simp add: claimed_def claimed_at_def moment_of_def)

lemma stage_claimed_spec:
  assumes con: "considerate E P" and a: "approved_for E K P s0 r mo0" and e: "locked_by E K P oid e"
    and l: "l = l0 @ [Sent CallFingerprint mo0, Got (AnsFingerprint (Inr (pl_fingerprint P)))] @ e"
    and c: "cs_id c = pl_id P" "cs_operation_id c = Some oid"
  shows "spec (at l (claimed E P s0)) (stage_claimed E K cid oid ow d (pl_fingerprint P) (pl_fingerprint P) (cs_actions r) locked c)
    (apply_done E K P s0 l0) (\<lambda>_. apply_left E K P s0 l0)"
proof -
  note G = lasting_claimed
  have h: "list_all harmless e" using e by (auto simp: locked_by_def split: if_splits)
  have quiet: "only_harmless l0 (l @ [Sent CallFingerprint mo, Got (AnsFingerprint x)])" for mo x
    by (rule only_harmless_snoc) (use h in \<open>auto simp: l only_harmless_def\<close>)
  have stage: "spec (at (l @ [Sent CallFingerprint mo, Got (AnsFingerprint (Inr (pl_fingerprint P)))]) (claimed E P s0))
      (bnd (dev_stage E (cs_actions r)) (\<lambda>result. case result of
          Inl e \<Rightarrow> stage_refused E K oid c e
        | Inr staged \<Rightarrow> settle_applied E K cid oid ow d (pl_fingerprint P) (length (cs_actions r)) c staged))
      (apply_done E K P s0 l0) (\<lambda>_. apply_left E K P s0 l0)"
    (is "spec (at ?l _) _ _ _") for mo
  proof -
    have "spec (just ?l (claimed E P s0) (\<lambda>_. True))
      (bnd (dev_stage E (cs_actions r)) (\<lambda>result. case result of
          Inl e \<Rightarrow> stage_refused E K oid c e
        | Inr staged \<Rightarrow> settle_applied E K cid oid ow d (pl_fingerprint P) (length (cs_actions r)) c staged))
      (apply_done E K P s0 l0) (\<lambda>_. apply_left E K P s0 l0)"
      unfolding dev_defs
    proof (rule keeping.talk_rpc [OF con G, where M = "claimed_at P"])
      fix n mo' assume m: "claimed_at P mo'"
      let ?ans = "stage_at E n"
      let ?l' = "?l @ [Sent (CallStage (cs_actions r)) mo', Got (AnsStage ?ans)]"
      have sent: "stage_sent E K P s0 oid r ?ans l0 ?l'"
        unfolding stage_sent_def l using a e m by (intro exI [of _ mo0] exI [of _ e] exI [of _ mo] exI [of _ mo']) simp
      show "spec (at ?l' (claimed E P s0)) (case ?ans of
          Inl e \<Rightarrow> stage_refused E K oid c e
        | Inr staged \<Rightarrow> settle_applied E K cid oid ow d (pl_fingerprint P) (length (cs_actions r)) c staged)
        (apply_done E K P s0 l0) (\<lambda>_. apply_left E K P s0 l0)"
      proof (cases ?ans)
        case (Inl x)
        from stage_refused_spec [OF con G sent [unfolded Inl]] Inl show ?thesis by simp
      next
        case (Inr h)
        show ?thesis
          unfolding Inr sum.case
          by (rule talk_weaken [OF settle_applied_spec [OF con sent [unfolded Inr] c]]) (simp add: claimed_def)
      qed
    qed (simp add: claimed_moment)
    then show ?thesis by (simp add: spec_def just_def at_def)
  qed
  show ?thesis
    unfolding stage_claimed_def dev_fingerprint_def
    by (rule keeping.talk_rpc_at [OF con G])
      (use stage unlock_and_abandon_spec [OF con G quiet] in \<open>auto split: sum.split\<close>)
qed

lemma lock_claimed_spec:
  assumes con: "considerate E P" and a: "approved_for E K P s0 r mo0"
    and l: "l = l0 @ [Sent CallFingerprint mo0, Got (AnsFingerprint (Inr (pl_fingerprint P)))]"
    and c: "cs_id c = pl_id P" "cs_operation_id c = Some oid"
  shows "spec (at l (claimed E P s0)) (lock_claimed E K cid oid (pl_owner P) (pl_device P) (pl_fingerprint P) (pl_fingerprint P) (cs_actions r) c)
    (apply_done E K P s0 l0) (\<lambda>_. apply_left E K P s0 l0)"
  unfolding lock_claimed_def
proof (rule keeping.talk_record [OF con lasting_claimed])
  note G = lasting_claimed
  have quiet: "only_harmless l0 l" by (simp add: l only_harmless_def)
  fix pre :: operation_record assume pre: "op_id pre = oid" "op_owner pre = pl_owner P" "op_device pre = pl_device P"
  let ?r = "pre\<lparr>op_config_lock_held := True\<rparr>"
  let ?stage = "\<lambda>locked. stage_claimed E K cid oid (pl_owner P) (pl_device P) (pl_fingerprint P) (pl_fingerprint P) (cs_actions r) locked c"
  have lock: "spec (just l (claimed E P s0) (\<lambda>t. \<exists>s. at l (claimed E P s0) s \<and> update_op E K ?r s = (Inr u, t)))
      (bnd (dev_lock E (''mecmcp change set '' @ cid)) (\<lambda>answer. case answer of
          Inl e \<Rightarrow> abandon E K oid c (Apply (ConfigLockFailed e)) | Inr _ \<Rightarrow> ?stage True))
      (apply_done E K P s0 l0) (\<lambda>_. apply_left E K P s0 l0)" if req: "requires_config_lock E" for u
    unfolding dev_defs
  proof (rule keeping.talk_rpc [OF con G, where M = "lock_on_record E K P oid"])
    fix s assume "\<exists>s'. at l (claimed E P s0) s' \<and> update_op E K ?r s' = (Inr u, s)"
    then have "op_at (op_id ?r) s = Some ?r" "written E K s" by (auto dest: update_op_InrD)
    with pre show "lock_on_record E K P oid (moment_of s)"
      unfolding lock_on_record_def moment_of_def by (auto simp: written_def)
  next
    fix n mo assume m: "lock_on_record E K P oid mo"
    let ?txt = "''mecmcp change set '' @ cid" and ?ans = "lock_at E n"
    let ?l = "l @ [Sent (CallLock ?txt) mo, Got (AnsLock ?ans)]"
    show "spec (at ?l (claimed E P s0)) (case ?ans of
          Inl e \<Rightarrow> abandon E K oid c (Apply (ConfigLockFailed e)) | Inr _ \<Rightarrow> ?stage True)
      (apply_done E K P s0 l0) (\<lambda>_. apply_left E K P s0 l0)"
    proof (cases ?ans)
      case (Inl e)
      have "only_harmless l0 ?l" by (rule only_harmless_snoc [OF quiet]) simp_all
      with spec_at_left [OF abandon_spec [OF con G] apply_left_quiet] Inl show ?thesis by simp
    next
      case (Inr v)
      show ?thesis
        unfolding Inr sum.case
        by (rule stage_claimed_spec [OF con a _ _ c, where e = "[Sent (CallLock ?txt) mo, Got (AnsLock (Inr v))]"])
          (use m req in \<open>auto simp: l locked_by_def\<close>)
    qed
  qed
  have free: "spec (at l (claimed E P s0)) (?stage False)
      (apply_done E K P s0 l0) (\<lambda>_. apply_left E K P s0 l0)" if "\<not> requires_config_lock E"
    by (rule stage_claimed_spec [OF con a _ _ c, where e = "[]"]) (use that in \<open>auto simp: l locked_by_def\<close>)
  show "spec (at l (claimed E P s0)) (catch (await E (update_op E K ?r)) (\<lambda>e. abandon E K oid c e)
       (\<lambda>_. if requires_config_lock E then bnd (dev_lock E (''mecmcp change set '' @ cid)) (\<lambda>answer. case answer of
          Inl e \<Rightarrow> abandon E K oid c (Apply (ConfigLockFailed e)) | Inr _ \<Rightarrow> ?stage True) else ?stage False))
      (apply_done E K P s0 l0) (\<lambda>_. apply_left E K P s0 l0)"
  proof (rule spec_catch [OF keeping.step_spec [OF con G keep.store_step_writes(1)]])
    fix e
    show "spec (\<lambda>t. at l (claimed E P s0) t \<and> (\<exists>s. at l (claimed E P s0) s \<and> update_op E K ?r s = (Inl e, t)))
        (abandon E K oid c e) (apply_done E K P s0 l0) (\<lambda>_. apply_left E K P s0 l0)"
      by (rule spec_weaken [OF spec_at_left [OF abandon_spec [OF con G] apply_left_quiet]]) (use quiet in auto)
  qed (rule spec_if, erule lock, rule talk_forget, erule free)
qed (auto simp: claimed_def based_def l at_def only_harmless_def intro!: apply_left_quiet)

lemma drop_reservation_spec:
  assumes "considerate E P" "lasting (kept (lib_of E) (pl_id P)) G"
  shows "spec (at l G) (drop_reservation E K oid e) Q (\<lambda>_. at l G)"
  unfolding drop_reservation_def
  by (intro spec_keeps_bnd [OF keeping.hush_keeps [OF assms keep.store_step_writes(3)]] spec_fail) auto

text \<open>The change set as it was read: its identity lasts.\<close>

definition identified :: "'z env_scheme \<Rightarrow> plan \<Rightarrow> sys \<Rightarrow> sys \<Rightarrow> bool" where
  "identified E P s0 s \<longleftrightarrow> based E P s0 s \<and> (ids_ok (mem_css s) \<and> all_at (ident_of P) (pl_id P) (mem_css s))"

lemma lasting_identified: "lasting (kept (lib_of E) (pl_id P)) (identified E P s0)"
  unfolding identified_def by (intro lasting_conj [OF lasting_based] ident.lasting_stable)

lemma claim_claims:
  assumes "claim_change_set_for_apply E K (pl_id P) d HandleExpected s = (Inr c, t)" "identified E P s0 s" "identified E P s0 t"
  shows "cs_id c = pl_id P \<and> claimed E P s0 t"
proof -
  obtain r where r: "bt_get (mem_css s) (pl_id P) = Some r"
      "c = r\<lparr>cs_state := Applying, cs_apply_without_handle := (HandleExpected = HandleNone)\<rparr>"
      "mem t = (mem s)\<lparr>st_change_sets := bt_insert (pl_id P) c (mem_css s)\<rparr>"
    by (rule claim_success [OF assms(1)])
  have "cs_id c = pl_id P" using r(1,2) assms(2) by (simp add: identified_def ids_ok_def)
  moreover have "all_at (\<lambda>r. spent (cs_state r)) (pl_id P) (mem_css t)"
    using r(2,3) by (simp add: all_at_def bt_get_insert)
  ultimately show ?thesis using assms(3) by (simp add: claimed_def identified_def)
qed

lemma claim_and_stage_spec:
  assumes con: "considerate E P" and a: "approved_for E K P s0 r mo0" and r: "cs_id r = pl_id P"
    and l: "l = l0 @ [Sent CallFingerprint mo0, Got (AnsFingerprint (Inr (pl_fingerprint P)))]"
  shows "spec (at l (identified E P s0)) (claim_and_stage E K cid oid (pl_owner P) (pl_device P) (pl_fingerprint P) (pl_fingerprint P) r)
    (apply_done E K P s0 l0) (\<lambda>_. apply_left E K P s0 l0)"
  unfolding claim_and_stage_def r Let_def
proof (rule spec_catch [OF keeping.step_spec [OF con lasting_identified keep.store_step_writes(5)]])
  have quiet: "apply_left E K P s0 l0 t" if "dialogue t = l" for t
    by (rule apply_left_quiet) (simp add: that l only_harmless_def)
  note drop = spec_at_left [OF drop_reservation_spec [OF con] quiet]
  show "spec (\<lambda>t. at l (identified E P s0) t \<and> (\<exists>s. at l (identified E P s0) s \<and>
        claim_change_set_for_apply E K (pl_id P) (cs_device r) HandleExpected s = (Inl e, t)))
      (drop_reservation E K oid e) (apply_done E K P s0 l0) (\<lambda>_. apply_left E K P s0 l0)" for e
    by (rule spec_weaken [OF drop [OF lasting_identified]]) auto
  fix c :: change_set_record
  let ?c = "c\<lparr>cs_operation_id := Some oid\<rparr>"
  have body: "spec (at l (claimed E P s0)) (catch (await E (update_change_set E K ?c)) (drop_reservation E K oid)
       (\<lambda>_. lock_claimed E K cid oid (pl_owner P) (pl_device P) (pl_fingerprint P) (pl_fingerprint P) (cs_actions r) ?c))
      (apply_done E K P s0 l0) (\<lambda>_. apply_left E K P s0 l0)" if c: "cs_id c = pl_id P"
  proof (rule spec_catch [OF keeping.step_spec [OF con lasting_claimed keep.store_step_writes(4)]])
    show "spec (\<lambda>t. at l (claimed E P s0) t \<and> (\<exists>s. at l (claimed E P s0) s \<and> update_change_set E K ?c s = (Inl e, t)))
        (drop_reservation E K oid e) (apply_done E K P s0 l0) (\<lambda>_. apply_left E K P s0 l0)" for e
      by (rule spec_weaken [OF drop [OF lasting_claimed]]) auto
  qed (rule talk_forget, rule lock_claimed_spec [OF con a l], use c in simp_all)
  show "spec (just l (identified E P s0) (\<lambda>t. \<exists>s. at l (identified E P s0) s \<and>
        claim_change_set_for_apply E K (pl_id P) (cs_device r) HandleExpected s = (Inr c, t)))
      (catch (await E (update_change_set E K ?c)) (drop_reservation E K oid)
       (\<lambda>_. lock_claimed E K cid oid (pl_owner P) (pl_device P) (pl_fingerprint P) (pl_fingerprint P) (cs_actions r) ?c))
      (apply_done E K P s0 l0) (\<lambda>_. apply_left E K P s0 l0)"
  proof (rule talk_just_facts [where F = "cs_id c = pl_id P"])
    show "cs_id c = pl_id P" if "identified E P s0 t" "\<exists>s. at l (identified E P s0) s \<and>
        claim_change_set_for_apply E K (pl_id P) (cs_device r) HandleExpected s = (Inr c, t)" for t
      using that by (auto simp: at_def dest: claim_claims)
  qed (rule spec_weaken [OF body], assumption, auto simp: just_def at_def dest: claim_claims)
qed


section \<open>The method\<close>

lemma identifiedI:
  assumes "based E P s0 t" "bt_get (mem_css t) (pl_id P) = Some r" "ident_of P r"
  shows "identified E P s0 t"
  using assms by (simp add: identified_def based_def all_at_def)

text \<open>The record the approval check has seen, and what of it lasts.\<close>

definition checked :: "'z env_scheme \<Rightarrow> coordinator \<Rightarrow> plan \<Rightarrow> sys \<Rightarrow> change_set_record \<Rightarrow> sys \<Rightarrow> bool" where
  "checked E K P s0 r' s \<longleftrightarrow> based E P s0 s \<and>
     bt_get (mem_css (first_read E s0)) (pl_id P) = Some r' \<and> check_recorded_approval K r' = Inr () \<and>
     (\<forall>a. cs_approval r' = Some a \<longrightarrow> ap_approver a \<noteq> None \<longrightarrow>
        ids_ok (mem_css s) \<and> all_at (\<lambda>r. ap_approver a \<noteq> None \<and> cs_approval r = Some a) (pl_id P) (mem_css s))"

lemma lasting_all: "(\<And>a. lasting R (G a)) \<Longrightarrow> lasting R (\<lambda>s. \<forall>a. G a s)"
  by (auto simp: lasting_def)

lemma lasting_const: "lasting R (\<lambda>s. b)"
  by (simp add: lasting_def)

lemma lasting_checked: "lasting (kept (lib_of E) (pl_id P)) (checked E K P s0 r')"
  unfolding checked_def
  by (intro lasting_conj lasting_based lasting_const lasting_all lasting_imp granted.lasting_stable)

lemma checkedI:
  assumes "based E P s0 t" "bt_get (mem_css t) (pl_id P) = Some r" "bt_get (mem_css (first_read E s0)) (pl_id P) = Some r"
    "check_recorded_approval K r = Inr ()"
  shows "checked E K P s0 r t"
  using assms by (auto simp: checked_def based_def all_at_def)

lemma expire_and_refuse_spec:
  assumes "considerate E P" "lasting (kept (lib_of E) (pl_id P)) G"
  shows "spec (at l G) (expire_and_refuse E K r e) Q (\<lambda>_. at l G)"
  unfolding expire_and_refuse_def
  by (intro spec_keeps_bnd [OF keeping.hush_keeps [OF assms keep.store_step_writes(4)]] spec_fail) auto

lemma reserve_spec:
  assumes con: "considerate E P" and a: "approved_for E K P s0 r mo0" and r: "cs_id r = pl_id P"
    and l: "l = l0 @ [Sent CallFingerprint mo0, Got (AnsFingerprint (Inr (pl_fingerprint P)))]"
  shows "spec (at l (identified E P s0))
     (bnd (ensure (cs_policy_signature r \<noteq> []) (Apply NoPolicySignature)) (\<lambda>_.
      bnd (case undecodable E (cs_actions r) of
            None \<Rightarrow> ret () | Some i \<Rightarrow> fail (Apply (ActionUndecodable i))) (\<lambda>_.
      bnd (new_operation_id E) (\<lambda>oid.
      bnd (await E (insert_op E K (apply_operation_record oid cid (pl_owner P) (pl_device P) endpoint discriminator
            target authority (pl_fingerprint P) r))) (\<lambda>_.
      claim_and_stage E K cid oid (pl_owner P) (pl_device P) (pl_fingerprint P) (pl_fingerprint P) r)))))
    (apply_done E K P s0 l0) (\<lambda>_. apply_left E K P s0 l0)"
proof -
  note G = lasting_identified
  have quiet: "apply_left E K P s0 l0 t" if "dialogue t = l" for t
    by (rule apply_left_quiet) (simp add: that l only_harmless_def)
  have rest: "spec (at l (identified E P s0)) (bnd (new_operation_id E) (\<lambda>oid.
      bnd (await E (insert_op E K (apply_operation_record oid cid (pl_owner P) (pl_device P) endpoint discriminator
            target authority (pl_fingerprint P) r))) (\<lambda>_.
      claim_and_stage E K cid oid (pl_owner P) (pl_device P) (pl_fingerprint P) (pl_fingerprint P) r)))
    (apply_done E K P s0 l0) (\<lambda>_. apply_left E K P s0 l0)"
    by (intro keeping.talk_store [OF keeping.store_step_reads(4) G] talk_forget
        keeping.talk_step [OF con G keep.store_step_writes(2)] claim_and_stage_spec [OF con a r l])
      (use quiet in \<open>auto simp: at_def\<close>)
  show ?thesis
    by (intro talk_ensure, cases "undecodable E (cs_actions r)")
      (use rest quiet in \<open>auto simp: bnd_ret at_def act_simps spec_def\<close>)
qed

lemma approved_forI:
  assumes "checked E K P s0 r' t" "bt_get (mem_css t) (pl_id P) = Some r" "cs_state r = Approved" "ident_of P r"
    "cs_expected_candidate_fingerprint r = pl_fingerprint P" "clock_at E n = Some now" "now < cs_expires_at_unix r"
    "\<not> waiver_lapsed r now"
  shows "approved_for E K P s0 r (moment_of t)"
proof -
  have u: "bt_get (mem_css (first_read E s0)) (pl_id P) = Some r'" "check_recorded_approval K r' = Inr ()"
    using assms(1) by (simp_all add: checked_def)
  have "\<forall>a. cs_approval r' = Some a \<longrightarrow> ap_approver a \<noteq> None \<longrightarrow> cs_approval r = Some a"
    using assms(1,2) by (auto simp: checked_def all_at_def)
  then show ?thesis
    unfolding approved_for_def moment_of_def using assms(2-8) u by auto
qed

lemma fingerprint_then_reserve:
  assumes con: "considerate E P" and r: "cs_device r = pl_device P" "cs_owner r = pl_owner P" "cs_state r = Approved"
      "cs_digest r = pl_digest P" "cs_expected_candidate_fingerprint r = pl_fingerprint P"
    and now: "clock_at E n = Some now" "\<not> cs_expires_at_unix r \<le> now" "\<not> waiver_lapsed r now"
    and body: "\<And>mo. approved_for E K P s0 r mo \<Longrightarrow> cs_id r = pl_id P \<Longrightarrow>
      spec (at (l0 @ [Sent CallFingerprint mo, Got (AnsFingerprint (Inr (pl_fingerprint P)))]) (identified E P s0)) (f (pl_fingerprint P))
        (apply_done E K P s0 l0) (\<lambda>_. apply_left E K P s0 l0)"
  shows "spec (just l0 (checked E K P s0 r') (\<lambda>t. bt_get (mem_css t) (pl_id P) = Some r))
     (bnd (or_fail (\<lambda>t. Apply (FingerprintFailed t)) (dev_fingerprint E)) (\<lambda>before.
      bnd (ensure (before = pl_fingerprint P) (Apply (DeviceDrift (pl_fingerprint P) before))) (\<lambda>_. f before)))
     (apply_done E K P s0 l0) (\<lambda>_. apply_left E K P s0 l0)" (is "spec (just l0 ?G ?N) _ _ _")
proof (rule spec_weaken)
  let ?H = "\<lambda>s. ?G s \<and> identified E P s0 s"
  have H: "lasting (kept (lib_of E) (pl_id P)) ?H" by (intro lasting_conj lasting_checked lasting_identified)
  show "spec (just l0 ?H ?N)
     (bnd (or_fail (\<lambda>t. Apply (FingerprintFailed t)) (dev_fingerprint E)) (\<lambda>before.
      bnd (ensure (before = pl_fingerprint P) (Apply (DeviceDrift (pl_fingerprint P) before))) (\<lambda>_. f before)))
     (apply_done E K P s0 l0) (\<lambda>_. apply_left E K P s0 l0)"
    unfolding bnd_or_fail dev_fingerprint_def
  proof (rule keeping.talk_rpc [OF con H, where M = "\<lambda>mo. approved_for E K P s0 r mo \<and> cs_id r = pl_id P"])
    fix s assume "?H s" "?N s"
    then show "approved_for E K P s0 r (moment_of s) \<and> cs_id r = pl_id P"
      using r now by (auto intro: approved_forI simp: identified_def ids_ok_def)
  next
    fix m mo assume a: "approved_for E K P s0 r mo \<and> cs_id r = pl_id P"
    let ?l = "l0 @ [Sent CallFingerprint mo, Got (AnsFingerprint (fingerprint_at E m))]"
    have quiet: "apply_left E K P s0 l0 t" if "dialogue t = ?l" for t
      by (rule apply_left_quiet) (simp add: that only_harmless_def)
    show "spec (at ?l ?H) (case fingerprint_at E m of Inl e \<Rightarrow> fail (Apply (FingerprintFailed e))
        | Inr before \<Rightarrow> bnd (ensure (before = pl_fingerprint P) (Apply (DeviceDrift (pl_fingerprint P) before))) (\<lambda>_. f before))
       (apply_done E K P s0 l0) (\<lambda>_. apply_left E K P s0 l0)"
    proof (cases "fingerprint_at E m")
      case (Inl e)
      then show ?thesis using quiet by (auto simp: at_def intro!: spec_fail)
    next
      case (Inr fp)
      show ?thesis
        unfolding Inr sum.case
      proof (rule talk_ensure)
        assume fp: "fp = pl_fingerprint P"
        show "spec (at (l0 @ [Sent CallFingerprint mo, Got (AnsFingerprint (Inr fp))]) ?H) (f fp)
            (apply_done E K P s0 l0) (\<lambda>_. apply_left E K P s0 l0)"
          unfolding fp by (rule talk_weaken [OF body]) (use a in auto)
      qed (use quiet Inr in \<open>simp add: at_def\<close>)
    qed
  qed
next
  fix s assume "just l0 ?G ?N s"
  then show "just l0 (\<lambda>s. ?G s \<and> identified E P s0 s) ?N s"
    using r by (auto simp: just_def checked_def intro: identifiedI)
qed

lemma apply_guarded_spec:
  assumes con: "considerate E P"
  shows "spec (at l0 (checked E K P s0 r')) (apply_guarded E K (pl_id P) (pl_device P) endpoint (pl_owner P) (pl_digest P)
      (pl_fingerprint P) discriminator target authority)
    (apply_done E K P s0 l0) (\<lambda>_. apply_left E K P s0 l0)"
proof -
  note G = lasting_checked
  have quiet: "apply_left E K P s0 l0 t" if "dialogue t = l0" for t
    by (rule apply_left_quiet) (simp add: that only_harmless_refl)
  show ?thesis
    unfolding apply_guarded_def
    by (intro keeping.talk_not_cancelled [OF G] keeping.talk_read [OF con G] keeping.talk_now [OF G]
        spec_ensure_bnd spec_lift_bnd spec_if talk_forget [OF spec_at_left [OF expire_and_refuse_spec [OF con G] quiet]]
        fingerprint_then_reserve [OF con] reserve_spec [OF con])
      (use quiet in \<open>auto simp: at_def just_def waiver_expiry_error_def require_def split: if_splits\<close>)
qed

text \<open>The first read of the call, from its initial state.\<close>

lemma talk_first_read:
  assumes "abides (kept (lib_of E) cid) E" "lasting (kept (lib_of E) cid) G"
    and "\<And>r. cs_device r = d \<Longrightarrow> spec (just l G (\<lambda>t. bt_get (mem_css t) cid = Some r \<and>
      bt_get (mem_css (first_read E s0)) cid = Some r)) (f r) Q X"
    and "\<And>e t. at l G t \<Longrightarrow> X (Coordinator e) t"
  shows "spec (\<lambda>s. s = s0 \<and> at l G s) (bnd (await E (change_set cid d)) f) Q X"
proof -
  have r: "t = s \<and> bt_get (mem_css s) cid = Some r \<and> cs_device r = d" if "change_set cid d s = (Inr r, t)" for s r t
    using that by (auto simp: change_set_def bnd_lift bnd_gets bnd_ensure act_apply split: sum.splits option.splits if_splits)
  have e: "t = s \<and> (\<exists>e'. e = Coordinator e')" if "change_set cid d s = (Inl e, t)" for s e t
    using that by (auto simp: change_set_def bnd_lift bnd_gets bnd_ensure act_apply valid_id_def
        split: sum.splits option.splits if_splits)
  have u: "at l G (first_read E s0)" if "at l G s0"
    using that keeping.yield_R [OF assms(1), of s0] assms(2) yield_dialogue [of E s0]
    by (auto simp: at_def lasting_def first_read_def)
  have a: "bnd (await E (change_set cid d)) f s0 = bnd (change_set cid d) f (first_read E s0)"
    by (simp add: await_def bnd_assoc [symmetric] bnd_def [of "yield E"] first_read_def yield_def)
  show ?thesis
  proof (rule specI)
    fix s x t assume s: "s = s0 \<and> at l G s" "bnd (await E (change_set cid d)) f s = (Inr x, t)"
    then have b: "bnd (change_set cid d) f (first_read E s0) = (Inr x, t)" by (simp add: a)
    then obtain q v where q: "change_set cid d (first_read E s0) = (Inr q, v)" "f q v = (Inr x, t)"
      by (auto simp: bnd_def split: prod.splits sum.splits)
    show "Q x t" by (rule spec_InrD [OF assms(3) [of q] _ q(2)]) (use r [OF q(1)] u s in \<open>auto simp: just_def at_def\<close>)
  next
    fix s x t assume s: "s = s0 \<and> at l G s" "bnd (await E (change_set cid d)) f s = (Inl x, t)"
    then have b: "bnd (change_set cid d) f (first_read E s0) = (Inl x, t)" by (simp add: a)
    then consider "change_set cid d (first_read E s0) = (Inl x, t)"
      | q v where "change_set cid d (first_read E s0) = (Inr q, v)" "f q v = (Inl x, t)"
      by (auto simp: bnd_def split: prod.splits sum.splits)
    then show "X x t"
    proof cases
      case 1
      then show ?thesis using e [OF 1] u s assms(4) by auto
    next
      case (2 q v)
      show ?thesis by (rule spec_InlD [OF assms(3) [of q] _ 2(2)]) (use r [OF 2(1)] u s in \<open>auto simp: just_def at_def\<close>)
    qed
  qed
qed

lemma apply_change_set_spec:
  assumes con: "considerate E P"
  shows "spec (\<lambda>s. s = s0 \<and> at l0 (based E P s0) s) (apply_change_set E K (pl_id P) (pl_device P) endpoint (pl_owner P) (pl_digest P)
      (pl_fingerprint P) discriminator target authority)
    (apply_done E K P s0 l0) (\<lambda>_. apply_left E K P s0 l0)"
proof -
  note G = lasting_based
  have quiet: "apply_left E K P s0 l0 t" if "dialogue t = l0" for t
    by (rule apply_left_quiet) (simp add: that only_harmless_refl)
  have guard: "spec (just l0 (based E P s0) (\<lambda>t. bt_get (mem_css t) (pl_id P) = Some r \<and>
        bt_get (mem_css (first_read E s0)) (pl_id P) = Some r))
      (with_guard E (pl_device P) (apply_guarded E K (pl_id P) (pl_device P) canonical (pl_owner P) (pl_digest P)
        (pl_fingerprint P) discriminator target authority))
      (apply_done E K P s0 l0) (\<lambda>_. apply_left E K P s0 l0)"
    if "check_recorded_approval K r = Inr ()" for r canonical
  proof (rule spec_weaken [where P = "at l0 (checked E K P s0 r)"])
    show "spec (at l0 (checked E K P s0 r)) (with_guard E (pl_device P) (apply_guarded E K (pl_id P) (pl_device P)
        canonical (pl_owner P) (pl_digest P) (pl_fingerprint P) discriminator target authority))
      (apply_done E K P s0 l0) (\<lambda>_. apply_left E K P s0 l0)"
      by (rule keeping.talk_guard [OF con lasting_checked apply_guarded_spec [OF con]])
        (use quiet in \<open>auto simp: at_def apply_done_def written_def\<close>)
  qed (use that in \<open>auto simp: just_def at_def intro: checkedI\<close>)
  show ?thesis
    unfolding apply_change_set_def
    by (intro talk_first_read [OF con G] spec_ensure_bnd spec_lift_bnd keeping.talk_now [OF G] spec_if
        talk_forget [OF spec_at_left [OF expire_and_refuse_spec [OF con G] quiet]] guard)
      (use quiet in \<open>auto simp: at_def just_def\<close>)
qed

end
