(* ===== verification/Apply_Outcome.thy ===== *)
theory Apply_Outcome
  imports Apply_Facts
begin

text \<open>
  What the recorded state in the answer of \<open>apply_change_set\<close> says about the store. When other tasks
  leave the change set alone, the answer \<open>Applying\<close> is given only if the store still holds it as
  applying: the last write, to \<open>Applied\<close>, was refused and undone.
\<close>

section \<open>The change set is left alone\<close>

definition untouched :: "string \<Rightarrow> sys \<Rightarrow> sys \<Rightarrow> bool" where
  "untouched cid s t \<longleftrightarrow> bt_get (mem_css t) cid = bt_get (mem_css s) cid"

definition holds_as :: "string \<Rightarrow> change_set_record \<Rightarrow> sys \<Rightarrow> bool" where
  "holds_as cid c s \<longleftrightarrow> bt_get (mem_css s) cid = Some (normalise c)"

text \<open>The write of the change set as applied was refused and left the store and the file as they are.\<close>

definition applied_refused :: "'z env_scheme \<Rightarrow> coordinator \<Rightarrow> change_set_record \<Rightarrow> sys \<Rightarrow> bool" where
  "applied_refused E K c t \<longleftrightarrow>
     (\<exists>e u v. update_change_set E K (c\<lparr>cs_state := Applied\<rparr>) u = (Inl e, v) \<and> mem v = mem t \<and> disk v = disk t)"

definition told :: "'z env_scheme \<Rightarrow> coordinator \<Rightarrow> string \<Rightarrow> apply_output \<Rightarrow> sys \<Rightarrow> bool" where
  "told E K cid out t \<longleftrightarrow> (ao_recorded_state out = Applying \<longrightarrow>
     (\<exists>c. cs_state c = Applying \<and> cs_operation_id c = Some (ao_operation_id out) \<and> holds_as cid c t \<and> applied_refused E K c t))"

abbreviation whatever :: "'e \<Rightarrow> sys \<Rightarrow> bool" where
  "whatever \<equiv> \<lambda>_ _. True"

text \<open>Facts about the change sets only, through actions that do not write them.\<close>

definition of_css :: "(sys \<Rightarrow> bool) \<Rightarrow> bool" where
  "of_css G \<longleftrightarrow> (\<forall>s t. mem_css t = mem_css s \<longrightarrow> G s \<longrightarrow> G t)"

lemma of_css_facts: "of_css (holds_as cid c)" "of_css (\<lambda>s. ids_ok (mem_css s))"
  by (auto simp: of_css_def holds_as_def)

lemma store_or_undo_css:
  "store_or_undo E K st undo s = (x, t) \<Longrightarrow> st_change_sets st = mem_css s \<Longrightarrow> st_change_sets undo = mem_css s \<Longrightarrow>
     mem_css t = mem_css s"
  using store_or_undo_cases by fastforce

lemma css_steps:
  "update_op E K r s = (x, t) \<Longrightarrow> mem_css t = mem_css s"
  "insert_op E K r s = (x, t) \<Longrightarrow> mem_css t = mem_css s"
proof -
  show "mem_css t = mem_css s" if "update_op E K r s = (x, t)"
    using that unfolding update_op_def Let_def bnd_gets by (rule store_or_undo_css) simp_all
  show "mem_css t = mem_css s" if "insert_op E K r s = (x, t)"
  proof -
    let ?ops = "evict_terminal K (st_operations (mem s))"
    let ?st = "(mem s)\<lparr>st_operations := bt_insert (op_id r) r ?ops\<rparr>"
    let ?undo = "(mem s)\<lparr>st_operations := bt_remove (op_id r) (st_operations ?st)\<rparr>"
    let ?s = "s\<lparr>mem := (mem s)\<lparr>st_operations := ?ops\<rparr>\<rparr>"
    have "t = ?s \<or> store_or_undo E K ?st ?undo ?s = (x, t)"
      using that unfolding insert_op_def Let_def bnd_gets put_mem_def bnd_modify bnd_ensure
      by (simp add: act_apply split: if_splits)
    then show ?thesis using store_or_undo_css [of E K ?st ?undo ?s x t] by auto
  qed
qed

lemma keeps_css: "of_css G \<Longrightarrow> (\<And>s x t. m s = (x, t) \<Longrightarrow> mem_css t = mem_css s) \<Longrightarrow> keeps G m"
  by (rule keepsI) (metis of_css_def prod.collapse)

lemma keeps_quiet:
  assumes "of_css G"
  shows "keeps G (ask f)" "keeps G (log_event h)" "keeps G (update_op E K r)" "keeps G (insert_op E K r)"
    "keeps G (modify (\<lambda>s. s\<lparr>held := g s\<rparr>))"
  using assms by (auto intro!: keeps_css simp: ask_def log_event_def act_defs dest: css_steps)

text \<open>Waiting, while the other tasks keep the fact.\<close>

definition respected :: "(sys \<Rightarrow> bool) \<Rightarrow> 'z env_scheme \<Rightarrow> bool" where
  "respected G E \<longleftrightarrow> of_css G \<and> (\<forall>n s. G s \<longrightarrow> G (others_at E n s))"

lemma keeps_await: "respected G E \<Longrightarrow> keeps G m \<Longrightarrow> keeps G (await E m)"
  unfolding await_def
  by (intro keeps_bnd) (auto intro!: keepsI simp: yield_def respected_def of_css_def)

lemma keeps_reads:
  assumes "of_css G"
  shows "keeps G (record_op oid ow d)" "keeps G (change_set cid d)" "keeps G (now_unix E)" "keeps G (new_operation_id E)"
    "keeps G (not_cancelled E)"
  unfolding record_op_def change_set_def now_unix_def new_operation_id_def not_cancelled_def is_cancelled_def
  by (intro keeps_rules keeps_quiet [OF assms])+

lemma keeps_rpc: "respected G E \<Longrightarrow> keeps G (device_rpc E c a v)"
  unfolding device_rpc_def by (intro keeps_rules keeps_await keeps_quiet) (auto simp: respected_def)

lemma respected_of_css: "respected G E \<Longrightarrow> of_css G"
  by (simp add: respected_def)

lemma respected_holds: "abides (untouched cid) E \<Longrightarrow> respected (holds_as cid c) E"
  by (auto simp: respected_def of_css_facts abides_def untouched_def holds_as_def)

lemma respected_ids: "considerate E P \<Longrightarrow> respected (\<lambda>s. ids_ok (mem_css s)) E"
  using lasting_ids [of "lib_of E" "pl_id P"] by (auto simp: respected_def of_css_facts abides_def lasting_def)



section \<open>From the last write backwards\<close>

lemma any_fail: "spec P (fail e) Q whatever"
  by (rule spec_fail) simp

lemma any_bnd: "(\<And>x. spec (\<lambda>_. True) (f x) Q whatever) \<Longrightarrow> spec P (bnd m f) Q whatever"
  by (rule spec_bnd [where M = "\<lambda>_ _. True"]) (auto simp: spec_def split: prod.splits sum.splits)

lemma any_attempt: "(\<And>x. spec (\<lambda>_. True) (k x) Q whatever) \<Longrightarrow> spec P (attempt m k) Q whatever"
  by (rule spec_attempt [where M = "\<lambda>_ _. True" and H = whatever]) (auto simp: spec_def split: prod.splits sum.splits)

text \<open>The ways out that give up return no answer at all.\<close>

lemma giving_up:
  "spec P (abandon E K oid c e) Q whatever" "spec P (unlock_and_abandon E K locked oid c e) Q whatever"
  "spec P (drop_reservation E K oid e) Q whatever" "spec P (settle_unreadable E K oid ow d c t) Q whatever"
  "spec P (stage_refused E K oid c t) Q whatever" "spec P (expire_and_refuse E K r e) Q whatever"
  unfolding abandon_def unlock_and_abandon_def drop_reservation_def settle_unreadable_def stage_refused_def
    expire_and_refuse_def
  by (intro any_attempt any_bnd any_fail)+

lemma update_refused:
  "update_change_set E K c s = (Inl e, t) \<Longrightarrow> bt_get (mem_css t) k = bt_get (mem_css s) k"
proof -
  assume u: "update_change_set E K c s = (Inl e, t)"
  let ?css = "bt_insert (cs_id c) (normalise c) (mem_css s)"
  let ?undo = "(mem s)\<lparr>st_change_sets := (case bt_get (mem_css s) (cs_id c) of
      Some previous \<Rightarrow> bt_insert (cs_id c) previous ?css | None \<Rightarrow> bt_remove (cs_id c) ?css)\<rparr>"
  have "t = s \<or> store_or_undo E K ((mem s)\<lparr>st_change_sets := ?css\<rparr>) ?undo s = (Inl e, t)"
    using u unfolding update_change_set_def write_change_set_def Let_def bnd_gets bnd_lift
    by (auto split: sum.splits cong: option.case_cong)
  then show ?thesis
    by (auto dest!: store_or_undo_cases simp: bt_get_insert bt_get_remove split: option.splits)
qed

lemma last_write_told:
  assumes "abides (untouched cid) E"
  shows "spec (holds_as cid c) (catch (await E (update_change_set E K (c\<lparr>cs_state := Applied\<rparr>))) (\<lambda>_. ret Applying) (\<lambda>_. ret Applied))
    (\<lambda>st t. st = Applying \<longrightarrow> holds_as cid c t \<and> applied_refused E K c t) whatever"
proof -
  have y: "holds_as cid c (snd (yield E s))" if "holds_as cid c s" for s
    using that respected_holds [OF assms, of c] by (auto simp: yield_def respected_def of_css_def)
  have w: "spec (holds_as cid c) (await E (update_change_set E K (c\<lparr>cs_state := Applied\<rparr>))) (\<lambda>_ _. True)
      (\<lambda>_ t. holds_as cid c t \<and> applied_refused E K c t)"
  proof (rule specI)
    fix s e t assume s: "holds_as cid c s" "await E (update_change_set E K (c\<lparr>cs_state := Applied\<rparr>)) s = (Inl e, t)"
    then have u: "update_change_set E K (c\<lparr>cs_state := Applied\<rparr>) (snd (yield E s)) = (Inl e, t)" by (simp add: await_def bnd_def yield_def)
    from update_refused [OF this, of cid] have "holds_as cid c t" using y [OF s(1)] by (simp add: holds_as_def)
    then show "holds_as cid c t \<and> applied_refused E K c t" using u by (auto simp: applied_refused_def)
  qed simp
  show ?thesis by (rule spec_catch [OF w]) (auto intro!: spec_ret)
qed

lemma settle_applied_told:
  assumes "abides (untouched cid) E" and c: "cs_state c = Applying" "cs_operation_id c = Some oid"
  shows "spec (holds_as cid c) (settle_applied E K k oid ow d fp n c staged) (told E K cid) whatever"
proof -
  note R = respected_holds [OF assms(1), of c]
  note C = respected_of_css [OF R]
  have fin: "spec (holds_as cid c) (bnd (catch (await E (update_change_set E K (c\<lparr>cs_state := Applied\<rparr>))) (\<lambda>_. ret Applying) (\<lambda>_. ret Applied))
      (\<lambda>recorded. ret \<lparr>ao_operation_id = oid, ao_before_fingerprint = fp, ao_after_fingerprint = after,
        ao_staged = staged, ao_recorded_state = recorded\<rparr>)) (told E K cid) whatever" for after
    by (rule spec_bnd [OF last_write_told [OF assms(1)]]) (use c in \<open>auto intro!: spec_ret simp: told_def\<close>)
  have staged: "keeps (holds_as cid c) (record_staged E K k after n o1)" for after o1
    unfolding record_staged_def Let_def by (intro keeps_rules keeps_await [OF R] keeps_quiet [OF C])
  show ?thesis
    unfolding settle_applied_def dev_fingerprint_def
  proof (rule spec_keeps_bnd [OF keeps_rpc [OF R]])
    fix answer
    show "spec (holds_as cid c) (case answer of Inl e \<Rightarrow> settle_unreadable E K oid ow d c e
       | Inr after \<Rightarrow> bnd (await E (record_op oid ow d)) (\<lambda>o1. bnd (record_staged E K k after n o1) (\<lambda>_.
         bnd (catch (await E (update_change_set E K (c\<lparr>cs_state := Applied\<rparr>))) (\<lambda>_. ret Applying) (\<lambda>_. ret Applied))
           (\<lambda>recorded. ret \<lparr>ao_operation_id = oid, ao_before_fingerprint = fp, ao_after_fingerprint = after,
             ao_staged = staged, ao_recorded_state = recorded\<rparr>)))) (told E K cid) whatever"
      by (cases answer) (auto intro!: giving_up spec_keeps_bnd [OF keeps_await [OF R keeps_reads(1) [OF C]]]
          spec_keeps_bnd [OF staged] fin)
  qed simp
qed

lemma lock_claimed_told:
  assumes "abides (untouched cid) E" and c: "cs_state c = Applying" "cs_operation_id c = Some oid"
  shows "spec (holds_as cid c) (lock_claimed E K k oid ow d expected before acts c) (told E K cid) whatever"
proof -
  note R = respected_holds [OF assms(1), of c]
  note C = respected_of_css [OF R]
  have stage: "spec (holds_as cid c) (stage_claimed E K k oid ow d expected before acts locked c) (told E K cid) whatever" for locked
    unfolding stage_claimed_def dev_fingerprint_def dev_stage_def
    by (rule spec_keeps_bnd [OF keeps_rpc [OF R]])
      (auto intro!: giving_up spec_keeps_bnd [OF keeps_rpc [OF R]] settle_applied_told [OF assms] split: sum.split)
  have go: "spec (holds_as cid c) (if requires_config_lock E
      then bnd (dev_lock E (''mecmcp change set '' @ k)) (\<lambda>answer. case answer of
          Inl e \<Rightarrow> abandon E K oid c (Apply (ConfigLockFailed e))
        | Inr _ \<Rightarrow> stage_claimed E K k oid ow d expected before acts True c)
      else stage_claimed E K k oid ow d expected before acts False c) (told E K cid) whatever"
    unfolding dev_lock_def
    by (auto intro!: spec_if stage giving_up spec_keeps_bnd [OF keeps_rpc [OF R]] split: sum.split)
  show ?thesis
    unfolding lock_claimed_def
    by (rule spec_keeps_bnd [OF keeps_await [OF R keeps_reads(1) [OF C]]],
        rule spec_catch [OF spec_keeps [OF keeps_await [OF R keeps_quiet(3) [OF C]]] giving_up(1) go]) simp
qed


section \<open>From the call to the claim\<close>

abbreviation keyed_css :: "sys \<Rightarrow> bool" where
  "keyed_css \<equiv> \<lambda>s. ids_ok (mem_css s)"

lemma claim_and_stage_told:
  assumes alone: "abides (untouched (pl_id P)) E" and con: "considerate E P" and r: "cs_id r = pl_id P"
  shows "spec keyed_css (claim_and_stage E K k oid ow d expected before r) (told E K (pl_id P)) whatever"
proof -
  have claim: "spec keyed_css (await E (claim_change_set_for_apply E K (pl_id P) (cs_device r) HandleExpected))
      (\<lambda>c _. cs_id c = pl_id P \<and> cs_state c = Applying) whatever"
  proof (rule specI)
    fix s c t assume s: "keyed_css s" "await E (claim_change_set_for_apply E K (pl_id P) (cs_device r) HandleExpected) s = (Inr c, t)"
    let ?u = "snd (yield E s)"
    have "keyed_css ?u" using s(1) respected_ids [OF con] by (simp add: yield_def respected_def)
    moreover have c: "claim_change_set_for_apply E K (pl_id P) (cs_device r) HandleExpected ?u = (Inr c, t)"
      using s(2) by (simp add: await_def bnd_def yield_def)
    ultimately show "cs_id c = pl_id P \<and> cs_state c = Applying"
      by (auto elim!: claim_success simp: ids_ok_def)
  qed simp
  have link: "spec (\<lambda>_. True) (await E (update_change_set E K c)) (\<lambda>_. holds_as (pl_id P) c) whatever"
    if "cs_id c = pl_id P" for c
  proof (rule specI)
    fix s u t assume "await E (update_change_set E K c) s = (Inr u, t)"
    then have "update_change_set E K c (snd (yield E s)) = (Inr u, t)" by (simp add: await_def bnd_def yield_def)
    from update_change_set_InrD(1) [OF this] show "holds_as (pl_id P) c t" using that by (simp add: holds_as_def)
  qed simp
  show ?thesis
    unfolding claim_and_stage_def r Let_def
  proof (rule spec_catch [OF claim giving_up(3)])
    fix c
    show "spec (\<lambda>_. cs_id c = pl_id P \<and> cs_state c = Applying) (catch (await E (update_change_set E K (c\<lparr>cs_operation_id := Some oid\<rparr>)))
        (drop_reservation E K oid) (\<lambda>_. lock_claimed E K k oid ow d expected before (cs_actions r) (c\<lparr>cs_operation_id := Some oid\<rparr>)))
      (told E K (pl_id P)) whatever"
    proof (cases "cs_id c = pl_id P \<and> cs_state c = Applying")
      case True
      show ?thesis
        by (rule spec_weaken [OF spec_catch [OF link giving_up(3) lock_claimed_told [OF alone]]]) (use True in simp_all)
    qed (auto simp: spec_def)
  qed
qed

lemma read_keyed:
  assumes "considerate E P"
  shows "spec keyed_css (await E (change_set cid d)) (\<lambda>r s. keyed_css s \<and> cs_id r = cid) whatever"
proof (rule specI)
  fix s r t assume s: "keyed_css s" "await E (change_set cid d) s = (Inr r, t)"
  let ?u = "snd (yield E s)"
  have "keyed_css ?u" using s(1) respected_ids [OF assms] by (simp add: yield_def respected_def)
  moreover have "change_set cid d ?u = (Inr r, t)" using s(2) by (simp add: await_def bnd_def yield_def)
  ultimately show "keyed_css t \<and> cs_id r = cid"
    by (auto simp: change_set_def bnd_lift bnd_gets bnd_ensure act_apply ids_ok_def split: sum.splits option.splits if_splits)
qed simp

lemma apply_guarded_told:
  assumes alone: "abides (untouched (pl_id P)) E" and con: "considerate E P"
  shows "spec keyed_css (apply_guarded E K (pl_id P) d endpoint ow dg expected disc target auth) (told E K (pl_id P)) whatever"
proof -
  note R = respected_ids [OF con]
  note C = respected_of_css [OF R]
  have go: "spec (\<lambda>s. keyed_css s \<and> cs_id r = pl_id P) (bnd (now_unix E) (\<lambda>now.
     bnd (ensure (cs_owner r = ow \<and> cs_state r = Approved \<and> cs_digest r = dg \<and>
                  cs_expected_candidate_fingerprint r = expected) (Apply NoLongerApproved)) (\<lambda>_.
     bnd (lift (waiver_expiry_error r now ''after acquiring device guard'')) (\<lambda>_.
     if cs_expires_at_unix r \<le> now then expire_and_refuse E K r (Apply ExpiredWaiting)
     else
     bnd (or_fail (\<lambda>t. Apply (FingerprintFailed t)) (dev_fingerprint E)) (\<lambda>before.
     bnd (ensure (before = expected) (Apply (DeviceDrift expected before))) (\<lambda>_.
     bnd (ensure (cs_policy_signature r \<noteq> []) (Apply NoPolicySignature)) (\<lambda>_.
     bnd (case undecodable E (cs_actions r) of
            None \<Rightarrow> ret () | Some i \<Rightarrow> fail (Apply (ActionUndecodable i))) (\<lambda>_.
     bnd (new_operation_id E) (\<lambda>oid.
     bnd (await E (insert_op E K (apply_operation_record oid (pl_id P) ow d endpoint disc
            target auth before r))) (\<lambda>_.
     claim_and_stage E K (pl_id P) oid ow d expected before r)))))))))) (told E K (pl_id P)) whatever" for r
  proof (cases "cs_id r = pl_id P")
    case True
    have f: "keeps keyed_css (or_fail h (dev_fingerprint E))" for h
      unfolding or_fail_def dev_fingerprint_def by (intro keeps_rules keeps_rpc [OF R])
    show ?thesis
      by (rule spec_weaken [where P = keyed_css])
        (use True in \<open>auto intro!: spec_keeps_bnd [OF keeps_reads(3) [OF C]] spec_keeps_bnd [OF keeps_ensure] spec_keeps_bnd [OF keeps_lift]
          spec_if giving_up spec_keeps_bnd [OF f] spec_keeps_bnd [OF keeps_reads(4) [OF C]]
          spec_keeps_bnd [OF keeps_await [OF R keeps_quiet(4) [OF C]]] claim_and_stage_told [OF alone con]
          spec_keeps_bnd [OF keeps_case_option] keeps_ret keeps_fail\<close>)
  qed (simp add: spec_def)
  show ?thesis
    unfolding apply_guarded_def
    by (rule spec_keeps_bnd [OF keeps_reads(5) [OF C]], rule spec_bnd [OF read_keyed [OF con] go]) simp
qed

lemma apply_change_set_told:
  assumes alone: "abides (untouched (pl_id P)) E" and con: "considerate E P"
  shows "spec keyed_css (apply_change_set E K (pl_id P) d endpoint ow dg expected disc target auth) (told E K (pl_id P)) whatever"
proof -
  note R = respected_ids [OF con]
  note C = respected_of_css [OF R]
  have y: "keeps keyed_css (yield E)"
    using respected_ids [OF con] by (auto intro!: keepsI simp: yield_def respected_def)
  have g: "keeps keyed_css (device_guard E d)"
    unfolding device_guard_def by (intro keeps_rules y keeps_quiet [OF C])
  have body: "spec keyed_css (\<lambda>s. case apply_guarded E K (pl_id P) d canonical ow dg expected disc target auth s of
      (r, t) \<Rightarrow> (r, release_guard d t)) (told E K (pl_id P)) whatever" for canonical
    using apply_guarded_told [OF alone con, of K d canonical ow dg expected disc target auth]
    by (fastforce simp: spec_def release_guard_def told_def holds_as_def applied_refused_def split: prod.splits sum.splits)
  have guard: "spec keyed_css (with_guard E d (apply_guarded E K (pl_id P) d canonical ow dg expected disc target auth))
      (told E K (pl_id P)) whatever" for canonical
    unfolding with_guard_def by (rule spec_keeps_bnd [OF g body]) simp
  show ?thesis
    unfolding apply_change_set_def
    by (intro spec_keeps_bnd [OF keeps_lift] spec_keeps_bnd [OF keeps_ensure] spec_keeps_bnd [OF keeps_reads(3) [OF C]]
        spec_keeps_bnd [OF keeps_await [OF R keeps_reads(2) [OF C]]] spec_if giving_up guard) simp_all
qed

end
