(* ===== verification/Apply_Properties.thy ===== *)
theory Apply_Properties
  imports Sample_Runs Apply_Outcome
begin

text \<open>The properties of applying a change set, over every interleaving with considerate tasks.\<close>

lemma based_start: "ops_keyed s \<Longrightarrow> ids_ok (mem_css s) \<Longrightarrow> at (dialogue s) (based E P s) s"
  using keeping.R_frame [of s s] by (simp add: at_def based_def same_store_def)

lemma apply_done_in:
  assumes "considerate E P" "ops_keyed s" "ids_ok (mem_css s)"
    and "apply_change_set E K (pl_id P) (pl_device P) endpoint (pl_owner P) (pl_digest P) (pl_fingerprint P)
      discriminator target authority s = (Inr out, t)"
  shows "apply_done E K P s (dialogue s) out t"
  by (rule spec_InrD [OF apply_change_set_spec [OF assms(1)] _ assms(4)]) (use based_start assms(2,3) in blast)

lemma apply_left_in:
  assumes "considerate E P" "ops_keyed s" "ids_ok (mem_css s)"
    and "apply_change_set E K (pl_id P) (pl_device P) endpoint (pl_owner P) (pl_digest P) (pl_fingerprint P)
      discriminator target authority s = (x, t)"
  shows "apply_left E K P s (dialogue s) t"
proof (cases x)
  case (Inl e)
  show ?thesis
    by (rule spec_InlD [OF apply_change_set_spec [OF assms(1)] _ assms(4) [unfolded Inl]]) (use based_start assms(2,3) in blast)
next
  case (Inr out)
  from apply_done_in [OF assms(1-3) assms(4) [unfolded Inr]]
  show ?thesis by (auto simp: apply_done_def intro: apply_left_read)
qed

lemma not_harmless:
  "x \<in> set d \<Longrightarrow> x \<notin> set l0 \<Longrightarrow> \<not> harmless x \<Longrightarrow> \<not> only_harmless l0 d"
  by (auto simp: only_harmless_def list_all_iff)

lemma apply_left_staged:
  assumes "apply_left E K P s l0 t" "\<not> only_harmless l0 (dialogue t)"
  obtains oid r ans l post where "stage_sent E K P s oid r ans l0 l" "dialogue t = l @ post"
    "case ans of Inl _ \<Rightarrow> post = [] \<and> bt_get (st_operations (mem t)) oid = None
       | Inr _ \<Rightarrow> \<exists>mo fp. post = [Sent CallFingerprint mo, Got (AnsFingerprint fp)]"
  using assms unfolding apply_left_def by blast

lemma stage_sent_first:
  assumes "stage_sent E K P s oid r ans l0 l"
  obtains mo rest where "l = l0 @ Sent CallFingerprint mo # rest" "approved_for E K P s r mo"
  using assms unfolding stage_sent_def by (metis append_Cons)

lemma second_person:
  "check_recorded_approval K r = Inr () \<Longrightarrow> \<not> lab_mode K \<Longrightarrow> \<exists>b. b \<noteq> cs_owner r \<and>
     (case cs_approval r of None \<Rightarrow> cs_approver r = Some b | Some a \<Rightarrow> ap_approver a = Some b \<and> ap_waived a = None)"
  by (auto simp: check_recorded_approval_def res_iffs split: option.splits)


section \<open>What may be staged\<close>

text \<open>
  C2. Only an approved plan is staged, and only once. Whatever \<open>apply_change_set\<close> returns and
  whatever the other tasks do, short of inserting the same identifier again, it never sends a
  commit or a rollback, and it sends at most one stage call. A stage call carries the actions of
  the change set that, at the first fingerprint read, was stored as approved, unexpired and with
  the owner, device, digest and fingerprint the caller named; the record the call had read first
  passed the check of its approval, and an approval by a person was still on it. The device reported that fingerprint twice, the second time directly before the stage call, the
  lock that the device requires was taken in between while the record on file said so, and at the
  moment of the stage call nothing stored under the identifier was still approved.
\<close>

theorem apply_stages_only_approved:
  assumes "considerate E P" "ops_keyed s" "ids_ok (mem_css s)"
    and "apply_change_set E K (pl_id P) (pl_device P) endpoint (pl_owner P) (pl_digest P) (pl_fingerprint P)
      discriminator target authority s = (x, t)"
  shows "only_harmless (dialogue s) (dialogue t) \<or>
    (\<exists>oid r ans l post. stage_sent E K P s oid r ans (dialogue s) l \<and> dialogue t = l @ post \<and>
      (case ans of Inl _ \<Rightarrow> post = []
       | Inr _ \<Rightarrow> \<exists>mo fp. post = [Sent CallFingerprint mo, Got (AnsFingerprint fp)]))"
proof (cases "only_harmless (dialogue s) (dialogue t)")
  case False
  then obtain oid r ans l post where st: "stage_sent E K P s oid r ans (dialogue s) l" "dialogue t = l @ post"
      and ans: "case ans of Inl _ \<Rightarrow> post = [] \<and> bt_get (st_operations (mem t)) oid = None
        | Inr _ \<Rightarrow> \<exists>mo fp. post = [Sent CallFingerprint mo, Got (AnsFingerprint fp)]"
    by (rule apply_left_staged [OF apply_left_in [OF assms]])
  from ans have "case ans of Inl _ \<Rightarrow> post = []
      | Inr _ \<Rightarrow> \<exists>mo fp. post = [Sent CallFingerprint mo, Got (AnsFingerprint fp)]" by (simp split: sum.splits)
  then show ?thesis using st by blast
qed simp

abbreviation sample_plan :: plan where
  "sample_plan \<equiv> \<lparr>pl_id = sample_id, pl_device = ''fw-01'', pl_owner = ''alice'', pl_digest = sample_plan_digest,
     pl_fingerprint = sample_fingerprint\<rparr>"

lemma calm_considerate: "calm E \<Longrightarrow> considerate E P"
  using keeping.R_frame by (auto simp: abides_def same_store_def)

lemma sample_sys_ok: "ops_keyed sample_sys" "ids_ok (mem_css sample_sys)"
  using sample_store_inv by (simp_all add: sample_sys_def sample_store_def keyed_ops_def store_inv_def)

theorem apply_stages_only_approved_witness:
  "\<exists>out t. apply_change_set sample_env sample_coordinator sample_id ''fw-01'' ''https://fw'' ''alice'' sample_plan_digest
     sample_fingerprint ''set'' None None sample_sys = (Inr out, t) \<and>
   (only_harmless (dialogue sample_sys) (dialogue t) \<or>
    (\<exists>oid r ans l post. stage_sent sample_env sample_coordinator sample_plan sample_sys oid r ans (dialogue sample_sys) l \<and>
      dialogue t = l @ post))"
proof -
  obtain out t where t: "apply_change_set sample_env sample_coordinator sample_id ''fw-01'' ''https://fw'' ''alice''
      sample_plan_digest sample_fingerprint ''set'' None None sample_sys = (Inr out, t)"
    using sample_apply by blast
  from apply_stages_only_approved [where P = sample_plan, OF calm_considerate [OF calm_sample(1)] sample_sys_ok,
      simplified, OF t] t
  show ?thesis by blast
qed

text \<open>
  C5. A second person or lab mode. Outside lab mode, a stage call is sent only if the change set, in
  the state in which the call read it first, was approved by a principal other than its owner and
  by no waiver: a waiver, of any kind, does not lead to a stage call. An approval record was still
  on the change set, unchanged, at the moment of the first device call; a change set from before
  approval records may have the approver in its top-level field instead.
\<close>

theorem staging_needs_second_person:
  assumes "considerate E P" "ops_keyed s" "ids_ok (mem_css s)" "\<not> lab_mode K"
    and "apply_change_set E K (pl_id P) (pl_device P) endpoint (pl_owner P) (pl_digest P) (pl_fingerprint P)
      discriminator target authority s = (x, t)"
    and "Sent (CallStage as) mo \<in> set (dialogue t)" "Sent (CallStage as) mo \<notin> set (dialogue s)"
  shows "\<exists>r b. bt_get (mem_css (first_read E s)) (pl_id P) = Some r \<and> b \<noteq> cs_owner r \<and>
    (case cs_approval r of
       None \<Rightarrow> cs_approver r = Some b
     | Some a \<Rightarrow> ap_approver a = Some b \<and> ap_waived a = None \<and>
         (\<exists>mo0 rest r0. dialogue t = dialogue s @ Sent CallFingerprint mo0 # rest \<and>
            bt_get (st_change_sets (mo_mem mo0)) (pl_id P) = Some r0 \<and> cs_approval r0 = Some a))"
proof -
  obtain oid r ans l post where st: "stage_sent E K P s oid r ans (dialogue s) l" "dialogue t = l @ post"
    by (rule apply_left_staged [OF apply_left_in [OF assms(1-3,5)]]) (use not_harmless [OF assms(6,7)] in simp)
  from st(1) obtain mo0 rest where l: "l = dialogue s @ Sent CallFingerprint mo0 # rest" and a: "approved_for E K P s r mo0"
    by (rule stage_sent_first)
  obtain r' where r': "bt_get (mem_css (first_read E s)) (pl_id P) = Some r'" "check_recorded_approval K r' = Inr ()"
      "\<forall>a. cs_approval r' = Some a \<longrightarrow> ap_approver a \<noteq> None \<longrightarrow> cs_approval r = Some a"
    and r: "bt_get (st_change_sets (mo_mem mo0)) (pl_id P) = Some r"
    using a unfolding approved_for_def by blast
  obtain b where b: "b \<noteq> cs_owner r'" "case cs_approval r' of None \<Rightarrow> cs_approver r' = Some b
      | Some a \<Rightarrow> ap_approver a = Some b \<and> ap_waived a = None"
    using second_person [OF r'(2) assms(4)] by blast
  have d: "dialogue t = dialogue s @ Sent CallFingerprint mo0 # (rest @ post)" using st(2) l by simp
  have "case cs_approval r' of None \<Rightarrow> cs_approver r' = Some b
     | Some a \<Rightarrow> ap_approver a = Some b \<and> ap_waived a = None \<and>
         (\<exists>mo0 rest r0. dialogue t = dialogue s @ Sent CallFingerprint mo0 # rest \<and>
            bt_get (st_change_sets (mo_mem mo0)) (pl_id P) = Some r0 \<and> cs_approval r0 = Some a)"
  proof (cases "cs_approval r'")
    case (Some a)
    then have "cs_approval r = Some a" "ap_approver a = Some b \<and> ap_waived a = None" using b(2) r'(3) by simp_all
    then show ?thesis unfolding Some option.case using d r by blast
  qed (use b(2) in simp)
  then show ?thesis using r'(1) b(1) by blast
qed

lemma sample_apply_staged:
  assumes "apply_change_set sample_env sample_coordinator sample_id ''fw-01'' ''https://fw'' ''alice''
      sample_plan_digest sample_fingerprint ''set'' None None sample_sys = (Inr out, t)"
  shows "apply_done sample_env sample_coordinator sample_plan sample_sys [] out t"
  using apply_done_in [where P = sample_plan, OF calm_considerate [OF calm_sample(1)] sample_sys_ok, simplified, OF assms]
  by (simp add: sample_sys_def)

theorem staging_needs_second_person_witness:
  "\<exists>out t as mo. apply_change_set sample_env sample_coordinator sample_id ''fw-01'' ''https://fw'' ''alice'' sample_plan_digest
     sample_fingerprint ''set'' None None sample_sys = (Inr out, t) \<and> Sent (CallStage as) mo \<in> set (dialogue t) \<and>
   (\<exists>r b. bt_get (mem_css (first_read sample_env sample_sys)) sample_id = Some r \<and> b \<noteq> cs_owner r)"
proof -
  obtain out t where t: "apply_change_set sample_env sample_coordinator sample_id ''fw-01'' ''https://fw'' ''alice''
      sample_plan_digest sample_fingerprint ''set'' None None sample_sys = (Inr out, t)"
    using sample_apply by blast
  from sample_apply_staged [OF t] obtain as mo where a: "Sent (CallStage as) mo \<in> set (dialogue t)"
    by (force simp: apply_done_def stage_sent_def)
  have n: "Sent (CallStage as) mo \<notin> set (dialogue sample_sys)" "\<not> lab_mode sample_coordinator"
    by (simp_all add: sample_sys_def sample_coordinator_def default_coordinator_def)
  from staging_needs_second_person [where P = sample_plan, OF calm_considerate [OF calm_sample(1)] sample_sys_ok n(2),
      simplified, OF t a n(1)] t a
  show ?thesis by blast
qed


section \<open>What is returned and recorded\<close>

text \<open>
  C34. A successful apply is a staged plan. When \<open>apply_change_set\<close> succeeds, the device accepted the
  stage call and gave the handle that is returned, the fingerprint read after it is the one that
  is returned, and the fingerprint before it is the one the caller expected; the operation that is
  returned is the one that was reserved. When the result says that the change set is recorded as
  applied, the store and the file hold it as applied and linked to that operation. Otherwise the
  result says that it is still recorded as applying; then, if other tasks leave the change set
  alone, the store does hold it as applying and linked to that operation, and the write of the same
  record as applied was refused, with the store and the file as they are now.
\<close>

theorem apply_success_recorded:
  assumes "considerate E P" "ops_keyed s" "ids_ok (mem_css s)"
    and "apply_change_set E K (pl_id P) (pl_device P) endpoint (pl_owner P) (pl_digest P) (pl_fingerprint P)
      discriminator target authority s = (Inr out, t)"
  shows "ao_before_fingerprint out = pl_fingerprint P \<and>
     (\<exists>r l mo. stage_sent E K P s (ao_operation_id out) r (Inr (ao_staged out)) (dialogue s) l \<and>
        dialogue t = l @ [Sent CallFingerprint mo, Got (AnsFingerprint (Inr (ao_after_fingerprint out)))]) \<and>
     (ao_recorded_state out = Applying \<and>
      (abides (untouched (pl_id P)) E \<longrightarrow>
        (\<exists>c. cs_state c = Applying \<and> cs_operation_id c = Some (ao_operation_id out) \<and>
           holds_as (pl_id P) c t \<and> applied_refused E K c t)) \<or>
      ao_recorded_state out = Applied \<and> written E K t \<and>
      (\<exists>c. bt_get (mem_css t) (pl_id P) = Some c \<and> cs_state c = Applied \<and>
         cs_operation_id c = Some (ao_operation_id out)))"
proof -
  note apply_done_in [OF assms]
  moreover have "told E K (pl_id P) out t" if "abides (untouched (pl_id P)) E"
    by (rule spec_InrD [OF apply_change_set_told [OF that assms(1)] _ assms(4)]) (rule assms(3))
  ultimately show ?thesis by (auto simp: apply_done_def told_def)
qed

theorem apply_success_recorded_witness:
  "\<exists>out t. apply_change_set sample_env sample_coordinator sample_id ''fw-01'' ''https://fw'' ''alice'' sample_plan_digest
     sample_fingerprint ''set'' None None sample_sys = (Inr out, t) \<and> ao_before_fingerprint out = sample_fingerprint"
proof -
  obtain out t where t: "apply_change_set sample_env sample_coordinator sample_id ''fw-01'' ''https://fw'' ''alice''
      sample_plan_digest sample_fingerprint ''set'' None None sample_sys = (Inr out, t)"
    using sample_apply by blast
  from apply_success_recorded [where P = sample_plan, OF calm_considerate [OF calm_sample(1)] sample_sys_ok,
      simplified, OF t] t
  show ?thesis by blast
qed


section \<open>A lock that is not given back\<close>

definition refusing_env :: env where
  "refusing_env = sample_env\<lparr>stage_at := \<lambda>_. Inl ''refused''\<rparr>"

lemma refusing_run:
  "\<exists>e t. apply_change_set refusing_env sample_coordinator sample_id ''fw-01'' ''https://fw'' ''alice'' sample_plan_digest
      sample_fingerprint ''set'' None None sample_sys = (Inl e, t) \<and> Got (AnsStage (Inl ''refused'')) \<in> set (dialogue t) \<and>
    (\<exists>c. bt_get (mem_css t) sample_id = Some c \<and> cs_state c = Failed)"
proof -
  have "apply_canonicalize_endpoint refusing_env = apply_canonicalize_endpoint sample_env"
    by (rule ext) (simp add: refusing_env_def apply_canonicalize_endpoint_def)
  then obtain u where u: "apply_canonicalize_endpoint refusing_env ''https://fw'' = Inr u" using sample_endpoint_apply by auto
  have d: "validate_digest sample_plan_digest ''expected_digest'' = Inr ()"
    using sample_formats(3) by (simp add: validate_digest_iff)
  have c: "calm refusing_env" by (simp add: refusing_env_def)
  have e [simp]: "clock_at refusing_env n = Some 10" "rng_at refusing_env n = Some (replicate 32 (CHR ''r''))" "decodes refusing_env j"
    "requires_config_lock refusing_env" "fingerprint_at refusing_env n = Inr sample_fingerprint" "stage_at refusing_env n = Inl ''refused''"
    "lock_at refusing_env n = Inr ()" for n j
    by (simp_all add: refusing_env_def)
  show ?thesis
    by (simp add: u d c apply_change_set_def apply_guarded_def claim_and_stage_def lock_claimed_def stage_claimed_def
        stage_refused_def attempt_def tagged_error_def remove_op_def put_mem_def
        apply_operation_record_def waiver_expiry_error_def waiver_lapsed_def
        check_recorded_approval_def undecodable_def now_unix_def release_guard_def
        catch_def new_operation_id_def ask_def sample_fingerprint_valid sample_run_defs sample_approved_def sample_change_set_def
        check_change_set_write_def check_bound_approval_def preview_digest_of_def normalise_def
        normalise_apply_marker_def normalise_task_handle_def)
qed

text \<open>
  C37. When the device refuses to stage, the configuration lock that was taken for the apply is not
  released. On a device that requires the lock, an apply whose stage call was refused ends with an
  error; the device had granted the lock while the operation record said so, no unlock was sent in
  the whole call, and the operation record that remembered the lock is gone. The two failures
  before the stage call do release the lock.
\<close>

theorem refused_stage_keeps_lock:
  assumes "considerate E P" "ops_keyed s" "ids_ok (mem_css s)" "requires_config_lock E"
    and "apply_change_set E K (pl_id P) (pl_device P) endpoint (pl_owner P) (pl_digest P) (pl_fingerprint P)
      discriminator target authority s = (x, t)"
    and "Got (AnsStage (Inl e)) \<in> set (dialogue t)" "Got (AnsStage (Inl e)) \<notin> set (dialogue s)"
  shows "(\<exists>err. x = Inl err) \<and>
    (\<exists>oid txt mo pre post. dialogue t = dialogue s @ pre @ [Sent (CallLock txt) mo, Got (AnsLock (Inr ()))] @ post \<and>
       lock_on_record E K P oid mo \<and> (\<forall>mo'. Sent CallUnlock mo' \<notin> set (pre @ post)) \<and>
       bt_get (st_operations (mem t)) oid = None)"
proof -
  have x: "\<exists>err. x = Inl err"
  proof (cases x)
    case (Inr out)
    from apply_done_in [OF assms(1-3) assms(5) [unfolded Inr]]
    show ?thesis using assms(4,6,7) by (auto simp: apply_done_def stage_sent_def locked_by_def)
  qed simp
  obtain oid r ans l post where st: "stage_sent E K P s oid r ans (dialogue s) l" "dialogue t = l @ post"
      and ans: "case ans of Inl _ \<Rightarrow> post = [] \<and> bt_get (st_operations (mem t)) oid = None
        | Inr _ \<Rightarrow> \<exists>mo fp. post = [Sent CallFingerprint mo, Got (AnsFingerprint fp)]"
    by (rule apply_left_staged [OF apply_left_in [OF assms(1-3,5)]]) (use not_harmless [OF assms(6,7)] in simp)
  obtain mo0 mo1 mo2 msg mo where l: "l = dialogue s @ [Sent CallFingerprint mo0, Got (AnsFingerprint (Inr (pl_fingerprint P)))] @
        [Sent (CallLock msg) mo, Got (AnsLock (Inr ()))] @ [Sent CallFingerprint mo1, Got (AnsFingerprint (Inr (pl_fingerprint P))),
         Sent (CallStage (cs_actions r)) mo2, Got (AnsStage ans)]" and lock: "lock_on_record E K P oid mo"
    using st(1) assms(4) by (auto simp: stage_sent_def locked_by_def)
  show ?thesis
  proof (cases ans)
    case (Inl e')
    then have "post = []" "bt_get (st_operations (mem t)) oid = None" using ans by simp_all
    then show ?thesis using x st(2) l lock
      by (intro conjI exI [of _ oid] exI [of _ msg] exI [of _ mo]
          exI [of _ "[Sent CallFingerprint mo0, Got (AnsFingerprint (Inr (pl_fingerprint P)))]"]
          exI [of _ "[Sent CallFingerprint mo1, Got (AnsFingerprint (Inr (pl_fingerprint P))),
             Sent (CallStage (cs_actions r)) mo2, Got (AnsStage ans)]"]) simp_all
  next
    case (Inr h)
    then obtain mo3 fp where "post = [Sent CallFingerprint mo3, Got (AnsFingerprint fp)]" using ans by auto
    then have "Got (AnsStage (Inl e)) \<notin> set (dialogue t)" using assms(7) Inr by (simp add: st(2) l)
    then show ?thesis using assms(6) by simp
  qed
qed

theorem refused_stage_keeps_lock_witness:
  "\<exists>err t oid txt mo pre post. apply_change_set refusing_env sample_coordinator sample_id ''fw-01'' ''https://fw'' ''alice''
      sample_plan_digest sample_fingerprint ''set'' None None sample_sys = (Inl err, t) \<and>
    dialogue t = pre @ [Sent (CallLock txt) mo, Got (AnsLock (Inr ()))] @ post \<and>
    lock_on_record refusing_env sample_coordinator sample_plan oid mo \<and> (\<forall>mo'. Sent CallUnlock mo' \<notin> set (pre @ post)) \<and>
    bt_get (st_operations (mem t)) oid = None \<and> (\<exists>c. bt_get (mem_css t) sample_id = Some c \<and> cs_state c = Failed)"
proof -
  obtain err t where t: "apply_change_set refusing_env sample_coordinator sample_id ''fw-01'' ''https://fw'' ''alice''
      sample_plan_digest sample_fingerprint ''set'' None None sample_sys = (Inl err, t)"
    and g: "Got (AnsStage (Inl ''refused'')) \<in> set (dialogue t)" and c: "\<exists>c. bt_get (mem_css t) sample_id = Some c \<and> cs_state c = Failed"
    using refusing_run by blast
  have e: "calm refusing_env" "requires_config_lock refusing_env" by (simp_all add: refusing_env_def)
  have z: "dialogue sample_sys = []" by (simp add: sample_sys_def)
  then have n: "Got (AnsStage (Inl ''refused'')) \<notin> set (dialogue sample_sys)" by simp
  from refused_stage_keeps_lock [where P = sample_plan, OF calm_considerate [OF e(1)] sample_sys_ok e(2), simplified, OF t g n]
  obtain oid msg mo pre post where "dialogue t = pre @ [Sent (CallLock msg) mo, Got (AnsLock (Inr ()))] @ post"
      "lock_on_record refusing_env sample_coordinator sample_plan oid mo" "\<forall>mo'. Sent CallUnlock mo' \<notin> set (pre @ post)"
      "bt_get (st_operations (mem t)) oid = None"
    unfolding z by auto
  then show ?thesis using t c by blast
qed

end
