(* ===== verification/Auth_Scope.thy ===== *)
theory Auth_Scope
  imports Byte_Strings "HOL-Library.Word"
begin

text \<open>
  The leaves of \<open>crates/mecmcp-auth/src\<close>: authorization scopes (\<open>scope.rs\<close>), token digests and
  their base64url rendering (\<open>token.rs\<close>), and the \<open>Authorization\<close> header parser
  (\<open>bearer.rs\<close>). A Rust string is its list of UTF-8 bytes; \<open>char::is_whitespace\<close> is therefore a
  test on the bytes a white-space character starts with.
\<close>

unbundle bit_operations_syntax

section \<open>White space\<close>

definition byte :: "char \<Rightarrow> nat" where
  "byte c = of_char c"

definition is_ascii_whitespace :: "char \<Rightarrow> bool" where
  "is_ascii_whitespace c \<longleftrightarrow> byte c \<in> {9, 10, 12, 13, 32}"

text \<open>The number of bytes of the Unicode white-space character a string starts with, if any.\<close>

fun ws_width :: "string \<Rightarrow> nat" where
  "ws_width [] = 0"
| "ws_width (a # r) =
     (if byte a \<in> {9..13} \<or> byte a = 32 then 1
      else case r of [] \<Rightarrow> 0
      | b # r' \<Rightarrow>
         if byte a = 0xC2 \<and> byte b \<in> {0x85, 0xA0} then 2
         else case r' of [] \<Rightarrow> 0
         | c # _ \<Rightarrow>
            if (byte a, byte b, byte c) \<in> {(0xE1, 0x9A, 0x80), (0xE2, 0x81, 0x9F), (0xE3, 0x80, 0x80)}
               \<or> byte a = 0xE2 \<and> byte b = 0x80 \<and>
                 (byte c \<in> {0x80..0x8A} \<or> byte c \<in> {0xA8, 0xA9, 0xAF})
            then 3 else 0)"

fun contains_whitespace :: "string \<Rightarrow> bool" where
  "contains_whitespace [] = False"
| "contains_whitespace (a # r) = (ws_width (a # r) \<noteq> 0 \<or> contains_whitespace r)"

text \<open>\<open>v.trim().is_empty()\<close>: nothing but white space.\<close>

function blank :: "string \<Rightarrow> bool" where
  "blank s = (if s = [] then True else if ws_width s = 0 then False
     else blank (drop (ws_width s) s))"
  by pat_completeness auto
termination
  by (relation "measure length") auto

declare blank.simps [simp del]

section \<open>Scopes\<close>

definition MAX_SCOPE_NAMES :: nat where
  "MAX_SCOPE_NAMES = 256"

datatype scope_set = Wildcard | Allowlist "string list"

fun allows :: "scope_set \<Rightarrow> string \<Rightarrow> bool" where
  "allows Wildcard name = True"
| "allows (Allowlist names) name = list_ex (\<lambda>allowed. allowed = name) names"

fun allows_tool :: "scope_set \<Rightarrow> string \<Rightarrow> string list \<Rightarrow> bool" where
  "allows_tool Wildcard name write_tools = (\<not> List.member write_tools name)"
| "allows_tool (Allowlist names) name write_tools = list_ex (\<lambda>allowed. allowed = name) names"

fun scope_is_empty :: "scope_set \<Rightarrow> bool" where
  "scope_is_empty Wildcard = False"
| "scope_is_empty (Allowlist names) = (names = [])"

fun scope_summary :: "scope_set \<Rightarrow> string" where
  "scope_summary Wildcard = ''*''"
| "scope_summary (Allowlist names) = join_with (CHR '','') names"

fun validate_names :: "string \<Rightarrow> string list \<Rightarrow> string list \<Rightarrow> string + unit" where
  "validate_names field seen [] = Inr ()"
| "validate_names field seen (name # names) =
     (if name = ''*'' then Inl (field @ '' scope may use '*' only as the sole list entry'')
      else if name = [] \<or> length name > 128 \<or> List.member name (CHR 0x00)
      then Inl (field @ '' scope contains an out-of-range name'')
      else if List.member seen name
      then Inl (''duplicate name ''  @ [CHR 0x27] @ name @ [CHR 0x27] @ '' in '' @ field @ '' scope'')
      else validate_names field (name # seen) names)"

fun scope_validate :: "string \<Rightarrow> scope_set \<Rightarrow> string + unit" where
  "scope_validate field Wildcard = Inr ()"
| "scope_validate field (Allowlist names) =
     (if length names > MAX_SCOPE_NAMES
      then Inl (field @ '' scope contains more than '' @ decimal MAX_SCOPE_NAMES @ '' names'')
      else validate_names field [] names)"

text \<open>The custom serde instances: a JSON list of strings, the list \<open>["*"]\<close> the wildcard.\<close>

fun scope_serialize :: "scope_set \<Rightarrow> string list" where
  "scope_serialize Wildcard = [''*'']"
| "scope_serialize (Allowlist names) = names"

definition scope_deserialize :: "string list \<Rightarrow> scope_set" where
  "scope_deserialize names =
     (if length names = 1 \<and> names ! 0 = ''*'' then Wildcard else Allowlist names)"

section \<open>Token digests\<close>

definition SECRET_BYTES :: nat where
  "SECRET_BYTES = 32"

definition ENCODED_SECRET_BYTES :: nat where
  "ENCODED_SECRET_BYTES = 43"

definition DIGEST_PREFIX :: string where
  "DIGEST_PREFIX = ''sha256:''"

definition b64_alphabet :: string where
  "b64_alphabet = ''ABCDEFGHIJKLMNOPQRSTUVWXYZabcdefghijklmnopqrstuvwxyz0123456789-_''"

text \<open>The body of the encoder's loop: one chunk of one to three bytes, the absent ones zero.\<close>

definition b64_triple :: "char \<Rightarrow> char \<Rightarrow> char \<Rightarrow> 32 word" where
  "b64_triple b0 b1 b2 =
     push_bit 16 (word_of_nat (byte b0)) OR push_bit 8 (word_of_nat (byte b1)) OR
     word_of_nat (byte b2)"

definition b64_group :: "char \<Rightarrow> char \<Rightarrow> char \<Rightarrow> string" where
  "b64_group b0 b1 b2 =
     (let triple = b64_triple b0 b1 b2
      in map (\<lambda>i. b64_alphabet ! unat i)
           [drop_bit 18 triple AND 0x3F, drop_bit 12 triple AND 0x3F,
            drop_bit 6 triple AND 0x3F, triple AND 0x3F])"

fun base64url_no_pad :: "string \<Rightarrow> string" where
  "base64url_no_pad [] = []"
| "base64url_no_pad [b0] = take 2 (b64_group b0 (CHR 0x00) (CHR 0x00))"
| "base64url_no_pad [b0, b1] = take 3 (b64_group b0 b1 (CHR 0x00))"
| "base64url_no_pad (b0 # b1 # b2 # rest) = b64_group b0 b1 b2 @ base64url_no_pad rest"

text \<open>SHA-256 is the parameter \<open>sha\<close>; a digest is the string stored in \<open>tokens.json\<close>.\<close>

definition from_secret :: "(string \<Rightarrow> string) \<Rightarrow> string \<Rightarrow> string" where
  "from_secret sha secret = DIGEST_PREFIX @ base64url_no_pad (sha secret)"

definition digest_verify :: "(string \<Rightarrow> string) \<Rightarrow> string \<Rightarrow> string \<Rightarrow> bool" where
  "digest_verify sha digest candidate \<longleftrightarrow> from_secret sha candidate = digest"

text \<open>Minting: the operating system's random source fails or fills the 32-byte buffer.\<close>

definition mint :: "(string \<Rightarrow> string) \<Rightarrow> string option \<Rightarrow> (string + string \<times> string)" where
  "mint sha random =
     (case random of None \<Rightarrow> Inl ''operating-system random source failed''
      | Some bytes \<Rightarrow>
          let encoded = base64url_no_pad bytes in Inr (encoded, from_secret sha encoded))"

definition digest_deserialize :: "string \<Rightarrow> string option" where
  "digest_deserialize raw = (if starts_with DIGEST_PREFIX raw then Some raw else None)"

section \<open>The bearer header\<close>

definition MAX_AUTHORIZATION_HEADER_BYTES :: nat where
  "MAX_AUTHORIZATION_HEADER_BYTES = 4096"

datatype bearer_syntax = Strict | Trimmed

datatype bearer_header_error = TooLarge | InvalidCharacters | WrongScheme | EmptyCredential
  | EmbeddedWhitespace

definition header_byte :: "char \<Rightarrow> bool" where
  "header_byte c \<longleftrightarrow> byte c = 9 \<or> byte c < 128 \<and> \<not> (byte c < 32 \<or> byte c = 127)"

definition trim_ascii :: "string \<Rightarrow> string" where
  "trim_ascii s = rev (dropWhile is_ascii_whitespace (rev (dropWhile is_ascii_whitespace s)))"

definition eq_ignore_ascii_case :: "string \<Rightarrow> string \<Rightarrow> bool" where
  "eq_ignore_ascii_case a b \<longleftrightarrow> to_lowercase a = to_lowercase b"

definition parse_bearer_header :: "string \<Rightarrow> bearer_syntax \<Rightarrow> bearer_header_error + string" where
  "parse_bearer_header value mode =
     (if length value > MAX_AUTHORIZATION_HEADER_BYTES then Inl TooLarge
      else if \<not> list_all header_byte value then Inl InvalidCharacters
      else
        let value = (case mode of Strict \<Rightarrow> value | Trimmed \<Rightarrow> trim_ascii value);
            scheme = takeWhile (\<lambda>c. \<not> is_ascii_whitespace c) value;
            remainder = dropWhile (\<lambda>c. \<not> is_ascii_whitespace c) value
        in if remainder = []
           then (if eq_ignore_ascii_case value ''bearer'' then Inl EmptyCredential else Inl WrongScheme)
           else if \<not> eq_ignore_ascii_case scheme ''bearer'' then Inl WrongScheme
           else
             let credential = trim_ascii remainder
             in if credential = [] then Inl EmptyCredential
                else if list_ex is_ascii_whitespace credential then Inl EmbeddedWhitespace
                else Inr credential)"

section \<open>Facts about scopes\<close>

lemma allows_iff:
  "allows s n \<longleftrightarrow> (case s of Wildcard \<Rightarrow> True | Allowlist ns \<Rightarrow> n \<in> set ns)"
  by (cases s) (auto simp: list_ex_iff)

lemma allows_tool_iff:
  "allows_tool s n ws \<longleftrightarrow> (case s of Wildcard \<Rightarrow> n \<notin> set ws | Allowlist ns \<Rightarrow> n \<in> set ns)"
  by (cases s) (auto simp: list_ex_iff)

lemma validate_names_iff:
  "validate_names f seen ns = Inr u \<longleftrightarrow>
     distinct ns \<and> set ns \<inter> set seen = {} \<and>
     (\<forall>n\<in>set ns. n \<noteq> ''*'' \<and> n \<noteq> [] \<and> length n \<le> 128 \<and> CHR 0x00 \<notin> set n)"
  by (induction ns arbitrary: seen) auto

lemma scope_validate_iff:
  "scope_validate f s = Inr u \<longleftrightarrow>
     (case s of Wildcard \<Rightarrow> True
      | Allowlist ns \<Rightarrow> length ns \<le> 256 \<and> distinct ns \<and>
          (\<forall>n\<in>set ns. n \<noteq> ''*'' \<and> n \<noteq> [] \<and> length n \<le> 128 \<and> CHR 0x00 \<notin> set n))"
  by (cases s) (auto simp: validate_names_iff MAX_SCOPE_NAMES_def)

lemma scope_round_trip:
  "scope_validate f s = Inr () \<Longrightarrow> scope_deserialize (scope_serialize s) = s"
  by (cases s) (auto simp: scope_deserialize_def scope_validate_iff length_Suc_conv
    simp del: scope_validate.simps)

text \<open>A name never contains the separator of \<open>summary\<close> is not checked: two scopes can share one.\<close>

lemma scope_summary_ambiguous:
  "scope_summary (Allowlist [''a,b'']) = scope_summary (Allowlist [''a'', ''b''])"
  by simp

section \<open>Facts about base64url\<close>

lemma byte_less: "byte c < 256"
  by (simp add: byte_def of_char_less)

lemma byte_inj: "byte b = byte c \<longleftrightarrow> b = c"
  by (simp add: byte_def)

lemma shifted_or:
  fixes x y :: nat
  assumes "y < 2 ^ n"
  shows "push_bit n x OR y = x * 2 ^ n + y"
proof -
  have "bit y m \<Longrightarrow> m < n" for m
    using assms bit_take_bit_iff [of n y m] by (simp add: take_bit_nat_eq_self)
  then have "push_bit n x AND y = 0"
    by (intro bit_eqI) (force simp: bit_simps)
  then show ?thesis
    by (simp add: disjunctive_add_eq_or [symmetric] push_bit_eq_mult)
qed

lemma unat_shifted:
  assumes "x * 2 ^ n < 2 ^ 32"
  shows "unat (push_bit n (word_of_nat x) :: 32 word) = push_bit n x"
proof -
  have e: "push_bit n (word_of_nat x :: 32 word) = word_of_nat (x * 2 ^ n)"
    by (simp add: push_bit_eq_mult)
  show ?thesis
    unfolding e using assms
    by (simp add: unat_of_nat take_bit_nat_eq_self push_bit_eq_mult del: of_nat_mult)
qed

lemma unat_triple: "unat (b64_triple a b c) = byte a * 65536 + byte b * 256 + byte c"
proof -
  have u: "unat (b64_triple a b c) =
      push_bit 16 (byte a) OR (push_bit 8 (byte b) OR byte c)"
    using byte_less [of a] byte_less [of b] byte_less [of c]
    unfolding b64_triple_def unsigned_or_eq or.assoc
    by (subst unat_shifted unat_shifted [of _ 8], simp)+
      (simp add: unat_of_nat take_bit_nat_eq_self)
  have l: "push_bit 8 (byte b) OR byte c = byte b * 256 + byte c"
    using shifted_or [of "byte c" 8 "byte b"] byte_less [of c] by simp
  have "byte b * 256 + byte c < 2 ^ 16"
    using byte_less [of b] byte_less [of c] by simp
  then show ?thesis
    using shifted_or [of "byte b * 256 + byte c" 16 "byte a"] u l by simp
qed

lemma unat_sextet: "unat (drop_bit k w AND 0x3F :: 32 word) = unat w div 2 ^ k mod 64"
proof -
  have m: "(0x3F :: 32 word) = mask 6" by (simp add: mask_eq_decr_exp)
  show ?thesis
    unfolding m take_bit_eq_mask [symmetric]
    by (simp only: unsigned_take_bit_eq unat_drop_bit_eq) (simp add: drop_bit_eq_div take_bit_eq_mod)
qed

lemma b64_alphabet_distinct: "distinct b64_alphabet"
  by (simp add: b64_alphabet_def)

lemma length_b64_alphabet: "length b64_alphabet = 64"
  by (simp add: b64_alphabet_def)

lemma b64_alphabet_inj:
  "m < 64 \<Longrightarrow> n < 64 \<Longrightarrow> b64_alphabet ! m = b64_alphabet ! n \<longleftrightarrow> m = n"
  using nth_eq_iff_index_eq [OF b64_alphabet_distinct] by (simp add: b64_alphabet_def)

lemma b64_group_digits:
  "b64_group a b c =
     (let t = byte a * 65536 + byte b * 256 + byte c
      in map (\<lambda>i. b64_alphabet ! i) [t div 2 ^ 18 mod 64, t div 2 ^ 12 mod 64, t div 2 ^ 6 mod 64, t mod 64])"
  using unat_sextet [of 0 "b64_triple a b c"]
  by (simp add: b64_group_def Let_def unat_sextet unat_triple)

lemma length_b64_group [simp]: "length (b64_group a b c) = 4"
  by (simp add: b64_group_def Let_def)

lemma sextets:
  fixes t u :: nat
  shows "t div 2 ^ 12 = t div 2 ^ 18 * 64 + t div 2 ^ 12 mod 64"
    and "t div 2 ^ 6 = t div 2 ^ 12 * 64 + t div 2 ^ 6 mod 64"
    and "t = t div 2 ^ 6 * 64 + t mod 64"
  using div_mult_mod_eq [of "t div 2 ^ 12" 64] div_mult_mod_eq [of "t div 2 ^ 6" 64]
    div_mult_mod_eq [of t 64] by (simp_all add: div_mult2_eq [symmetric])

lemma triple_top: "(byte a * 65536 + byte b * 256 + byte c) div 2 ^ 18 < 64"
  using byte_less [of a] byte_less [of b] byte_less [of c]
  by (intro less_mult_imp_div_less) simp

text \<open>What the first two, three and four digits of a group determine.\<close>

lemma b64_group_take:
  fixes a b c a' b' c' :: char
  defines "t \<equiv> byte a * 65536 + byte b * 256 + byte c"
    and "u \<equiv> byte a' * 65536 + byte b' * 256 + byte c'"
  shows "take 2 (b64_group a b c) = take 2 (b64_group a' b' c') \<Longrightarrow> t div 2 ^ 12 = u div 2 ^ 12"
    and "take 3 (b64_group a b c) = take 3 (b64_group a' b' c') \<Longrightarrow> t div 2 ^ 6 = u div 2 ^ 6"
    and "b64_group a b c = b64_group a' b' c' \<Longrightarrow> t = u"
proof -
  have top: "t div 2 ^ 18 mod 64 = t div 2 ^ 18" "u div 2 ^ 18 mod 64 = u div 2 ^ 18"
    using triple_top [of a b c] triple_top [of a' b' c'] by (simp_all add: t_def u_def)
  note digits = b64_group_digits [of a b c, folded t_def] b64_group_digits [of a' b' c', folded u_def]
  note inj = b64_alphabet_inj [OF mod_less_divisor mod_less_divisor]
  show two: "t div 2 ^ 12 = u div 2 ^ 12"
    if "take 2 (b64_group a b c) = take 2 (b64_group a' b' c')"
    using that top sextets(1) [of t] sextets(1) [of u]
    by (simp add: digits Let_def inj del: div_mult2_eq)
  show three: "t div 2 ^ 6 = u div 2 ^ 6"
    if "take 3 (b64_group a b c) = take 3 (b64_group a' b' c')"
  proof -
    from that have "take 2 (b64_group a b c) = take 2 (b64_group a' b' c')"
      by (simp add: digits Let_def)
    with that two sextets(2) [of t] sextets(2) [of u] show ?thesis
      by (simp add: digits Let_def inj)
  qed
  show "t = u" if "b64_group a b c = b64_group a' b' c'"
    using that three sextets(3) [of t] sextets(3) [of u]
    by (simp add: digits Let_def inj)
qed

lemma byte_zero: "byte (CHR 0x00) = 0"
  by (simp add: byte_def)

lemma digits_unique:
  fixes x y n :: nat
  assumes e: "x * n + y = x' * n + y'" and "y < n" "y' < n"
  shows "x = x' \<and> y = y'"
proof -
  have "y = (x * n + y) mod n" using \<open>y < n\<close> by simp
  also have "\<dots> = y'" unfolding e using \<open>y' < n\<close> by simp
  finally show ?thesis using e \<open>y < n\<close> by simp
qed

lemma bytes_of_triple:
  assumes e: "byte a * 65536 + byte b * 256 + byte c = byte a' * 65536 + byte b' * 256 + byte c'"
  shows "a = a' \<and> b = b' \<and> c = c'"
proof -
  have "(byte a * 256 + byte b) * 256 + byte c = (byte a' * 256 + byte b') * 256 + byte c'"
    using e by simp
  from digits_unique [OF this byte_less byte_less]
  have "byte a * 256 + byte b = byte a' * 256 + byte b'" "byte c = byte c'" by simp_all
  with digits_unique [OF this(1) byte_less byte_less] show ?thesis
    by (simp only: byte_inj)
qed

lemma length_base64url: "length (base64url_no_pad bs) = (4 * length bs + 2) div 3"
  by (induction bs rule: base64url_no_pad.induct) simp_all

lemma base64url_alphabet: "set (base64url_no_pad bs) \<subseteq> set b64_alphabet"
proof -
  have "set (b64_group a b c) \<subseteq> set b64_alphabet" for a b c
    by (simp add: b64_group_digits Let_def length_b64_alphabet)
  then show ?thesis
    by (induction bs rule: base64url_no_pad.induct)
      (simp_all, (meson in_set_takeD subset_iff)+)
qed

lemma encoded_length_inj: "m + (m + 2) div 3 = n + (n + 2) div 3 \<Longrightarrow> m = n" for m n :: nat
  using div_le_mono [of "m + 2" "n + 2" 3] div_le_mono [of "n + 2" "m + 2" 3]
  by (cases m n rule: linorder_cases) simp_all

lemma base64url_same_length:
  assumes "length (base64url_no_pad bs) = length (base64url_no_pad cs)"
  shows "length bs = length cs"
proof -
  have "(4 * n + 2) div 3 = n + (n + 2) div 3" for n :: nat
    using div_mult_self3 [of 3 n "n + 2"] by (simp add: algebra_simps)
  then show ?thesis using assms by (auto simp: length_base64url intro: encoded_length_inj)
qed

lemma base64url_inj: "base64url_no_pad bs = base64url_no_pad cs \<Longrightarrow> bs = cs"
proof (induction bs arbitrary: cs rule: base64url_no_pad.induct)
  case 1
  then show ?case using base64url_same_length [of "[]" cs] by simp
next
  case (2 b0)
  then obtain c where "cs = [c]"
    using base64url_same_length [of "[b0]" cs] by (auto simp: Suc_length_conv length_Suc_conv)
  then show ?case
    using 2 b64_group_take(1) [of b0 "CHR 0x00" "CHR 0x00" c "CHR 0x00" "CHR 0x00"]
    by (simp add: byte_zero byte_inj)
next
  case (3 b0 b1)
  then obtain c d where cs: "cs = [c, d]"
    using base64url_same_length [of "[b0, b1]" cs] by (auto simp: Suc_length_conv length_Suc_conv)
  have quot: "(x * 65536 + y * 256 + 0) div 2 ^ 6 = x * 1024 + y * 4" for x y :: nat
    using nonzero_mult_div_cancel_right [of "2 ^ 6" "x * 1024 + y * 4"] by simp
  have "byte b0 * 1024 + byte b1 * 4 = byte c * 1024 + byte d * 4"
    using b64_group_take(2) [of b0 b1 "CHR 0x00" c d "CHR 0x00"] 3
    unfolding cs byte_zero quot by (simp del: take_Cons_numeral)
  then show ?case
    using bytes_of_triple [of "CHR 0x00" b0 b1 "CHR 0x00" c d] cs by (simp add: byte_zero)
next
  case (4 b0 b1 b2 rest)
  then obtain c d e cs' where cs: "cs = c # d # e # cs'"
    using base64url_same_length [of "b0 # b1 # b2 # rest" cs] by (auto simp: Suc_length_conv length_Suc_conv)
  with 4 have "b64_group b0 b1 b2 = b64_group c d e" "base64url_no_pad rest = base64url_no_pad cs'"
    by simp_all
  with 4 cs show ?case
    using bytes_of_triple [OF b64_group_take(3) [of b0 b1 b2 c d e]] by simp
qed

section \<open>Facts about the bearer header\<close>

abbreviation spaces :: "string \<Rightarrow> bool" where
  "spaces s \<equiv> list_all is_ascii_whitespace s"

abbreviation solid :: "string \<Rightarrow> bool" where
  "solid s \<equiv> list_all (\<lambda>c. \<not> is_ascii_whitespace c) s"

lemma dropWhile_spaces: "spaces p \<Longrightarrow> dropWhile is_ascii_whitespace (p @ s) = dropWhile is_ascii_whitespace s"
  by (induction p) auto

lemma trim_ascii_edges:
  assumes "spaces p" "spaces q" and m: "m \<noteq> [] \<Longrightarrow> \<not> is_ascii_whitespace (hd m) \<and> \<not> is_ascii_whitespace (last m)"
  shows "trim_ascii (p @ m @ q) = m"
proof (cases "m = []")
  case True
  then have "dropWhile is_ascii_whitespace (p @ m @ q) = []"
    unfolding dropWhile_eq_Nil_conv using assms(1,2) by (auto simp: list_all_iff)
  then show ?thesis
    using True unfolding trim_ascii_def by (simp only: rev.simps dropWhile.simps)
next
  case False
  then have "dropWhile is_ascii_whitespace (p @ m @ q) = m @ q"
    using assms by (cases m) (simp_all add: dropWhile_spaces)
  moreover have "dropWhile is_ascii_whitespace (rev q @ rev m) = rev m"
    using False assms by (cases m rule: rev_cases) (simp_all add: dropWhile_spaces)
  ultimately show ?thesis by (simp add: trim_ascii_def)
qed

lemma trim_ascii_solid:
  assumes "spaces p" "solid m" "spaces q"
  shows "trim_ascii (p @ m @ q) = m"
  using assms by (intro trim_ascii_edges) (auto simp: list_all_iff)

lemma trim_asciiE:
  obtains p q where "s = p @ trim_ascii s @ q" "spaces p" "spaces q"
proof -
  let ?r = "dropWhile is_ascii_whitespace s"
  have "s = takeWhile is_ascii_whitespace s @ ?r" by simp
  moreover have "?r = trim_ascii s @ rev (takeWhile is_ascii_whitespace (rev ?r))"
    by (metis rev_append rev_rev_ident takeWhile_dropWhile_id trim_ascii_def)
  ultimately show thesis
    using that [of "takeWhile is_ascii_whitespace s" "rev (takeWhile is_ascii_whitespace (rev ?r))"]
    by (metis list_all_iff set_rev set_takeWhileD)
qed

lemma split_scheme:
  assumes "solid sch" "spaces w" "w \<noteq> []"
  shows "takeWhile (\<lambda>c. \<not> is_ascii_whitespace c) (sch @ w @ r) = sch"
    and "dropWhile (\<lambda>c. \<not> is_ascii_whitespace c) (sch @ w @ r) = w @ r"
  using assms by (induction sch) (cases w; simp)+

lemma lower_solid:
  assumes "to_lowercase sch = to_lowercase ''bearer''"
  shows "solid sch"
proof -
  have "\<not> is_ascii_whitespace c" if "ascii_lower c \<in> set ''bearer''" for c
  proof
    assume w: "is_ascii_whitespace c"
    then have "ascii_lower c = c"
      by (auto simp: ascii_lower_def is_ascii_whitespace_def byte_def less_eq_char_def)
    with that w show False by (auto simp: is_ascii_whitespace_def byte_def)
  qed
  moreover have "map ascii_lower sch = ''bearer''"
    using assms by (simp add: to_lowercase_def ascii_lower_def)
  then have "ascii_lower c \<in> set ''bearer''" if "c \<in> set sch" for c
    using that by (metis image_eqI list.set_map)
  ultimately show ?thesis by (auto simp: list_all_iff)
qed

text \<open>The shape of an accepted header.\<close>

definition bearer_form :: "bearer_syntax \<Rightarrow> string \<Rightarrow> string \<Rightarrow> bool" where
  "bearer_form mode v c \<longleftrightarrow>
     (\<exists>pre sch w post. v = pre @ sch @ w @ c @ post \<and> spaces pre \<and> (mode = Strict \<longrightarrow> pre = []) \<and>
        to_lowercase sch = ''bearer'' \<and> w \<noteq> [] \<and> spaces w \<and> c \<noteq> [] \<and> solid c \<and> spaces post)"

lemma lower_bearer [simp]: "to_lowercase ''bearer'' = ''bearer''"
  by (simp add: to_lowercase_def ascii_lower_def)

lemma bearer_form_split:
  assumes "spaces w" "w \<noteq> []" "to_lowercase sch = ''bearer''"
  shows "takeWhile (\<lambda>c. \<not> is_ascii_whitespace c) (sch @ w @ r) = sch"
    and "dropWhile (\<lambda>c. \<not> is_ascii_whitespace c) (sch @ w @ r) = w @ r"
  using assms split_scheme lower_solid by simp_all

lemma parse_bearer_complete:
  assumes "length v \<le> 4096" "list_all header_byte v" "bearer_form mode v c"
  shows "parse_bearer_header v mode = Inr c"
proof -
  from assms(3) obtain pre sch w post where f: "v = pre @ sch @ w @ c @ post" "spaces pre"
    "mode = Strict \<longrightarrow> pre = []" "to_lowercase sch = ''bearer''" "w \<noteq> []" "spaces w" "c \<noteq> []"
    "solid c" "spaces post"
    unfolding bearer_form_def by blast
  define u where "u = (case mode of Strict \<Rightarrow> v | Trimmed \<Rightarrow> trim_ascii v)"
  have "\<exists>post'. u = sch @ w @ c @ post' \<and> spaces post'"
  proof (cases mode)
    case Strict
    then show ?thesis using f by (auto simp: u_def)
  next
    case Trimmed
    have "sch \<noteq> []" using f(4) by (auto simp: to_lowercase_def)
    then have "trim_ascii (pre @ (sch @ w @ c) @ post) = sch @ w @ c"
      using f lower_solid [of sch] by (intro trim_ascii_edges) (auto simp: list_all_iff)
    with Trimmed f(1) have "u = sch @ w @ c @ []" by (simp add: u_def)
    then show ?thesis by (intro exI [of _ "[]"]) simp
  qed
  then obtain post' where v': "u = sch @ w @ c @ post'" "spaces post'" by blast
  have trim: "trim_ascii (w @ c @ post') = c"
    using trim_ascii_solid f v' by simp
  have parts: "takeWhile (\<lambda>c. \<not> is_ascii_whitespace c) u = sch"
    "dropWhile (\<lambda>c. \<not> is_ascii_whitespace c) u = w @ c @ post'"
    unfolding v'(1) by (rule bearer_form_split [OF f(6,5,4)])+
  have "\<not> list_ex is_ascii_whitespace c" using f(8) by (auto simp: list_ex_iff list_all_iff)
  then show ?thesis
    unfolding parse_bearer_header_def Let_def u_def [symmetric] parts trim
    using assms(1,2) f(4,5,7)
    by (simp add: MAX_AUTHORIZATION_HEADER_BYTES_def eq_ignore_ascii_case_def)
qed

lemma parse_bearer_sound:
  assumes r: "parse_bearer_header v mode = Inr c"
  shows "length v \<le> 4096 \<and> list_all header_byte v \<and> bearer_form mode v c"
proof -
  define u where "u = (case mode of Strict \<Rightarrow> v | Trimmed \<Rightarrow> trim_ascii v)"
  define sch where "sch = takeWhile (\<lambda>c. \<not> is_ascii_whitespace c) u"
  define rm where "rm = dropWhile (\<lambda>c. \<not> is_ascii_whitespace c) u"
  have parts: "u = sch @ rm" by (simp add: sch_def rm_def)
  note r' = r [unfolded parse_bearer_header_def Let_def, folded u_def, folded sch_def rm_def,
      unfolded MAX_AUTHORIZATION_HEADER_BYTES_def eq_ignore_ascii_case_def lower_bearer]
  from r' have c: "length v \<le> 4096" "list_all header_byte v" "rm \<noteq> []"
    "to_lowercase sch = ''bearer''" "c = trim_ascii rm" "c \<noteq> []" "\<not> list_ex is_ascii_whitespace c"
    by (simp_all split: if_splits)
  from c(7) have "solid c" by (auto simp: list_ex_iff list_all_iff)
  with c have c: "length v \<le> 4096" "list_all header_byte v" "rm \<noteq> []"
    "to_lowercase sch = ''bearer''" "c = trim_ascii rm" "c \<noteq> []" "solid c" by blast+
  from trim_asciiE [of rm] obtain w post where rm: "rm = w @ c @ post" "spaces w" "spaces post"
    using c(5) by metis
  have "is_ascii_whitespace (hd rm)"
    using c(3) hd_dropWhile [of "\<lambda>c. \<not> is_ascii_whitespace c" u] by (simp add: rm_def)
  then have w: "w \<noteq> []" using rm c(6,7) by (cases c) auto
  obtain pre q where v: "v = pre @ u @ q" "spaces pre" "spaces q" "mode = Strict \<longrightarrow> pre = []"
  proof (cases mode)
    case Strict
    then show thesis using that [of "[]" "[]"] by (simp add: u_def)
  next
    case Trimmed
    then show thesis using trim_asciiE [of v] that by (metis bearer_syntax.distinct(1) bearer_syntax.simps(4) u_def)
  qed
  have "v = pre @ sch @ w @ c @ (post @ q)" using v(1) parts rm(1) by simp
  then have "bearer_form mode v c"
    unfolding bearer_form_def using v rm w c by (metis list_all_append)
  with c show ?thesis by blast
qed

lemma parse_bearer_iff:
  "parse_bearer_header v mode = Inr c \<longleftrightarrow>
     length v \<le> 4096 \<and> list_all header_byte v \<and> bearer_form mode v c"
  using parse_bearer_sound parse_bearer_complete by blast

end
