(* ===== verification/Token_Store.thy ===== *)
theory Token_Store
  imports Auth_Scope Attribution
begin

text \<open>
  \<open>crates/mecmcp-auth/src/entry.rs\<close> and \<open>store.rs\<close>: one token as it is persisted, the validated
  store and its authentication scan, and the caller context a request carries; with them the
  scope checks of \<open>crates/mecmcp-server/src/authorize.rs\<close>. A vendor's grant type is the type
  variable \<open>'g\<close>, its \<open>Grant\<close> methods the functions of \<open>grant_impl\<close>. Instants are integers; only
  their order matters here.
\<close>

section \<open>Entries\<close>

definition MAX_TOKEN_NAME :: nat where
  "MAX_TOKEN_NAME = 128"

record ('g, 'a) grant_impl =
  gi_allows_action :: "'g \<Rightarrow> 'a \<Rightarrow> bool"
  gi_allows_subject :: "'g \<Rightarrow> string \<Rightarrow> bool"
  gi_validate :: "'g \<Rightarrow> string + unit"
  gi_subjects_are_targets :: "'g \<Rightarrow> bool"

text \<open>\<open>NoGrant\<close> permits nothing and is always well formed.\<close>

definition no_grant_impl :: "(unit, 'a) grant_impl" where
  "no_grant_impl = \<lparr>gi_allows_action = (\<lambda>_ _. False), gi_allows_subject = (\<lambda>_ _. False),
     gi_validate = (\<lambda>_. Inr ()), gi_subjects_are_targets = (\<lambda>_. False)\<rparr>"

datatype entry_error = EScope string string | EGrant string string | EInvalid string

record 'g token_entry =
  te_name :: string
  te_digest :: string
  te_devices :: scope_set
  te_tools :: scope_set
  te_created_at :: int
  te_expires_at :: "int option"
  te_grant :: "'g option"
  te_provider :: "string option"
  te_provider_tier :: "tier option"
  te_on_behalf_of :: "string option"
  te_actor_type :: actor_type

definition is_expired_at :: "'g token_entry \<Rightarrow> int \<Rightarrow> bool" where
  "is_expired_at e t = (case te_expires_at e of None \<Rightarrow> False | Some expiry \<Rightarrow> t \<ge> expiry)"

definition effective_actor_type :: "'g token_entry \<Rightarrow> actor_type" where
  "effective_actor_type e =
     (if te_provider e \<noteq> None \<and> te_actor_type e = Unknown then Agent else te_actor_type e)"

definition quoted :: "string \<Rightarrow> string" where
  "quoted s = [CHR 0x27] @ s @ [CHR 0x27]"

definition is_blank :: "string option \<Rightarrow> bool" where
  "is_blank v = (case v of None \<Rightarrow> False | Some s \<Rightarrow> blank s)"

definition entry_validate :: "('g, 'a) grant_impl \<Rightarrow> 'g token_entry \<Rightarrow> entry_error + unit" where
  "entry_validate G e =
     res_bind (require (te_name e \<noteq> [] \<and> length (te_name e) \<le> MAX_TOKEN_NAME)
       (EInvalid (''token name must be 1-'' @ decimal MAX_TOKEN_NAME @ '' characters'')))
     (\<lambda>_. res_bind (require (\<not> List.member (te_name e) (CHR 0x00) \<and> \<not> contains_whitespace (te_name e))
       (EInvalid (''token name '' @ quoted (te_name e) @ '' contains whitespace or a null byte'')))
     (\<lambda>_. res_bind (map_err (EScope (te_name e)) (scope_validate ''devices'' (te_devices e)))
     (\<lambda>_. res_bind (map_err (EScope (te_name e)) (scope_validate ''tools'' (te_tools e)))
     (\<lambda>_. res_bind (case te_grant e of None \<Rightarrow> Inr ()
                   | Some g \<Rightarrow> map_err (EGrant (te_name e)) (gi_validate G g))
     (\<lambda>_. res_bind (case (te_provider e, te_provider_tier e) of
            (Some _, None) \<Rightarrow> Inl (EInvalid (''token '' @ quoted (te_name e) @
               '': provider is set but provider_tier is missing''))
          | (None, Some _) \<Rightarrow> Inl (EInvalid (''token '' @ quoted (te_name e) @
               '': provider_tier is set but provider is missing''))
          | _ \<Rightarrow> Inr ())
     (\<lambda>_. res_bind (check_all (\<lambda>(field, value). require (\<not> is_blank value)
            (EInvalid (''token '' @ quoted (te_name e) @ '': '' @ field @ '' is present but empty'')))
          [(''provider'', te_provider e), (''on_behalf_of'', te_on_behalf_of e)])
     (\<lambda>_. require (\<not> (te_provider e \<noteq> None \<and> te_actor_type e = Human))
            (EInvalid (''token '' @ quoted (te_name e) @
               '': provider metadata contradicts actor_type \"human\"'')))))))))"

section \<open>The store\<close>

definition MAX_TOKENS :: nat where
  "MAX_TOKENS = 1024"

datatype store_error = SDuplicate string | STooMany nat | SEntry entry_error

fun check_entries ::
  "('g, 'a) grant_impl \<Rightarrow> string list \<Rightarrow> 'g token_entry list \<Rightarrow> store_error + unit" where
  "check_entries G seen [] = Inr ()"
| "check_entries G seen (e # es) =
     res_bind (map_err SEntry (entry_validate G e))
     (\<lambda>_. if List.member seen (te_name e) then Inl (SDuplicate (te_name e))
          else check_entries G (te_name e # seen) es)"

definition try_new ::
  "('g, 'a) grant_impl \<Rightarrow> 'g token_entry list \<Rightarrow> store_error + 'g token_entry list" where
  "try_new G entries =
     (if length entries > MAX_TOKENS then Inl (STooMany (length entries))
      else res_bind (check_entries G [] entries) (\<lambda>_. Inr entries))"

definition authenticate_at ::
  "(string \<Rightarrow> string) \<Rightarrow> 'g token_entry list \<Rightarrow> string \<Rightarrow> int \<Rightarrow> 'g token_entry option" where
  "authenticate_at sha store candidate t =
     foldl (\<lambda>found e. if digest_verify sha (te_digest e) candidate \<and> \<not> is_expired_at e t
                      then Some e else found) None store"

section \<open>The caller of a request\<close>

record 'g auth_ctx = caller_ctx +
  cx_devices :: scope_set
  cx_tools :: scope_set
  cx_grant :: "'g option"

text \<open>\<open>From<&TokenEntry>\<close>; the freshly minted request id is an argument.\<close>

definition ctx_of_entry :: "string \<Rightarrow> 'g token_entry \<Rightarrow> 'g auth_ctx" where
  "ctx_of_entry request_id e =
     \<lparr>cx_token_name = te_name e, cx_actor_type = effective_actor_type e,
      cx_on_behalf_of = te_on_behalf_of e, cx_provider = te_provider e,
      cx_provider_tier = te_provider_tier e, cx_client_name = None, cx_model_id = None,
      cx_session_id = None, cx_request_id = request_id,
      cx_devices = te_devices e, cx_tools = te_tools e, cx_grant = te_grant e\<rparr>"

definition filter_device_names :: "'g auth_ctx option \<Rightarrow> string list \<Rightarrow> string list" where
  "filter_device_names ctx names =
     (case ctx of Some c \<Rightarrow> filter (\<lambda>n. allows (cx_devices c) n) names | None \<Rightarrow> names)"

section \<open>Authorizing a call\<close>

datatype authorization_error = ToolNotInScope string string | TargetNotInScope string string string

definition authorize_tool ::
  "'g auth_ctx option \<Rightarrow> string \<Rightarrow> string list \<Rightarrow> authorization_error + unit" where
  "authorize_tool caller tool write_tools =
     (case caller of None \<Rightarrow> Inr ()
      | Some c \<Rightarrow> if allows_tool (cx_tools c) tool write_tools then Inr ()
                 else Inl (ToolNotInScope (cx_token_name c) tool))"

definition authorize_target ::
  "'g auth_ctx option \<Rightarrow> string \<Rightarrow> string \<Rightarrow> authorization_error + unit" where
  "authorize_target caller tool target =
     (case caller of None \<Rightarrow> Inr ()
      | Some c \<Rightarrow> if allows (cx_devices c) target then Inr ()
                 else Inl (TargetNotInScope (cx_token_name c) tool target))"

definition authorize_call ::
  "'g auth_ctx option \<Rightarrow> string \<Rightarrow> string option \<Rightarrow> string list \<Rightarrow> authorization_error + unit" where
  "authorize_call caller tool target write_tools =
     res_bind (authorize_tool caller tool write_tools)
     (\<lambda>_. case target of None \<Rightarrow> Inr () | Some t \<Rightarrow> authorize_target caller tool t)"

definition filter_tools_for_scope ::
  "string list \<Rightarrow> 'g auth_ctx option \<Rightarrow> string list \<Rightarrow> string list" where
  "filter_tools_for_scope tools caller write_tools =
     (case caller of None \<Rightarrow> tools
      | Some c \<Rightarrow> filter (\<lambda>tool. allows_tool (cx_tools c) tool write_tools) tools)"

section \<open>Facts\<close>

lemma check_entries_iff:
  "check_entries G seen es = Inr u \<longleftrightarrow>
     (\<forall>e\<in>set es. entry_validate G e = Inr ()) \<and> distinct (map te_name es) \<and>
     set (map te_name es) \<inter> set seen = {}"
  by (induction es arbitrary: seen) (auto simp: res_iffs split: if_splits)

text \<open>What a store guarantees about its entries.\<close>

definition store_ok :: "('g, 'a) grant_impl \<Rightarrow> 'g token_entry list \<Rightarrow> bool" where
  "store_ok G es \<longleftrightarrow> length es \<le> MAX_TOKENS \<and> distinct (map te_name es) \<and>
     (\<forall>e\<in>set es. entry_validate G e = Inr ())"

lemma try_new_iff: "try_new G es = Inr es' \<longleftrightarrow> es' = es \<and> store_ok G es"
  by (auto simp: try_new_def store_ok_def res_bind_Inr_iff check_entries_iff)

lemma entry_validate_scopes:
  "entry_validate G e = Inr u \<Longrightarrow>
     scope_validate ''devices'' (te_devices e) = Inr () \<and> scope_validate ''tools'' (te_tools e) = Inr ()"
  by (auto simp: entry_validate_def res_iffs)

lemma entry_validate_provenance:
  "entry_validate G e = Inr u \<Longrightarrow>
     (te_provider e = None \<longleftrightarrow> te_provider_tier e = None) \<and>
     \<not> is_blank (te_provider e) \<and> \<not> is_blank (te_on_behalf_of e) \<and>
     (te_provider e \<noteq> None \<longrightarrow> te_actor_type e \<noteq> Human)"
  by (auto simp: entry_validate_def res_iffs split: option.splits)

text \<open>The scan keeps the last live entry whose digest matches.\<close>

definition matches :: "(string \<Rightarrow> string) \<Rightarrow> string \<Rightarrow> int \<Rightarrow> 'g token_entry \<Rightarrow> bool" where
  "matches sha candidate t e \<longleftrightarrow> from_secret sha candidate = te_digest e \<and> \<not> is_expired_at e t"

lemma authenticate_fold:
  "foldl (\<lambda>found e. if digest_verify sha (te_digest e) candidate \<and> \<not> is_expired_at e t
       then Some e else found) acc es =
     (if filter (matches sha candidate t) es = [] then acc
      else Some (last (filter (matches sha candidate t) es)))"
  by (induction es arbitrary: acc) (auto simp: matches_def digest_verify_def)

lemma authenticate_at_eq:
  "authenticate_at sha es candidate t =
     (if filter (matches sha candidate t) es = [] then None
      else Some (last (filter (matches sha candidate t) es)))"
  unfolding authenticate_at_def by (rule authenticate_fold)

lemma authenticate_None_iff:
  "authenticate_at sha es candidate t = None \<longleftrightarrow> (\<forall>e\<in>set es. \<not> matches sha candidate t e)"
  unfolding authenticate_at_eq by (simp add: filter_empty_conv)

lemma authenticate_Some:
  assumes "authenticate_at sha es candidate t = Some e"
  shows "e \<in> set es" "matches sha candidate t e"
proof -
  have "e \<in> set (filter (matches sha candidate t) es)"
    using assms unfolding authenticate_at_eq by (metis last_in_set option.distinct(1) option.inject)
  then show "e \<in> set es" "matches sha candidate t e" by auto
qed

lemma authenticate_unique:
  assumes "e \<in> set es" "matches sha candidate t e"
    and "\<And>e'. e' \<in> set es \<Longrightarrow> matches sha candidate t e' \<Longrightarrow> e' = e"
  shows "authenticate_at sha es candidate t = Some e"
  using assms authenticate_None_iff [of sha es candidate t] authenticate_Some
  by (cases "authenticate_at sha es candidate t") blast+

end
