(* ===== verification/Token_File.thy ===== *)
theory Token_File
  imports Token_Store Records "HOL-Library.Monad_Syntax"
begin

text \<open>
  \<open>crates/mecmcp-auth/src/file.rs\<close>: the token file. An entry's JSON form with the spellings both
  servers write, the checks a load makes, and the operations that rewrite the file: add, rotate,
  set scopes, set provenance and revoke, each one read followed by one atomic replacement.

  Third-party code is the record \<open>auth_lib\<close>: SHA-256, chrono's RFC 3339 printer and parser and
  its \<open>from_timestamp\<close>, serde_json's reading and printing of integer literals, and the vendor
  grant's serde instance beside its \<open>Grant\<close> methods. Objects are read by field name; the
  positional array form a derived instance would also take is left out. What the operating system does during one
  command is the record \<open>token_io\<close>.
\<close>

record ('g, 'a) auth_lib = "('g, 'a) grant_impl" +
  al_sha256 :: "string \<Rightarrow> string"
  al_to_rfc3339 :: "int \<Rightarrow> string"
  al_parse_rfc3339 :: "string \<Rightarrow> int option"
  al_from_timestamp :: "int \<Rightarrow> int option"
  al_i64 :: "string \<Rightarrow> int option"
  al_u32 :: "string \<Rightarrow> nat option"
  al_grant_of_json :: "json \<Rightarrow> 'g option"
  al_grant_to_json :: "'g \<Rightarrow> json option"

abbreviation grants :: "('g, 'a) auth_lib \<Rightarrow> ('g, 'a) grant_impl" where
  "grants \<equiv> grant_impl.truncate"

section \<open>The JSON form of an entry\<close>

text \<open>
  A field of a derived \<open>Deserialize\<close>: its name or an alias, at most one occurrence; \<open>Some None\<close>
  is an absent field.
\<close>

definition json_field :: "string list \<Rightarrow> (string \<times> json) list \<Rightarrow> json option option" where
  "json_field names kvs =
     (case filter (\<lambda>(k, _). List.member names k) kvs of
        [] \<Rightarrow> Some None | [(_, v)] \<Rightarrow> Some (Some v) | _ \<Rightarrow> None)"

fun json_str :: "json \<Rightarrow> string option" where
  "json_str (JStr s) = Some s"
| "json_str _ = None"

fun json_strs :: "json list \<Rightarrow> string list option" where
  "json_strs [] = Some []"
| "json_strs (j # js) = do { s \<leftarrow> json_str j; r \<leftarrow> json_strs js; Some (s # r) }"

fun json_scope :: "json \<Rightarrow> scope_set option" where
  "json_scope (JArr js) = map_option scope_deserialize (json_strs js)"
| "json_scope _ = None"

text \<open>An optional field with a default: \<open>null\<close> is \<open>None\<close> for an \<open>Option\<close>.\<close>

definition json_opt :: "(json \<Rightarrow> 'b option) \<Rightarrow> json option \<Rightarrow> 'b option option" where
  "json_opt f v = (case v of None \<Rightarrow> Some None | Some JNull \<Rightarrow> Some None
                   | Some j \<Rightarrow> map_option Some (f j))"

definition json_default :: "'b \<Rightarrow> (json \<Rightarrow> 'b option) \<Rightarrow> json option \<Rightarrow> 'b option" where
  "json_default d f v = (case v of None \<Rightarrow> Some d | Some j \<Rightarrow> f j)"

text \<open>\<open>timestamp::Raw\<close>, an untagged enum: an RFC 3339 string or Unix seconds.\<close>

fun json_instant :: "('g, 'a) auth_lib \<Rightarrow> json \<Rightarrow> int option" where
  "json_instant A (JStr s) = al_parse_rfc3339 A s"
| "json_instant A (JNum n) = do { i \<leftarrow> al_i64 A n; al_from_timestamp A i }"
| "json_instant A _ = None"

definition tier_of_str :: "string \<Rightarrow> tier option" where
  "tier_of_str s = (if s = ''public'' then Some Public else if s = ''private'' then Some Private else None)"

definition actor_of_str :: "string \<Rightarrow> actor_type option" where
  "actor_of_str s = (if s = ''human'' then Some Human else if s = ''agent'' then Some Agent
     else if s = ''unknown'' then Some Unknown else None)"

fun entry_of_json :: "('g, 'a) auth_lib \<Rightarrow> json \<Rightarrow> 'g token_entry option" where
  "entry_of_json A (JObj kvs) = do {
     name \<leftarrow> json_field [''name''] kvs;
     name \<leftarrow> name;
     name \<leftarrow> json_str name;
     digest \<leftarrow> json_field [''digest'', ''hash''] kvs;
     digest \<leftarrow> digest;
     digest \<leftarrow> json_str digest;
     digest \<leftarrow> digest_deserialize digest;
     devices \<leftarrow> json_field [''devices'', ''routers'', ''targets''] kvs;
     devices \<leftarrow> json_default Wildcard json_scope devices;
     tools \<leftarrow> json_field [''tools''] kvs;
     tools \<leftarrow> json_default Wildcard json_scope tools;
     created \<leftarrow> json_field [''created_at'', ''created_at_unix''] kvs;
     created \<leftarrow> created;
     created \<leftarrow> json_instant A created;
     expires \<leftarrow> json_field [''expires_at'', ''expires_at_unix''] kvs;
     expires \<leftarrow> json_opt (json_instant A) expires;
     grant \<leftarrow> json_field [''grant'', ''mutation''] kvs;
     grant \<leftarrow> json_opt (al_grant_of_json A) grant;
     provider \<leftarrow> json_field [''provider''] kvs;
     provider \<leftarrow> json_opt json_str provider;
     ptier \<leftarrow> json_field [''provider_tier''] kvs;
     ptier \<leftarrow> json_opt (\<lambda>j. do { s \<leftarrow> json_str j; tier_of_str s }) ptier;
     behalf \<leftarrow> json_field [''on_behalf_of''] kvs;
     behalf \<leftarrow> json_opt json_str behalf;
     actor \<leftarrow> json_field [''actor_type''] kvs;
     actor \<leftarrow> json_default Unknown (\<lambda>j. do { s \<leftarrow> json_str j; actor_of_str s }) actor;
     Some \<lparr>te_name = name, te_digest = digest, te_devices = devices, te_tools = tools,
       te_created_at = created, te_expires_at = expires, te_grant = grant, te_provider = provider,
       te_provider_tier = ptier, te_on_behalf_of = behalf, te_actor_type = actor\<rparr> }"
| "entry_of_json A _ = None"

definition skip_none :: "string \<Rightarrow> json option \<Rightarrow> (string \<times> json) list" where
  "skip_none k v = (case v of None \<Rightarrow> [] | Some j \<Rightarrow> [(k, j)])"

definition scope_json :: "scope_set \<Rightarrow> json" where
  "scope_json s = JArr (map JStr (scope_serialize s))"

definition entry_to_json :: "('g, 'a) auth_lib \<Rightarrow> 'g token_entry \<Rightarrow> json option" where
  "entry_to_json A e = do {
     grant \<leftarrow> (case te_grant e of None \<Rightarrow> Some None
               | Some g \<Rightarrow> map_option Some (al_grant_to_json A g));
     Some (JObj (
       [(''name'', JStr (te_name e)), (''digest'', JStr (te_digest e)),
        (''devices'', scope_json (te_devices e)), (''tools'', scope_json (te_tools e)),
        (''created_at'', JStr (al_to_rfc3339 A (te_created_at e)))] @
       skip_none ''expires_at'' (map_option (\<lambda>t. JStr (al_to_rfc3339 A t)) (te_expires_at e)) @
       skip_none ''grant'' grant @
       skip_none ''provider'' (map_option JStr (te_provider e)) @
       skip_none ''provider_tier'' (map_option (\<lambda>t. JStr (tier_to_string t)) (te_provider_tier e)) @
       skip_none ''on_behalf_of'' (map_option JStr (te_on_behalf_of e)) @
       (if te_actor_type e = Unknown then []
        else [(''actor_type'', JStr (actor_type_lower (te_actor_type e)))]))) }"

section \<open>The document\<close>

definition DEFAULT_STORE_VERSION :: nat where
  "DEFAULT_STORE_VERSION = 1"

fun json_entries :: "('g, 'a) auth_lib \<Rightarrow> json list \<Rightarrow> 'g token_entry list option" where
  "json_entries A [] = Some []"
| "json_entries A (j # js) = do { e \<leftarrow> entry_of_json A j; r \<leftarrow> json_entries A js; Some (e # r) }"

text \<open>The version, the raw tokens and the entries read from them.\<close>

fun document_of_json ::
  "('g, 'a) auth_lib \<Rightarrow> json \<Rightarrow> (nat \<times> json list \<times> 'g token_entry list) option" where
  "document_of_json A (JObj kvs) = do {
     version \<leftarrow> json_field [''version''] kvs;
     version \<leftarrow> json_default DEFAULT_STORE_VERSION
                 (\<lambda>j. case j of JNum n \<Rightarrow> al_u32 A n | _ \<Rightarrow> None) version;
     tokens \<leftarrow> json_field [''tokens''] kvs;
     tokens \<leftarrow> tokens;
     (case tokens of JArr js \<Rightarrow> do { es \<leftarrow> json_entries A js; Some (version, js, es) }
      | _ \<Rightarrow> None) }"
| "document_of_json A _ = None"

fun entries_to_json :: "('g, 'a) auth_lib \<Rightarrow> 'g token_entry list \<Rightarrow> json list option" where
  "entries_to_json A [] = Some []"
| "entries_to_json A (e # es) = do { j \<leftarrow> entry_to_json A e; r \<leftarrow> entries_to_json A es; Some (j # r) }"

definition document_to_json ::
  "('g, 'a) auth_lib \<Rightarrow> nat \<Rightarrow> 'g token_entry list \<Rightarrow> json option" where
  "document_to_json A version es = do {
     js \<leftarrow> entries_to_json A es;
     Some (JObj [(''version'', JNum (decimal version)), (''tokens'', JArr js)]) }"

text \<open>
  The first key a round trip lost. \<open>dropped_fields\<close> and \<open>dropped_items\<close> are the two loops, over
  the members of an object and over an array zipped with its rewritten form.
\<close>

fun first_dropped_key :: "json \<Rightarrow> json \<Rightarrow> string option"
  and dropped_fields :: "(string \<times> json) list \<Rightarrow> (string \<times> json) list \<Rightarrow> string option"
  and dropped_items :: "nat \<Rightarrow> json list \<Rightarrow> json list \<Rightarrow> string option" where
  "first_dropped_key (JObj before) (JObj after) = dropped_fields before after"
| "first_dropped_key (JArr before) (JArr after) = dropped_items 0 before after"
| "first_dropped_key _ _ = None"
| "dropped_fields [] after = None"
| "dropped_fields ((key, v) # before) after =
     (case map_of after key of None \<Rightarrow> Some key
      | Some kept \<Rightarrow>
          (case first_dropped_key v kept of
             Some nested \<Rightarrow> Some (key @ ''.'' @ nested)
           | None \<Rightarrow> dropped_fields before after))"
| "dropped_items i (b # bs) (a # as) =
     (case first_dropped_key b a of
        Some nested \<Rightarrow> Some (''['' @ decimal i @ ''].'' @ nested)
      | None \<Rightarrow> dropped_items (i + 1) bs as)"
| "dropped_items i _ _ = None"

section \<open>The file\<close>

datatype file_error = FIo string | FParse | FStore store_error | FPermissions string

definition invalid :: "string \<Rightarrow> file_error" where
  "invalid m = FStore (SEntry (EInvalid m))"

datatype file_body = NotUtf8 | NotJson | Body json

record token_disk =
  td_body :: file_body
  td_owner :: "nat \<times> nat"
  td_mode :: nat

text \<open>What the hardened reader of \<open>mecmcp-secret\<close> answers before the content is looked at.\<close>

datatype secret_error = FileIo string | Refused string

record token_io =
  ti_exists :: bool
  ti_read :: "secret_error option"
  ti_random :: "string option"
  ti_now :: int
  ti_tempfile :: "string option"
  ti_chmod :: "string option"
  ti_write :: "string option"
  ti_sync :: "string option"
  ti_persist :: "string option"
  ti_temp_owner :: "nat \<times> nat"
  ti_stat_dest :: bool
  ti_stat_temp :: bool
  ti_chown :: bool

type_synonym ('e, 'b) tfile = "(token_disk option, 'e, 'b) act"

definition map_secret_error :: "secret_error \<Rightarrow> file_error" where
  "map_secret_error e = (case e of FileIo k \<Rightarrow> FIo k | Refused d \<Rightarrow> FPermissions d)"

definition check_supported_version :: "nat \<Rightarrow> file_error + unit" where
  "check_supported_version version =
     require (version = 1 \<or> version = 2)
       (invalid (''unsupported store version '' @ decimal version @ '', supported versions: 1, 2''))"

text \<open>One turn of the loop over the raw tokens: the raw value and the entry at its index.\<close>

definition reject_dropped_grant ::
  "('g, 'a) auth_lib \<Rightarrow> json \<times> 'g token_entry \<Rightarrow> file_error + unit" where
  "reject_dropped_grant A p =
     (let (raw_token, e) = p
      in case (case raw_token of JObj kvs \<Rightarrow> map_of kvs ''grant'' | _ \<Rightarrow> None) of
           None \<Rightarrow> Inr ()
         | Some JNull \<Rightarrow> Inr ()
         | Some raw_grant \<Rightarrow>
             (case te_grant e of
                None \<Rightarrow> Inl (invalid (''token '' @ quoted (te_name e) @
                  '' carries a grant this build cannot represent; refusing to rewrite the file and drop it''))
              | Some g \<Rightarrow>
                  (case al_grant_to_json A g of
                     None \<Rightarrow> Inl (invalid (''token '' @ quoted (te_name e) @ '' grant is not serializable''))
                   | Some round_tripped \<Rightarrow>
                       (case first_dropped_key raw_grant round_tripped of
                          None \<Rightarrow> Inr ()
                        | Some field \<Rightarrow> Inl (invalid (''token '' @ quoted (te_name e) @ '' grant has field '' @
                            quoted field @ '' that this build does not understand''))))))"

definition reject_dropped_grant_fields ::
  "('g, 'a) auth_lib \<Rightarrow> json list \<Rightarrow> 'g token_entry list \<Rightarrow> file_error + unit" where
  "reject_dropped_grant_fields A raw es = check_all (reject_dropped_grant A) (zip raw es)"

definition parse_store ::
  "('g, 'a) auth_lib \<Rightarrow> file_body \<Rightarrow> file_error + 'g token_entry list \<times> nat" where
  "parse_store A body =
     (case body of NotUtf8 \<Rightarrow> Inl (FIo ''InvalidData'') | NotJson \<Rightarrow> Inl FParse
      | Body j \<Rightarrow>
          (case document_of_json A j of None \<Rightarrow> Inl FParse
           | Some (version, raw, es) \<Rightarrow>
               res_bind (check_supported_version version)
               (\<lambda>_. res_bind (reject_dropped_grant_fields A raw es)
               (\<lambda>_. res_bind (map_err FStore (try_new (grants A) es))
               (\<lambda>store. Inr (store, version))))))"

definition read_store ::
  "('g, 'a) auth_lib \<Rightarrow> token_io \<Rightarrow> (file_error, 'g token_entry list \<times> nat) tfile" where
  "read_store A io =
     bnd (gets (\<lambda>d. d)) (\<lambda>d.
       case d of None \<Rightarrow> fail (FIo ''NotFound'')
       | Some f \<Rightarrow>
           (case ti_read io of Some e \<Rightarrow> fail (map_secret_error e)
            | None \<Rightarrow> lift (parse_store A (td_body f))))"

definition needs_ownership_change :: "nat \<times> nat \<Rightarrow> nat \<times> nat \<Rightarrow> bool" where
  "needs_ownership_change replacement destination \<longleftrightarrow>
     fst replacement \<noteq> fst destination \<or> snd replacement \<noteq> snd destination"

definition io_step :: "string option \<Rightarrow> (file_error, unit) tfile" where
  "io_step r = (case r of None \<Rightarrow> ret () | Some e \<Rightarrow> fail (FIo e))"

definition replacement_owner :: "token_io \<Rightarrow> token_disk option \<Rightarrow> nat \<times> nat" where
  "replacement_owner io d =
     (case d of None \<Rightarrow> ti_temp_owner io
      | Some f \<Rightarrow>
          if ti_stat_dest io \<and> ti_stat_temp io \<and>
             needs_ownership_change (ti_temp_owner io) (td_owner f) \<and> ti_chown io
          then td_owner f else ti_temp_owner io)"

text \<open>The permission bits \<open>0o600\<close> are the number 384.\<close>

definition write_atomic ::
  "('g, 'a) auth_lib \<Rightarrow> token_io \<Rightarrow> 'g token_entry list \<Rightarrow> nat \<Rightarrow> (file_error, unit) tfile" where
  "write_atomic A io es version =
     bnd (lift (check_supported_version version)) (\<lambda>_.
       case document_to_json A version es of None \<Rightarrow> fail FParse
       | Some body \<Rightarrow>
           bnd (io_step (ti_tempfile io)) (\<lambda>_.
           bnd (io_step (ti_chmod io)) (\<lambda>_.
           bnd (io_step (ti_write io)) (\<lambda>_.
           bnd (io_step (ti_sync io)) (\<lambda>_.
           bnd (gets (replacement_owner io)) (\<lambda>owner.
           bnd (io_step (ti_persist io)) (\<lambda>_.
             modify (\<lambda>_. Some \<lparr>td_body = Body body, td_owner = owner, td_mode = 384\<rparr>))))))))"

section \<open>References and scope agreement\<close>

record known_names =
  kn_devices :: "string list option"
  kn_tools :: "string list"

definition validate_scope_agreement :: "('g, 'a) auth_lib \<Rightarrow> 'g token_entry \<Rightarrow> string + unit" where
  "validate_scope_agreement A e =
     (let target_scoped_grant =
            (case te_grant e of None \<Rightarrow> False | Some g \<Rightarrow> gi_subjects_are_targets A g)
      in require (\<not> (target_scoped_grant \<and> te_devices e = Wildcard))
           (''token '' @ quoted (te_name e) @
            '' pairs a wildcard target scope with a grant that names specific targets''))"

definition entry_references :: "known_names \<Rightarrow> 'g token_entry \<Rightarrow> string + unit" where
  "entry_references known e =
     res_bind (case (te_devices e, kn_devices known) of
         (Allowlist devices, Some known_devices) \<Rightarrow>
           check_all (\<lambda>d. require (List.member known_devices d)
             (''token '' @ quoted (te_name e) @ '' references unknown device '' @ quoted d)) devices
       | _ \<Rightarrow> Inr ())
     (\<lambda>_. case te_tools e of
         Allowlist tools \<Rightarrow>
           check_all (\<lambda>t. require (List.member (kn_tools known) t)
             (''token '' @ quoted (te_name e) @ '' references unknown tool '' @ quoted t)) tools
       | Wildcard \<Rightarrow> Inr ())"

definition validate_references :: "known_names \<Rightarrow> 'g token_entry list \<Rightarrow> string + unit" where
  "validate_references known store = check_all (entry_references known) store"

section \<open>Operations on the file\<close>

definition update_named ::
  "string \<Rightarrow> ('g token_entry \<Rightarrow> 'g token_entry) \<Rightarrow> 'g token_entry list \<Rightarrow> 'g token_entry list" where
  "update_named name f es = map (\<lambda>e. if te_name e = name then f e else e) es"

definition has_name :: "string \<Rightarrow> 'g token_entry list \<Rightarrow> bool" where
  "has_name name es = list_ex (\<lambda>e. te_name e = name) es"

definition does_not_exist :: "string \<Rightarrow> file_error" where
  "does_not_exist name = invalid (''token '' @ quoted name @ '' does not exist'')"

text \<open>The checks of \<open>add\<close> and \<open>set_scopes\<close> on the one entry they write.\<close>

definition agree_on ::
  "('g, 'a) auth_lib \<Rightarrow> string \<Rightarrow> string \<Rightarrow> 'g token_entry list \<Rightarrow> file_error + unit" where
  "agree_on A name missing es =
     (case find (\<lambda>e. te_name e = name) es of None \<Rightarrow> Inl (invalid missing)
      | Some e \<Rightarrow> map_err invalid (validate_scope_agreement A e))"

record 'g new_token =
  nt_name :: string
  nt_devices :: scope_set
  nt_tools :: scope_set
  nt_expires_at :: "int option"
  nt_grant :: "'g option"
  nt_provider :: "string option"
  nt_provider_tier :: "tier option"
  nt_on_behalf_of :: "string option"
  nt_actor_type :: "actor_type option"

definition entry_for :: "'g new_token \<Rightarrow> string \<Rightarrow> int \<Rightarrow> 'g token_entry" where
  "entry_for n digest t =
     \<lparr>te_name = nt_name n, te_digest = digest, te_devices = nt_devices n, te_tools = nt_tools n,
      te_created_at = t, te_expires_at = nt_expires_at n, te_grant = nt_grant n,
      te_provider = nt_provider n, te_provider_tier = nt_provider_tier n,
      te_on_behalf_of = nt_on_behalf_of n,
      te_actor_type = (case nt_actor_type n of None \<Rightarrow> Unknown | Some a \<Rightarrow> a)\<rparr>"

definition mint_secret :: "('g, 'a) auth_lib \<Rightarrow> token_io \<Rightarrow> file_error + string \<times> string" where
  "mint_secret A io = map_err invalid (mint (al_sha256 A) (ti_random io))"

definition add_with_options ::
  "('g, 'a) auth_lib \<Rightarrow> token_io \<Rightarrow> 'g new_token \<Rightarrow> known_names \<Rightarrow> (file_error, string) tfile" where
  "add_with_options A io n known =
     bnd (gets (\<lambda>d. d \<noteq> None \<and> ti_exists io)) (\<lambda>there.
     bnd (if there then read_store A io else ret ([], DEFAULT_STORE_VERSION)) (\<lambda>(current, version).
     bnd (ensure (\<not> has_name (nt_name n) current)
            (FStore (SDuplicate (''token '' @ quoted (nt_name n) @ '' already exists'')))) (\<lambda>_.
     bnd (lift (mint_secret A io)) (\<lambda>(secret, digest).
     bnd (lift (map_err FStore (try_new (grants A) (current @ [entry_for n digest (ti_now io)]))))
       (\<lambda>updated.
     bnd (lift (map_err invalid (validate_references known updated))) (\<lambda>_.
     bnd (lift (agree_on A (nt_name n) ''minted token missing from store'' updated)) (\<lambda>_.
     bnd (write_atomic A io updated version) (\<lambda>_.
     ret secret))))))))"

definition add_token ::
  "('g, 'a) auth_lib \<Rightarrow> token_io \<Rightarrow> string \<Rightarrow> scope_set \<Rightarrow> scope_set \<Rightarrow> known_names \<Rightarrow>
   (file_error, string) tfile" where
  "add_token A io name devices tools known =
     add_with_options A io
       \<lparr>nt_name = name, nt_devices = devices, nt_tools = tools, nt_expires_at = None,
        nt_grant = None, nt_provider = None, nt_provider_tier = None, nt_on_behalf_of = None,
        nt_actor_type = None\<rparr> known"

definition rotate_token ::
  "('g, 'a) auth_lib \<Rightarrow> token_io \<Rightarrow> string \<Rightarrow> known_names \<Rightarrow> (file_error, string) tfile" where
  "rotate_token A io name known =
     bnd (read_store A io) (\<lambda>(current, version).
     bnd (ensure (has_name name current) (does_not_exist name)) (\<lambda>_.
     bnd (lift (mint_secret A io)) (\<lambda>(secret, digest).
     bnd (lift (map_err FStore (try_new (grants A)
            (update_named name (\<lambda>e. e\<lparr>te_digest := digest\<rparr>) current)))) (\<lambda>updated.
     bnd (lift (map_err invalid (validate_references known updated))) (\<lambda>_.
     bnd (write_atomic A io updated version) (\<lambda>_.
     ret secret))))))"

definition set_scopes ::
  "('g, 'a) auth_lib \<Rightarrow> token_io \<Rightarrow> string \<Rightarrow> scope_set option \<Rightarrow> scope_set option \<Rightarrow> 'g option \<Rightarrow>
   known_names \<Rightarrow> (file_error, unit) tfile" where
  "set_scopes A io name devices tools grant known =
     bnd (read_store A io) (\<lambda>(current, version).
     bnd (ensure (has_name name current) (does_not_exist name)) (\<lambda>_.
     bnd (lift (map_err FStore (try_new (grants A)
            (update_named name (\<lambda>e. e
               \<lparr>te_devices := (case devices of None \<Rightarrow> te_devices e | Some d \<Rightarrow> d),
                te_tools := (case tools of None \<Rightarrow> te_tools e | Some t \<Rightarrow> t),
                te_grant := (case grant of None \<Rightarrow> te_grant e | Some g \<Rightarrow> Some g)\<rparr>) current))))
       (\<lambda>updated.
     bnd (lift (map_err invalid (validate_references known updated))) (\<lambda>_.
     bnd (lift (agree_on A name
            (''token '' @ quoted name @ '' missing from store after scope change'') updated)) (\<lambda>_.
     write_atomic A io updated version)))))"

definition set_provenance ::
  "('g, 'a) auth_lib \<Rightarrow> token_io \<Rightarrow> string \<Rightarrow> string option \<Rightarrow> tier option \<Rightarrow> string option \<Rightarrow>
   actor_type option \<Rightarrow> (file_error, unit) tfile" where
  "set_provenance A io name provider provider_tier on_behalf_of actor =
     bnd (read_store A io) (\<lambda>(current, version).
     bnd (ensure (has_name name current) (does_not_exist name)) (\<lambda>_.
     bnd (lift (map_err FStore (try_new (grants A)
            (update_named name (\<lambda>e. e
               \<lparr>te_provider := provider, te_provider_tier := provider_tier,
                te_on_behalf_of := on_behalf_of,
                te_actor_type := (case actor of None \<Rightarrow> Unknown | Some a \<Rightarrow> a)\<rparr>) current))))
       (\<lambda>updated.
     write_atomic A io updated version)))"

definition revoke_token ::
  "('g, 'a) auth_lib \<Rightarrow> token_io \<Rightarrow> string \<Rightarrow> known_names \<Rightarrow> (file_error, bool) tfile" where
  "revoke_token A io name known =
     bnd (read_store A io) (\<lambda>(current, version).
     let entries = filter (\<lambda>e. te_name e \<noteq> name) current;
         removed = (length current \<noteq> length entries)
     in if removed
        then bnd (lift (map_err FStore (try_new (grants A) entries))) (\<lambda>updated.
             bnd (lift (map_err invalid (validate_references known updated))) (\<lambda>_.
             bnd (write_atomic A io updated version) (\<lambda>_.
             ret True)))
        else ret False)"

section \<open>The loaded store\<close>

text \<open>\<open>TokenStoreFile\<close>: the snapshot a server authenticates against. A failed reload keeps it.\<close>

record 'g token_store_file =
  tsf_store :: "'g token_entry list"
  tsf_version :: nat

definition load_file ::
  "('g, 'a) auth_lib \<Rightarrow> token_io \<Rightarrow> token_disk option \<Rightarrow> file_error + 'g token_store_file" where
  "load_file A io d =
     res_bind (fst (read_store A io d)) (\<lambda>(store, version).
       Inr \<lparr>tsf_store = store, tsf_version = version\<rparr>)"

definition reload ::
  "('g, 'a) auth_lib \<Rightarrow> token_io \<Rightarrow> token_disk option \<Rightarrow>
   ('g token_store_file, file_error, unit) act" where
  "reload A io d =
     bnd (lift (fst (read_store A io d))) (\<lambda>(store, version).
     bnd (modify (tsf_store_update (\<lambda>_. store))) (\<lambda>_.
     modify (tsf_version_update (\<lambda>_. version))))"

section \<open>Choosing the path\<close>

datatype stat_answer = Present | Missing | StatError string

record resolved_token_path =
  rp_path :: string
  rp_used_fallback :: bool
  rp_fallback_from :: "string option"

definition resolve_token_path ::
  "(string \<Rightarrow> stat_answer) \<Rightarrow> string \<Rightarrow> string \<Rightarrow> string + resolved_token_path" where
  "resolve_token_path metadata primary fallback =
     (case metadata primary of
        Present \<Rightarrow> Inr \<lparr>rp_path = primary, rp_used_fallback = False, rp_fallback_from = None\<rparr>
      | Missing \<Rightarrow>
          (case metadata fallback of
             Present \<Rightarrow> Inr \<lparr>rp_path = fallback, rp_used_fallback = True, rp_fallback_from = Some primary\<rparr>
           | Missing \<Rightarrow> Inr \<lparr>rp_path = primary, rp_used_fallback = False, rp_fallback_from = None\<rparr>
           | StatError e \<Rightarrow> Inl e)
      | StatError e \<Rightarrow> Inl e)"

end
