(* ===== verification/Token_Facts.thy ===== *)
theory Token_Facts
  imports Token_File
begin

text \<open>
  What the token file operations establish: the JSON form of a valid store reads back as the
  store, an operation that fails leaves the file alone, and one that succeeds leaves a file that
  loads as the intended store.
\<close>

section \<open>Round trips\<close>

fun wf_json :: "json \<Rightarrow> bool" where
  "wf_json (JObj kvs) \<longleftrightarrow> distinct (map fst kvs) \<and> list_all (\<lambda>p. wf_json (snd p)) kvs"
| "wf_json (JArr js) \<longleftrightarrow> list_all wf_json js"
| "wf_json _ \<longleftrightarrow> True"

text \<open>
  Documented behaviour of the libraries: an instant chrono prints parses back, serde_json reads
  the number it printed, and the grant's serde instance reads what it wrote, which is never
  \<open>null\<close> and has no key twice.
\<close>

definition sound_lib :: "('g, 'a) auth_lib \<Rightarrow> bool" where
  "sound_lib A \<longleftrightarrow>
     (\<forall>t. al_parse_rfc3339 A (al_to_rfc3339 A t) = Some t) \<and>
     (\<forall>v < 2 ^ 32. al_u32 A (decimal v) = Some v) \<and>
     (\<forall>g j. al_grant_to_json A g = Some j \<longrightarrow>
        al_grant_of_json A j = Some g \<and> j \<noteq> JNull \<and> wf_json j)"

lemma sound_libD:
  assumes "sound_lib A"
  shows "al_parse_rfc3339 A (al_to_rfc3339 A t) = Some t"
    and "v < 2 ^ 32 \<Longrightarrow> al_u32 A (decimal v) = Some v"
    and "al_grant_to_json A g = Some j \<Longrightarrow> al_grant_of_json A j = Some g"
    and "al_grant_to_json A g = Some j \<Longrightarrow> j \<noteq> JNull"
    and "al_grant_to_json A g = Some j \<Longrightarrow> wf_json j"
  using assms by (auto simp: sound_lib_def)

lemma json_field_simps [simp]:
  "json_field names [] = Some None"
  "\<not> List.member names k \<Longrightarrow> json_field names ((k, v) # kvs) = json_field names kvs"
  "List.member names k \<Longrightarrow> json_field names ((k, v) # kvs) =
     (if json_field names kvs = Some None then Some (Some v) else None)"
  by (auto simp: json_field_def split: list.splits prod.splits)

lemma json_field_skip [simp]:
  "\<not> List.member names k \<Longrightarrow> json_field names (skip_none k v @ kvs) = json_field names kvs"
  "List.member names k \<Longrightarrow> json_field names (skip_none k v @ kvs) =
     (case v of None \<Rightarrow> json_field names kvs
      | Some j \<Rightarrow> if json_field names kvs = Some None then Some (Some j) else None)"
  by (auto simp: skip_none_def split: option.split)

lemma json_field_skip_last [simp]:
  "json_field names (skip_none k v) = (if List.member names k then Some v else Some None)"
  using json_field_skip [of names k v "[]"] by (cases v) auto

lemma json_strs_map [simp]: "json_strs (map JStr ss) = Some ss"
  by (induction ss) auto

lemma json_scope_json [simp]:
  "scope_validate f s = Inr () \<Longrightarrow> json_scope (scope_json s) = Some s"
  using scope_round_trip [of f s] by (simp add: scope_json_def)

lemma json_opt_simps [simp]:
  "json_opt f None = Some None"
  "json_opt f (Some (JStr s)) = map_option Some (f (JStr s))"
  "j \<noteq> JNull \<Longrightarrow> json_opt f (Some j) = map_option Some (f j)"
  by (auto simp: json_opt_def split: json.splits)

lemma json_default_simps [simp]:
  "json_default d f None = Some d" "json_default d f (Some j) = f j"
  by (simp_all add: json_default_def)

lemma tier_round [simp]: "tier_of_str (tier_to_string t) = Some t"
  by (cases t) (simp_all add: tier_of_str_def)

lemma actor_round [simp]: "actor_of_str (actor_type_lower t) = Some t"
  by (cases t) (simp_all add: actor_of_str_def)

definition prefixed :: "'g token_entry \<Rightarrow> bool" where
  "prefixed e \<longleftrightarrow> starts_with DIGEST_PREFIX (te_digest e)"

definition entry_fields :: "('g, 'a) auth_lib \<Rightarrow> json option \<Rightarrow> 'g token_entry \<Rightarrow> (string \<times> json) list" where
  "entry_fields A grant e =
       [(''name'', JStr (te_name e)), (''digest'', JStr (te_digest e)),
        (''devices'', scope_json (te_devices e)), (''tools'', scope_json (te_tools e)),
        (''created_at'', JStr (al_to_rfc3339 A (te_created_at e)))] @
       skip_none ''expires_at'' (map_option (\<lambda>t. JStr (al_to_rfc3339 A t)) (te_expires_at e)) @
       skip_none ''grant'' grant @
       skip_none ''provider'' (map_option JStr (te_provider e)) @
       skip_none ''provider_tier'' (map_option (\<lambda>t. JStr (tier_to_string t)) (te_provider_tier e)) @
       skip_none ''on_behalf_of'' (map_option JStr (te_on_behalf_of e)) @
       (if te_actor_type e = Unknown then []
        else [(''actor_type'', JStr (actor_type_lower (te_actor_type e)))])"

lemma json_field_actor [simp]:
  "json_field names (if b then [] else [(k, v)]) =
     (if \<not> b \<and> List.member names k then Some (Some v) else Some None)"
  by (simp add: json_field_def)

lemma json_field_entry:
  "json_field [''name''] (entry_fields A g e) = Some (Some (JStr (te_name e)))"
  "json_field [''digest'', ''hash''] (entry_fields A g e) = Some (Some (JStr (te_digest e)))"
  "json_field [''devices'', ''routers'', ''targets''] (entry_fields A g e) = Some (Some (scope_json (te_devices e)))"
  "json_field [''tools''] (entry_fields A g e) = Some (Some (scope_json (te_tools e)))"
  "json_field [''created_at'', ''created_at_unix''] (entry_fields A g e) =
     Some (Some (JStr (al_to_rfc3339 A (te_created_at e))))"
  "json_field [''expires_at'', ''expires_at_unix''] (entry_fields A g e) =
     Some (map_option (\<lambda>t. JStr (al_to_rfc3339 A t)) (te_expires_at e))"
  "json_field [''grant'', ''mutation''] (entry_fields A g e) = Some g"
  "json_field [''provider''] (entry_fields A g e) = Some (map_option JStr (te_provider e))"
  "json_field [''provider_tier''] (entry_fields A g e) =
     Some (map_option (\<lambda>t. JStr (tier_to_string t)) (te_provider_tier e))"
  "json_field [''on_behalf_of''] (entry_fields A g e) = Some (map_option JStr (te_on_behalf_of e))"
  "json_field [''actor_type''] (entry_fields A g e) =
     Some (if te_actor_type e = Unknown then None else Some (JStr (actor_type_lower (te_actor_type e))))"
  unfolding entry_fields_def by (simp_all split: option.split)

lemma entry_to_json_iff:
  "entry_to_json A e = Some j \<longleftrightarrow>
     (\<exists>g. (case te_grant e of None \<Rightarrow> g = None
           | Some x \<Rightarrow> \<exists>y. al_grant_to_json A x = Some y \<and> g = Some y) \<and>
          j = JObj (entry_fields A g e))"
proof (cases "te_grant e")
  case None
  then show ?thesis by (auto simp: entry_to_json_def entry_fields_def)
next
  case (Some x)
  then show ?thesis
    by (cases "al_grant_to_json A x") (auto simp: entry_to_json_def entry_fields_def)
qed

lemma entry_round_trip:
  assumes "sound_lib A" "entry_validate G e = Inr ()" "prefixed e" "entry_to_json A e = Some j"
  shows "entry_of_json A j = Some e"
proof -
  note lib = sound_libD [OF assms(1)]
  from assms(4) obtain g where j: "j = JObj (entry_fields A g e)"
    and g: "case te_grant e of None \<Rightarrow> g = None
       | Some x \<Rightarrow> \<exists>y. al_grant_to_json A x = Some y \<and> g = Some y"
    by (auto simp: entry_to_json_iff)
  from g have grant: "json_opt (al_grant_of_json A) g = Some (te_grant e)"
    using lib(3,4) by (auto split: option.splits)
  have scopes: "json_scope (scope_json (te_devices e)) = Some (te_devices e)"
    "json_scope (scope_json (te_tools e)) = Some (te_tools e)"
    using entry_validate_scopes [OF assms(2)] by auto
  have instants: "json_opt (json_instant A) (map_option (\<lambda>t. JStr (al_to_rfc3339 A t)) v) = Some v" for v
    by (cases v) (simp_all add: lib(1))
  have strs: "json_opt json_str (map_option JStr v) = Some v" for v
    by (cases v) simp_all
  have tiers: "json_opt (\<lambda>j. do { s \<leftarrow> json_str j; tier_of_str s })
      (map_option (\<lambda>t. JStr (tier_to_string t)) v) = Some v" for v
    by (cases v) simp_all
  have actor: "json_default Unknown (\<lambda>j. do { s \<leftarrow> json_str j; actor_of_str s })
      (if a = Unknown then None else Some (JStr (actor_type_lower a))) = Some a" for a
    by simp
  have digest: "digest_deserialize (te_digest e) = Some (te_digest e)"
    using assms(3) by (simp add: digest_deserialize_def prefixed_def)
  show ?thesis
    unfolding j entry_of_json.simps json_field_entry Option.bind.simps instants strs tiers actor grant
    by (simp add: scopes lib(1) digest)
qed

lemma nothing_dropped:
  "wf_json j \<Longrightarrow> j' = j \<Longrightarrow> first_dropped_key j j' = None"
  "\<forall>(k, v)\<in>set before. wf_json v \<and> map_of after k = Some v \<Longrightarrow> dropped_fields before after = None"
  "list_all wf_json bs \<Longrightarrow> as = bs \<Longrightarrow> dropped_items i bs as = None"
proof (induction j j' and before after and i bs as rule: first_dropped_key_dropped_fields_dropped_items.induct)
  case (1 before after)
  then have "\<forall>(k, v)\<in>set before. wf_json v \<and> map_of after k = Some v"
    by (auto simp: list_all_iff)
  then show ?case using 1 by simp
qed (auto split: option.splits)

lemma entries_round_trip:
  assumes "sound_lib A"
  shows "\<lbrakk>\<And>e. e \<in> set es \<Longrightarrow> entry_validate G e = Inr () \<and> prefixed e; entries_to_json A es = Some js\<rbrakk> \<Longrightarrow>
    json_entries A js = Some es \<and> reject_dropped_grant_fields A js es = Inr ()"
proof (induction es arbitrary: js)
  case Nil
  then show ?case by (simp add: reject_dropped_grant_fields_def)
next
  case (Cons e es)
  then obtain j r where js: "js = j # r" "entry_to_json A e = Some j" "entries_to_json A es = Some r"
    by (auto split: bind_splits)
  from js(2) obtain g where j: "j = JObj (entry_fields A g e)"
    and g: "case te_grant e of None \<Rightarrow> g = None
       | Some x \<Rightarrow> \<exists>y. al_grant_to_json A x = Some y \<and> g = Some y"
    by (auto simp: entry_to_json_iff)
  have "map_of (entry_fields A g e) ''grant'' = g"
    by (auto simp: entry_fields_def skip_none_def split: option.split)
  then have "reject_dropped_grant A (j, e) = Inr ()"
  proof (cases "te_grant e")
    case (Some x)
    with g obtain y where y: "al_grant_to_json A x = Some y" "g = Some y" by auto
    then have "first_dropped_key y y = None" "y \<noteq> JNull"
      using nothing_dropped(1) sound_libD(4,5) [OF assms] by blast+
    with y Some \<open>map_of _ _ = g\<close> show ?thesis
      by (cases y) (simp_all add: reject_dropped_grant_def j del: first_dropped_key.simps)
  qed (use g in \<open>simp add: reject_dropped_grant_def j\<close>)
  moreover have "entry_of_json A j = Some e"
    using entry_round_trip [OF assms _ _ js(2)] Cons.prems(1) by auto
  ultimately show ?case
    using Cons.IH [OF _ js(3)] Cons.prems(1) by (simp add: js reject_dropped_grant_fields_def)
qed

text \<open>A store that \<open>write_atomic\<close> may be handed: what every operation below produces.\<close>

definition storable :: "('g, 'a) auth_lib \<Rightarrow> 'g token_entry list \<Rightarrow> nat \<Rightarrow> bool" where
  "storable A es version \<longleftrightarrow> store_ok (grants A) es \<and> (\<forall>e\<in>set es. prefixed e) \<and>
     (version = 1 \<or> version = 2)"

lemma document_round_trip:
  assumes "sound_lib A" "storable A es version" "document_to_json A version es = Some body"
  shows "parse_store A (Body body) = Inr (es, version)"
proof -
  from assms(3) obtain js where js: "entries_to_json A es = Some js"
    "body = JObj [(''version'', JNum (decimal version)), (''tokens'', JArr js)]"
    by (auto simp: document_to_json_def split: bind_splits)
  from assms(2) have ok: "store_ok (grants A) es" "version = 1 \<or> version = 2"
    "\<And>e. e \<in> set es \<Longrightarrow> entry_validate (grants A) e = Inr () \<and> prefixed e"
    by (auto simp: storable_def store_ok_def)
  have v: "al_u32 A (decimal version) = Some version"
    using sound_libD(2) [OF assms(1), of version] ok(2) by auto
  note es = entries_round_trip [OF assms(1) ok(3) js(1)]
  then show ?thesis
    using ok v try_new_iff [of "grants A" es es]
    by (simp add: parse_store_def js(2) check_supported_version_def map_err_def del: decimal.simps)
qed

lemma json_entries_prefixed: "json_entries A js = Some es \<Longrightarrow> e \<in> set es \<Longrightarrow> prefixed e"
proof (induction js arbitrary: es)
  case (Cons j js)
  then obtain e' r where es: "es = e' # r" "entry_of_json A j = Some e'" "json_entries A js = Some r"
    by (auto split: bind_splits)
  have "prefixed e'"
  proof (cases j)
    case (JObj kvs)
    with es(2) show ?thesis
      by (auto simp: prefixed_def digest_deserialize_def split: bind_splits if_splits)
  qed (use es(2) in simp_all)
  with Cons es show ?case by auto
qed simp

lemma parse_store_storable: "parse_store A body = Inr (es, version) \<Longrightarrow> storable A es version"
proof -
  assume r: "parse_store A body = Inr (es, version)"
  then obtain j raw where d: "body = Body j" "document_of_json A j = Some (version, raw, es)"
    "version = 1 \<or> version = 2" "store_ok (grants A) es"
    by (auto simp: parse_store_def res_iffs try_new_iff check_supported_version_def
        split: file_body.splits option.splits)
  moreover from d(2) have "json_entries A raw = Some es"
    by (cases j) (auto split: bind_splits json.splits)
  ultimately show ?thesis
    using json_entries_prefixed [of A raw es] by (auto simp: storable_def)
qed

section \<open>The operations\<close>

text \<open>The file loads as this store and version.\<close>

definition loads :: "('g, 'a) auth_lib \<Rightarrow> token_disk option \<Rightarrow> 'g token_entry list \<Rightarrow> nat \<Rightarrow> bool" where
  "loads A d es version \<longleftrightarrow> (\<exists>f. d = Some f \<and> parse_store A (td_body f) = Inr (es, version))"

lemma loads_unique: "loads A d es v \<Longrightarrow> loads A d es' v' \<Longrightarrow> es' = es \<and> v' = v"
  by (auto simp: loads_def)

lemma loads_storable: "loads A d es v \<Longrightarrow> storable A es v"
  by (auto simp: loads_def dest: parse_store_storable)

lemma read_store_spec:
  "spec (\<lambda>s. s = d) (read_store A io) (\<lambda>(es, v) s. s = d \<and> loads A d es v) (\<lambda>_ s. s = d)"
  by (rule specI) (auto simp: read_store_def loads_def act_defs split: option.splits sum.splits)

lemma io_step_cases: "io_step r s = (case r of None \<Rightarrow> (Inr (), s) | Some e \<Rightarrow> (Inl (FIo e), s))"
  by (auto simp: io_step_def act_defs split: option.split)

text \<open>An atomic write replaces the file with the rendered document or changes nothing.\<close>

lemma write_atomic_spec:
  assumes "sound_lib A" "storable A es v"
  shows "spec (\<lambda>s. s = d) (write_atomic A io es v)
    (\<lambda>_ s. loads A s es v \<and> (\<exists>f. s = Some f \<and> td_mode f = 384 \<and> td_owner f = replacement_owner io d))
    (\<lambda>_ s. s = d)"
proof (rule specI)
  fix s x t
  assume s: "s = d" and r: "write_atomic A io es v s = (Inr x, t)"
  then obtain body where "document_to_json A v es = Some body"
    "t = Some \<lparr>td_body = Body body, td_owner = replacement_owner io d, td_mode = 384\<rparr>"
    by (auto simp: write_atomic_def act_defs io_step_cases split: option.splits sum.splits)
  with document_round_trip [OF assms] show "loads A t es v \<and>
      (\<exists>f. t = Some f \<and> td_mode f = 384 \<and> td_owner f = replacement_owner io d)"
    by (auto simp: loads_def)
next
  fix s e t
  assume "s = d" "write_atomic A io es v s = (Inl e, t)"
  then show "t = d"
    by (auto simp: write_atomic_def act_defs io_step_cases split: option.splits sum.splits)
qed

lemma has_name_iff: "has_name n es \<longleftrightarrow> n \<in> te_name ` set es"
  by (auto simp: has_name_def list_ex_iff)

lemma storable_update:
  assumes "storable A es v" "store_ok (grants A) (update_named n f es)"
    "\<And>e. prefixed e \<Longrightarrow> prefixed (f e)"
  shows "storable A (update_named n f es) v"
  using assms by (auto simp: storable_def update_named_def)

lemma update_named_digest:
  assumes "e \<in> set (update_named n (\<lambda>e. e\<lparr>te_digest := x\<rparr>) es)" "te_name e = n"
  shows "te_digest e = x"
proof -
  from assms(1) obtain e' where "e = (if te_name e' = n then e'\<lparr>te_digest := x\<rparr> else e')"
    unfolding update_named_def set_map by blast
  then show ?thesis using assms(2) by (cases "te_name e' = n") simp_all
qed

lemma mint_secret_digest:
  "mint_secret A io = Inr (secret, digest) \<Longrightarrow>
     digest = from_secret (al_sha256 A) secret \<and> starts_with DIGEST_PREFIX digest \<and>
     (\<exists>bytes. ti_random io = Some bytes \<and> secret = base64url_no_pad bytes)"
  by (auto simp: mint_secret_def mint_def from_secret_def starts_with_def Let_def split: option.splits)

abbreviation same :: "token_disk option \<Rightarrow> 'e \<Rightarrow> token_disk option \<Rightarrow> bool" where
  "same d \<equiv> (\<lambda>_ s. s = d)"

lemma read_bnd:
  assumes "\<And>es v. loads A d es v \<Longrightarrow> spec (\<lambda>s. s = d) (f (es, v)) Q (same d)"
  shows "spec (\<lambda>s. s = d) (bnd (read_store A io) f) Q (same d)"
proof (rule spec_bnd [OF read_store_spec])
  fix x :: "'a token_entry list \<times> nat"
  show "spec (case x of (es, v) \<Rightarrow> \<lambda>s. s = d \<and> loads A d es v) (f x) Q (same d)"
  proof (cases x)
    case (Pair es v)
    then show ?thesis using assms [of es v] by (auto simp: spec_def)
  qed
qed

lemma write_ret:
  assumes "sound_lib A" "storable A es v" "\<And>s. loads A s es v \<Longrightarrow> Q x s"
  shows "spec (\<lambda>s. s = d) (bnd (write_atomic A io es v) (\<lambda>_. ret x)) Q (same d)"
  by (rule spec_bnd [OF write_atomic_spec [OF assms(1,2)]], rule spec_ret) (auto intro: assms(3))

lemma write_last:
  assumes "sound_lib A" "storable A es v" "\<And>s. loads A s es v \<Longrightarrow> Q () s"
  shows "spec (\<lambda>s. s = d) (write_atomic A io es v) Q (same d)"
  by (rule spec_weaken [OF write_atomic_spec [OF assms(1,2)]]) (auto intro: assms(3))

lemma lift_bnd:
  "(\<And>x. r = Inr x \<Longrightarrow> spec (\<lambda>s. s = d) (f x) Q (same d)) \<Longrightarrow>
     spec (\<lambda>s. s = d) (bnd (lift r) f) Q (same d)"
  by (rule spec_lift_bnd) auto

lemma ensure_bnd:
  "(b \<Longrightarrow> spec (\<lambda>s. s = d) (f ()) Q (same d)) \<Longrightarrow>
     spec (\<lambda>s. s = d) (bnd (ensure b e) f) Q (same d)"
  by (rule spec_ensure_bnd) auto

lemmas op_rules = read_bnd lift_bnd ensure_bnd

lemma rotate_spec:
  assumes "sound_lib A"
  shows "spec (\<lambda>s. s = d) (rotate_token A io name known)
    (\<lambda>secret s. \<exists>es v. loads A d es v \<and> has_name name es \<and>
       loads A s (update_named name (\<lambda>e. e\<lparr>te_digest := from_secret (al_sha256 A) secret\<rparr>) es) v)
    (same d)"
  unfolding rotate_token_def
proof (rule read_bnd, unfold split, rule ensure_bnd, rule lift_bnd, unfold split_beta, rule lift_bnd,
    rule lift_bnd)
  fix es v p updated u
  assume r: "loads A d es v" "has_name name es" "mint_secret A io = Inr p"
    "map_err FStore (try_new (grants A) (update_named name (\<lambda>e. e\<lparr>te_digest := snd p\<rparr>) es)) = Inr updated"
  then have m: "snd p = from_secret (al_sha256 A) (fst p)" "starts_with DIGEST_PREFIX (snd p)"
    using mint_secret_digest [of A io "fst p" "snd p"] by auto
  from r(4) have u: "updated = update_named name (\<lambda>e. e\<lparr>te_digest := snd p\<rparr>) es"
    "store_ok (grants A) updated"
    by (auto simp: try_new_iff)
  have "storable A updated v"
    using storable_update [OF loads_storable [OF r(1)], of name "\<lambda>e. e\<lparr>te_digest := snd p\<rparr>"] u m(2)
    by (simp add: prefixed_def)
  then show "spec (\<lambda>s. s = d) (bnd (write_atomic A io updated v) (\<lambda>_. ret (fst p)))
      (\<lambda>secret s. \<exists>es v. loads A d es v \<and> has_name name es \<and>
        loads A s (update_named name (\<lambda>e. e\<lparr>te_digest := from_secret (al_sha256 A) secret\<rparr>) es) v)
      (same d)"
    by (rule write_ret [OF assms]) (use r(1,2) u(1) m(1) in auto)
qed

text \<open>The store \<open>add\<close> starts from: the file's, or an empty one where there is no file.\<close>

definition base_store ::
  "('g, 'a) auth_lib \<Rightarrow> token_io \<Rightarrow> token_disk option \<Rightarrow> 'g token_entry list \<Rightarrow> nat \<Rightarrow> bool" where
  "base_store A io d es v \<longleftrightarrow>
     (if d \<noteq> None \<and> ti_exists io then loads A d es v else es = [] \<and> v = DEFAULT_STORE_VERSION)"

definition agrees :: "('g, 'a) auth_lib \<Rightarrow> 'g token_entry \<Rightarrow> bool" where
  "agrees A e \<longleftrightarrow> \<not> (te_devices e = Wildcard \<and> (\<exists>g. te_grant e = Some g \<and> gi_subjects_are_targets A g))"

lemma base_storable: "base_store A io d es v \<Longrightarrow> storable A es v"
  by (auto simp: base_store_def storable_def store_ok_def DEFAULT_STORE_VERSION_def
      dest: loads_storable split: if_splits)

lemma agree_onD:
  assumes "agree_on A name m es = Inr u" "distinct (map te_name es)" "e \<in> set es" "te_name e = name"
  shows "agrees A e"
proof -
  from assms(1) obtain e' where e': "find (\<lambda>e. te_name e = name) es = Some e'" "agrees A e'"
    by (auto simp: agree_on_def validate_scope_agreement_def agrees_def Let_def split: option.splits)
  from e'(1) have "e' \<in> set es" "te_name e' = name"
    by (auto simp: find_Some_iff)
  with assms(2-4) have "e' = e" by (auto simp: distinct_map inj_on_def)
  with e'(2) show ?thesis by simp
qed

lemma add_base:
  assumes "\<And>es v. base_store A io d es v \<Longrightarrow> spec (\<lambda>s. s = d) (f (es, v)) Q (same d)"
  shows "spec (\<lambda>s. s = d)
    (bnd (gets (\<lambda>d. d \<noteq> None \<and> ti_exists io)) (\<lambda>there.
       bnd (if there then read_store A io else ret ([], DEFAULT_STORE_VERSION)) f)) Q (same d)"
proof (cases "d \<noteq> None \<and> ti_exists io")
  case True
  have "spec (\<lambda>s. s = d) (bnd (read_store A io) f) Q (same d)"
    using assms True by (intro read_bnd) (simp add: base_store_def)
  then show ?thesis using True by (simp add: spec_def act_simps)
next
  case False
  have "spec (\<lambda>s. s = d) (f ([], DEFAULT_STORE_VERSION)) Q (same d)"
    using False by (intro assms) (auto simp: base_store_def)
  then show ?thesis using False by (auto simp: spec_def act_simps)
qed

lemma add_spec:
  assumes "sound_lib A"
  shows "spec (\<lambda>s. s = d) (add_with_options A io n known)
    (\<lambda>secret s. \<exists>es v e. base_store A io d es v \<and> \<not> has_name (nt_name n) es \<and>
       e = entry_for n (from_secret (al_sha256 A) secret) (ti_now io) \<and>
       loads A s (es @ [e]) v \<and> agrees A e)
    (same d)"
  unfolding add_with_options_def
proof (rule add_base, unfold split, rule ensure_bnd, rule lift_bnd, unfold split_beta, rule lift_bnd,
    rule lift_bnd, rule lift_bnd)
  fix es v updated u u' and p :: "string \<times> string"
  let ?e = "entry_for n (snd p) (ti_now io)"
  assume r: "base_store A io d es v" "\<not> has_name (nt_name n) es" "mint_secret A io = Inr p"
    "map_err FStore (try_new (grants A) (es @ [?e])) = Inr updated"
    and a: "agree_on A (nt_name n) ''minted token missing from store'' updated = Inr u'"
  from r(3) have m: "snd p = from_secret (al_sha256 A) (fst p)" "starts_with DIGEST_PREFIX (snd p)"
    using mint_secret_digest [of A io "fst p" "snd p"] by auto
  from r(4) have u: "updated = es @ [?e]" "store_ok (grants A) updated"
    by (auto simp: try_new_iff)
  have "storable A updated v"
    using base_storable [OF r(1)] u m(2) by (auto simp: storable_def prefixed_def entry_for_def)
  moreover have "agrees A ?e"
    using agree_onD [OF a, of ?e] u by (auto simp: store_ok_def entry_for_def)
  ultimately show "spec (\<lambda>s. s = d) (bnd (write_atomic A io updated v) (\<lambda>_. ret (fst p)))
    (\<lambda>secret s. \<exists>es v e. base_store A io d es v \<and> \<not> has_name (nt_name n) es \<and>
       e = entry_for n (from_secret (al_sha256 A) secret) (ti_now io) \<and>
       loads A s (es @ [e]) v \<and> agrees A e) (same d)"
    by (intro write_ret [OF assms]) (use r(1,2) u(1) m(1) in auto)
qed

text \<open>An update of the named entry that keeps its name, checked and then written.\<close>

lemma update_write_spec:
  assumes "sound_lib A" "loads A d es v"
    and u: "map_err FStore (try_new (grants A) (update_named name f es)) = Inr updated"
    and f: "\<And>e. te_digest (f e) = te_digest e"
    and Q: "\<And>s. loads A s (update_named name f es) v \<Longrightarrow> Q () s"
  shows "spec (\<lambda>s. s = d) (write_atomic A io updated v) Q (same d)"
proof -
  from u have u': "updated = update_named name f es" "store_ok (grants A) updated"
    by (auto simp: try_new_iff)
  have "storable A updated v"
    using storable_update [OF loads_storable [OF assms(2)], of name f] u' f
    by (simp add: prefixed_def)
  then show ?thesis
    by (rule write_last [OF assms(1)]) (use u'(1) Q in auto)
qed

definition rescoped ::
  "scope_set option \<Rightarrow> scope_set option \<Rightarrow> 'g option \<Rightarrow> 'g token_entry \<Rightarrow> 'g token_entry" where
  "rescoped devices tools grant e = e
     \<lparr>te_devices := (case devices of None \<Rightarrow> te_devices e | Some d \<Rightarrow> d),
      te_tools := (case tools of None \<Rightarrow> te_tools e | Some t \<Rightarrow> t),
      te_grant := (case grant of None \<Rightarrow> te_grant e | Some g \<Rightarrow> Some g)\<rparr>"

lemma rescoped_fold:
  "(\<lambda>e. e\<lparr>te_devices := (case devices of None \<Rightarrow> te_devices e | Some d \<Rightarrow> d),
      te_tools := (case tools of None \<Rightarrow> te_tools e | Some t \<Rightarrow> t),
      te_grant := (case grant of None \<Rightarrow> te_grant e | Some g \<Rightarrow> Some g)\<rparr>) =
     rescoped devices tools grant"
  by (simp add: rescoped_def fun_eq_iff)

lemma set_scopes_spec:
  assumes "sound_lib A"
  shows "spec (\<lambda>s. s = d) (set_scopes A io name devices tools grant known)
    (\<lambda>_ s. \<exists>es v. loads A d es v \<and> has_name name es \<and>
       loads A s (update_named name (rescoped devices tools grant) es) v \<and>
       (\<forall>e\<in>set es. te_name e = name \<longrightarrow> agrees A (rescoped devices tools grant e)))
    (same d)"
  unfolding set_scopes_def rescoped_fold
proof (rule read_bnd, unfold split, rule ensure_bnd, rule lift_bnd, rule lift_bnd, rule lift_bnd)
  fix es v updated u u'
  let ?f = "rescoped devices tools grant"
  assume r: "loads A d es v" "has_name name es"
    and t: "map_err FStore (try_new (grants A) (update_named name ?f es)) = Inr updated"
    and a: "agree_on A name (''token '' @ quoted name @ '' missing from store after scope change'') updated = Inr u'"
  have u: "updated = update_named name ?f es" "store_ok (grants A) updated"
    using t by (auto simp: try_new_iff)
  have "agrees A (?f e)" if "e \<in> set es" "te_name e = name" for e
    by (rule agree_onD [OF a]) (use that u in \<open>auto simp: store_ok_def update_named_def rescoped_def\<close>)
  then show "spec (\<lambda>s. s = d) (write_atomic A io updated v)
     (\<lambda>_ s. \<exists>es v. loads A d es v \<and> has_name name es \<and> loads A s (update_named name ?f es) v \<and>
       (\<forall>e\<in>set es. te_name e = name \<longrightarrow> agrees A (?f e))) (same d)"
    by (intro update_write_spec [OF assms r(1) t]) (use r in \<open>auto simp: rescoped_def\<close>)
qed

definition retagged ::
  "string option \<Rightarrow> tier option \<Rightarrow> string option \<Rightarrow> actor_type option \<Rightarrow> 'g token_entry \<Rightarrow> 'g token_entry" where
  "retagged provider provider_tier on_behalf_of actor e = e
     \<lparr>te_provider := provider, te_provider_tier := provider_tier, te_on_behalf_of := on_behalf_of,
      te_actor_type := (case actor of None \<Rightarrow> Unknown | Some a \<Rightarrow> a)\<rparr>"

lemma retagged_fold:
  "(\<lambda>e. e\<lparr>te_provider := provider, te_provider_tier := provider_tier, te_on_behalf_of := on_behalf_of,
      te_actor_type := (case actor of None \<Rightarrow> Unknown | Some a \<Rightarrow> a)\<rparr>) =
     retagged provider provider_tier on_behalf_of actor"
  by (simp add: retagged_def fun_eq_iff)

lemma set_provenance_spec:
  assumes "sound_lib A"
  shows "spec (\<lambda>s. s = d) (set_provenance A io name provider provider_tier on_behalf_of actor)
    (\<lambda>_ s. \<exists>es v. loads A d es v \<and> has_name name es \<and>
       loads A s (update_named name (retagged provider provider_tier on_behalf_of actor) es) v)
    (same d)"
  unfolding set_provenance_def retagged_fold
proof (rule read_bnd, unfold split, rule ensure_bnd, rule lift_bnd)
  fix es v updated
  let ?f = "retagged provider provider_tier on_behalf_of actor"
  assume r: "loads A d es v" "has_name name es"
    and t: "map_err FStore (try_new (grants A) (update_named name ?f es)) = Inr updated"
  show "spec (\<lambda>s. s = d) (write_atomic A io updated v)
     (\<lambda>_ s. \<exists>es v. loads A d es v \<and> has_name name es \<and> loads A s (update_named name ?f es) v) (same d)"
    by (intro update_write_spec [OF assms r(1) t]) (use r in \<open>auto simp: retagged_def\<close>)
qed

lemma revoke_spec:
  assumes "sound_lib A"
  shows "spec (\<lambda>s. s = d) (revoke_token A io name known)
    (\<lambda>removed s. \<exists>es v. loads A d es v \<and> (removed \<longleftrightarrow> has_name name es) \<and>
       loads A s (filter (\<lambda>e. te_name e \<noteq> name) es) v \<and> (\<not> removed \<longrightarrow> s = d))
    (same d)"
  unfolding revoke_token_def
proof (rule read_bnd, unfold split Let_def, rule spec_if, rule lift_bnd, rule lift_bnd)
  fix es :: "'a token_entry list" and v updated u
  let ?es = "filter (\<lambda>e. te_name e \<noteq> name) es"
  assume r: "loads A d es v" "length es \<noteq> length ?es"
    and t: "map_err FStore (try_new (grants A) ?es) = Inr updated"
  from t have u: "updated = ?es" "store_ok (grants A) updated" by (auto simp: try_new_iff)
  have "has_name name es"
    using r(2) by (metis (mono_tags, lifting) filter_True has_name_iff image_eqI)
  moreover have "storable A updated v"
    using loads_storable [OF r(1)] u by (auto simp: storable_def)
  ultimately show "spec (\<lambda>s. s = d) (bnd (write_atomic A io updated v) (\<lambda>_. ret True))
    (\<lambda>removed s. \<exists>es v. loads A d es v \<and> (removed \<longleftrightarrow> has_name name es) \<and>
       loads A s (filter (\<lambda>e. te_name e \<noteq> name) es) v \<and> (\<not> removed \<longrightarrow> s = d)) (same d)"
    by (intro write_ret [OF assms]) (use r(1) u(1) in auto)
next
  fix es :: "'a token_entry list" and v
  assume r: "loads A d es v" "\<not> length es \<noteq> length (filter (\<lambda>e. te_name e \<noteq> name) es)"
  then have "filter (\<lambda>e. te_name e \<noteq> name) es = es" "\<not> has_name name es"
    by (auto simp: has_name_iff filter_id_conv length_filter_less dest: length_filter_less)
  with r show "spec (\<lambda>s. s = d) (ret False)
    (\<lambda>removed s. \<exists>es v. loads A d es v \<and> (removed \<longleftrightarrow> has_name name es) \<and>
       loads A s (filter (\<lambda>e. te_name e \<noteq> name) es) v \<and> (\<not> removed \<longrightarrow> s = d)) (same d)"
    by (intro spec_ret exI [of _ es] exI [of _ v]) simp
qed

section \<open>The loaded snapshot\<close>

text \<open>A reload replaces the snapshot with what the file loads as, or keeps it.\<close>

lemma reload_spec:
  "spec (\<lambda>s. s = snap) (reload A io d)
     (\<lambda>_ s. \<exists>es v. loads A d es v \<and> s = \<lparr>tsf_store = es, tsf_version = v\<rparr>) (\<lambda>_ s. s = snap)"
proof (rule specI)
  fix s x t
  assume "s = snap" "reload A io d s = (Inr x, t)"
  then obtain es v where r: "fst (read_store A io d) = Inr (es, v)"
    "t = snap\<lparr>tsf_store := es, tsf_version := v\<rparr>"
    by (auto simp: reload_def act_defs split: sum.splits prod.splits)
  have "loads A d es v"
    using spec_InrD [OF read_store_spec refl, of A io d "(es, v)" "snd (read_store A io d)"] r(1)
    by (simp add: prod_eq_iff)
  with r(2) show "\<exists>es v. loads A d es v \<and> t = \<lparr>tsf_store = es, tsf_version = v\<rparr>"
    by (cases snap) auto
next
  fix s e t
  assume "s = snap" "reload A io d s = (Inl e, t)"
  then show "t = snap"
    by (auto simp: reload_def act_defs split: sum.splits prod.splits)
qed

text \<open>Only a missing primary path falls back; any other failure to inspect a path is an error.\<close>

lemma resolve_fallback_only_if_missing:
  "resolve_token_path metadata primary fallback = Inr p \<Longrightarrow> rp_used_fallback p \<Longrightarrow>
     metadata primary = Missing \<and> metadata fallback = Present \<and> rp_path p = fallback"
  by (auto simp: resolve_token_path_def split: stat_answer.splits)

end
