(* ===== verification/Auth_Properties.thy ===== *)
theory Auth_Properties
  imports Token_Facts
begin

text \<open>
  Properties of authentication and authorization: what a presented secret can do, how the token
  file changes under its operations, and the header parser. A concrete library, \<open>sample_auth\<close>,
  whose grant is a list of roots read by key, serves the witnesses.
\<close>

section \<open>A concrete library\<close>

definition digits_value :: "string \<Rightarrow> nat" where
  "digits_value s = foldl (\<lambda>n c. n * 10 + (byte c - 48)) 0 s"

definition parse_signed :: "string \<Rightarrow> int option" where
  "parse_signed s = (case strip_prefix ''-'' s of Some r \<Rightarrow> Some (- int (digits_value r))
     | None \<Rightarrow> Some (int (digits_value s)))"

definition print_signed :: "int \<Rightarrow> string" where
  "print_signed t = (if t < 0 then CHR ''-'' # decimal (nat (- t)) else decimal (nat t))"

fun roots_of_json :: "json \<Rightarrow> string list option" where
  "roots_of_json (JObj kvs) =
     (case map_of kvs ''roots'' of Some (JArr js) \<Rightarrow> json_strs js | _ \<Rightarrow> None)"
| "roots_of_json _ = None"

definition sample_auth :: "(string list, unit) auth_lib" where
  "sample_auth = \<lparr>gi_allows_action = (\<lambda>_ _. True), gi_allows_subject = (\<lambda>g s. List.member g s),
     gi_validate = (\<lambda>_. Inr ()), gi_subjects_are_targets = (\<lambda>_. True), al_sha256 = (\<lambda>s. s),
     al_to_rfc3339 = print_signed, al_parse_rfc3339 = parse_signed,
     al_from_timestamp = (\<lambda>i. Some i), al_i64 = parse_signed,
     al_u32 = (\<lambda>s. Some (digits_value s)), al_grant_of_json = roots_of_json,
     al_grant_to_json = (\<lambda>g. Some (JObj [(''roots'', JArr (map JStr g))]))\<rparr>"

lemma byte_hex_digit: "n < 10 \<Longrightarrow> byte (hex_digit n) = 48 + n"
proof -
  assume "n < 10"
  then have "n \<in> {0, 1, 2, 3, 4, 5, 6, 7, 8, 9}" by auto
  then show ?thesis by (auto simp: byte_def hex_digit_def)
qed

lemma digits_value_decimal: "digits_value (decimal n) = n"
proof (induction n rule: decimal.induct)
  case (1 n)
  then show ?case
    by (cases "n < 10") (simp_all add: digits_value_def byte_hex_digit decimal_small decimal_big)
qed

lemma decimal_not_minus: "decimal n \<noteq> CHR ''-'' # s"
  using decimal_digits [of n] by auto

lemma parse_signed_decimal: "parse_signed (decimal n) = Some (int n)"
  using decimal_not_minus [of n] strip_prefix_iff [of "''-''" "decimal n"]
  by (auto simp: parse_signed_def digits_value_decimal split: option.split)

lemma parse_print_signed: "parse_signed (print_signed t) = Some t"
  by (simp add: print_signed_def parse_signed_decimal)
    (simp add: parse_signed_def strip_prefix_def digits_value_decimal)

lemma sample_auth_sound: "sound_lib sample_auth"
  by (auto simp: sound_lib_def sample_auth_def parse_print_signed digits_value_decimal list_all_iff)

definition sample_entry :: "string \<Rightarrow> string \<Rightarrow> scope_set \<Rightarrow> scope_set \<Rightarrow> string list token_entry" where
  "sample_entry name secret devices tools =
     \<lparr>te_name = name, te_digest = from_secret (\<lambda>s. s) secret, te_devices = devices, te_tools = tools,
      te_created_at = 5, te_expires_at = Some 90, te_grant = None, te_provider = None,
      te_provider_tier = None, te_on_behalf_of = None, te_actor_type = Unknown\<rparr>"

definition ops_entry :: "string list token_entry" where
  "ops_entry = sample_entry ''ops'' ''one'' (Allowlist [''r1'']) (Allowlist [''apply''])"

definition bot_entry :: "string list token_entry" where
  "bot_entry = sample_entry ''bot'' ''two'' (Allowlist [''gone'']) Wildcard"

definition sample_file :: token_disk where
  "sample_file = \<lparr>td_body = Body (JObj [(''version'', JNum ''1''), (''tokens'', JArr [
       JObj [(''name'', JStr ''ops''), (''digest'', JStr (from_secret (\<lambda>s. s) ''one'')),
             (''devices'', JArr [JStr ''r1'']), (''tools'', JArr [JStr ''apply'']),
             (''created_at'', JStr ''5''), (''expires_at'', JStr ''90'')],
       JObj [(''name'', JStr ''bot''), (''hash'', JStr (from_secret (\<lambda>s. s) ''two'')),
             (''routers'', JArr [JStr ''gone'']),
             (''created_at_unix'', JNum ''5''), (''expires_at_unix'', JNum ''90'')]])]),
     td_owner = (7, 7), td_mode = 384\<rparr>"

definition sample_tio :: token_io where
  "sample_tio = \<lparr>ti_exists = True, ti_read = None, ti_random = Some ''new'', ti_now = 6,
     ti_tempfile = None, ti_chmod = None, ti_write = None, ti_sync = None, ti_persist = None,
     ti_temp_owner = (0, 0), ti_stat_dest = True, ti_stat_temp = True, ti_chown = True\<rparr>"

definition all_known :: known_names where
  "all_known = \<lparr>kn_devices = None, kn_tools = [''apply'', ''show'']\<rparr>"

lemma sample_loads: "loads sample_auth (Some sample_file) [ops_entry, bot_entry] 1"
proof -
  have "parse_store sample_auth (td_body sample_file) = Inr ([ops_entry, bot_entry], 1)"
    by code_simp
  then show ?thesis by (simp add: loads_def)
qed

lemma sample_parts: "al_sha256 sample_auth = (\<lambda>s. s)" "ti_now sample_tio = 6"
  by (simp_all add: sample_auth_def sample_tio_def)

lemma sample_done: "fst r = Inr x \<Longrightarrow> r = (Inr x, snd r)"
  by (cases r) simp

lemma sample_rotate:
  "rotate_token sample_auth sample_tio ''ops'' all_known (Some sample_file) =
     (Inr (base64url_no_pad ''new''),
      snd (rotate_token sample_auth sample_tio ''ops'' all_known (Some sample_file)))"
  by (rule sample_done) code_simp

lemma sample_revoke:
  "revoke_token sample_auth sample_tio ''ops'' all_known (Some sample_file) =
     (Inr True, snd (revoke_token sample_auth sample_tio ''ops'' all_known (Some sample_file)))"
  by (rule sample_done) code_simp

definition new_agent :: "string list new_token" where
  "new_agent = \<lparr>nt_name = ''agent'', nt_devices = Allowlist [''r1''], nt_tools = Allowlist [''show''],
     nt_expires_at = Some 50, nt_grant = Some [''r1''], nt_provider = None, nt_provider_tier = None,
     nt_on_behalf_of = None, nt_actor_type = Some Agent\<rparr>"

lemma sample_add:
  "add_with_options sample_auth sample_tio new_agent all_known (Some sample_file) =
     (Inr (base64url_no_pad ''new''),
      snd (add_with_options sample_auth sample_tio new_agent all_known (Some sample_file)))"
  by (rule sample_done) code_simp

lemma sample_set_scopes:
  "set_scopes sample_auth sample_tio ''bot'' (Some (Allowlist [''r2''])) None (Some [''r2'']) all_known
       (Some sample_file) =
     (Inr (), snd (set_scopes sample_auth sample_tio ''bot'' (Some (Allowlist [''r2''])) None
       (Some [''r2'']) all_known (Some sample_file)))"
  by (rule sample_done) code_simp

section \<open>What a caller may do\<close>

text \<open>
  C6. A call to a write tool is authorized over HTTP only for a live token of the store whose
  digest is that of the presented secret, that names the tool explicitly (a wildcard tool scope
  is not enough) and whose target scope covers the target.
\<close>

theorem write_needs_named_tool:
  assumes "authenticate_at sha store secret t = Some e"
    and "authorize_call (Some (ctx_of_entry request_id e)) tool (Some target) write_tools = Inr ()"
    and "tool \<in> set write_tools"
  shows "e \<in> set store \<and> te_digest e = from_secret sha secret \<and> \<not> is_expired_at e t \<and>
    (\<exists>names. te_tools e = Allowlist names \<and> tool \<in> set names) \<and> allows (te_devices e) target"
  using authenticate_Some [OF assms(1)] assms(2,3)
  by (cases "te_tools e")
    (auto simp: matches_def authorize_call_def authorize_tool_def authorize_target_def ctx_of_entry_def
      allows_tool_iff res_bind_Inr_iff split: if_splits)

theorem write_needs_named_tool_witness:
  "\<exists>names. te_tools ops_entry = Allowlist names \<and> ''apply'' \<in> set names"
proof -
  have "authenticate_at (\<lambda>s. s) [ops_entry, bot_entry] ''one'' 10 = Some ops_entry"
    by code_simp
  moreover have "authorize_call (Some (ctx_of_entry ''req'' ops_entry)) ''apply'' (Some ''r1'') [''apply''] = Inr ()"
    by code_simp
  ultimately show ?thesis
    using write_needs_named_tool [of "\<lambda>s. s" "[ops_entry, bot_entry]" "''one''" 10 ops_entry "''req''" "''apply''"
        "''r1''" "[''apply'']"] by simp
qed

text \<open>
  The tools a caller is shown are exactly the tools a call is authorized for, in the
  server's order: listing and authorization are the same predicate.
\<close>

lemma listing_is_authorization:
  "filter_tools_for_scope tools caller write_tools =
     filter (\<lambda>tool. authorize_tool caller tool write_tools = Inr ()) tools"
  by (simp add: filter_tools_for_scope_def authorize_tool_def split: option.split)

section \<open>The token file\<close>

text \<open>
  C25. An operation on the token file that reports an error has left the file as it was: add,
  rotate, set scopes, set provenance and revoke are all or nothing.
\<close>

theorem token_file_all_or_nothing:
  assumes "sound_lib A"
  shows "(add_with_options A io n known d = (Inl e, d') \<longrightarrow> d' = d) \<and>
    (rotate_token A io name known d = (Inl e, d') \<longrightarrow> d' = d) \<and>
    (set_scopes A io name devices tools grant known d = (Inl e, d') \<longrightarrow> d' = d) \<and>
    (set_provenance A io name provider provider_tier behalf actor d = (Inl e, d') \<longrightarrow> d' = d) \<and>
    (revoke_token A io name known d = (Inl e, d') \<longrightarrow> d' = d)"
  by (intro conjI impI)
    (erule spec_InlD [OF add_spec [OF assms] refl] spec_InlD [OF rotate_spec [OF assms] refl]
      spec_InlD [OF set_scopes_spec [OF assms] refl] spec_InlD [OF set_provenance_spec [OF assms] refl]
      spec_InlD [OF revoke_spec [OF assms] refl])+

theorem token_file_all_or_nothing_witness:
  "snd (rotate_token sample_auth sample_tio ''nobody'' all_known (Some sample_file)) = Some sample_file"
proof -
  have "fst (rotate_token sample_auth sample_tio ''nobody'' all_known (Some sample_file)) =
      Inl (does_not_exist ''nobody'')"
    by code_simp
  then show ?thesis
    using token_file_all_or_nothing [OF sample_auth_sound, of sample_tio new_agent all_known] by (metis prod.collapse)
qed

text \<open>
  C19. A successful rotation leaves a file that loads as the old store with one digest replaced:
  only the fresh secret authenticates as the rotated token, every other entry is untouched, and
  the token keeps its scopes, grant, expiry, provenance and creation time.
\<close>

theorem rotation_replaces_secret:
  assumes "sound_lib A" "loads A d store version"
    and "rotate_token A io name known d = (Inr secret, d')"
  defines "store' \<equiv> update_named name (\<lambda>e. e\<lparr>te_digest := from_secret (al_sha256 A) secret\<rparr>) store"
  shows "loads A d' store' version \<and>
    (\<forall>candidate t e. authenticate_at (al_sha256 A) store' candidate t = Some e \<longrightarrow> te_name e = name \<longrightarrow>
       from_secret (al_sha256 A) candidate = from_secret (al_sha256 A) secret)"
proof -
  from spec_InrD [OF rotate_spec [OF assms(1)] refl assms(3)] loads_unique [OF assms(2)]
  have "loads A d' store' version" by (auto simp: store'_def)
  moreover have "from_secret (al_sha256 A) candidate = from_secret (al_sha256 A) secret"
    if "authenticate_at (al_sha256 A) store' candidate t = Some e" "te_name e = name" for candidate t e
    using authenticate_Some(2) [OF that(1)]
      update_named_digest [OF authenticate_Some(1) [OF that(1), unfolded store'_def] that(2)]
    by (simp add: matches_def)
  ultimately show ?thesis by blast
qed

theorem rotation_replaces_secret_witness:
  "from_secret (\<lambda>s. s) (base64url_no_pad ''new'') \<noteq> from_secret (\<lambda>s. s) ''one'' \<and>
   (\<exists>store. loads sample_auth (snd (rotate_token sample_auth sample_tio ''ops'' all_known (Some sample_file))) store 1)"
proof -
  have "from_secret (\<lambda>s. s) (base64url_no_pad ''new'') \<noteq> from_secret (\<lambda>s. s) ''one''" by code_simp
  with rotation_replaces_secret [OF sample_auth_sound sample_loads sample_rotate] show ?thesis by blast
qed

text \<open>
  C20. Revocation is final for the name and touches nothing else: after it the file loads as the
  store without the token, no secret authenticates under its name, and the answer says whether
  the token was there; a revocation that found nothing leaves the file unchanged.
\<close>

theorem revocation_is_final:
  assumes "sound_lib A" "loads A d store version"
    and "revoke_token A io name known d = (Inr removed, d')"
  defines "store' \<equiv> filter (\<lambda>e. te_name e \<noteq> name) store"
  shows "loads A d' store' version \<and> (removed \<longleftrightarrow> has_name name store) \<and>
    (\<not> removed \<longrightarrow> d' = d) \<and>
    (\<forall>candidate t e. authenticate_at (al_sha256 A) store' candidate t = Some e \<longrightarrow> te_name e \<noteq> name)"
proof -
  from spec_InrD [OF revoke_spec [OF assms(1)] refl assms(3)] loads_unique [OF assms(2)]
  have "loads A d' store' version \<and> (removed \<longleftrightarrow> has_name name store) \<and> (\<not> removed \<longrightarrow> d' = d)"
    unfolding store'_def by blast
  moreover have "te_name e \<noteq> name"
    if "authenticate_at (al_sha256 A) store' candidate t = Some e" for candidate t e
    using authenticate_Some [OF that] by (simp add: store'_def)
  ultimately show ?thesis by blast
qed

theorem revocation_is_final_witness:
  "loads sample_auth (snd (revoke_token sample_auth sample_tio ''ops'' all_known (Some sample_file))) [bot_entry] 1"
proof -
  have store: "filter (\<lambda>e. te_name e \<noteq> ''ops'') [ops_entry, bot_entry] = [bot_entry]"
    by (simp add: ops_entry_def bot_entry_def sample_entry_def)
  from revocation_is_final [OF sample_auth_sound sample_loads sample_revoke]
  show ?thesis unfolding store by blast
qed

text \<open>
  C24. Adding a token appends exactly one entry, under a name the store did not have; the secret
  handed out authenticates as that entry at every instant before its expiry, whatever the other
  digests are; and a grant that names targets is never stored next to a wildcard target scope.
\<close>

theorem added_token_authenticates:
  assumes "sound_lib A" "add_with_options A io n known d = (Inr secret, d')"
  shows "\<exists>store version e. base_store A io d store version \<and> \<not> has_name (nt_name n) store \<and>
    e = entry_for n (from_secret (al_sha256 A) secret) (ti_now io) \<and>
    loads A d' (store @ [e]) version \<and> agrees A e \<and>
    (\<forall>t. \<not> is_expired_at e t \<longrightarrow> authenticate_at (al_sha256 A) (store @ [e]) secret t = Some e)"
proof -
  from spec_InrD [OF add_spec [OF assms(1)] refl assms(2)]
  obtain store version e where s: "base_store A io d store version" "\<not> has_name (nt_name n) store"
    "e = entry_for n (from_secret (al_sha256 A) secret) (ti_now io)"
    "loads A d' (store @ [e]) version" "agrees A e" by blast
  have "authenticate_at (al_sha256 A) (store @ [e]) secret t = Some e" if "\<not> is_expired_at e t" for t
    using that s(3) by (simp add: authenticate_at_eq matches_def entry_for_def)
  with s show ?thesis by blast
qed

theorem added_token_authenticates_witness:
  "\<exists>store. loads sample_auth
     (snd (add_with_options sample_auth sample_tio new_agent all_known (Some sample_file))) store 1 \<and>
   authenticate_at (\<lambda>s. s) store (base64url_no_pad ''new'') 49 \<noteq> None"
proof -
  obtain store version e where s: "base_store sample_auth sample_tio (Some sample_file) store version"
    "e = entry_for new_agent (from_secret (\<lambda>s. s) (base64url_no_pad ''new'')) 6"
    "loads sample_auth (snd (add_with_options sample_auth sample_tio new_agent all_known (Some sample_file)))
       (store @ [e]) version"
    "\<not> is_expired_at e 49 \<longrightarrow> authenticate_at (\<lambda>s. s) (store @ [e]) (base64url_no_pad ''new'') 49 = Some e"
    using added_token_authenticates [OF sample_auth_sound sample_add]
    unfolding sample_parts by blast
  from s(1) have "version = 1"
    using loads_unique [OF sample_loads] by (simp add: base_store_def sample_tio_def)
  moreover have "\<not> is_expired_at e 49"
    by (simp add: s(2) is_expired_at_def entry_for_def new_agent_def)
  ultimately show ?thesis using s(3,4) by auto
qed

text \<open>
  C26. Changing a token's scopes never changes a secret: every entry keeps its digest and its
  name, entries other than the named one are untouched, and the changed entry does not pair a
  wildcard target scope with a grant over named targets.
\<close>

theorem rescoping_keeps_secrets:
  assumes "sound_lib A" "loads A d store version"
    and "set_scopes A io name devices tools grant known d = (Inr u, d')"
  shows "\<exists>store'. loads A d' store' version \<and> map te_digest store' = map te_digest store \<and>
    map te_name store' = map te_name store \<and>
    (\<forall>i < length store. te_name (store ! i) \<noteq> name \<longrightarrow> store' ! i = store ! i) \<and>
    (\<forall>e\<in>set store'. te_name e = name \<longrightarrow> agrees A e)"
proof -
  let ?store' = "update_named name (rescoped devices tools grant) store"
  from spec_InrD [OF set_scopes_spec [OF assms(1)] refl assms(3)] loads_unique [OF assms(2)]
  have r: "loads A d' ?store' version"
    "\<forall>e\<in>set store. te_name e = name \<longrightarrow> agrees A (rescoped devices tools grant e)" by blast+
  then show ?thesis
    by (intro exI [of _ ?store']) (auto simp: update_named_def rescoped_def)
qed

theorem rescoping_keeps_secrets_witness:
  "\<exists>store'. loads sample_auth (snd (set_scopes sample_auth sample_tio ''bot'' (Some (Allowlist [''r2''])) None
       (Some [''r2'']) all_known (Some sample_file))) store' 1 \<and>
     map te_name store' = [''ops'', ''bot'']"
proof -
  have names: "map te_name [ops_entry, bot_entry] = [''ops'', ''bot'']"
    by (simp add: ops_entry_def bot_entry_def sample_entry_def)
  from rescoping_keeps_secrets [OF sample_auth_sound sample_loads sample_set_scopes, unfolded names]
  show ?thesis by (elim exE conjE, intro exI conjI)
qed

section \<open>Credentials\<close>

text \<open>
  C27. An \<open>Authorization\<close> header is accepted exactly when it is at most 4096 bytes of printable
  ASCII and tabs of the form scheme, white space, credential, with optional white space around;
  the scheme is \<open>bearer\<close> in any case, the credential is not empty and has no white space, and
  strict mode allows nothing before the scheme. The parser returns that credential.
\<close>

theorem bearer_header_exact:
  "parse_bearer_header header mode = Inr credential \<longleftrightarrow>
     length header \<le> 4096 \<and> list_all header_byte header \<and> bearer_form mode header credential"
  by (rule parse_bearer_iff)

text \<open>
  C28. A minted secret is 43 characters of the base64url alphabet that determine its 32 random
  bytes, its stored digest verifies it, and the digest accepts another candidate only if the two
  have the same SHA-256 value.
\<close>

theorem minted_secret_sound:
  assumes "length bytes = SECRET_BYTES" "mint sha (Some bytes) = Inr (secret, digest)"
  shows "length secret = ENCODED_SECRET_BYTES \<and> set secret \<subseteq> set b64_alphabet \<and>
    (\<forall>bytes'. base64url_no_pad bytes' = secret \<longrightarrow> bytes' = bytes) \<and>
    (\<forall>candidate. digest_verify sha digest candidate \<longleftrightarrow> sha candidate = sha secret)"
proof -
  from assms(2) have s: "secret = base64url_no_pad bytes" "digest = from_secret sha secret"
    by (auto simp: mint_def Let_def)
  have "length secret = ENCODED_SECRET_BYTES"
    using assms(1) by (simp add: s(1) length_base64url SECRET_BYTES_def ENCODED_SECRET_BYTES_def)
  then show ?thesis
    using base64url_alphabet base64url_inj by (auto simp: s digest_verify_def from_secret_def)
qed

theorem minted_secret_sound_witness:
  "length (base64url_no_pad ''0123456789abcdef0123456789abcdef'') = 43"
proof -
  let ?b = "''0123456789abcdef0123456789abcdef''"
  have "mint (\<lambda>s. s) (Some ?b) = Inr (base64url_no_pad ?b, from_secret (\<lambda>s. s) (base64url_no_pad ?b))"
    by (simp add: mint_def Let_def del: base64url_no_pad.simps)
  from minted_secret_sound [OF _ this] show ?thesis
    by (simp add: SECRET_BYTES_def ENCODED_SECRET_BYTES_def del: base64url_no_pad.simps)
qed

section \<open>Where the checks do not reach\<close>

text \<open>A file with one token whose grant carries a key the grant type does not know.\<close>

definition grant_file :: "string \<Rightarrow> file_body" where
  "grant_file key = Body (JObj [(''tokens'', JArr [
     JObj [(''name'', JStr ''pan''), (''hash'', JStr ''sha256:x''),
           (''routers'', JArr [JStr ''fw1'']), (''created_at_unix'', JNum ''5''),
           (key, JObj [(''roots'', JArr [JStr ''/config'']), (''actions'', JArr [JStr ''set''])])]])])"

text \<open>
  The load check that refuses a grant field this build would drop on the next write looks
  only at the key \<open>grant\<close>: the same grant under its accepted alias \<open>mutation\<close> loads, with the
  unknown field gone from the entry.
\<close>

theorem mutation_alias_unchecked:
  "parse_store sample_auth (grant_file ''mutation'') =
     Inr ([\<lparr>te_name = ''pan'', te_digest = ''sha256:x'', te_devices = Allowlist [''fw1''], te_tools = Wildcard,
       te_created_at = 5, te_expires_at = None, te_grant = Some [''/config''], te_provider = None,
       te_provider_tier = None, te_on_behalf_of = None, te_actor_type = Unknown\<rparr>], 1) \<and>
   (\<exists>m. parse_store sample_auth (grant_file ''grant'') = Inl (invalid m))"
proof -
  have "parse_store sample_auth (grant_file ''grant'') = Inl (invalid (''token '' @ quoted ''pan'' @
      '' grant has field '' @ quoted ''actions'' @ '' that this build does not understand''))"
    by code_simp
  moreover have "parse_store sample_auth (grant_file ''mutation'') =
     Inr ([\<lparr>te_name = ''pan'', te_digest = ''sha256:x'', te_devices = Allowlist [''fw1''], te_tools = Wildcard,
       te_created_at = 5, te_expires_at = None, te_grant = Some [''/config''], te_provider = None,
       te_provider_tier = None, te_on_behalf_of = None, te_actor_type = Unknown\<rparr>], 1)"
    by code_simp
  ultimately show ?thesis by blast
qed

text \<open>
  Revoking one token is refused, and its secret stays valid, when some other token names a
  device that has left the inventory: revocation checks the references of the whole store.
\<close>

theorem revocation_blocked_by_drift:
  "revoke_token sample_auth sample_tio ''ops'' (all_known\<lparr>kn_devices := Some [''r1'']\<rparr>) (Some sample_file) =
     (Inl (invalid (''token '' @ quoted ''bot'' @ '' references unknown device '' @ quoted ''gone'')),
      Some sample_file) \<and>
   authenticate_at (al_sha256 sample_auth) [ops_entry, bot_entry] ''one'' 10 = Some ops_entry"
proof
  have "fst (revoke_token sample_auth sample_tio ''ops'' (all_known\<lparr>kn_devices := Some [''r1'']\<rparr>) (Some sample_file)) =
      Inl (invalid (''token '' @ quoted ''bot'' @ '' references unknown device '' @ quoted ''gone''))"
    by code_simp
  then show "revoke_token sample_auth sample_tio ''ops'' (all_known\<lparr>kn_devices := Some [''r1'']\<rparr>) (Some sample_file) =
     (Inl (invalid (''token '' @ quoted ''bot'' @ '' references unknown device '' @ quoted ''gone'')), Some sample_file)"
    using spec_InlD [OF revoke_spec [OF sample_auth_sound] refl] by (metis prod.collapse)
  show "authenticate_at (al_sha256 sample_auth) [ops_entry, bot_entry] ''one'' 10 = Some ops_entry"
    by code_simp
qed

end
