(* ===== verification/Canonical_Json.thy ===== *)
theory Canonical_Json
  imports Digest
begin

text \<open>
  \<open>crates/mecmcp-audit/src/canonical.rs\<close>: a JSON value rendered with sorted keys and a bounded
  depth, and the SHA-256 digest of the rendering. serde_json's rendering of a string is the
  parameter \<open>quote\<close>; a number is its literal. The lemmas show that the rendering determines the
  value up to the order of object keys.
\<close>

definition GENESIS_PREV_HASH :: string where
  "GENESIS_PREV_HASH = ''sha256:'' @ replicate 64 (CHR ''0'')"

definition MAX_CANONICAL_DEPTH :: nat where
  "MAX_CANONICAL_DEPTH = 128"

function write_canonical :: "(string \<Rightarrow> string) \<Rightarrow> nat \<Rightarrow> json \<Rightarrow> string option" where
  "write_canonical quote depth j =
     (if depth > MAX_CANONICAL_DEPTH then None
      else case j of
        JObj kvs \<Rightarrow>
          map_option (\<lambda>ms. ''{'' @ join_with (CHR '','')
              (map (\<lambda>(k, t). quote k @ '':'' @ t) (sort_key fst ms)) @ ''}'')
            (those (map (\<lambda>(k, v). map_option (Pair k) (write_canonical quote (depth + 1) v)) kvs))
      | JArr js \<Rightarrow>
          map_option (\<lambda>ts. ''['' @ join_with (CHR '','') ts @ '']'')
            (those (map (write_canonical quote (depth + 1)) js))
      | JStr s \<Rightarrow> Some (quote s)
      | JNum n \<Rightarrow> Some n
      | JBool b \<Rightarrow> Some (if b then ''true'' else ''false'')
      | JNull \<Rightarrow> Some ''null'')"
  by pat_completeness auto
termination
proof (relation "measure (\<lambda>(_, depth, _). MAX_CANONICAL_DEPTH + 1 - depth)")
qed auto

declare write_canonical.simps [simp del]

definition canonical_json :: "(string \<Rightarrow> string) \<Rightarrow> json \<Rightarrow> string option" where
  "canonical_json quote j = write_canonical quote 0 j"

definition sha256_hex :: "(string \<Rightarrow> string) \<Rightarrow> string \<Rightarrow> string" where
  "sha256_hex sha bytes = hex_string (sha bytes)"

definition digest_of :: "(string \<Rightarrow> string) \<Rightarrow> (string \<Rightarrow> string) \<Rightarrow> json \<Rightarrow> string option" where
  "digest_of quote sha j =
     map_option (\<lambda>s. ''sha256:'' @ sha256_hex sha s) (canonical_json quote j)"

section \<open>The value behind a rendering\<close>

text \<open>Objects with their members in key order, throughout.\<close>

fun norm :: "json \<Rightarrow> json" where
  "norm (JObj kvs) = JObj (sort_key fst (map (\<lambda>(k, v). (k, norm v)) kvs))"
| "norm (JArr js) = JArr (map norm js)"
| "norm j = j"

fun render :: "(string \<Rightarrow> string) \<Rightarrow> json \<Rightarrow> string" where
  "render quote (JObj kvs) =
     ''{'' @ join_with (CHR '','') (map (\<lambda>(k, v). quote k @ '':'' @ render quote v) kvs) @ ''}''"
| "render quote (JArr js) = ''['' @ join_with (CHR '','') (map (render quote) js) @ '']''"
| "render quote (JStr s) = quote s"
| "render quote (JNum n) = n"
| "render quote (JBool b) = (if b then ''true'' else ''false'')"
| "render quote JNull = ''null''"

lemma sort_map_snd:
  "sort_key fst (map (\<lambda>(k, v). (k, f v)) xs) = map (\<lambda>(k, v). (k, f v)) (sort_key fst xs)"
proof -
  have ins: "insort_key fst (k, f v) (map (\<lambda>(k, v). (k, f v)) ys) =
      map (\<lambda>(k, v). (k, f v)) (insort_key fst (k, v) ys)" for k v ys
    by (induction ys) auto
  show ?thesis by (induction xs) (auto simp: ins)
qed

lemma those_map_Some:
  "those (map f xs) = Some ys \<Longrightarrow> (\<And>x y. x \<in> set xs \<Longrightarrow> f x = Some y \<Longrightarrow> y = g x) \<Longrightarrow> ys = map g xs"
  by (induction xs arbitrary: ys) (auto split: option.splits)

lemma write_canonical_render:
  "write_canonical quote depth j = Some s \<Longrightarrow> s = render quote (norm j)"
proof (induction quote depth j arbitrary: s rule: write_canonical.induct)
  case (1 quote depth j)
  then have d: "\<not> depth > MAX_CANONICAL_DEPTH"
    by (auto simp: write_canonical.simps split: if_splits)
  show ?case
  proof (cases j)
    case (JObj kvs)
    with 1(3) d obtain ms where ms: "those (map (\<lambda>(k, v). map_option (Pair k)
        (write_canonical quote (depth + 1) v)) kvs) = Some ms"
      "s = ''{'' @ join_with (CHR '','') (map (\<lambda>(k, t). quote k @ '':'' @ t) (sort_key fst ms)) @ ''}''"
      by (subst (asm) write_canonical.simps) auto
    have "ms = map (\<lambda>(k, v). (k, render quote (norm v))) kvs"
      by (rule those_map_Some [OF ms(1)]) (use 1(2) [OF d JObj] in auto)
    then show ?thesis
      using ms(2) by (simp add: JObj sort_map_snd split_beta comp_def)
  next
    case (JArr js)
    with 1(3) d obtain ts where ts: "those (map (write_canonical quote (depth + 1)) js) = Some ts"
      "s = ''['' @ join_with (CHR '','') ts @ '']''"
      by (subst (asm) write_canonical.simps) auto
    have "ts = map (\<lambda>v. render quote (norm v)) js"
      by (rule those_map_Some [OF ts(1)]) (use 1(1) [OF d JArr] in auto)
    then show ?thesis using ts(2) by (simp add: JArr comp_def)
  qed (use 1(3) d in \<open>simp_all add: write_canonical.simps\<close>)
qed

section \<open>Renderings are self-delimiting\<close>

text \<open>
  Documented behaviour of serde_json: a rendered string starts with a quotation mark and its end
  can be found without knowing what follows it.
\<close>

definition delimited :: "(string \<Rightarrow> string) \<Rightarrow> bool" where
  "delimited quote \<longleftrightarrow> (\<forall>s. \<exists>r. quote s = CHR 0x22 # r) \<and>
     (\<forall>s t x y. quote s @ x = quote t @ y \<longrightarrow> s = t \<and> x = y)"

definition num_char :: "char \<Rightarrow> bool" where
  "num_char c \<longleftrightarrow> c \<in> set ''0123456789+-.eE''"

text \<open>Number literals are not empty and have only the characters of numbers.\<close>

fun literal_ok :: "json \<Rightarrow> bool" where
  "literal_ok (JObj kvs) \<longleftrightarrow> list_all (\<lambda>p. literal_ok (snd p)) kvs"
| "literal_ok (JArr js) \<longleftrightarrow> list_all literal_ok js"
| "literal_ok (JNum n) \<longleftrightarrow> n \<noteq> [] \<and> list_all num_char n"
| "literal_ok _ \<longleftrightarrow> True"

definition ends :: "string \<Rightarrow> bool" where
  "ends r \<longleftrightarrow> r = [] \<or> hd r \<in> {CHR '','', CHR ''}'', CHR '']''}"

lemma ends_simps [simp]:
  "ends []" "ends (CHR '','' # r)" "ends (CHR ''}'' # r)" "ends (CHR '']'' # r)"
  by (simp_all add: ends_def)

lemma num_split:
  assumes "list_all num_char m" "list_all num_char n" "ends r" "ends r'" "m @ r = n @ r'"
  shows "m = n \<and> r = r'"
proof -
  have "takeWhile num_char (m @ r) = m" if "list_all num_char m" "ends r" for m r
    using that by (induction m) (cases r; auto simp: ends_def num_char_def)+
  with assms have "m = n" by metis
  with assms show ?thesis by simp
qed

text \<open>The first character tells the kind of value, and is never a separator or a bracket.\<close>

lemma render_first:
  assumes "delimited quote" "literal_ok j"
  obtains c r where "render quote j = c # r" "c \<notin> {CHR '','', CHR ''}'', CHR '']''}"
    "case j of JObj _ \<Rightarrow> c = CHR ''{'' | JArr _ \<Rightarrow> c = CHR ''['' | JStr _ \<Rightarrow> c = CHR 0x22
     | JNum _ \<Rightarrow> num_char c | JBool b \<Rightarrow> c = (if b then CHR ''t'' else CHR ''f'') | JNull \<Rightarrow> c = CHR ''n''"
proof (cases j)
  case (JObj kvs)
  show thesis by (rule that [of "CHR ''{''"]) (simp_all add: JObj)
next
  case (JArr js)
  show thesis by (rule that [of "CHR ''[''"]) (simp_all add: JArr)
next
  case (JNum n)
  with assms(2) obtain c m where n: "n = c # m" "num_char c" by (cases n) auto
  have "c \<notin> {CHR '','', CHR ''}'', CHR '']''}" using n(2) by (auto simp: num_char_def)
  then show thesis by (intro that [of c m]) (simp_all add: JNum n)
next
  case (JStr s)
  from assms(1) obtain r where "quote s = CHR 0x22 # r"
    unfolding delimited_def by blast
  then show thesis by (intro that [of "CHR 0x22" r]) (simp_all add: JStr)
next
  case (JBool b)
  show thesis by (rule that [of "if b then CHR ''t'' else CHR ''f''" "if b then ''rue'' else ''alse''"])
    (simp_all add: JBool)
next
  case JNull
  show thesis by (rule that [of "CHR ''n''" "''ull''"]) (simp_all add: JNull)
qed

lemma join_close:
  assumes step: "\<And>x y r r'. x \<in> set xs \<Longrightarrow> y \<in> set ys \<Longrightarrow> ends r \<Longrightarrow> ends r' \<Longrightarrow>
      f x @ r = f y @ r' \<Longrightarrow> x = y \<and> r = r'"
    and first: "\<And>x. x \<in> set xs \<union> set ys \<Longrightarrow> \<exists>c t. f x = c # t \<and> c \<notin> {CHR '','', CHR ''}'', CHR '']''}"
    and close: "k = CHR ''}'' \<or> k = CHR '']''"
    and eq: "join_with (CHR '','') (map f xs) @ k # r = join_with (CHR '','') (map f ys) @ k # r'"
  shows "xs = ys \<and> r = r'"
proof -
  define tail where "tail zs q = (if zs = [] then k # q else CHR '','' # join_with (CHR '','') (map f zs) @ k # q)"
    for zs q
  have join: "join_with (CHR '','') (map f (z # zs)) @ k # q = f z @ tail zs q" for z zs q
    by (cases zs) (simp_all add: tail_def)
  have tail_ends: "ends (tail zs q)" for zs q
    using close by (auto simp: tail_def)
  show ?thesis
    using step first eq
  proof (induction xs arbitrary: ys)
    case Nil
    show ?case
    proof (cases ys)
      case (Cons y ys')
      with Nil(2) [of y] Nil(3) close show ?thesis
        unfolding Cons join by auto
    qed (use Nil(3) in simp)
  next
    case (Cons x xs)
    show ?case
    proof (cases ys)
      case Nil
      with Cons.prems(2) [of x] Cons.prems(3) close show ?thesis
        unfolding Nil join by auto
    next
      case ys: (Cons y ys')
      from Cons.prems(3) have "f x @ tail xs r = f y @ tail ys' r'"
        unfolding ys join .
      with Cons.prems(1) [of x y] tail_ends have xy: "x = y" and t: "tail xs r = tail ys' r'"
        by (auto simp: ys)
      show ?thesis
      proof (cases "xs = [] \<or> ys' = []")
        case True
        with t close show ?thesis by (auto simp: tail_def xy ys split: if_splits)
      next
        case False
        with t have "join_with (CHR '','') (map f xs) @ k # r = join_with (CHR '','') (map f ys') @ k # r'"
          by (simp add: tail_def)
        with Cons.IH [of ys'] Cons.prems(1,2) show ?thesis by (auto simp: xy ys)
      qed
    qed
  qed
qed

definition json_kind :: "json \<Rightarrow> nat" where
  "json_kind j = (case j of JObj _ \<Rightarrow> 0 | JArr _ \<Rightarrow> 1 | JStr _ \<Rightarrow> 2 | JNum _ \<Rightarrow> 3
     | JBool b \<Rightarrow> (if b then 4 else 5) | JNull \<Rightarrow> 6)"

lemma same_kind:
  assumes "delimited quote" "literal_ok i" "literal_ok j" "render quote i @ r = render quote j @ r'"
  shows "json_kind i = json_kind j"
proof -
  obtain c t where i: "render quote i = c # t"
    "case i of JObj _ \<Rightarrow> c = CHR ''{'' | JArr _ \<Rightarrow> c = CHR ''['' | JStr _ \<Rightarrow> c = CHR 0x22
     | JNum _ \<Rightarrow> num_char c | JBool b \<Rightarrow> c = (if b then CHR ''t'' else CHR ''f'') | JNull \<Rightarrow> c = CHR ''n''"
    by (rule render_first [OF assms(1,2)])
  obtain c' t' where j: "render quote j = c' # t'"
    "case j of JObj _ \<Rightarrow> c' = CHR ''{'' | JArr _ \<Rightarrow> c' = CHR ''['' | JStr _ \<Rightarrow> c' = CHR 0x22
     | JNum _ \<Rightarrow> num_char c' | JBool b \<Rightarrow> c' = (if b then CHR ''t'' else CHR ''f'') | JNull \<Rightarrow> c' = CHR ''n''"
    by (rule render_first [OF assms(1,3)])
  have "c = c'" using assms(4) by (simp add: i(1) j(1))
  with i(2) j(2) show ?thesis
    by (cases i; cases j) (simp_all add: json_kind_def num_char_def split: if_splits)
qed

lemma render_inj:
  assumes q: "delimited quote"
  shows "literal_ok i \<Longrightarrow> literal_ok j \<Longrightarrow> ends r \<Longrightarrow> ends r' \<Longrightarrow>
    render quote i @ r = render quote j @ r' \<Longrightarrow> i = j \<and> r = r'"
proof (induction i arbitrary: j r r')
  case (JObj kvs)
  obtain kvs' where j: "j = JObj kvs'"
    using same_kind [OF q JObj.prems(1,2,5)] by (cases j) (auto simp: json_kind_def split: if_splits)
  let ?f = "\<lambda>p. quote (fst p) @ CHR '':'' # render quote (snd p)"
  have eq: "join_with (CHR '','') (map ?f kvs) @ CHR ''}'' # r =
      join_with (CHR '','') (map ?f kvs') @ CHR ''}'' # r'"
    using JObj.prems(5) by (simp add: j case_prod_unfold)
  have "kvs = kvs' \<and> r = r'"
  proof (rule join_close [OF _ _ _ eq])
    fix x y s s'
    assume m: "x \<in> set kvs" "y \<in> set kvs'" "ends s" "ends s'" "?f x @ s = ?f y @ s'"
    then have "quote (fst x) @ (CHR '':'' # render quote (snd x) @ s) = quote (fst y) @ (CHR '':'' # render quote (snd y) @ s')"
      by simp
    with q have "fst x = fst y" "render quote (snd x) @ s = render quote (snd y) @ s'"
      unfolding delimited_def by blast+
    moreover have "snd x = snd y \<and> s = s'"
    proof (rule JObj.IH [OF m(1)])
      show "snd x \<in> Basic_BNFs.snds x" by (cases x) simp
    qed (use m JObj.prems(1,2) calculation(2) in \<open>auto simp: j list_all_iff\<close>)
    ultimately show "x = y \<and> s = s'" by (auto simp: prod_eq_iff)
  next
    fix x :: "string \<times> json"
    from q obtain t where "quote (fst x) = CHR 0x22 # t" unfolding delimited_def by blast
    then show "\<exists>c t. ?f x = c # t \<and> c \<notin> {CHR '','', CHR ''}'', CHR '']''}" by simp
  qed simp
  then show ?case by (simp add: j)
next
  case (JArr js)
  obtain js' where j: "j = JArr js'"
    using same_kind [OF q JArr.prems(1,2,5)] by (cases j) (auto simp: json_kind_def split: if_splits)
  have eq: "join_with (CHR '','') (map (render quote) js) @ CHR '']'' # r =
      join_with (CHR '','') (map (render quote) js') @ CHR '']'' # r'"
    using JArr.prems(5) by (simp add: j)
  have "js = js' \<and> r = r'"
  proof (rule join_close [OF _ _ _ eq])
    fix x y s s'
    assume m: "x \<in> set js" "y \<in> set js'" "ends s" "ends s'" "render quote x @ s = render quote y @ s'"
    show "x = y \<and> s = s'"
      by (rule JArr.IH [OF m(1)]) (use m JArr.prems(1,2) in \<open>auto simp: j list_all_iff\<close>)
  next
    fix x
    assume "x \<in> set js \<union> set js'"
    then have "literal_ok x" using JArr.prems(1,2) by (auto simp: j list_all_iff)
    then show "\<exists>c t. render quote x = c # t \<and> c \<notin> {CHR '','', CHR ''}'', CHR '']''}"
      using render_first [OF q] by metis
  qed simp
  then show ?case by (simp add: j)
next
  case (JNum n)
  obtain n' where j: "j = JNum n'"
    using same_kind [OF q JNum.prems(1,2,5)] by (cases j) (auto simp: json_kind_def split: if_splits)
  then show ?case using num_split [of n n' r r'] JNum.prems by simp
next
  case (JStr s)
  obtain s' where j: "j = JStr s'"
    using same_kind [OF q JStr.prems(1,2,5)] by (cases j) (auto simp: json_kind_def split: if_splits)
  with JStr.prems(5) have "quote s @ r = quote s' @ r'" by simp
  with q have "s = s' \<and> r = r'" unfolding delimited_def by blast
  then show ?case by (simp add: j)
next
  case (JBool b)
  obtain b' where j: "j = JBool b'" "b' = b"
    using same_kind [OF q JBool.prems(1,2,5)] by (cases j) (auto simp: json_kind_def split: if_splits)
  then show ?case using JBool.prems(5) by (cases b) simp_all
next
  case JNull
  have "j = JNull"
    using same_kind [OF q JNull.prems(1,2,5)] by (cases j) (auto simp: json_kind_def split: if_splits)
  then show ?case using JNull.prems(5) by simp
qed

lemma literal_ok_norm [simp]: "literal_ok (norm j) \<longleftrightarrow> literal_ok j"
  by (induction j) (auto simp: list_all_iff)

text \<open>Equal canonical renderings come from equal values, up to the order of keys.\<close>

lemma canonical_json_inj:
  assumes "delimited quote" "literal_ok i" "literal_ok j"
    and "canonical_json quote i = Some s" "canonical_json quote j = Some s"
  shows "norm i = norm j"
  using render_inj [OF assms(1), of "norm i" "norm j" "[]" "[]"] assms(2-5)
    write_canonical_render [of quote 0 i s] write_canonical_render [of quote 0 j s]
  by (simp add: canonical_json_def)

lemma digest_of_binds:
  assumes "delimited quote" "literal_ok i" "literal_ok j"
    and "digest_of quote sha i = Some d" "digest_of quote sha j = Some d"
  shows "norm i = norm j \<or>
    (\<exists>s t. canonical_json quote i = Some s \<and> canonical_json quote j = Some t \<and> hash_collision sha s t)"
proof -
  from assms(4,5) obtain s t where st: "canonical_json quote i = Some s" "canonical_json quote j = Some t"
    "hex_string (sha s) = hex_string (sha t)"
    by (auto simp: digest_of_def sha256_hex_def)
  then have "sha s = sha t" by (auto dest: hex_string_inj)
  then show ?thesis
    using canonical_json_inj [OF assms(1-3)] st by (auto simp: hash_collision_def)
qed

end
