(* ===== verification/Evidence.thy ===== *)
theory Evidence
  imports Canonical_Json Auth_Scope
begin

text \<open>
  \<open>crates/mecmcp-audit/src/evidence.rs\<close>: evidence records, hash-chained segments, and the
  archive of closed segments. \<open>quote\<close> and \<open>sha\<close> are serde_json's string rendering and SHA-256.
  The fields the four record kinds share are one record; a kind adds its own.
\<close>

section \<open>Records\<close>

record evidence_body =
  ev_request_id :: string
  ev_changeset_id :: string
  ev_device_id :: string
  ev_principal :: string
  ev_diff_hash :: string
  ev_timestamp :: string
  ev_run_id :: string
  ev_server_id :: string
  ev_segment_seq :: nat
  ev_prev_hash :: string
  ev_metadata :: "json option"

datatype evidence_record =
    ProposalRecord evidence_body
  | ApprovalRecord evidence_body string string \<comment> \<open>approver, decision\<close>
  | ApplyIntentRecord evidence_body
  | ResultReceipt evidence_body string "string option" \<comment> \<open>outcome, error\<close>

fun body_of :: "evidence_record \<Rightarrow> evidence_body" where
  "body_of (ProposalRecord b) = b"
| "body_of (ApprovalRecord b _ _) = b"
| "body_of (ApplyIntentRecord b) = b"
| "body_of (ResultReceipt b _ _) = b"

fun map_body :: "(evidence_body \<Rightarrow> evidence_body) \<Rightarrow> evidence_record \<Rightarrow> evidence_record" where
  "map_body f (ProposalRecord b) = ProposalRecord (f b)"
| "map_body f (ApprovalRecord b approver decision) = ApprovalRecord (f b) approver decision"
| "map_body f (ApplyIntentRecord b) = ApplyIntentRecord (f b)"
| "map_body f (ResultReceipt b outcome error) = ResultReceipt (f b) outcome error"

fun record_kind :: "evidence_record \<Rightarrow> string" where
  "record_kind (ProposalRecord _) = ''evidence:proposal''"
| "record_kind (ApprovalRecord _ _ _) = ''evidence:approval''"
| "record_kind (ApplyIntentRecord _) = ''evidence:apply_intent''"
| "record_kind (ResultReceipt _ _ _) = ''evidence:result_receipt''"

definition some_field :: "string \<Rightarrow> json option \<Rightarrow> (string \<times> json) list" where
  "some_field k v = (case v of None \<Rightarrow> [] | Some j \<Rightarrow> [(k, j)])"

fun kind_fields :: "evidence_record \<Rightarrow> (string \<times> json) list" where
  "kind_fields (ApprovalRecord _ approver decision) =
     [(''approver'', JStr approver), (''decision'', JStr decision)]"
| "kind_fields (ResultReceipt _ outcome error) =
     (''outcome'', JStr outcome) # some_field ''error'' (map_option JStr error)"
| "kind_fields _ = []"

text \<open>The derived \<open>Serialize\<close> of the tagged enum, a field that is \<open>None\<close> left out.\<close>

definition record_to_value :: "evidence_record \<Rightarrow> (string \<times> json) list" where
  "record_to_value r =
     (let b = body_of r in
      [(''kind'', JStr (record_kind r)), (''request_id'', JStr (ev_request_id b)),
       (''changeset_id'', JStr (ev_changeset_id b)), (''device_id'', JStr (ev_device_id b)),
       (''principal'', JStr (ev_principal b)), (''diff_hash'', JStr (ev_diff_hash b)),
       (''timestamp'', JStr (ev_timestamp b)), (''run_id'', JStr (ev_run_id b)),
       (''server_id'', JStr (ev_server_id b)), (''segment_seq'', JNum (decimal (ev_segment_seq b))),
       (''prev_hash'', JStr (ev_prev_hash b))] @
      kind_fields r @ some_field ''metadata'' (ev_metadata b))"

definition obj_insert :: "string \<Rightarrow> json \<Rightarrow> (string \<times> json) list \<Rightarrow> (string \<times> json) list" where
  "obj_insert k v kvs =
     (if List.member (map fst kvs) k then map (\<lambda>(k', v'). (k', if k' = k then v else v')) kvs
      else kvs @ [(k, v)])"

definition compute_record_hash ::
  "(string \<Rightarrow> string) \<Rightarrow> (string \<Rightarrow> string) \<Rightarrow> evidence_record \<Rightarrow> string \<Rightarrow> string option" where
  "compute_record_hash quote sha r prev =
     digest_of quote sha (JObj (obj_insert ''prev_hash'' (JStr prev) (record_to_value r)))"

section \<open>Segments\<close>

record chain_segment =
  sg_run_id :: string
  sg_server_id :: string
  sg_segment_seq :: nat
  sg_prev_hash :: string
  sg_records :: "evidence_record list"
  sg_last_hash :: "string option"

record closed_segment =
  cl_run_id :: string
  cl_server_id :: string
  cl_segment_seq :: nat
  cl_prev_hash :: string
  cl_records :: "evidence_record list"
  cl_head_hash :: string
  cl_signature :: "string option"

datatype evidence_error = Canonical | RunIdNotMonotonic string string
  | EnvelopeMismatch string string string

definition new_segment :: "string \<Rightarrow> string \<Rightarrow> nat \<Rightarrow> string \<Rightarrow> chain_segment" where
  "new_segment run_id server_id seq prev =
     \<lparr>sg_run_id = run_id, sg_server_id = server_id, sg_segment_seq = seq, sg_prev_hash = prev,
      sg_records = [], sg_last_hash = None\<rparr>"

definition chain_head :: "chain_segment \<Rightarrow> string" where
  "chain_head seg = (case sg_last_hash seg of None \<Rightarrow> sg_prev_hash seg | Some h \<Rightarrow> h)"

definition validate_and_inject ::
  "chain_segment \<Rightarrow> string \<Rightarrow> evidence_body \<Rightarrow> evidence_error + evidence_body" where
  "validate_and_inject seg prev b =
     res_bind (require (ev_run_id b = [] \<or> ev_run_id b = sg_run_id seg)
        (EnvelopeMismatch ''run_id'' (ev_run_id b) (sg_run_id seg)))
     (\<lambda>_. res_bind (require (ev_server_id b = [] \<or> ev_server_id b = sg_server_id seg)
        (EnvelopeMismatch ''server_id'' (ev_server_id b) (sg_server_id seg)))
     (\<lambda>_. res_bind (require (ev_segment_seq b = 0 \<or> ev_segment_seq b = sg_segment_seq seg)
        (EnvelopeMismatch ''segment_seq'' (decimal (ev_segment_seq b)) (decimal (sg_segment_seq seg))))
     (\<lambda>_. res_bind (require (ev_prev_hash b = [])
        (EnvelopeMismatch ''prev_hash'' (ev_prev_hash b) prev))
     (\<lambda>_. Inr (b\<lparr>ev_run_id := sg_run_id seg, ev_server_id := sg_server_id seg,
        ev_segment_seq := sg_segment_seq seg, ev_prev_hash := prev\<rparr>)))))"

definition append_record ::
  "(string \<Rightarrow> string) \<Rightarrow> (string \<Rightarrow> string) \<Rightarrow> chain_segment \<Rightarrow> evidence_record \<Rightarrow>
   evidence_error + string \<times> chain_segment" where
  "append_record quote sha seg r =
     (let prev = chain_head seg in
      res_bind (validate_and_inject seg prev (body_of r)) (\<lambda>b.
        let r' = map_body (\<lambda>_. b) r in
        case compute_record_hash quote sha r' prev of
          None \<Rightarrow> Inl Canonical
        | Some hash \<Rightarrow>
            Inr (hash, seg\<lparr>sg_records := sg_records seg @ [r'], sg_last_hash := Some hash\<rparr>)))"

definition close_segment :: "chain_segment \<Rightarrow> closed_segment" where
  "close_segment seg =
     \<lparr>cl_run_id = sg_run_id seg, cl_server_id = sg_server_id seg, cl_segment_seq = sg_segment_seq seg,
      cl_prev_hash = sg_prev_hash seg, cl_records = sg_records seg, cl_head_hash = chain_head seg,
      cl_signature = None\<rparr>"

section \<open>The archive, and server identifiers\<close>

definition archive :: "closed_segment list \<Rightarrow> closed_segment \<Rightarrow> evidence_error + closed_segment list" where
  "archive segments segment =
     (if segments \<noteq> [] \<and> cl_run_id segment < cl_run_id (last segments)
      then Inl (RunIdNotMonotonic (cl_run_id (last segments)) (cl_run_id segment))
      else Inr (segments @ [segment]))"

definition server_id_char :: "char \<Rightarrow> bool" where
  "server_id_char c \<longleftrightarrow> (CHR ''a'' \<le> c \<and> c \<le> CHR ''z'') \<or> (CHR ''A'' \<le> c \<and> c \<le> CHR ''Z'') \<or>
     (CHR ''0'' \<le> c \<and> c \<le> CHR ''9'') \<or> c = CHR ''_'' \<or> c = CHR ''-''"

definition validate_server_id :: "string \<Rightarrow> string + unit" where
  "validate_server_id s =
     (if blank s then Inl ''server_id is empty''
      else if \<not> list_all server_id_char s
      then Inl (''server_id '' @ [CHR 0x27] @ s @ [CHR 0x27] @
             '' contains unsafe characters (only [A-Za-z0-9_-] allowed)'')
      else Inr ())"

end
