(* ===== verification/Evidence_Facts.thy ===== *)
theory Evidence_Facts
  imports Evidence
begin

text \<open>
  What a hash chain binds. A record's hash determines the record (its metadata up to the order of
  keys) and the hash before it, unless SHA-256 collides on two renderings that can be named; so
  the head of a chain determines every record of it, back to where the shorter of two chains
  starts.
\<close>

section \<open>A record from its JSON value\<close>

definition canon_record :: "evidence_record \<Rightarrow> evidence_record" where
  "canon_record = map_body (\<lambda>b. b\<lparr>ev_metadata := map_option norm (ev_metadata b)\<rparr>)"

lemma body_map_body [simp]: "body_of (map_body f r) = f (body_of r)"
  by (cases r) simp_all

lemma map_body_map_body [simp]: "map_body f (map_body g r) = map_body (\<lambda>b. f (g b)) r"
  by (cases r) simp_all

lemma map_of_sort:
  assumes d: "distinct (map fst kvs)"
  shows "map_of (sort_key fst kvs) k = map_of kvs k"
proof (cases "map_of kvs k")
  case None
  then have "map_of (sort_key fst kvs) k = None" unfolding map_of_eq_None_iff by simp
  with None show ?thesis by simp
next
  case (Some v)
  have "distinct (map fst (sort_key fst kvs))"
    using d by (simp add: distinct_map)
  then show ?thesis
    using Some d by (simp add: map_of_eq_Some_iff)
qed

lemma map_of_map_snd: "map_of (map (\<lambda>(k, v). (k, f v)) kvs) k = map_option f (map_of kvs k)"
  by (induction kvs) auto

lemma norm_obj_lookup:
  assumes "norm (JObj kvs) = norm (JObj kvs')" "distinct (map fst kvs)" "distinct (map fst kvs')"
  shows "map_option norm (map_of kvs k) = map_option norm (map_of kvs' k)"
proof -
  from assms(1) have "map (\<lambda>(k, v). (k, norm v)) (sort_key fst kvs) =
      map (\<lambda>(k, v). (k, norm v)) (sort_key fst kvs')"
    by (simp add: sort_map_snd)
  then have "map_of (map (\<lambda>(k, v). (k, norm v)) (sort_key fst kvs)) k =
      map_of (map (\<lambda>(k, v). (k, norm v)) (sort_key fst kvs')) k" by (simp only:)
  then show ?thesis
    unfolding map_of_map_snd map_of_sort [OF assms(2)] map_of_sort [OF assms(3)] .
qed

lemma some_field_keys: "map fst (some_field k v) = (if v = None then [] else [k])"
  by (cases v) (simp_all add: some_field_def)

lemma map_of_some_field: "map_of (some_field k v) = (\<lambda>k'. if k' = k then v else None)"
  by (cases v) (auto simp: some_field_def)

lemma record_to_value_distinct: "distinct (map fst (record_to_value r))"
  by (cases r) (auto simp: record_to_value_def Let_def some_field_keys)

lemma record_lookup:
  "map_of (record_to_value r) ''kind'' = Some (JStr (record_kind r))"
  "map_of (record_to_value r) ''request_id'' = Some (JStr (ev_request_id (body_of r)))"
  "map_of (record_to_value r) ''changeset_id'' = Some (JStr (ev_changeset_id (body_of r)))"
  "map_of (record_to_value r) ''device_id'' = Some (JStr (ev_device_id (body_of r)))"
  "map_of (record_to_value r) ''principal'' = Some (JStr (ev_principal (body_of r)))"
  "map_of (record_to_value r) ''diff_hash'' = Some (JStr (ev_diff_hash (body_of r)))"
  "map_of (record_to_value r) ''timestamp'' = Some (JStr (ev_timestamp (body_of r)))"
  "map_of (record_to_value r) ''run_id'' = Some (JStr (ev_run_id (body_of r)))"
  "map_of (record_to_value r) ''server_id'' = Some (JStr (ev_server_id (body_of r)))"
  "map_of (record_to_value r) ''segment_seq'' = Some (JNum (decimal (ev_segment_seq (body_of r))))"
  "map_of (record_to_value r) ''prev_hash'' = Some (JStr (ev_prev_hash (body_of r)))"
  by (simp_all add: record_to_value_def Let_def)

lemma record_lookup_own:
  "map_of (record_to_value r) ''metadata'' = ev_metadata (body_of r)"
  "map_of (record_to_value r) ''approver'' = map_of (kind_fields r) ''approver''"
  "map_of (record_to_value r) ''decision'' = map_of (kind_fields r) ''decision''"
  "map_of (record_to_value r) ''outcome'' = map_of (kind_fields r) ''outcome''"
  "map_of (record_to_value r) ''error'' = map_of (kind_fields r) ''error''"
  by (cases r; simp add: record_to_value_def Let_def map_of_some_field map_add_def split: option.split)+

lemma norm_strings: "map_option norm (map_option JStr x) = map_option norm (map_option JStr y) \<longleftrightarrow> x = y"
  by (cases x; cases y) simp_all

lemma value_determines_record:
  assumes "norm (JObj (record_to_value r)) = norm (JObj (record_to_value r'))"
  shows "canon_record r = canon_record r'"
proof -
  note look = norm_obj_lookup [OF assms record_to_value_distinct record_to_value_distinct]
  have kind: "record_kind r = record_kind r'"
    using look [of "''kind''"] by (simp add: record_lookup)
  have body: "(body_of r)\<lparr>ev_metadata := map_option norm (ev_metadata (body_of r))\<rparr> =
      (body_of r')\<lparr>ev_metadata := map_option norm (ev_metadata (body_of r'))\<rparr>"
    using look [of "''request_id''"] look [of "''changeset_id''"] look [of "''device_id''"]
      look [of "''principal''"] look [of "''diff_hash''"] look [of "''timestamp''"]
      look [of "''run_id''"] look [of "''server_id''"] look [of "''segment_seq''"]
      look [of "''prev_hash''"] look [of "''metadata''"]
    by (auto simp: record_lookup record_lookup_own dest: decimal_inj)
  have own: "map_option norm (map_of (kind_fields r) k) = map_option norm (map_of (kind_fields r') k)"
    if "k \<in> {''approver'', ''decision'', ''outcome'', ''error''}" for k
    using look [of k] that by (auto simp: record_lookup_own)
  show ?thesis
    using kind body own [of "''approver''"] own [of "''decision''"] own [of "''outcome''"] own [of "''error''"]
    by (cases r; cases r') (auto simp: canon_record_def map_of_some_field norm_strings)
qed

section \<open>What a record's hash binds\<close>

definition with_prev :: "string \<Rightarrow> evidence_record \<Rightarrow> evidence_record" where
  "with_prev p = map_body (\<lambda>b. b\<lparr>ev_prev_hash := p\<rparr>)"

lemma obj_insert_prev:
  "obj_insert ''prev_hash'' (JStr p) (record_to_value r) = record_to_value (with_prev p r)"
  by (cases r) (auto simp: record_to_value_def Let_def obj_insert_def with_prev_def some_field_def
      split: option.split)

lemma compute_record_hash_eq:
  "compute_record_hash quote sha r p = digest_of quote sha (JObj (record_to_value (with_prev p r)))"
  by (simp add: compute_record_hash_def obj_insert_prev)

text \<open>Numbers in metadata are JSON literals.\<close>

definition record_ok :: "evidence_record \<Rightarrow> bool" where
  "record_ok r \<longleftrightarrow> (case ev_metadata (body_of r) of None \<Rightarrow> True | Some j \<Rightarrow> literal_ok j)"

lemma decimal_literal: "decimal n \<noteq> [] \<and> list_all num_char (decimal n)"
proof -
  have "list_all num_char ''0123456789''" by code_simp
  moreover have "set (decimal n) \<subseteq> set ''0123456789''"
  proof (induction n rule: decimal.induct)
    case (1 n)
    have "hex_digit m \<in> set ''0123456789''" if "m < 10" for m
    proof -
      from that have "m \<in> {0, 1, 2, 3, 4, 5, 6, 7, 8, 9}" by auto
      then show ?thesis by (auto simp: hex_digit_def)
    qed
    with 1 show ?case
      by (cases "n < 10") (simp_all add: decimal_small decimal_big)
  qed
  ultimately show ?thesis
    using decimal_nonempty by (auto simp: list_all_iff)
qed

lemma record_literal_ok: "record_ok r \<Longrightarrow> literal_ok (JObj (record_to_value r))"
  using decimal_literal
  by (cases r) (auto simp: record_ok_def record_to_value_def Let_def some_field_def split: option.splits)

lemma record_ok_with_prev [simp]: "record_ok (with_prev p r) = record_ok r"
  by (simp add: record_ok_def with_prev_def)

lemma canon_with_prev:
  "canon_record (with_prev p r) = canon_record (with_prev p' r') \<Longrightarrow>
     p = p' \<and> canon_record (with_prev [] r) = canon_record (with_prev [] r')"
proof -
  assume e: "canon_record (with_prev p r) = canon_record (with_prev p' r')"
  have "ev_prev_hash (body_of (canon_record (with_prev q s))) = q" for q s
    by (simp add: canon_record_def with_prev_def)
  with e have "p = p'" by metis
  moreover have "with_prev [] (canon_record (with_prev q s)) = canon_record (with_prev [] s)" for q s
    by (cases s) (simp_all add: canon_record_def with_prev_def)
  with e have "canon_record (with_prev [] r) = canon_record (with_prev [] r')" by metis
  ultimately show ?thesis by simp
qed

text \<open>The text a record is hashed as, and two such texts with one hash value.\<close>

definition hashed_text :: "(string \<Rightarrow> string) \<Rightarrow> evidence_record \<Rightarrow> string \<Rightarrow> string option" where
  "hashed_text quote r p = canonical_json quote (JObj (record_to_value (with_prev p r)))"

lemma record_hash_binds:
  assumes "delimited quote" "record_ok r" "record_ok r'"
    and "compute_record_hash quote sha r p = Some h" "compute_record_hash quote sha r' p' = Some h"
  shows "(\<exists>s t. hashed_text quote r p = Some s \<and> hashed_text quote r' p' = Some t \<and> hash_collision sha s t) \<or>
    p = p' \<and> canon_record (with_prev [] r) = canon_record (with_prev [] r')"
proof -
  note h = assms(4,5) [unfolded compute_record_hash_eq]
  have "literal_ok (JObj (record_to_value (with_prev p r)))"
    "literal_ok (JObj (record_to_value (with_prev p' r')))"
    using assms(2,3) by (simp_all add: record_literal_ok del: literal_ok.simps)
  from digest_of_binds [OF assms(1) this h] show ?thesis
    using value_determines_record canon_with_prev unfolding hashed_text_def by blast
qed

section \<open>What a chain's head binds\<close>

text \<open>The heads of a chain of records, the hash before a record being the one it is hashed with.\<close>

fun hash_chain ::
  "(string \<Rightarrow> string) \<Rightarrow> (string \<Rightarrow> string) \<Rightarrow> string \<Rightarrow> evidence_record list \<Rightarrow> string option" where
  "hash_chain quote sha p [] = Some p"
| "hash_chain quote sha p (r # rs) =
     (case compute_record_hash quote sha r p of None \<Rightarrow> None | Some h \<Rightarrow> hash_chain quote sha h rs)"

lemma hash_chain_append:
  "hash_chain quote sha p (rs @ rs') =
     (case hash_chain quote sha p rs of None \<Rightarrow> None | Some h \<Rightarrow> hash_chain quote sha h rs')"
  by (induction rs arbitrary: p) (auto split: option.split)

definition content :: "evidence_record list \<Rightarrow> evidence_record list" where
  "content = map (\<lambda>r. canon_record (with_prev [] r))"

text \<open>The texts hashed along a chain, in order.\<close>

fun chain_texts ::
  "(string \<Rightarrow> string) \<Rightarrow> (string \<Rightarrow> string) \<Rightarrow> string \<Rightarrow> evidence_record list \<Rightarrow> string list" where
  "chain_texts quote sha p [] = []"
| "chain_texts quote sha p (r # rs) =
     (case hashed_text quote r p of None \<Rightarrow> []
      | Some s \<Rightarrow> s # chain_texts quote sha (''sha256:'' @ sha256_hex sha s) rs)"

text \<open>Two different texts, one hashed in each chain, have the same SHA-256 value.\<close>

definition chains_collide ::
  "(string \<Rightarrow> string) \<Rightarrow> (string \<Rightarrow> string) \<Rightarrow> string \<Rightarrow> evidence_record list \<Rightarrow> string \<Rightarrow>
   evidence_record list \<Rightarrow> bool" where
  "chains_collide quote sha p rs p' rs' \<longleftrightarrow>
     (\<exists>s\<in>set (chain_texts quote sha p rs). \<exists>t\<in>set (chain_texts quote sha p' rs'). hash_collision sha s t)"

lemma compute_hashed:
  "compute_record_hash quote sha r p = Some h \<longleftrightarrow>
     (\<exists>s. hashed_text quote r p = Some s \<and> h = ''sha256:'' @ sha256_hex sha s)"
  by (auto simp: compute_record_hash_eq digest_of_def hashed_text_def)

lemma chain_texts_snoc:
  "hash_chain quote sha p rs = Some g \<Longrightarrow> hashed_text quote r g = Some s \<Longrightarrow>
     set (chain_texts quote sha p (rs @ [r])) = insert s (set (chain_texts quote sha p rs))"
  by (induction rs arbitrary: p) (auto simp: compute_hashed split: option.splits)

lemma hash_chain_binds:
  assumes q: "delimited quote"
    and "list_all record_ok rs" "list_all record_ok rs'"
    and "hash_chain quote sha p rs = Some h" "hash_chain quote sha p' rs' = Some h"
  shows "chains_collide quote sha p rs p' rs' \<or>
    (\<exists>zs. content rs' = content (zs @ rs) \<and> hash_chain quote sha p' zs = Some p) \<or>
    (\<exists>zs. content rs = content (zs @ rs') \<and> hash_chain quote sha p zs = Some p')"
  using assms(2-5)
proof (induction rs arbitrary: rs' h rule: rev_induct)
  case Nil
  then show ?case by auto
next
  case (snoc r rs)
  show ?case
  proof (cases rs' rule: rev_cases)
    case Nil
    with snoc.prems(4) have "h = p'" by simp
    with snoc.prems(3) show ?thesis by (intro disjI2 exI [of _ "rs @ [r]"]) (simp add: Nil)
  next
    case rs': (snoc ss s)
    from snoc.prems(3) obtain g a where g: "hash_chain quote sha p rs = Some g"
      "compute_record_hash quote sha r g = Some h" "hashed_text quote r g = Some a"
      by (auto simp: hash_chain_append compute_hashed split: option.splits)
    from snoc.prems(4) obtain g' b where g': "hash_chain quote sha p' ss = Some g'"
      "compute_record_hash quote sha s g' = Some h" "hashed_text quote s g' = Some b"
      by (auto simp: rs' hash_chain_append compute_hashed split: option.splits)
    have "record_ok r" "record_ok s" using snoc.prems(1,2) by (auto simp: rs')
    from record_hash_binds [OF q this g(2) g'(2)] show ?thesis
    proof
      assume "\<exists>a b. hashed_text quote r g = Some a \<and> hashed_text quote s g' = Some b \<and> hash_collision sha a b"
      then have "chains_collide quote sha p (rs @ [r]) p' rs'"
        using chain_texts_snoc [OF g(1)] chain_texts_snoc [OF g'(1)]
        by (auto simp: chains_collide_def rs')
      then show ?thesis ..
    next
      assume e: "g = g' \<and> canon_record (with_prev [] r) = canon_record (with_prev [] s)"
      with snoc.IH [of ss g] snoc.prems(1,2) g(1) g'(1)
      have "chains_collide quote sha p rs p' ss \<or>
        (\<exists>zs. content ss = content (zs @ rs) \<and> hash_chain quote sha p' zs = Some p) \<or>
        (\<exists>zs. content rs = content (zs @ ss) \<and> hash_chain quote sha p zs = Some p')"
        by (auto simp: rs')
      moreover have "chains_collide quote sha p (rs @ [r]) p' rs'" if "chains_collide quote sha p rs p' ss"
        using that chain_texts_snoc [OF g(1,3)] chain_texts_snoc [OF g'(1,3)]
        by (auto simp: chains_collide_def rs')
      ultimately show ?thesis using e by (auto simp: rs' content_def)
    qed
  qed
qed

end
