(* ===== verification/Signing.thy ===== *)
theory Signing
  imports Evidence_Facts
begin

text \<open>
  \<open>crates/mecmcp-audit/src/signing.rs\<close> and \<open>checkpoint.rs\<close>: detached Ed25519 signatures over a
  segment head or a checkpoint digest. The curve and the standard base64 alphabet are third-party
  code: \<open>signer\<close> holds signing and verification on 32 bytes, and the coding of 64-byte
  signatures as text.
\<close>

record ('sk, 'vk) signer =
  si_verifying_key :: "'sk \<Rightarrow> 'vk"
  si_sign :: "'sk \<Rightarrow> string \<Rightarrow> string"
  si_verify :: "'vk \<Rightarrow> string \<Rightarrow> string \<Rightarrow> bool"
  si_encode :: "string \<Rightarrow> string"
  si_decode :: "string \<Rightarrow> string option"
  si_key_text :: "'vk \<Rightarrow> string"

datatype signing_error = InvalidSignatureEncoding string | InvalidHeadHash string | VerificationFailed

section \<open>Head hashes\<close>

text \<open>\<open>hex::decode_to_slice\<close> takes digits of either case.\<close>

definition hex_value :: "char \<Rightarrow> nat option" where
  "hex_value c =
     (let n = of_char c in
      if 48 \<le> n \<and> n \<le> 57 then Some (n - 48)
      else if 97 \<le> n \<and> n \<le> 102 then Some (n - 87)
      else if 65 \<le> n \<and> n \<le> 70 then Some (n - 55)
      else None)"

fun hex_decode :: "string \<Rightarrow> string option" where
  "hex_decode [] = Some []"
| "hex_decode [c] = None"
| "hex_decode (c # d # s) =
     (case (hex_value c, hex_value d, hex_decode s) of
        (Some m, Some n, Some r) \<Rightarrow> Some (char_of (16 * m + n) # r)
      | _ \<Rightarrow> None)"

definition decode_head_hash :: "string \<Rightarrow> signing_error + string" where
  "decode_head_hash head =
     (case strip_prefix ''sha256:'' head of
        None \<Rightarrow> Inl (InvalidHeadHash ''missing 'sha256:' prefix'')
      | Some hex \<Rightarrow>
          if length hex \<noteq> 64
          then Inl (InvalidHeadHash (''expected 64 hex characters, got '' @ decimal (length hex)))
          else (case hex_decode hex of
              None \<Rightarrow> Inl (InvalidHeadHash ''hex decode failed'')
            | Some bytes \<Rightarrow> Inr bytes))"

section \<open>Signatures\<close>

definition sign_digest :: "('sk, 'vk) signer \<Rightarrow> string \<Rightarrow> 'sk \<Rightarrow> signing_error + string" where
  "sign_digest S digest key =
     res_bind (decode_head_hash digest) (\<lambda>bytes. Inr (si_sign S key bytes))"

definition verify_digest :: "('sk, 'vk) signer \<Rightarrow> string \<Rightarrow> string \<Rightarrow> 'vk \<Rightarrow> signing_error + unit" where
  "verify_digest S digest signature key =
     res_bind (decode_head_hash digest) (\<lambda>bytes.
       require (si_verify S key bytes signature) VerificationFailed)"

definition sign_head :: "('sk, 'vk) signer \<Rightarrow> closed_segment \<Rightarrow> 'sk \<Rightarrow> signing_error + string" where
  "sign_head S seg key = sign_digest S (cl_head_hash seg) key"

definition verify_head ::
  "('sk, 'vk) signer \<Rightarrow> closed_segment \<Rightarrow> string \<Rightarrow> 'vk \<Rightarrow> signing_error + unit" where
  "verify_head S seg signature key = verify_digest S (cl_head_hash seg) signature key"

definition encode_signature :: "('sk, 'vk) signer \<Rightarrow> string \<Rightarrow> string" where
  "encode_signature S signature = si_encode S signature"

definition decode_signature :: "('sk, 'vk) signer \<Rightarrow> string \<Rightarrow> signing_error + string" where
  "decode_signature S encoded =
     (case si_decode S encoded of
        None \<Rightarrow> Inl (InvalidSignatureEncoding ''base64 decode failed'')
      | Some bytes \<Rightarrow>
          if length bytes \<noteq> 64
          then Inl (InvalidSignatureEncoding (''expected 64 bytes, got '' @ decimal (length bytes)))
          else Inr bytes)"

section \<open>Checkpoints\<close>

record checkpoint =
  cp_tier :: string
  cp_server_id :: string
  cp_row_count :: nat
  cp_head_row_hash :: string
  cp_checkpoint_ts :: string

datatype checkpoint_error = CheckpointCanonical | CheckpointSigning signing_error

definition checkpoint_digest ::
  "(string \<Rightarrow> string) \<Rightarrow> (string \<Rightarrow> string) \<Rightarrow> checkpoint \<Rightarrow> checkpoint_error + string" where
  "checkpoint_digest quote sha c =
     (case digest_of quote sha (JObj
        [(''tier'', JStr (cp_tier c)), (''server_id'', JStr (cp_server_id c)),
         (''row_count'', JNum (decimal (cp_row_count c))),
         (''head_row_hash'', JStr (cp_head_row_hash c)),
         (''checkpoint_ts'', JStr (cp_checkpoint_ts c))]) of
        None \<Rightarrow> Inl CheckpointCanonical | Some d \<Rightarrow> Inr d)"

definition sign_checkpoint ::
  "('sk, 'vk) signer \<Rightarrow> (string \<Rightarrow> string) \<Rightarrow> (string \<Rightarrow> string) \<Rightarrow> checkpoint \<Rightarrow> 'sk \<Rightarrow>
   checkpoint_error + string" where
  "sign_checkpoint S quote sha c key =
     res_bind (checkpoint_digest quote sha c) (\<lambda>d. map_err CheckpointSigning (sign_digest S d key))"

definition verify_checkpoint ::
  "('sk, 'vk) signer \<Rightarrow> (string \<Rightarrow> string) \<Rightarrow> (string \<Rightarrow> string) \<Rightarrow> checkpoint \<Rightarrow> string \<Rightarrow> 'vk \<Rightarrow>
   checkpoint_error + unit" where
  "verify_checkpoint S quote sha c signature key =
     res_bind (checkpoint_digest quote sha c)
       (\<lambda>d. map_err CheckpointSigning (verify_digest S d signature key))"

definition key_id :: "('sk, 'vk) signer \<Rightarrow> (string \<Rightarrow> string) \<Rightarrow> 'vk \<Rightarrow> string" where
  "key_id S sha key = hex_string (take 8 (sha (si_key_text S key)))"

section \<open>Facts\<close>

lemma hex_value_digit: "n < 16 \<Longrightarrow> hex_value (hex_digit n) = Some n"
proof -
  have "list_all (\<lambda>n. hex_value (hex_digit n) = Some n) [0..<16]" by code_simp
  then show "n < 16 \<Longrightarrow> hex_value (hex_digit n) = Some n" by (simp add: list_all_iff)
qed

lemma hex_decode_string: "hex_decode (hex_string bs) = Some bs"
proof (induction bs)
  case (Cons b bs)
  have "16 * (of_char b div 16) + of_char b mod 16 = (of_char b :: nat)" by simp
  then show ?case
    using Cons by (simp add: byte_hex_def hex_value_digit of_char_nibble)
qed simp

text \<open>A head the chain produced is a head that can be signed.\<close>

lemma decode_digest:
  "length (sha s) = 32 \<Longrightarrow> decode_head_hash (''sha256:'' @ sha256_hex sha s) = Inr (sha s)"
  by (simp add: decode_head_hash_def strip_prefix_def sha256_hex_def hex_decode_string)

end
