(* ===== verification/Recorder.thy ===== *)
theory Recorder
  imports Signing System
begin

text \<open>
  \<open>crates/mecmcp-audit/src/recorder.rs\<close>: the evidence recorder the coordinator writes through.
  Its state behind the mutex is \<open>recorder\<close>; \<open>rc_outbox\<close> is what the spool has accepted, in
  order. A method is a function on that state. Because the state mutex is released while a
  flusher hands segments to the spool, flushing is also given as steps (\<open>recorder_step\<close>) that
  other threads' appends interleave with; the flush mutex admits one flusher.

  Parameters: \<open>recorder_lib\<close> (serde_json's string rendering, SHA-256, the Ed25519 signer), the
  timestamp of each call, and the spool, a function of the number of the call that refuses with a
  reason or accepts.
\<close>

section \<open>State\<close>

definition SSDF_CHAIN_START :: string where
  "SSDF_CHAIN_START = ''''"

definition MAX_TRACKED_CHANGES :: nat where
  "MAX_TRACKED_CHANGES = 1024"

record ('sk, 'vk) recorder_lib =
  rl_quote :: "string \<Rightarrow> string"
  rl_sha256 :: "string \<Rightarrow> string"
  rl_signer :: "('sk, 'vk) signer"

record 'sk recorder_config =
  rg_server_id :: string
  rg_run_id :: string
  rg_resume_from :: "string option"
  rg_records_per_segment :: nat
  rg_signing_key :: "'sk option"
  rg_has_spool :: bool

record change_context =
  cc_device_id :: string
  cc_principal :: string
  cc_diff_hash :: string

definition default_context :: change_context where
  "default_context = \<lparr>cc_device_id = '''', cc_principal = '''', cc_diff_hash = ''''\<rparr>"

record recorder =
  rc_current :: chain_segment
  rc_next_seq :: nat
  rc_prev_head :: string
  rc_closed :: "closed_segment list"
  rc_context :: "(string \<times> change_context) list"
  rc_context_order :: "string list"
  rc_outbox :: "closed_segment list"
  rc_calls :: nat

definition chain_start :: "'sk recorder_config \<Rightarrow> string" where
  "chain_start C = (case rg_resume_from C of None \<Rightarrow> SSDF_CHAIN_START | Some h \<Rightarrow> h)"

definition new_recorder :: "'sk recorder_config \<Rightarrow> recorder" where
  "new_recorder C =
     \<lparr>rc_current = new_segment (rg_run_id C) (rg_server_id C) 0 (chain_start C), rc_next_seq = 1,
      rc_prev_head = chain_start C, rc_closed = [], rc_context = [], rc_context_order = [],
      rc_outbox = [], rc_calls = 0\<rparr>"

text \<open>A locally produced head, being newer, wins over the remote one.\<close>

definition resume_head :: "string option \<Rightarrow> string option \<Rightarrow> string option" where
  "resume_head remote local_newest = (case local_newest of Some h \<Rightarrow> Some h | None \<Rightarrow> remote)"

datatype sink_error = SinkLedger string | SinkOther string

definition spool_outcome :: "sink_error + unit \<Rightarrow> string + unit" where
  "spool_outcome r =
     (case r of Inr _ \<Rightarrow> Inr () | Inl (SinkLedger _) \<Rightarrow> Inr () | Inl (SinkOther e) \<Rightarrow> Inl e)"

section \<open>The context of a change\<close>

definition has_context :: "string \<Rightarrow> recorder \<Rightarrow> bool" where
  "has_context c s = (map_of (rc_context s) c \<noteq> None)"

fun evict_oldest :: "string list \<Rightarrow> (string \<times> change_context) list \<Rightarrow>
  string list \<times> (string \<times> change_context) list" where
  "evict_oldest [] ctx = ([], ctx)"
| "evict_oldest (c # cs) ctx =
     (if length ctx \<ge> MAX_TRACKED_CHANGES then evict_oldest cs (filter (\<lambda>p. fst p \<noteq> c) ctx)
      else (c # cs, ctx))"

definition remember :: "string \<Rightarrow> change_context \<Rightarrow> recorder \<Rightarrow> recorder" where
  "remember c x s =
     (let replacing = has_context c s;
          (order, ctx) = (if \<not> replacing \<and> length (rc_context s) \<ge> MAX_TRACKED_CHANGES
                          then evict_oldest (rc_context_order s) (rc_context s)
                          else (rc_context_order s, rc_context s));
          order' = (if replacing then order else order @ [c])
      in s\<lparr>rc_context := (c, x) # filter (\<lambda>p. fst p \<noteq> c) ctx, rc_context_order := order'\<rparr>)"

definition forget :: "string \<Rightarrow> recorder \<Rightarrow> recorder" where
  "forget c s =
     (if has_context c s
      then s\<lparr>rc_context := filter (\<lambda>p. fst p \<noteq> c) (rc_context s),
             rc_context_order := filter (\<lambda>t. t \<noteq> c) (rc_context_order s)\<rparr>
      else s)"

definition context_for :: "string \<Rightarrow> recorder \<Rightarrow> change_context" where
  "context_for c s = (case map_of (rc_context s) c of None \<Rightarrow> default_context | Some x \<Rightarrow> x)"

section \<open>Rolling and appending\<close>

definition sign_closed ::
  "('sk, 'vk) recorder_lib \<Rightarrow> 'sk recorder_config \<Rightarrow> closed_segment \<Rightarrow> closed_segment" where
  "sign_closed L C seg =
     (case rg_signing_key C of None \<Rightarrow> seg
      | Some key \<Rightarrow>
          (case sign_head (rl_signer L) seg key of
             Inl _ \<Rightarrow> seg
           | Inr signature \<Rightarrow> seg\<lparr>cl_signature := Some (encode_signature (rl_signer L) signature)\<rparr>))"

definition roll ::
  "('sk, 'vk) recorder_lib \<Rightarrow> 'sk recorder_config \<Rightarrow> recorder \<Rightarrow> closed_segment option \<times> recorder" where
  "roll L C s =
     (if sg_records (rc_current s) = [] then (None, s)
      else
        let closed = sign_closed L C (close_segment (rc_current s));
            successor = new_segment (rg_run_id C) (rg_server_id C) (rc_next_seq s) (cl_head_hash closed)
        in (Some closed, s\<lparr>rc_current := successor, rc_prev_head := cl_head_hash closed,
              rc_next_seq := rc_next_seq s + 1\<rparr>))"

definition record_evidence ::
  "('sk, 'vk) recorder_lib \<Rightarrow> 'sk recorder_config \<Rightarrow> evidence_record \<Rightarrow> recorder \<Rightarrow> recorder" where
  "record_evidence L C r s =
     (case append_record (rl_quote L) (rl_sha256 L) (rc_current s) r of
        Inl _ \<Rightarrow> s
      | Inr (_, seg) \<Rightarrow>
          let s' = s\<lparr>rc_current := seg\<rparr> in
          if length (sg_records seg) \<ge> rg_records_per_segment C
          then (case roll L C s' of
                  (None, s'') \<Rightarrow> s''
                | (Some closed, s'') \<Rightarrow> s''\<lparr>rc_closed := rc_closed s'' @ [closed]\<rparr>)
          else s')"

definition take_closed :: "recorder \<Rightarrow> closed_segment list \<times> recorder" where
  "take_closed s = (rc_closed s, s\<lparr>rc_closed := []\<rparr>)"

definition close_current ::
  "('sk, 'vk) recorder_lib \<Rightarrow> 'sk recorder_config \<Rightarrow> recorder \<Rightarrow> closed_segment option \<times> recorder" where
  "close_current L C s = roll L C s"

section \<open>Flushing\<close>

text \<open>The claim: closed segments and, if it has records, the current one.\<close>

definition claim_pending ::
  "('sk, 'vk) recorder_lib \<Rightarrow> 'sk recorder_config \<Rightarrow> recorder \<Rightarrow> closed_segment list \<times> recorder" where
  "claim_pending L C s =
     (let (pending, s') = take_closed s in
      case roll L C s' of
        (None, s'') \<Rightarrow> (pending, s'')
      | (Some closed, s'') \<Rightarrow> (pending @ [closed], s''))"

definition put_back :: "closed_segment list \<Rightarrow> recorder \<Rightarrow> recorder" where
  "put_back unwritten s = s\<lparr>rc_closed := unwritten @ rc_closed s\<rparr>"

definition accept_segment :: "closed_segment \<Rightarrow> recorder \<Rightarrow> recorder" where
  "accept_segment seg s = s\<lparr>rc_outbox := rc_outbox s @ [seg]\<rparr>"

definition count_call :: "recorder \<Rightarrow> recorder" where
  "count_call s = s\<lparr>rc_calls := rc_calls s + 1\<rparr>"

fun spool_pending ::
  "(nat \<Rightarrow> string option) \<Rightarrow> closed_segment list \<Rightarrow> recorder \<Rightarrow> (string + unit) \<times> recorder" where
  "spool_pending spool [] s = (Inr (), s)"
| "spool_pending spool (seg # segs) s =
     (case spool (rc_calls s) of
        None \<Rightarrow> spool_pending spool segs (accept_segment seg (count_call s))
      | Some e \<Rightarrow> (Inl e, put_back (seg # segs) (count_call s)))"

definition flush_after_append ::
  "('sk, 'vk) recorder_lib \<Rightarrow> 'sk recorder_config \<Rightarrow> (nat \<Rightarrow> string option) \<Rightarrow> recorder \<Rightarrow>
   (string + unit) \<times> recorder" where
  "flush_after_append L C spool s =
     (if \<not> rg_has_spool C then (Inr (), s)
      else let (pending, s') = claim_pending L C s in spool_pending spool pending s')"

section \<open>The lifecycle points\<close>

definition blank_body :: "string \<Rightarrow> string \<Rightarrow> string \<Rightarrow> string \<Rightarrow> string \<Rightarrow> string \<Rightarrow> evidence_body" where
  "blank_body request_id changeset_id device_id actor diff_hash timestamp =
     \<lparr>ev_request_id = request_id, ev_changeset_id = changeset_id, ev_device_id = device_id,
      ev_principal = actor, ev_diff_hash = diff_hash, ev_timestamp = timestamp,
      ev_run_id = '''', ev_server_id = '''', ev_segment_seq = 0, ev_prev_hash = '''',
      ev_metadata = None\<rparr>"

definition waiver_metadata :: "string \<Rightarrow> string \<Rightarrow> nat option \<Rightarrow> string option \<Rightarrow> json" where
  "waiver_metadata waiver reason expires_at_unix ticket =
     JObj ([(''waived'', JStr waiver), (''reason'', JStr reason)] @
       some_field ''expires_at_unix'' (map_option (\<lambda>n. JNum (decimal n)) expires_at_unix) @
       some_field ''ticket'' (map_option JStr ticket))"

definition rec_proposal ::
  "('sk, 'vk) recorder_lib \<Rightarrow> 'sk recorder_config \<Rightarrow> string \<Rightarrow> string \<Rightarrow> string \<Rightarrow> string \<Rightarrow> string \<Rightarrow> string \<Rightarrow> 
   recorder \<Rightarrow> recorder" where
  "rec_proposal L C t request_id changeset_id device_id actor diff_hash s =
     record_evidence L C
       (ProposalRecord (blank_body request_id changeset_id device_id actor diff_hash t))
       (remember changeset_id
         \<lparr>cc_device_id = device_id, cc_principal = actor, cc_diff_hash = diff_hash\<rparr> s)"

definition rec_approval ::
  "('sk, 'vk) recorder_lib \<Rightarrow> 'sk recorder_config \<Rightarrow> string \<Rightarrow> string \<Rightarrow> string \<Rightarrow> string \<Rightarrow> string \<Rightarrow> 
   recorder \<Rightarrow> recorder" where
  "rec_approval L C t request_id changeset_id approver decision s =
     (let x = context_for changeset_id s;
          s' = record_evidence L C
            (ApprovalRecord (blank_body request_id changeset_id (cc_device_id x) approver (cc_diff_hash x) t)
               approver decision) s
      in if decision \<noteq> ''approved'' then forget changeset_id s' else s')"

definition rec_approval_waived ::
  "('sk, 'vk) recorder_lib \<Rightarrow> 'sk recorder_config \<Rightarrow> string \<Rightarrow> string \<Rightarrow> string \<Rightarrow> string \<Rightarrow> string \<Rightarrow> 
   nat option \<Rightarrow> string option \<Rightarrow> recorder \<Rightarrow> recorder" where
  "rec_approval_waived L C t request_id changeset_id waiver reason expires_at_unix ticket s =
     (let x = context_for changeset_id s
      in record_evidence L C
        (ApprovalRecord ((blank_body request_id changeset_id (cc_device_id x) (cc_principal x) (cc_diff_hash x) t)
            \<lparr>ev_metadata := Some (waiver_metadata waiver reason expires_at_unix ticket)\<rparr>)
          '''' ''approved'') s)"

definition rec_apply_intent ::
  "('sk, 'vk) recorder_lib \<Rightarrow> 'sk recorder_config \<Rightarrow> (nat \<Rightarrow> string option) \<Rightarrow> string \<Rightarrow> string \<Rightarrow> string \<Rightarrow> string \<Rightarrow> string \<Rightarrow> 
   recorder \<Rightarrow> (string + unit) \<times> recorder" where
  "rec_apply_intent L C spool t request_id changeset_id device_id actor s =
     (let x = context_for changeset_id s
      in flush_after_append L C spool
        (record_evidence L C
          (ApplyIntentRecord (blank_body request_id changeset_id device_id actor (cc_diff_hash x) t)) s))"

definition rec_result_receipt ::
  "('sk, 'vk) recorder_lib \<Rightarrow> 'sk recorder_config \<Rightarrow> (nat \<Rightarrow> string option) \<Rightarrow> string \<Rightarrow> string \<Rightarrow> string \<Rightarrow> string \<Rightarrow> string \<Rightarrow> 
   bool \<Rightarrow> string \<Rightarrow> recorder \<Rightarrow> (string + unit) \<times> recorder" where
  "rec_result_receipt L C spool t request_id changeset_id device_id actor succeeded error s =
     (let x = context_for changeset_id s
      in flush_after_append L C spool
        (forget changeset_id (record_evidence L C
          (ResultReceipt (blank_body request_id changeset_id device_id actor (cc_diff_hash x) t)
            (if succeeded then ''success'' else ''failure'')
            (if error = [] then None else Some error)) s)))"

section \<open>Interleaving\<close>

text \<open>
  The same operations with the state mutex released between them: the second component is what a
  flusher has claimed and not yet written.
\<close>

datatype recorder_label = RAppend evidence_record | RRemember string change_context | RForget string
  | RClaim | RSpooled | RRefused string | RFlushed

inductive recorder_step ::
  "('sk, 'vk) recorder_lib \<Rightarrow> 'sk recorder_config \<Rightarrow> recorder \<times> closed_segment list option \<Rightarrow>
   recorder_label \<Rightarrow> recorder \<times> closed_segment list option \<Rightarrow> bool"
  for L :: "('sk, 'vk) recorder_lib" and C :: "'sk recorder_config" where
  step_append: "recorder_step L C (s, fl) (RAppend r) (record_evidence L C r s, fl)"
| step_remember: "recorder_step L C (s, fl) (RRemember c x) (remember c x s, fl)"
| step_forget: "recorder_step L C (s, fl) (RForget c) (forget c s, fl)"
| step_claim: "rg_has_spool C \<Longrightarrow> claim_pending L C s = (pending, s') \<Longrightarrow>
    recorder_step L C (s, None) RClaim (s', Some pending)"
| step_spooled: "recorder_step L C (s, Some (seg # segs)) RSpooled
    (accept_segment seg (count_call s), Some segs)"
| step_refused: "recorder_step L C (s, Some (seg # segs)) (RRefused e)
    (put_back (seg # segs) (count_call s), None)"
| step_flushed: "recorder_step L C (s, Some []) RFlushed (s, None)"

inductive_cases recorder_stepE: "recorder_step L C (s, fl) l (s', fl')"

end
