(* ===== verification/Recorder_Facts.thy ===== *)
theory Recorder_Facts
  imports Recorder "HOL-Library.Sublist"
begin

text \<open>
  The recorder keeps one linear chain. Everything it has produced, wherever it lies (accepted by
  the spool, in the hands of a flusher, closed and waiting, or in the open segment), is one
  sequence of records whose hashes link from the start of the chain; refusals of the spool and
  appends by other threads during a flush never reorder or lose a record.
\<close>

section \<open>Produced segments\<close>

fun linked :: "string \<Rightarrow> closed_segment list \<Rightarrow> bool" where
  "linked p [] \<longleftrightarrow> True"
| "linked p (seg # segs) \<longleftrightarrow> cl_prev_hash seg = p \<and> linked (cl_head_hash seg) segs"

definition head_after :: "string \<Rightarrow> closed_segment list \<Rightarrow> string" where
  "head_after p segs = (if segs = [] then p else cl_head_hash (last segs))"

lemma linked_append: "linked p (xs @ ys) \<longleftrightarrow> linked p xs \<and> linked (head_after p xs) ys"
  by (induction xs arbitrary: p) (auto simp: head_after_def)

lemma head_after_snoc [simp]: "head_after p (xs @ [x]) = cl_head_hash x"
  by (simp add: head_after_def)

definition segment_ok :: "('sk, 'vk) recorder_lib \<Rightarrow> closed_segment \<Rightarrow> bool" where
  "segment_ok L seg \<longleftrightarrow>
     hash_chain (rl_quote L) (rl_sha256 L) (cl_prev_hash seg) (cl_records seg) = Some (cl_head_hash seg) \<and>
     (\<forall>r\<in>set (cl_records seg). ev_run_id (body_of r) = cl_run_id seg \<and>
        ev_server_id (body_of r) = cl_server_id seg \<and> ev_segment_seq (body_of r) = cl_segment_seq seg)"

definition expected_signature ::
  "('sk, 'vk) recorder_lib \<Rightarrow> 'sk recorder_config \<Rightarrow> closed_segment \<Rightarrow> string option" where
  "expected_signature L C seg =
     (case rg_signing_key C of None \<Rightarrow> None
      | Some key \<Rightarrow> (case sign_head (rl_signer L) seg key of
          Inl _ \<Rightarrow> None | Inr signature \<Rightarrow> Some (encode_signature (rl_signer L) signature)))"

definition produced :: "('sk, 'vk) recorder_lib \<Rightarrow> 'sk recorder_config \<Rightarrow> closed_segment list \<Rightarrow> bool" where
  "produced L C segs \<longleftrightarrow> linked (chain_start C) segs \<and>
     map cl_segment_seq segs = [0..<length segs] \<and>
     (\<forall>seg\<in>set segs. segment_ok L seg \<and> cl_records seg \<noteq> [] \<and>
        cl_run_id seg = rg_run_id C \<and> cl_server_id seg = rg_server_id C \<and>
        cl_signature seg = expected_signature L C seg)"

definition open_ok ::
  "('sk, 'vk) recorder_lib \<Rightarrow> 'sk recorder_config \<Rightarrow> closed_segment list \<Rightarrow> chain_segment \<Rightarrow> bool" where
  "open_ok L C segs cur \<longleftrightarrow>
     sg_run_id cur = rg_run_id C \<and> sg_server_id cur = rg_server_id C \<and>
     sg_segment_seq cur = length segs \<and> sg_prev_hash cur = head_after (chain_start C) segs \<and>
     segment_ok L (close_segment cur)"

text \<open>\<open>segs\<close> is everything closed so far, wherever it lies.\<close>

definition chain_inv ::
  "('sk, 'vk) recorder_lib \<Rightarrow> 'sk recorder_config \<Rightarrow> closed_segment list \<Rightarrow> recorder \<Rightarrow> bool" where
  "chain_inv L C segs s \<longleftrightarrow> produced L C segs \<and> open_ok L C segs (rc_current s) \<and>
     rc_next_seq s = length segs + 1"

lemma chain_inv_new: "chain_inv L C [] (new_recorder C)"
  by (simp add: chain_inv_def produced_def open_ok_def new_recorder_def new_segment_def head_after_def
      segment_ok_def close_segment_def chain_head_def)

lemma sign_closed_fields [simp]:
  "cl_run_id (sign_closed L C seg) = cl_run_id seg" "cl_server_id (sign_closed L C seg) = cl_server_id seg"
  "cl_segment_seq (sign_closed L C seg) = cl_segment_seq seg" "cl_prev_hash (sign_closed L C seg) = cl_prev_hash seg"
  "cl_records (sign_closed L C seg) = cl_records seg" "cl_head_hash (sign_closed L C seg) = cl_head_hash seg"
  by (simp_all add: sign_closed_def split: option.split sum.split)

lemma sign_closed_signature:
  "cl_signature seg = None \<Longrightarrow> cl_signature (sign_closed L C seg) = expected_signature L C (sign_closed L C seg)"
  by (simp add: sign_closed_def expected_signature_def sign_head_def split: option.split sum.split)

lemma segment_ok_sign [simp]: "segment_ok L (sign_closed L C seg) = segment_ok L seg"
  by (simp add: segment_ok_def)

lemma close_segment_fields [simp]:
  "cl_run_id (close_segment seg) = sg_run_id seg" "cl_server_id (close_segment seg) = sg_server_id seg"
  "cl_segment_seq (close_segment seg) = sg_segment_seq seg" "cl_prev_hash (close_segment seg) = sg_prev_hash seg"
  "cl_records (close_segment seg) = sg_records seg" "cl_head_hash (close_segment seg) = chain_head seg"
  by (simp_all add: close_segment_def)

text \<open>Rolling closes the open segment behind everything produced so far.\<close>

lemma roll_inv:
  assumes "chain_inv L C segs s" "roll L C s = (Some c, s')"
  shows "chain_inv L C (segs @ [c]) s'" "cl_records c = sg_records (rc_current s)"
    "sg_records (rc_current s') = []" "rc_closed s' = rc_closed s" "rc_outbox s' = rc_outbox s"
    "rc_calls s' = rc_calls s"
proof -
  from assms(2) have c: "c = sign_closed L C (close_segment (rc_current s))" "sg_records (rc_current s) \<noteq> []"
    and s': "s' = s\<lparr>rc_current := new_segment (rg_run_id C) (rg_server_id C) (rc_next_seq s) (cl_head_hash c),
      rc_prev_head := cl_head_hash c, rc_next_seq := rc_next_seq s + 1\<rparr>"
    by (auto simp: roll_def Let_def split: if_splits)
  then show "cl_records c = sg_records (rc_current s)" "sg_records (rc_current s') = []"
    "rc_closed s' = rc_closed s" "rc_outbox s' = rc_outbox s" "rc_calls s' = rc_calls s"
    by (simp_all add: new_segment_def)
  show "chain_inv L C (segs @ [c]) s'"
    using assms(1) c s'
    by (auto simp: chain_inv_def produced_def open_ok_def linked_append new_segment_def segment_ok_def
        chain_head_def sign_closed_signature close_segment_def [of "rc_current s"])
qed

lemma roll_None:
  "roll L C s = (None, s') \<longleftrightarrow> sg_records (rc_current s) = [] \<and> s' = s"
  by (auto simp: roll_def Let_def split: if_splits)

text \<open>A record whose envelope the caller left empty is accepted as soon as it can be rendered.\<close>

definition unsealed :: "evidence_record \<Rightarrow> bool" where
  "unsealed r \<longleftrightarrow> ev_run_id (body_of r) = [] \<and> ev_server_id (body_of r) = [] \<and>
     ev_segment_seq (body_of r) = 0 \<and> ev_prev_hash (body_of r) = []"

definition seal :: "chain_segment \<Rightarrow> evidence_record \<Rightarrow> evidence_record" where
  "seal seg = map_body (\<lambda>b. b\<lparr>ev_run_id := sg_run_id seg, ev_server_id := sg_server_id seg,
     ev_segment_seq := sg_segment_seq seg, ev_prev_hash := chain_head seg\<rparr>)"

lemma append_record_Inr:
  assumes "append_record quote sha seg r = Inr (h, seg')"
  shows "seg' = seg\<lparr>sg_records := sg_records seg @ [seal seg r], sg_last_hash := Some h\<rparr>"
    "compute_record_hash quote sha (seal seg r) (chain_head seg) = Some h"
proof -
  from assms obtain b where b: "validate_and_inject seg (chain_head seg) (body_of r) = Inr b"
    "compute_record_hash quote sha (map_body (\<lambda>_. b) r) (chain_head seg) = Some h"
    "seg' = seg\<lparr>sg_records := sg_records seg @ [map_body (\<lambda>_. b) r], sg_last_hash := Some h\<rparr>"
    by (auto simp: append_record_def Let_def res_bind_Inr_iff split: option.splits)
  have "map_body (\<lambda>_. b) r = seal seg r"
    using b(1) by (cases r) (auto simp: validate_and_inject_def res_iffs seal_def)
  with b show "seg' = seg\<lparr>sg_records := sg_records seg @ [seal seg r], sg_last_hash := Some h\<rparr>"
    "compute_record_hash quote sha (seal seg r) (chain_head seg) = Some h" by simp_all
qed

lemma append_open_ok:
  assumes "open_ok L C segs seg" "append_record (rl_quote L) (rl_sha256 L) seg r = Inr (h, seg')"
  shows "open_ok L C segs seg'"
  using assms(1) append_record_Inr [OF assms(2)]
  by (auto simp: open_ok_def segment_ok_def hash_chain_append chain_head_def seal_def split: option.splits)

text \<open>Appending adds at most the sealed record, at the end.\<close>

definition all_records :: "closed_segment list \<Rightarrow> recorder \<Rightarrow> evidence_record list" where
  "all_records segs s = concat (map cl_records segs) @ sg_records (rc_current s)"

lemma record_evidence_cases:
  assumes inv: "chain_inv L C segs s"
  obtains (failed) e where "append_record (rl_quote L) (rl_sha256 L) (rc_current s) r = Inl e"
      "record_evidence L C r s = s"
  | (kept) s' where "record_evidence L C r s = s'" "chain_inv L C segs s'"
      "all_records segs s' = all_records segs s @ [seal (rc_current s) r]"
      "rc_closed s' = rc_closed s" "rc_outbox s' = rc_outbox s" "rc_calls s' = rc_calls s"
      "sg_records (rc_current s') \<noteq> []"
  | (rolled) c s' where "record_evidence L C r s = s'" "chain_inv L C (segs @ [c]) s'"
      "all_records (segs @ [c]) s' = all_records segs s @ [seal (rc_current s) r]"
      "rc_closed s' = rc_closed s @ [c]" "rc_outbox s' = rc_outbox s" "rc_calls s' = rc_calls s"
      "sg_records (rc_current s') = []"
proof (cases "append_record (rl_quote L) (rl_sha256 L) (rc_current s) r")
  case (Inl e)
  then show thesis by (intro failed) (simp_all add: record_evidence_def)
next
  case (Inr p)
  obtain h seg where p: "p = (h, seg)" by (cases p)
  let ?s = "s\<lparr>rc_current := seg\<rparr>"
  note a = append_record_Inr [OF Inr [unfolded p]]
  have inv': "chain_inv L C segs ?s"
    using inv append_open_ok [OF _ Inr [unfolded p]] by (simp add: chain_inv_def)
  have all: "all_records segs ?s = all_records segs s @ [seal (rc_current s) r]"
    by (simp add: all_records_def a(1))
  show thesis
  proof (cases "length (sg_records seg) \<ge> rg_records_per_segment C")
    case False
    then show thesis
      using inv' all Inr by (intro kept [of ?s]) (auto simp: record_evidence_def p Let_def a(1))
  next
    case True
    obtain c s' where c: "roll L C ?s = (Some c, s')"
      using roll_None [of L C ?s] a(1) by (cases "roll L C ?s"; cases "fst (roll L C ?s)") auto
    note ri = roll_inv [OF inv' c]
    show thesis
    proof (rule rolled [of "s'\<lparr>rc_closed := rc_closed s' @ [c]\<rparr>" c])
      show "record_evidence L C r s = s'\<lparr>rc_closed := rc_closed s' @ [c]\<rparr>"
        using Inr True c by (simp add: record_evidence_def p Let_def)
    qed (use ri all in \<open>auto simp: all_records_def chain_inv_def\<close>)
  qed
qed

section \<open>Steps\<close>

definition in_flight :: "closed_segment list option \<Rightarrow> closed_segment list" where
  "in_flight fl = (case fl of None \<Rightarrow> [] | Some segs \<Rightarrow> segs)"

lemma in_flight_simps [simp]: "in_flight None = []" "in_flight (Some segs) = segs"
  by (simp_all add: in_flight_def)

definition segs_of :: "recorder \<times> closed_segment list option \<Rightarrow> closed_segment list" where
  "segs_of x = rc_outbox (fst x) @ in_flight (snd x) @ rc_closed (fst x)"

definition recorder_inv ::
  "('sk, 'vk) recorder_lib \<Rightarrow> 'sk recorder_config \<Rightarrow> recorder \<times> closed_segment list option \<Rightarrow> bool" where
  "recorder_inv L C x \<longleftrightarrow> chain_inv L C (segs_of x) (fst x)"

definition records_in :: "closed_segment list \<Rightarrow> evidence_record list" where
  "records_in segs = concat (map cl_records segs)"

definition history :: "recorder \<times> closed_segment list option \<Rightarrow> evidence_record list" where
  "history x = all_records (segs_of x) (fst x)"

lemma context_fields [simp]:
  "rc_current (remember c x s) = rc_current s" "rc_next_seq (remember c x s) = rc_next_seq s"
  "rc_closed (remember c x s) = rc_closed s" "rc_outbox (remember c x s) = rc_outbox s"
  "rc_calls (remember c x s) = rc_calls s"
  "rc_current (forget c s) = rc_current s" "rc_next_seq (forget c s) = rc_next_seq s"
  "rc_closed (forget c s) = rc_closed s" "rc_outbox (forget c s) = rc_outbox s"
  "rc_calls (forget c s) = rc_calls s"
  by (simp_all add: remember_def forget_def Let_def split: prod.split)

lemma flush_fields [simp]:
  "rc_current (put_back u s) = rc_current s" "rc_next_seq (put_back u s) = rc_next_seq s"
  "rc_closed (put_back u s) = u @ rc_closed s" "rc_outbox (put_back u s) = rc_outbox s"
  "rc_current (accept_segment g s) = rc_current s" "rc_next_seq (accept_segment g s) = rc_next_seq s"
  "rc_closed (accept_segment g s) = rc_closed s" "rc_outbox (accept_segment g s) = rc_outbox s @ [g]"
  "rc_current (count_call s) = rc_current s" "rc_next_seq (count_call s) = rc_next_seq s"
  "rc_closed (count_call s) = rc_closed s" "rc_outbox (count_call s) = rc_outbox s"
  by (simp_all add: put_back_def accept_segment_def count_call_def)

lemma claim_pending_inv:
  assumes "chain_inv L C (rc_outbox s @ rc_closed s) s" "claim_pending L C s = (pending, s')"
  shows "chain_inv L C (rc_outbox s' @ pending) s'" "rc_closed s' = []" "rc_outbox s' = rc_outbox s"
    "sg_records (rc_current s') = []"
    "all_records (rc_outbox s' @ pending) s' = all_records (rc_outbox s @ rc_closed s) s"
proof -
  let ?s = "s\<lparr>rc_closed := []\<rparr>"
  have inv: "chain_inv L C (rc_outbox s @ rc_closed s) ?s" using assms(1) by (simp add: chain_inv_def)
  have "chain_inv L C (rc_outbox s' @ pending) s' \<and> rc_closed s' = [] \<and> rc_outbox s' = rc_outbox s \<and>
    sg_records (rc_current s') = [] \<and>
    all_records (rc_outbox s' @ pending) s' = all_records (rc_outbox s @ rc_closed s) s"
  proof (cases "roll L C ?s")
    case (Pair oc s'')
    show ?thesis
    proof (cases oc)
      case None
      then show ?thesis
        using Pair assms(2) inv roll_None [of L C ?s s'']
        by (auto simp: claim_pending_def take_closed_def Let_def all_records_def)
    next
      case (Some c)
      have e: "pending = rc_closed s @ [c]" "s' = s''"
        using Pair Some assms(2) by (simp_all add: claim_pending_def take_closed_def Let_def)
      from roll_inv [OF inv Pair [unfolded Some]] show ?thesis
        by (auto simp: e all_records_def)
    qed
  qed
  then show "chain_inv L C (rc_outbox s' @ pending) s'" "rc_closed s' = []" "rc_outbox s' = rc_outbox s"
    "sg_records (rc_current s') = []"
    "all_records (rc_outbox s' @ pending) s' = all_records (rc_outbox s @ rc_closed s) s" by blast+
qed

lemma recorder_step_inv:
  assumes "recorder_inv L C x" "recorder_step L C x l y"
  shows "recorder_inv L C y \<and> prefix (history x) (history y)"
  using assms(2,1)
proof (cases rule: recorder_step.cases)
  case (step_append s fl r)
  from assms(1) have inv: "chain_inv L C (segs_of x) s" by (simp add: recorder_inv_def step_append)
  show ?thesis
  proof (cases rule: record_evidence_cases [OF inv, where r = r, case_names failed kept rolled])
    case failed
    then show ?thesis using assms(1) by (simp add: step_append)
  next
    case kept
    then show ?thesis
      by (auto simp: step_append recorder_inv_def history_def segs_of_def)
  next
    case rolled
    then show ?thesis
      by (auto simp: step_append recorder_inv_def history_def segs_of_def)
  qed
next
  case (step_claim s pending s')
  from assms(1) have "chain_inv L C (rc_outbox s @ rc_closed s) s"
    by (simp add: recorder_inv_def step_claim segs_of_def)
  from claim_pending_inv [OF this step_claim(5)] show ?thesis
    by (simp add: recorder_inv_def history_def segs_of_def step_claim)
qed (auto simp: recorder_inv_def history_def segs_of_def chain_inv_def all_records_def)

text \<open>Records that are written or claimed stay so, unless the spool refuses.\<close>

definition claimed_prefix :: "evidence_record list \<Rightarrow> recorder \<times> closed_segment list option \<Rightarrow> bool" where
  "claimed_prefix rs x \<longleftrightarrow> prefix rs (records_in (rc_outbox (fst x) @ in_flight (snd x)))"

lemma record_evidence_outbox [simp]: "rc_outbox (record_evidence L C r s) = rc_outbox s"
  by (auto simp: record_evidence_def roll_def Let_def split: sum.split prod.split option.split)

lemma claim_pending_outbox: "claim_pending L C s = (pending, s') \<Longrightarrow> rc_outbox s' = rc_outbox s"
  by (auto simp: claim_pending_def take_closed_def roll_def Let_def split: if_splits)

lemma claimed_prefix_step:
  assumes "claimed_prefix rs x" "recorder_step L C x l y" "\<not> (case l of RRefused _ \<Rightarrow> True | _ \<Rightarrow> False)"
  shows "claimed_prefix rs y"
  using assms(2,1,3)
  by (cases rule: recorder_step.cases)
    (auto simp: claimed_prefix_def records_in_def intro: prefix_prefix dest: claim_pending_outbox)

interpretation recorder_run: guarded_invariant "recorder_step L C" "recorder_inv L C" claimed_prefix
  "\<lambda>_ l. case l of RRefused _ \<Rightarrow> True | _ \<Rightarrow> False"
  for L :: "('sk, 'vk) recorder_lib" and C :: "'sk recorder_config"
proof unfold_locales
  fix s t :: "recorder \<times> closed_segment list option" and l
  show "recorder_inv L C s \<Longrightarrow> recorder_step L C s l t \<Longrightarrow> recorder_inv L C t"
    using recorder_step_inv by blast
next
  fix s t :: "recorder \<times> closed_segment list option" and l and k :: "evidence_record list"
  show "recorder_inv L C s \<Longrightarrow> claimed_prefix k s \<Longrightarrow> recorder_step L C s l t \<Longrightarrow>
     \<not> (case l of RRefused _ \<Rightarrow> True | _ \<Rightarrow> False) \<Longrightarrow> claimed_prefix k t"
    using claimed_prefix_step by blast
qed

lemma run_history:
  "run (recorder_step L C) x ls y \<Longrightarrow> recorder_inv L C x \<Longrightarrow> prefix (history x) (history y)"
proof (induction rule: run.induct)
  case (run_snoc x ls y l z)
  then have "recorder_inv L C y" by (auto intro: recorder_run.run_inv)
  with run_snoc recorder_step_inv show ?case by (blast intro: prefix_order.trans)
qed simp

lemma produced_prefix: "produced L C (xs @ ys) \<Longrightarrow> produced L C xs"
proof -
  assume p: "produced L C (xs @ ys)"
  then have "map cl_segment_seq xs = take (length xs) [0..<length (xs @ ys)]"
    unfolding produced_def by (metis map_append append_eq_conv_conj length_map)
  then show ?thesis using p by (auto simp: produced_def linked_append)
qed

lemma recorder_inv_new: "recorder_inv L C (new_recorder C, None)"
  using chain_inv_new by (simp add: recorder_inv_def segs_of_def new_recorder_def)

end
