(* ===== verification/Recorder_Refinement.thy ===== *)
theory Recorder_Refinement
  imports Recorder_Facts
begin

text \<open>
  The coordinator's model knows evidence only as a list of events and the length of its durable
  part (\<open>System\<close>). The recorder implements that: its history shows the same events, its outbox
  holds exactly the durable ones, and every answer of its spool is one the coordinator's
  environment can give.
\<close>

section \<open>Records that always render\<close>

fun shallow :: "nat \<Rightarrow> json \<Rightarrow> bool" where
  "shallow n (JObj kvs) \<longleftrightarrow> 0 < n \<and> list_all (\<lambda>p. shallow (n - 1) (snd p)) kvs"
| "shallow n (JArr js) \<longleftrightarrow> 0 < n \<and> list_all (shallow (n - 1)) js"
| "shallow n _ \<longleftrightarrow> True"

lemma those_None: "those (map f xs) = None \<longleftrightarrow> (\<exists>x\<in>set xs. f x = None)"
  by (induction xs) (auto split: option.splits)

lemma shallow_renders:
  "shallow n j \<Longrightarrow> d + n \<le> MAX_CANONICAL_DEPTH \<Longrightarrow> write_canonical quote d j \<noteq> None"
proof (induction j arbitrary: d n)
  case (JObj kvs)
  have "write_canonical quote (d + 1) v \<noteq> None" if m: "(k, v) \<in> set kvs" for k v
  proof (rule JObj.IH [OF m])
    show "v \<in> Basic_BNFs.snds (k, v)" by simp
    show "shallow (n - 1) v" using JObj.prems m by (auto simp: list_all_iff)
    show "d + 1 + (n - 1) \<le> MAX_CANONICAL_DEPTH" using JObj.prems by simp
  qed
  then have "those (map (\<lambda>(k, v). map_option (Pair k) (write_canonical quote (d + 1) v)) kvs) \<noteq> None"
    unfolding those_None by auto
  then show ?case using JObj.prems by (subst write_canonical.simps) auto
next
  case (JArr js)
  have "write_canonical quote (d + 1) v \<noteq> None" if m: "v \<in> set js" for v
    by (rule JArr.IH [OF m, of "n - 1"]) (use JArr.prems m in \<open>auto simp: list_all_iff\<close>)
  then have "those (map (write_canonical quote (d + 1)) js) \<noteq> None"
    unfolding those_None by auto
  then show ?case using JArr.prems by (subst write_canonical.simps) auto
qed (simp_all add: write_canonical.simps)

definition metadata_shallow :: "evidence_record \<Rightarrow> bool" where
  "metadata_shallow r \<longleftrightarrow> (case ev_metadata (body_of r) of None \<Rightarrow> True | Some j \<Rightarrow> shallow 1 j)"

lemma record_renders:
  assumes "metadata_shallow r"
  shows "compute_record_hash quote sha r p \<noteq> None"
proof -
  have "shallow 2 (JObj (record_to_value (with_prev p r)))"
    using assms by (cases r) (auto simp: metadata_shallow_def record_to_value_def Let_def with_prev_def
        some_field_def split: option.splits)
  then have "canonical_json quote (JObj (record_to_value (with_prev p r))) \<noteq> None"
    unfolding canonical_json_def by (rule shallow_renders) (simp add: MAX_CANONICAL_DEPTH_def)
  then show ?thesis by (simp add: compute_record_hash_eq digest_of_def)
qed

lemma seal_fields [simp]:
  "ev_metadata (body_of (seal seg r)) = ev_metadata (body_of r)"
  by (simp add: seal_def)

lemma unsealed_appends:
  assumes "unsealed r" "metadata_shallow r"
  shows "\<exists>h seg'. append_record quote sha seg r = Inr (h, seg')"
proof -
  let ?b = "(body_of r)\<lparr>ev_run_id := sg_run_id seg, ev_server_id := sg_server_id seg,
     ev_segment_seq := sg_segment_seq seg, ev_prev_hash := chain_head seg\<rparr>"
  have v: "validate_and_inject seg (chain_head seg) (body_of r) = Inr ?b"
    using assms(1) by (simp add: validate_and_inject_def unsealed_def)
  have "metadata_shallow (map_body (\<lambda>_. ?b) r)"
    using assms(2) by (simp add: metadata_shallow_def)
  from record_renders [OF this] obtain h where "compute_record_hash quote sha (map_body (\<lambda>_. ?b) r) (chain_head seg) = Some h"
    by blast
  with v show ?thesis by (simp add: append_record_def Let_def)
qed

section \<open>The refinement relation\<close>

definition same_change :: "string \<Rightarrow> string \<Rightarrow> string \<Rightarrow> string \<Rightarrow> evidence_body \<Rightarrow> bool" where
  "same_change rq c d p b \<longleftrightarrow>
     ev_request_id b = rq \<and> ev_changeset_id b = c \<and> ev_device_id b = d \<and> ev_principal b = p"

fun evidence_shows :: "evidence \<Rightarrow> evidence_record \<Rightarrow> bool" where
  "evidence_shows (EvProposal c d p h) (ProposalRecord b) \<longleftrightarrow>
     ev_changeset_id b = c \<and> ev_device_id b = d \<and> ev_principal b = p \<and> ev_diff_hash b = h"
| "evidence_shows (EvApproval c a dec) (ApprovalRecord b approver decision) \<longleftrightarrow>
     ev_changeset_id b = c \<and> approver = a \<and> decision = dec \<and> ev_metadata b = None"
| "evidence_shows (EvWaived c k r e t) (ApprovalRecord b approver decision) \<longleftrightarrow>
     ev_changeset_id b = c \<and> approver = [] \<and> decision = ''approved'' \<and>
     ev_metadata b = Some (waiver_metadata k r e t)"
| "evidence_shows (EvApplyIntent rq c d p) (ApplyIntentRecord b) \<longleftrightarrow> same_change rq c d p b"
| "evidence_shows (EvReceipt rq c d p ok e) (ResultReceipt b outcome err) \<longleftrightarrow> same_change rq c d p b \<and>
     outcome = (if ok then ''success'' else ''failure'') \<and> err = e"
| "evidence_shows _ _ \<longleftrightarrow> False"

lemma evidence_shows_seal [simp]: "evidence_shows ev (seal seg r) = evidence_shows ev r"
  by (cases r; cases ev) (simp_all add: seal_def same_change_def)

definition recorder_rel :: "sys \<Rightarrow> recorder \<Rightarrow> bool" where
  "recorder_rel x s \<longleftrightarrow> list_all2 evidence_shows (trail x) (history (s, None)) \<and>
     durable x = length (records_in (rc_outbox s))"

text \<open>The invariant of a recorder nobody is flushing.\<close>

abbreviation idle :: "('sk, 'vk) recorder_lib \<Rightarrow> 'sk recorder_config \<Rightarrow> recorder \<Rightarrow> bool" where
  "idle L C s \<equiv> recorder_inv L C (s, None)"

lemma append_refines:
  assumes "idle L C s" "recorder_rel x s" "unsealed r" "metadata_shallow r" "evidence_shows ev r"
  shows "idle L C (record_evidence L C r s) \<and>
    recorder_rel (x\<lparr>trail := trail x @ [ev]\<rparr>) (record_evidence L C r s)"
proof -
  have inv: "chain_inv L C (segs_of (s, None)) s" using assms(1) by (simp add: recorder_inv_def)
  show ?thesis
  proof (cases rule: record_evidence_cases [OF inv, where r = r, case_names failed kept rolled])
    case failed
    with unsealed_appends [OF assms(3,4), of "rl_quote L" "rl_sha256 L" "rc_current s"]
    show ?thesis by auto
  next
    case kept
    then show ?thesis using assms
      by (auto simp: recorder_rel_def recorder_inv_def history_def segs_of_def intro!: list_all2_appendI)
  next
    case rolled
    then show ?thesis using assms
      by (auto simp: recorder_rel_def recorder_inv_def history_def segs_of_def intro!: list_all2_appendI)
  qed
qed

section \<open>Flushing\<close>

lemma spool_pending_cases:
  assumes "spool_pending spool pending s = (r, s')"
  obtains (flushed) "r = Inr ()" "rc_outbox s' = rc_outbox s @ pending" "rc_closed s' = rc_closed s"
      "rc_current s' = rc_current s" "rc_next_seq s' = rc_next_seq s"
  | (refused) sent rest e where "r = Inl e" "pending = sent @ rest" "rest \<noteq> []"
      "rc_outbox s' = rc_outbox s @ sent" "rc_closed s' = rest @ rc_closed s"
      "rc_current s' = rc_current s" "rc_next_seq s' = rc_next_seq s"
proof -
  have "(r = Inr () \<and> rc_outbox s' = rc_outbox s @ pending \<and> rc_closed s' = rc_closed s \<and>
      rc_current s' = rc_current s \<and> rc_next_seq s' = rc_next_seq s) \<or>
    (\<exists>sent rest e. r = Inl e \<and> pending = sent @ rest \<and> rest \<noteq> [] \<and> rc_outbox s' = rc_outbox s @ sent \<and>
      rc_closed s' = rest @ rc_closed s \<and> rc_current s' = rc_current s \<and> rc_next_seq s' = rc_next_seq s)"
    using assms
  proof (induction spool pending s rule: spool_pending.induct)
    case (2 spool seg segs s)
    show ?case
    proof (cases "spool (rc_calls s)")
      case None
      then have "spool_pending spool segs (accept_segment seg (count_call s)) = (r, s')" using 2(2) by simp
      from 2(1) [OF None this] show ?thesis
      proof (elim disjE exE conjE, goal_cases)
        case 1
        then show ?case by simp
      next
        case (2 sent rest e)
        then show ?case by (intro disjI2 exI [of _ "seg # sent"] exI [of _ rest] exI [of _ e]) simp
      qed
    next
      case (Some e)
      then show ?thesis using 2(2)
        by (intro disjI2 exI [of _ "[]"] exI [of _ "seg # segs"] exI [of _ e]) auto
    qed
  qed simp
  with flushed refused show thesis by blast
qed

lemma records_in_append: "records_in (xs @ ys) = records_in xs @ records_in ys"
  by (simp add: records_in_def)

lemma flush_refines:
  assumes "idle L C s" "recorder_rel x s" "rg_has_spool C = has_spool K"
    and f: "flush_after_append L C spool s = (r, s')"
    and last: "trail x \<noteq> []"
  shows "idle L C s' \<and> (\<exists>a. \<forall>E :: 'z env_scheme. spool_at E (tick x) = a \<longrightarrow>
    (\<exists>x'. flush_evidence E K x = (Inr (r = Inr ()), x') \<and> recorder_rel x' s'))"
proof (cases "has_spool K")
  case False
  then show ?thesis using assms
    by (auto simp: flush_after_append_def flush_evidence_def act_defs)
next
  case True
  obtain pending s1 where c: "claim_pending L C s = (pending, s1)" by (cases "claim_pending L C s")
  have sp: "spool_pending spool pending s1 = (r, s')"
    using f True assms(3) c by (simp add: flush_after_append_def)
  have inv: "chain_inv L C (rc_outbox s @ rc_closed s) s"
    using assms(1) by (simp add: recorder_inv_def segs_of_def)
  note cp = claim_pending_inv [OF inv c]
  have hist: "history (s, None) = records_in (rc_outbox s @ pending)"
    using cp by (simp add: history_def segs_of_def all_records_def records_in_def)
  have len: "length (trail x) = length (records_in (rc_outbox s @ pending))"
    using assms(2) unfolding recorder_rel_def hist by (auto dest: list_all2_lengthD)
  from sp show ?thesis
  proof (cases rule: spool_pending_cases)
    case flushed
    have "idle L C s'" "history (s', None) = history (s, None)"
      using cp flushed hist
      by (simp_all add: recorder_inv_def segs_of_def chain_inv_def history_def all_records_def records_in_def)
    moreover have "\<exists>x'. flush_evidence E K x = (Inr (r = Inr ()), x') \<and> recorder_rel x' s'"
      if "spool_at E (tick x) = None" for E :: "'z env_scheme"
      using that True assms(2) flushed cp len calculation(2)
      by (simp add: flush_evidence_def ask_def act_defs recorder_rel_def)
    ultimately show ?thesis by blast
  next
    case (refused sent rest e)
    have "idle L C s'" "history (s', None) = history (s, None)"
      using cp refused hist
      by (simp_all add: recorder_inv_def segs_of_def chain_inv_def history_def all_records_def records_in_def)
    moreover have "0 < length (records_in rest)"
      using cp(1) refused(2,3) by (cases rest) (auto simp: chain_inv_def produced_def records_in_def)
    then have "min (durable x + length (records_in sent)) (length (trail x) - 1) =
        length (records_in (rc_outbox s'))"
      using assms(2) len refused(2,4) cp(3)
      by (cases "records_in rest") (auto simp: recorder_rel_def records_in_append)
    then have "\<exists>x'. flush_evidence E K x = (Inr (r = Inr ()), x') \<and> recorder_rel x' s'"
      if "spool_at E (tick x) = Some (length (records_in sent))" for E :: "'z env_scheme"
      using that True assms(2) refused(1) calculation(2)
      by (simp add: flush_evidence_def ask_def act_defs recorder_rel_def)
    ultimately show ?thesis by blast
  qed
qed

section \<open>The lifecycle points\<close>

lemma context_refines:
  "recorder_rel x (remember c y s) = recorder_rel x s" "idle L C (remember c y s) = idle L C s"
  "recorder_rel x (forget c s) = recorder_rel x s" "idle L C (forget c s) = idle L C s"
  by (simp_all add: recorder_rel_def recorder_inv_def chain_inv_def history_def segs_of_def all_records_def)

lemma blank_body_fields [simp]:
  "ev_run_id (blank_body rq c d p h t) = []" "ev_server_id (blank_body rq c d p h t) = []"
  "ev_segment_seq (blank_body rq c d p h t) = 0" "ev_prev_hash (blank_body rq c d p h t) = []"
  "ev_metadata (blank_body rq c d p h t) = None" "ev_request_id (blank_body rq c d p h t) = rq"
  "ev_changeset_id (blank_body rq c d p h t) = c" "ev_device_id (blank_body rq c d p h t) = d"
  "ev_principal (blank_body rq c d p h t) = p" "ev_diff_hash (blank_body rq c d p h t) = h"
  by (simp_all add: blank_body_def)

lemma waiver_shallow: "shallow 1 (waiver_metadata k r e t)"
  by (cases e; cases t) (simp_all add: waiver_metadata_def some_field_def)

lemmas record_shape = unsealed_def metadata_shallow_def waiver_shallow [unfolded One_nat_def] same_change_def

lemma proposal_refines:
  assumes "idle L C s" "recorder_rel x s"
  shows "idle L C (rec_proposal L C t rq c d p h s) \<and>
    recorder_rel (x\<lparr>trail := trail x @ [EvProposal c d p h]\<rparr>) (rec_proposal L C t rq c d p h s)"
  unfolding rec_proposal_def
  by (rule append_refines) (use assms in \<open>simp_all add: context_refines record_shape\<close>)

lemma approval_refines:
  assumes "idle L C s" "recorder_rel x s"
  shows "idle L C (rec_approval L C t rq c a dec s) \<and>
    recorder_rel (x\<lparr>trail := trail x @ [EvApproval c a dec]\<rparr>) (rec_approval L C t rq c a dec s)"
proof -
  let ?r = "ApprovalRecord (blank_body rq c (cc_device_id (context_for c s)) a
      (cc_diff_hash (context_for c s)) t) a dec"
  have "idle L C (record_evidence L C ?r s) \<and>
      recorder_rel (x\<lparr>trail := trail x @ [EvApproval c a dec]\<rparr>) (record_evidence L C ?r s)"
    by (rule append_refines) (use assms in \<open>simp_all add: record_shape\<close>)
  then show ?thesis
    by (cases "dec = ''approved''") (simp_all only: rec_approval_def Let_def context_refines if_True if_False simp_thms)
qed

lemma waiver_refines:
  assumes "idle L C s" "recorder_rel x s"
  shows "idle L C (rec_approval_waived L C t rq c k re e tk s) \<and>
    recorder_rel (x\<lparr>trail := trail x @ [EvWaived c k re e tk]\<rparr>) (rec_approval_waived L C t rq c k re e tk s)"
  unfolding rec_approval_waived_def Let_def
  by (rule append_refines) (use assms in \<open>simp_all add: record_shape\<close>)

lemma intent_refines:
  fixes K :: coordinator
  assumes "idle L C s" "recorder_rel x s" "rg_has_spool C = has_spool K"
    and "rec_apply_intent L C spool t rq c d p s = (r, s')"
  shows "idle L C s' \<and> (\<exists>a. \<forall>E :: 'z env_scheme. spool_at E (tick x) = a \<longrightarrow>
    (\<exists>x'. bnd (append_evidence (EvApplyIntent rq c d p)) (\<lambda>_. flush_evidence E K) x = (Inr (r = Inr ()), x') \<and>
       recorder_rel x' s'))"
proof -
  let ?r = "ApplyIntentRecord (blank_body rq c d p (cc_diff_hash (context_for c s)) t)"
  let ?x = "x\<lparr>trail := trail x @ [EvApplyIntent rq c d p]\<rparr>"
  have a: "idle L C (record_evidence L C ?r s) \<and> recorder_rel ?x (record_evidence L C ?r s)"
    by (rule append_refines) (use assms(1,2) in \<open>simp_all add: record_shape\<close>)
  have "idle L C s' \<and> (\<exists>a. \<forall>E :: 'z env_scheme. spool_at E (tick ?x) = a \<longrightarrow>
    (\<exists>x'. flush_evidence E K ?x = (Inr (r = Inr ()), x') \<and> recorder_rel x' s'))"
    by (rule flush_refines [OF _ _ assms(3)]) (use a assms(4) in \<open>auto simp: rec_apply_intent_def Let_def\<close>)
  then show ?thesis by (simp add: append_evidence_def act_simps)
qed

lemma receipt_refines:
  fixes K :: coordinator
  assumes "idle L C s" "recorder_rel x s" "rg_has_spool C = has_spool K"
    and "rec_result_receipt L C spool t rq c d p ok err s = (r, s')"
  defines "ev \<equiv> EvReceipt rq c d p ok (if err = [] then None else Some err)"
  shows "idle L C s' \<and> (\<exists>a. \<forall>E :: 'z env_scheme. spool_at E (tick x) = a \<longrightarrow>
    (\<exists>x'. bnd (append_evidence ev) (\<lambda>_. flush_evidence E K) x = (Inr (r = Inr ()), x') \<and> recorder_rel x' s'))"
proof -
  let ?r = "ResultReceipt (blank_body rq c d p (cc_diff_hash (context_for c s)) t)
      (if ok then ''success'' else ''failure'') (if err = [] then None else Some err)"
  let ?x = "x\<lparr>trail := trail x @ [ev]\<rparr>"
  have a: "idle L C (record_evidence L C ?r s) \<and> recorder_rel ?x (record_evidence L C ?r s)"
    by (rule append_refines) (use assms(1,2) in \<open>simp_all add: record_shape ev_def\<close>)
  have "idle L C s' \<and> (\<exists>a. \<forall>E :: 'z env_scheme. spool_at E (tick ?x) = a \<longrightarrow>
    (\<exists>x'. flush_evidence E K ?x = (Inr (r = Inr ()), x') \<and> recorder_rel x' s'))"
    by (rule flush_refines [OF _ _ assms(3)])
      (use a assms(4) in \<open>auto simp: rec_result_receipt_def Let_def context_refines\<close>)
  then show ?thesis by (simp add: append_evidence_def act_simps)
qed

end
