(* ===== verification/Text_Ops.thy ===== *)
theory Text_Ops
  imports Auth_Scope "HOL-Library.Sublist"
begin

text \<open>
  The operations of Rust's \<open>str\<close> that the log parsers, the header code and the path code use, on
  lists of UTF-8 bytes: trimming and splitting at Unicode white space, searching for a substring,
  splitting at a separator, and reading lines.
\<close>

section \<open>White space\<close>

function trim_start :: "string \<Rightarrow> string" where
  "trim_start s = (if ws_width s = 0 then s else trim_start (drop (ws_width s) s))"
  by pat_completeness auto
termination
proof (relation "measure length", goal_cases)
  case (2 s)
  then show ?case by (cases s) simp_all
qed simp

declare trim_start.simps [simp del]

fun trim_end :: "string \<Rightarrow> string" where
  "trim_end [] = []"
| "trim_end (c # s) = (if blank (c # s) then [] else c # trim_end s)"

definition trim :: "string \<Rightarrow> string" where
  "trim s = trim_end (trim_start s)"

fun take_word :: "string \<Rightarrow> string \<times> string" where
  "take_word [] = ([], [])"
| "take_word (c # s) =
     (if ws_width (c # s) \<noteq> 0 then ([], c # s) else let (w, r) = take_word s in (c # w, r))"

lemma take_word_length: "length (snd (take_word s)) \<le> length s"
  by (induction s) (auto simp: Let_def split: prod.splits)

lemma trim_start_length: "length (trim_start s) \<le> length s"
proof (induction s rule: trim_start.induct)
  case (1 s)
  then show ?case by (subst trim_start.simps) (auto intro: order_trans)
qed

lemma trim_start_solid: "ws_width (trim_start s) = 0"
proof (induction s rule: trim_start.induct)
  case (1 s)
  then show ?case by (subst trim_start.simps) auto
qed

function split_whitespace :: "string \<Rightarrow> string list" where
  "split_whitespace s =
     (case trim_start s of [] \<Rightarrow> []
      | c # t \<Rightarrow> (let (w, r) = take_word (c # t) in w # split_whitespace r))"
  by pat_completeness auto
termination
proof (relation "measure length", goal_cases)
  case (2 s c t x w r)
  have "ws_width (c # t) = 0" using trim_start_solid [of s] 2 by simp
  then have "length r \<le> length t"
    using 2 take_word_length [of t] by (auto simp: Let_def split: prod.splits)
  then show ?case using 2 trim_start_length [of s] by simp
qed simp

declare split_whitespace.simps [simp del]

section \<open>Substrings\<close>

text \<open>The text before and after the first occurrence of a pattern.\<close>

fun split_once :: "string \<Rightarrow> string \<Rightarrow> (string \<times> string) option" where
  "split_once p [] = (if p = [] then Some ([], []) else None)"
| "split_once p (c # s) =
     (case strip_prefix p (c # s) of Some r \<Rightarrow> Some ([], r)
      | None \<Rightarrow> map_option (\<lambda>(a, r). (c # a, r)) (split_once p s))"

definition contains :: "string \<Rightarrow> string \<Rightarrow> bool" where
  "contains s p \<longleftrightarrow> split_once p s \<noteq> None"

text \<open>\<open>s.split(p).nth(1)\<close>, the text between the first two occurrences.\<close>

definition second_piece :: "string \<Rightarrow> string \<Rightarrow> string option" where
  "second_piece p s =
     (case split_once p s of None \<Rightarrow> None
      | Some (_, r) \<Rightarrow> Some (case split_once p r of None \<Rightarrow> r | Some (x, _) \<Rightarrow> x))"

definition first_field :: "char \<Rightarrow> string \<Rightarrow> string" where
  "first_field c s = takeWhile (\<lambda>x. x \<noteq> c) s"

fun split_char :: "char \<Rightarrow> string \<Rightarrow> string list" where
  "split_char c [] = [[]]"
| "split_char c (x # s) =
     (case split_char c s of [] \<Rightarrow> [[x]]
      | p # ps \<Rightarrow> if x = c then [] # p # ps else (x # p) # ps)"

section \<open>Lines\<close>

definition newline :: char where
  "newline = CHR 0x0A"

definition drop_cr :: "string \<Rightarrow> string" where
  "drop_cr l = (if l \<noteq> [] \<and> last l = CHR 0x0D then butlast l else l)"

text \<open>A line ends at a line feed, with a carriage return before it dropped.\<close>

function lines_of :: "string \<Rightarrow> string list" where
  "lines_of s =
     (if s = [] then []
      else if newline \<in> set s
      then drop_cr (takeWhile (\<lambda>c. c \<noteq> newline) s) # lines_of (tl (dropWhile (\<lambda>c. c \<noteq> newline) s))
      else [s])"
  by pat_completeness auto
termination
proof (relation "measure length", goal_cases)
  case (2 s)
  have "length (dropWhile (\<lambda>c. c \<noteq> newline) s) \<le> length s" by (rule length_dropWhile_le)
  then show ?case using 2 by (cases s) auto
qed simp

declare lines_of.simps [simp del]

section \<open>Facts\<close>

lemma strip_prefix_None: "strip_prefix p s = None \<longleftrightarrow> \<not> prefix p s"
  by (auto simp: strip_prefix_def prefix_def) (metis append_take_drop_id)

lemma strip_prefix_append [simp]: "strip_prefix p (p @ r) = Some r"
  by (simp add: strip_prefix_def)

lemma contains_sublist: "contains s p \<longleftrightarrow> sublist p s"
proof (induction s)
  case (Cons c s)
  show ?case
  proof (cases "strip_prefix p (c # s)")
    case None
    then have "\<not> prefix p (c # s)" by (simp add: strip_prefix_None)
    then show ?thesis using None Cons by (simp add: contains_def sublist_Cons_right)
  next
    case (Some r)
    then have "prefix p (c # s)" using strip_prefix_None [of p "c # s"] by simp
    then show ?thesis using Some by (simp add: contains_def sublist_Cons_right)
  qed
qed (simp add: contains_def)

lemma sublist_sep:
  assumes "c \<notin> set p" "p \<noteq> []"
  shows "sublist p (a @ c # b) \<longleftrightarrow> sublist p a \<or> sublist p b"
proof -
  have "sublist p a" if "p = x @ y" "suffix x a" "prefix y (c # b)" for x y
    using that assms(1) by (cases y) (auto simp: suffix_imp_sublist)
  then show ?thesis using assms
    by (auto simp: sublist_append sublist_Cons_right prefix_Cons)
qed

text \<open>A pattern without the separator is first found after it when it is not before it.\<close>

lemma split_once_sep:
  assumes "c \<notin> set p" "p \<noteq> []" "\<not> sublist p a"
  shows "split_once p (a @ c # s) = map_option (\<lambda>(x, r). (a @ c # x, r)) (split_once p s)"
  using assms(3)
proof (induction a)
  case Nil
  have "strip_prefix p (c # s) = None"
    using assms(1,2) by (cases p) (auto simp: strip_prefix_None)
  then show ?case by simp
next
  case (Cons d a)
  then have n: "\<not> prefix p (d # a)" "\<not> sublist p a" by (auto simp: sublist_Cons_right)
  have "\<not> prefix p (d # a @ c # s)"
  proof
    assume "prefix p (d # a @ c # s)"
    then have "prefix p ((d # a) @ c # s)" by simp
    then show False using n(1) assms(1) unfolding prefix_append by (auto simp: prefix_Cons)
  qed
  then have "strip_prefix p (d # a @ c # s) = None" by (simp add: strip_prefix_None)
  then show ?case using Cons.IH n(2) by (simp add: option.map_comp comp_def split_beta)
qed

lemma split_once_at: "p \<noteq> [] \<Longrightarrow> split_once p (p @ r) = Some ([], r)"
  by (cases p) (use strip_prefix_append [of p r] in simp_all)

lemma split_once_absent: "\<not> sublist p s \<Longrightarrow> split_once p s = None"
  using contains_sublist [of s p] by (cases "split_once p s") (simp_all add: contains_def)

lemma second_piece_sep:
  assumes "c \<notin> set p" "p \<noteq> []" "\<not> sublist p a" "\<not> sublist p r"
  shows "second_piece p (a @ c # p @ r) = Some r"
  using split_once_sep [OF assms(1-3), of "p @ r"] assms
  by (simp add: second_piece_def split_once_at split_once_absent)

lemma trim_blank: "blank s \<Longrightarrow> trim s = []"
proof -
  have "blank s \<Longrightarrow> trim_start s = []"
  proof (induction s rule: trim_start.induct)
    case (1 s)
    then show ?case by (subst trim_start.simps) (auto simp: blank.simps [of s] split: if_splits)
  qed
  then show "blank s \<Longrightarrow> trim s = []" by (simp add: trim_def)
qed

end
