(* ===== verification/Device_Log.thy ===== *)
theory Device_Log
  imports Text_Ops Attribution
begin

text \<open>
  The provenance line of a device commit, written by \<open>crates/mecmcp-changeset/src/commit_metadata.rs\<close>
  and read back by \<open>crates/mecmcp-audit/src/device_log.rs\<close>. The sink that writes the line to a
  device is the vendor's code, a parameter. A log is its list of lines; a line that is not UTF-8
  text is skipped by the reader and is not in the list.
\<close>

section \<open>Writing the line\<close>

datatype commit_meta_error = SinkFailed string

definition commit_meta_message :: "commit_meta_error \<Rightarrow> string" where
  "commit_meta_message e = (case e of SinkFailed msg \<Rightarrow> ''sink failed: '' @ msg)"

datatype attach_outcome = Attached | Missed string

definition REQUEST_ID_KEY :: string where
  "REQUEST_ID_KEY = ''request.id=''"

definition provenance_of :: "attribution \<Rightarrow> string option" where
  "provenance_of a =
     (case at_agent a of None \<Rightarrow> None
      | Some agent \<Rightarrow>
          Some (provenance_string agent (at_on_behalf_of a) @ '' '' @ REQUEST_ID_KEY @ at_request_id a))"

definition compose_line :: "string option \<Rightarrow> string \<Rightarrow> string" where
  "compose_line operator_comment provenance =
     (case operator_comment of
        Some comment \<Rightarrow> if trim comment \<noteq> [] then trim comment @ '' | '' @ provenance else provenance
      | None \<Rightarrow> provenance)"

definition apply_commit_metadata ::
  "(string \<Rightarrow> 'd \<Rightarrow> (commit_meta_error + unit) \<times> 'd) \<Rightarrow> string option \<Rightarrow> attribution \<Rightarrow> 'd \<Rightarrow>
   attach_outcome \<times> 'd" where
  "apply_commit_metadata attach operator_comment a d =
     (case provenance_of a of None \<Rightarrow> (Attached, d)
      | Some provenance \<Rightarrow>
          (case attach (compose_line operator_comment provenance) d of
             (Inr _, d') \<Rightarrow> (Attached, d')
           | (Inl e, d') \<Rightarrow> (Missed (commit_meta_message e), d')))"

section \<open>Reading a log\<close>

datatype log_format = Git | JunosNative

record device_commit_ref =
  dr_device_id :: string
  dr_commit_sha :: string
  dr_request_id :: string

definition request_id_in :: "string \<Rightarrow> string option" where
  "request_id_in line =
     (case second_piece REQUEST_ID_KEY line of None \<Rightarrow> None
      | Some part \<Rightarrow>
          (let req_id = trim (case split_whitespace (first_field (CHR '','') part) of
                  [] \<Rightarrow> [] | w # _ \<Rightarrow> w)
           in if req_id = [] then None else Some req_id))"

definition starts_with_digit :: "string \<Rightarrow> bool" where
  "starts_with_digit s \<longleftrightarrow> (case s of [] \<Rightarrow> False | c # _ \<Rightarrow> CHR ''0'' \<le> c \<and> c \<le> CHR ''9'')"

definition git_commit_line :: "string \<Rightarrow> bool" where
  "git_commit_line line \<longleftrightarrow>
     (case strip_prefix ''commit '' line of None \<Rightarrow> False
      | Some r \<Rightarrow> (let sha = trim r in sha \<noteq> [] \<and>
          list_all (\<lambda>c. is_lower_hex c \<or> CHR ''A'' \<le> c \<and> c \<le> CHR ''F'') sha))"

definition junos_entry_line :: "string \<Rightarrow> bool" where
  "junos_entry_line line \<longleftrightarrow>
     (let t = trim_start line in
      starts_with_digit t \<and> (contains t ''UTC by'' \<or> contains t ''UTC via''))"

definition detect_format :: "string \<Rightarrow> log_format" where
  "detect_format text =
     (let head = take 50 (lines_of text) in
      if list_ex git_commit_line head then Git
      else if list_ex junos_entry_line head then JunosNative
      else Git)"

definition extract_junos_timestamp :: "string \<Rightarrow> string option" where
  "extract_junos_timestamp line =
     (case split_once ''UTC'' line of None \<Rightarrow> None
      | Some (before, _) \<Rightarrow>
          (let parts = split_whitespace (trim before); n = length parts in
           if 3 \<le> n \<and> List.member (parts ! (n - 2)) (CHR ''-'') \<and> List.member (parts ! (n - 1)) (CHR '':'')
           then Some (parts ! (n - 2) @ ''T'' @ parts ! (n - 1) @ ''Z'') else None))"

record junos_state =
  js_timestamp :: "string option"
  js_in_comment :: bool
  js_commits :: "device_commit_ref list"

definition junos_enter :: "string \<Rightarrow> junos_state \<Rightarrow> junos_state" where
  "junos_enter line s =
     (if \<not> starts_with '' '' line \<and> \<not> starts_with [CHR 0x09] line
      then if starts_with_digit (trim_start line)
           then (case extract_junos_timestamp line of None \<Rightarrow> s
                 | Some t \<Rightarrow> s\<lparr>js_timestamp := Some t, js_in_comment := False\<rparr>)
           else s
      else s\<lparr>js_in_comment := True\<rparr>)"

definition junos_step :: "string \<Rightarrow> string \<Rightarrow> junos_state \<Rightarrow> junos_state" where
  "junos_step device_id line s =
     (let s = junos_enter line s in
      case (js_in_comment s, js_timestamp s, request_id_in line) of
        (True, Some t, Some req_id) \<Rightarrow> s\<lparr>js_commits := js_commits s @
           [\<lparr>dr_device_id = device_id, dr_commit_sha = t, dr_request_id = req_id\<rparr>]\<rparr>
      | _ \<Rightarrow> s)"

definition parse_junos_native_log :: "string list \<Rightarrow> string \<Rightarrow> device_commit_ref list" where
  "parse_junos_native_log ls device_id =
     js_commits (fold (junos_step device_id) ls
       \<lparr>js_timestamp = None, js_in_comment = False, js_commits = []\<rparr>)"

record git_state =
  gs_sha :: "string option"
  gs_device :: "string option"
  gs_commits :: "device_commit_ref list"

definition git_step :: "string \<Rightarrow> git_state \<Rightarrow> git_state" where
  "git_step line s =
     (let s = (case strip_prefix ''commit '' line of None \<Rightarrow> s
               | Some r \<Rightarrow> s\<lparr>gs_sha := Some (trim r), gs_device := None\<rparr>);
          s = (case second_piece ''Device:'' line of None \<Rightarrow> s
               | Some r \<Rightarrow> s\<lparr>gs_device := Some (trim r)\<rparr>)
      in case (gs_sha s, gs_device s, request_id_in line) of
           (Some sha, Some device, Some req_id) \<Rightarrow> s\<lparr>gs_commits := gs_commits s @
              [\<lparr>dr_device_id = device, dr_commit_sha = sha, dr_request_id = req_id\<rparr>]\<rparr>
         | _ \<Rightarrow> s)"

definition parse_device_log :: "string list \<Rightarrow> device_commit_ref list" where
  "parse_device_log ls =
     gs_commits (fold git_step ls \<lparr>gs_sha = None, gs_device = None, gs_commits = []\<rparr>)"

definition parse_device_log_with_format ::
  "string list \<Rightarrow> log_format \<Rightarrow> string option \<Rightarrow> device_commit_ref list" where
  "parse_device_log_with_format ls fmt device_id =
     (case fmt of
        Git \<Rightarrow> parse_device_log ls
      | JunosNative \<Rightarrow> parse_junos_native_log ls (case device_id of None \<Rightarrow> ''unknown'' | Some d \<Rightarrow> d))"

definition parse_device_log_auto :: "string \<Rightarrow> string option \<Rightarrow> device_commit_ref list" where
  "parse_device_log_auto text device_id =
     parse_device_log_with_format (lines_of text) (detect_format text) device_id"

end
