(* ===== verification/Audit_Verify.thy ===== *)
theory Audit_Verify
  imports Recorder_Facts Device_Log "HOL-Library.AList"
begin

text \<open>
  \<open>crates/mecmcp-audit/src/bin/mecmcp-verify.rs\<close>: the offline verifier of a run. The manifest, the
  chain files, the keys, the detached signatures and the device log are what the operator's files
  hold (\<open>audit_files\<close>); a file that is missing, unreadable or not of its format is a branch. The
  chains of the servers are an association list in the order they were loaded; the program keeps
  them in a hash map, whose iteration order only orders the orphans it reports.
\<close>

section \<open>Manifest and report\<close>

record segment_manifest =
  gm_segment_seq :: nat
  gm_final_seq :: nat
  gm_head_hash :: string

record server_manifest =
  vm_server_id :: string
  vm_segments :: "segment_manifest list"

record run_manifest =
  rm_run_id :: string
  rm_cutoff :: string
  rm_servers :: "server_manifest list"

datatype violation =
    MissingServerChain string
  | MissingSegment string nat
  | RecordHashMismatch string nat nat string string \<comment> \<open>server, segment, record, expected, actual\<close>
  | SegmentChainBreak string nat string string
  | HeadHashMismatch string nat string string
  | SignatureVerificationFailed string nat string string
  | OrphanedDeviceCommit string string string
  | OrphanedAuditRecord string string
  | DuplicateSegmentSeq string nat

record verification_summary =
  vs_servers_verified :: nat
  vs_segments_verified :: nat
  vs_records_verified :: nat
  vs_device_commits_checked :: nat

record verification_result =
  vr_passed :: bool
  vr_violations :: "violation list"
  vr_summary :: verification_summary

datatype verify_error =
    FileError string
  | RunIdMismatch string string
  | InvalidServerId string
  | SummaryInvariant nat nat

record 'vk audit_files =
  af_manifest :: "string + run_manifest"
  af_chain :: "string \<Rightarrow> (string + closed_segment list) option"
  af_pubkeys :: "string + (string \<times> 'vk) list"
  af_signature :: "string \<Rightarrow> nat \<Rightarrow> (string + string) option"
  af_device_log :: "(string + string) option"

type_synonym server_chains = "(string \<times> closed_segment list) list"

section \<open>One segment\<close>

definition clear_envelope :: "evidence_record \<Rightarrow> evidence_record" where
  "clear_envelope = map_body (\<lambda>b. b\<lparr>ev_run_id := [], ev_server_id := [], ev_segment_seq := 0, ev_prev_hash := []\<rparr>)"

fun reappend ::
  "('sk, 'vk) recorder_lib \<Rightarrow> nat \<Rightarrow> evidence_record list \<Rightarrow> chain_segment \<Rightarrow> nat + chain_segment" where
  "reappend L i [] seg = Inr seg"
| "reappend L i (r # rs) seg =
     (case append_record (rl_quote L) (rl_sha256 L) seg (clear_envelope r) of
        Inl _ \<Rightarrow> Inl i
      | Inr (_, seg') \<Rightarrow> reappend L (i + 1) rs seg')"

definition verify_segment_records :: "('sk, 'vk) recorder_lib \<Rightarrow> closed_segment \<Rightarrow> violation + unit" where
  "verify_segment_records L seg =
     (case reappend L 0 (cl_records seg)
         (new_segment (cl_run_id seg) (cl_server_id seg) (cl_segment_seq seg) (cl_prev_hash seg)) of
        Inl i \<Rightarrow> Inl (RecordHashMismatch (cl_server_id seg) (cl_segment_seq seg) i ''unknown'' ''envelope_mismatch'')
      | Inr verify_seg \<Rightarrow>
          (let verify_closed = close_segment verify_seg in
           if cl_head_hash verify_closed \<noteq> cl_head_hash seg
           then Inl (RecordHashMismatch (cl_server_id seg) (cl_segment_seq seg) 0 (cl_head_hash seg)
             (cl_head_hash verify_closed))
           else Inr ()))"

section \<open>One chain\<close>

fun first_duplicate :: "nat list \<Rightarrow> nat option" where
  "first_duplicate (x # y # r) = (if x = y then Some y else first_duplicate (y # r))"
| "first_duplicate _ = None"

definition load_chain_segments :: "string \<Rightarrow> closed_segment list \<Rightarrow> nat + closed_segment list" where
  "load_chain_segments run_id written =
     (let segments = sort_key cl_segment_seq (filter (\<lambda>s. cl_run_id s = run_id) written) in
      case first_duplicate (map cl_segment_seq segments) of
        Some seq \<Rightarrow> Inl seq | None \<Rightarrow> Inr segments)"

definition check_expected :: "string \<Rightarrow> closed_segment list \<Rightarrow> segment_manifest \<Rightarrow> violation list \<times> nat \<times> nat" where
  "check_expected server segments gm =
     (case find (\<lambda>s. cl_segment_seq s = gm_segment_seq gm) segments of
        None \<Rightarrow> ([MissingSegment server (gm_segment_seq gm)], 0, 0)
      | Some seg \<Rightarrow>
          (if cl_head_hash seg \<noteq> gm_head_hash gm
           then [HeadHashMismatch server (cl_segment_seq seg) (gm_head_hash gm) (cl_head_hash seg)] else [],
           1, length (cl_records seg)))"

fun check_links :: "string \<Rightarrow> closed_segment list \<Rightarrow> violation list" where
  "check_links server (a # b # r) =
     (if cl_prev_hash b \<noteq> cl_head_hash a
      then [SegmentChainBreak server (cl_segment_seq b) (cl_head_hash a) (cl_prev_hash b)] else []) @
     check_links server (b # r)"
| "check_links server _ = []"

definition check_records :: "('sk, 'vk) recorder_lib \<Rightarrow> closed_segment list \<Rightarrow> violation list" where
  "check_records L segments =
     concat (map (\<lambda>s. case verify_segment_records L s of Inl v \<Rightarrow> [v] | Inr _ \<Rightarrow> []) segments)"

definition signing_message :: "signing_error \<Rightarrow> string" where
  "signing_message e =
     (case e of
        InvalidSignatureEncoding m \<Rightarrow> ''invalid signature encoding: '' @ m
      | InvalidHeadHash m \<Rightarrow> ''invalid head hash format: '' @ m
      | VerificationFailed \<Rightarrow> ''signature verification failed'')"

definition signature_failure :: "string \<Rightarrow> closed_segment \<Rightarrow> string \<Rightarrow> violation" where
  "signature_failure server seg error = SignatureVerificationFailed server (cl_segment_seq seg) server error"

definition segment_signature ::
  "'vk audit_files \<Rightarrow> string \<Rightarrow> closed_segment \<Rightarrow> verify_error + string option" where
  "segment_signature F server seg =
     (case cl_signature seg of
        Some embedded \<Rightarrow> Inr (Some embedded)
      | None \<Rightarrow> (case af_signature F server (cl_segment_seq seg) of
            None \<Rightarrow> Inr None
          | Some (Inl e) \<Rightarrow> Inl (FileError e)
          | Some (Inr text) \<Rightarrow> Inr (Some (trim text))))"

definition check_signature ::
  "('sk, 'vk) recorder_lib \<Rightarrow> 'vk audit_files \<Rightarrow> string \<Rightarrow> 'vk \<Rightarrow> closed_segment \<Rightarrow>
   verify_error + violation list" where
  "check_signature L F server key seg =
     res_bind (segment_signature F server seg) (\<lambda>sig. Inr
       (case sig of
          None \<Rightarrow> [signature_failure server seg ''Signature file not found'']
        | Some encoded \<Rightarrow>
            (case decode_signature (rl_signer L) encoded of
               Inl e \<Rightarrow> [signature_failure server seg (''Invalid signature encoding: '' @ signing_message e)]
             | Inr signature \<Rightarrow>
                 (case verify_head (rl_signer L) seg signature key of
                    Inl e \<Rightarrow> [signature_failure server seg (signing_message e)]
                  | Inr _ \<Rightarrow> []))))"

fun check_signatures ::
  "('sk, 'vk) recorder_lib \<Rightarrow> 'vk audit_files \<Rightarrow> string \<Rightarrow> 'vk \<Rightarrow> closed_segment list \<Rightarrow>
   verify_error + violation list" where
  "check_signatures L F server key [] = Inr []"
| "check_signatures L F server key (seg # segs) =
     res_bind (check_signature L F server key seg) (\<lambda>vs.
     res_bind (check_signatures L F server key segs) (\<lambda>ws. Inr (vs @ ws)))"

section \<open>The run\<close>

fun load_chains ::
  "'vk audit_files \<Rightarrow> string \<Rightarrow> server_manifest list \<Rightarrow> server_chains \<Rightarrow>
   verify_error + violation list \<times> server_chains" where
  "load_chains F run_id [] loaded = Inr ([], loaded)"
| "load_chains F run_id (vm # vms) loaded =
     (let missed = (\<lambda>v. res_bind (load_chains F run_id vms loaded) (\<lambda>(vs, cs). Inr (v # vs, cs))) in
      case af_chain F (vm_server_id vm) of
        None \<Rightarrow> missed (MissingServerChain (vm_server_id vm))
      | Some (Inl e) \<Rightarrow> Inl (FileError e)
      | Some (Inr written) \<Rightarrow>
          (case load_chain_segments run_id written of
             Inl seq \<Rightarrow> missed (DuplicateSegmentSeq (vm_server_id vm) seq)
           | Inr segments \<Rightarrow>
               if vm_segments vm \<noteq> [] \<and> segments = []
               then missed (MissingServerChain (vm_server_id vm))
               else load_chains F run_id vms (AList.update (vm_server_id vm) segments loaded)))"

definition verify_server ::
  "('sk, 'vk) recorder_lib \<Rightarrow> 'vk audit_files \<Rightarrow> (string \<times> 'vk) list \<Rightarrow> server_chains \<Rightarrow>
   server_manifest \<Rightarrow> verify_error + violation list \<times> nat \<times> nat" where
  "verify_server L F keys loaded vm =
     (case map_of loaded (vm_server_id vm) of
        None \<Rightarrow> Inr ([], 0, 0)
      | Some segments \<Rightarrow>
          (let server = vm_server_id vm; expected = map (check_expected server segments) (vm_segments vm) in
           res_bind (case map_of (rev keys) server of None \<Rightarrow> Inr []
                     | Some key \<Rightarrow> check_signatures L F server key segments) (\<lambda>sigs.
             Inr (concat (map fst expected) @ check_links server segments @ check_records L segments @ sigs,
                  sum_list (map (fst \<circ> snd) expected), sum_list (map (snd \<circ> snd) expected)))))"

fun verify_servers ::
  "('sk, 'vk) recorder_lib \<Rightarrow> 'vk audit_files \<Rightarrow> (string \<times> 'vk) list \<Rightarrow> server_chains \<Rightarrow>
   server_manifest list \<Rightarrow> verify_error + violation list \<times> nat \<times> nat" where
  "verify_servers L F keys loaded [] = Inr ([], 0, 0)"
| "verify_servers L F keys loaded (vm # vms) =
     res_bind (verify_server L F keys loaded vm) (\<lambda>(vs, m, n).
     res_bind (verify_servers L F keys loaded vms) (\<lambda>(ws, m', n'). Inr (vs @ ws, m + m', n + n')))"

definition chain_records :: "server_chains \<Rightarrow> (string \<times> string) list" where
  "chain_records loaded =
     concat (map (\<lambda>(server, segs). map (\<lambda>r. (server, ev_request_id (body_of r)))
       (concat (map cl_records segs))) loaded)"

definition verify_device_join :: "device_commit_ref list \<Rightarrow> server_chains \<Rightarrow> violation list \<times> nat" where
  "verify_device_join commits loaded =
     (map (\<lambda>c. OrphanedDeviceCommit (dr_device_id c) (dr_commit_sha c) (dr_request_id c))
        (filter (\<lambda>c. \<not> List.member (map snd (chain_records loaded)) (dr_request_id c)) commits) @
      map (\<lambda>(server, req). OrphanedAuditRecord server req)
        (filter (\<lambda>(server, req). \<not> List.member (map dr_request_id commits) req) (chain_records loaded)),
      length commits)"

definition device_join ::
  "'vk audit_files \<Rightarrow> string option \<Rightarrow> server_chains \<Rightarrow> verify_error + violation list \<times> nat" where
  "device_join F device_id loaded =
     (case af_device_log F of
        None \<Rightarrow> Inr ([], 0)
      | Some (Inl e) \<Rightarrow> Inl (FileError e)
      | Some (Inr text) \<Rightarrow> Inr (verify_device_join (parse_device_log_auto text device_id) loaded))"

definition verify_run ::
  "('sk, 'vk) recorder_lib \<Rightarrow> 'vk audit_files \<Rightarrow> string \<Rightarrow> string option \<Rightarrow>
   verify_error + verification_result" where
  "verify_run L F run_id device_id =
     res_bind (map_err FileError (af_manifest F)) (\<lambda>manifest.
     res_bind (require (rm_run_id manifest = run_id) (RunIdMismatch (rm_run_id manifest) run_id)) (\<lambda>_.
     res_bind (check_all (\<lambda>vm. map_err InvalidServerId (validate_server_id (vm_server_id vm)))
        (rm_servers manifest)) (\<lambda>_.
     res_bind (load_chains F run_id (rm_servers manifest) []) (\<lambda>(vs, loaded).
     res_bind (map_err FileError (af_pubkeys F)) (\<lambda>keys.
     res_bind (verify_servers L F keys loaded (rm_servers manifest)) (\<lambda>(ws, segs, recs).
     res_bind (device_join F device_id loaded) (\<lambda>(us, commits).
     let violations = vs @ ws @ us;
         expected = sum_list (map (length \<circ> vm_segments) (rm_servers manifest)) in
     res_bind (require (violations \<noteq> [] \<or> expected \<le> segs) (SummaryInvariant segs expected)) (\<lambda>_.
     Inr \<lparr>vr_passed = (violations = []), vr_violations = violations,
          vr_summary = \<lparr>vs_servers_verified = length (rm_servers manifest), vs_segments_verified = segs,
            vs_records_verified = recs, vs_device_commits_checked = commits\<rparr>\<rparr>))))))))"

end
