(* ===== verification/Verify_Facts.thy ===== *)
theory Verify_Facts
  imports Audit_Verify
begin

text \<open>
  What the verifier establishes. Re-hashing a segment is the hash chain over its records with the
  segment's own envelope (\<open>enveloped\<close>); a run that passes gives, for each server, a linked list of
  such segments with the heads the manifest names. What a recorder writes passes.
\<close>

section \<open>Re-hashing\<close>

definition in_envelope :: "closed_segment \<Rightarrow> evidence_record \<Rightarrow> evidence_record" where
  "in_envelope seg = map_body (\<lambda>b. b\<lparr>ev_run_id := cl_run_id seg, ev_server_id := cl_server_id seg,
     ev_segment_seq := cl_segment_seq seg\<rparr>)"

definition enveloped :: "closed_segment \<Rightarrow> evidence_record list" where
  "enveloped seg = map (in_envelope seg) (cl_records seg)"

lemma compute_with_prev [simp]: "compute_record_hash quote sha (with_prev q r) p = compute_record_hash quote sha r p"
  by (simp add: compute_record_hash_eq with_prev_def)

lemma append_cleared:
  assumes "sg_run_id seg = cl_run_id g" "sg_server_id seg = cl_server_id g" "sg_segment_seq seg = cl_segment_seq g"
  shows "append_record quote sha seg (clear_envelope r) =
    (case compute_record_hash quote sha (in_envelope g r) (chain_head seg) of
       None \<Rightarrow> Inl Canonical
     | Some h \<Rightarrow> Inr (h, seg\<lparr>sg_records := sg_records seg @ [with_prev (chain_head seg) (in_envelope g r)],
         sg_last_hash := Some h\<rparr>))"
proof -
  have "map_body (\<lambda>_. (body_of (clear_envelope r))\<lparr>ev_run_id := sg_run_id seg, ev_server_id := sg_server_id seg,
      ev_segment_seq := sg_segment_seq seg, ev_prev_hash := chain_head seg\<rparr>) (clear_envelope r) =
    with_prev (chain_head seg) (in_envelope g r)"
    using assms by (cases r) (simp_all add: clear_envelope_def in_envelope_def with_prev_def)
  moreover have "validate_and_inject seg (chain_head seg) (body_of (clear_envelope r)) =
      Inr ((body_of (clear_envelope r))\<lparr>ev_run_id := sg_run_id seg, ev_server_id := sg_server_id seg,
        ev_segment_seq := sg_segment_seq seg, ev_prev_hash := chain_head seg\<rparr>)"
    by (simp add: validate_and_inject_def clear_envelope_def)
  ultimately show ?thesis by (simp add: append_record_def Let_def split: option.split)
qed

lemma reappend_chain:
  assumes "sg_run_id seg = cl_run_id g" "sg_server_id seg = cl_server_id g" "sg_segment_seq seg = cl_segment_seq g"
  shows "(case reappend L i rs seg of Inl _ \<Rightarrow> None | Inr seg' \<Rightarrow> Some (chain_head seg')) =
    hash_chain (rl_quote L) (rl_sha256 L) (chain_head seg) (map (in_envelope g) rs)"
  using assms
proof (induction rs arbitrary: seg i)
  case (Cons r rs)
  show ?case
  proof (cases "compute_record_hash (rl_quote L) (rl_sha256 L) (in_envelope g r) (chain_head seg)")
    case None
    then show ?thesis by (simp add: append_cleared [OF Cons.prems])
  next
    case (Some h)
    let ?seg = "seg\<lparr>sg_records := sg_records seg @ [with_prev (chain_head seg) (in_envelope g r)],
        sg_last_hash := Some h\<rparr>"
    have "chain_head ?seg = h" by (simp add: chain_head_def)
    then show ?thesis
      using Cons.IH [of ?seg "i + 1"] Cons.prems Some by (simp add: append_cleared [OF Cons.prems])
  qed
qed (simp add: chain_head_def)

lemma verify_segment_iff:
  "verify_segment_records L seg = Inr () \<longleftrightarrow>
     hash_chain (rl_quote L) (rl_sha256 L) (cl_prev_hash seg) (enveloped seg) = Some (cl_head_hash seg)"
proof -
  let ?seg = "new_segment (cl_run_id seg) (cl_server_id seg) (cl_segment_seq seg) (cl_prev_hash seg)"
  have "(case reappend L 0 (cl_records seg) ?seg of Inl _ \<Rightarrow> None | Inr seg' \<Rightarrow> Some (chain_head seg')) =
      hash_chain (rl_quote L) (rl_sha256 L) (cl_prev_hash seg) (enveloped seg)"
    using reappend_chain [of ?seg seg L 0 "cl_records seg"]
    by (simp add: enveloped_def new_segment_def chain_head_def)
  then show ?thesis
    by (cases "reappend L 0 (cl_records seg) ?seg") (auto simp: verify_segment_records_def Let_def)
qed

text \<open>A segment as the recorder closed it re-hashes to its head.\<close>

lemma enveloped_own:
  assumes "segment_ok L seg"
  shows "enveloped seg = cl_records seg"
proof -
  have "in_envelope seg r = r" if "r \<in> set (cl_records seg)" for r
    using assms that by (cases r) (force simp: segment_ok_def in_envelope_def)+
  then show ?thesis by (simp add: enveloped_def map_idI)
qed

lemma segment_ok_verifies: "segment_ok L seg \<Longrightarrow> verify_segment_records L seg = Inr ()"
  by (simp add: verify_segment_iff enveloped_own) (simp add: segment_ok_def)

section \<open>Chains\<close>

lemma check_records_nil: "check_records L segs = [] \<longleftrightarrow> (\<forall>seg\<in>set segs. verify_segment_records L seg = Inr ())"
  by (auto simp: check_records_def split: sum.splits) (metis sumE unit.exhaust)

lemma check_links_nil: "check_links server (a # segs) = [] \<longleftrightarrow> linked (cl_head_hash a) segs"
  by (induction segs arbitrary: a) auto

definition chain_ok :: "('sk, 'vk) recorder_lib \<Rightarrow> closed_segment list \<Rightarrow> bool" where
  "chain_ok L segs \<longleftrightarrow> check_records L segs = [] \<and> check_links [] segs = []"

lemma check_links_any: "check_links server segs = [] \<longleftrightarrow> check_links server' segs = []"
  by (cases segs) (simp_all add: check_links_nil)

definition chain_origin :: "closed_segment list \<Rightarrow> string" where
  "chain_origin segs = (case segs of [] \<Rightarrow> [] | seg # _ \<Rightarrow> cl_prev_hash seg)"

lemma linked_hash_chain:
  "linked p segs \<Longrightarrow> \<forall>seg\<in>set segs. verify_segment_records L seg = Inr () \<Longrightarrow>
     hash_chain (rl_quote L) (rl_sha256 L) p (concat (map enveloped segs)) = Some (head_after p segs)"
proof (induction segs arbitrary: p)
  case (Cons seg segs)
  then have "hash_chain (rl_quote L) (rl_sha256 L) (cl_head_hash seg) (concat (map enveloped segs)) =
      Some (head_after (cl_head_hash seg) segs)" by simp
  then show ?case using Cons.prems
    by (auto simp: hash_chain_append verify_segment_iff head_after_def)
qed (simp add: head_after_def)

lemma chain_ok_hash:
  assumes "chain_ok L segs" "segs \<noteq> []"
  shows "hash_chain (rl_quote L) (rl_sha256 L) (chain_origin segs) (concat (map enveloped segs)) =
    Some (cl_head_hash (last segs))"
proof -
  obtain a r where s: "segs = a # r" using assms(2) by (cases segs) auto
  have "linked (chain_origin segs) segs"
    using assms(1) s check_links_nil [of "[]" a r] by (simp add: chain_ok_def chain_origin_def)
  from linked_hash_chain [OF this, of L] assms show ?thesis
    by (simp add: chain_ok_def check_records_nil head_after_def)
qed

lemma chain_ok_prefix: "chain_ok L (xs @ ys) \<Longrightarrow> chain_ok L xs"
proof -
  assume a: "chain_ok L (xs @ ys)"
  then have "check_links [] xs = []"
    by (cases xs) (auto simp: chain_ok_def check_links_nil linked_append)
  with a show ?thesis by (auto simp: chain_ok_def check_records_nil)
qed

lemma check_expected_nil:
  "fst (check_expected server segs gm) = [] \<Longrightarrow>
     \<exists>seg\<in>set segs. cl_segment_seq seg = gm_segment_seq gm \<and> cl_head_hash seg = gm_head_hash gm"
  by (auto simp: check_expected_def find_Some_iff split: option.splits if_splits)

section \<open>Runs\<close>

lemma load_chains_all:
  assumes "load_chains F run_id vms acc = Inr ([], loaded)"
  shows "(\<forall>vm\<in>set vms. \<exists>written segs. af_chain F (vm_server_id vm) = Some (Inr written) \<and>
      load_chain_segments run_id written = Inr segs \<and> map_of loaded (vm_server_id vm) = Some segs) \<and>
    (\<forall>server. server \<notin> vm_server_id ` set vms \<longrightarrow> map_of loaded server = map_of acc server)"
  using assms
proof (induction vms arbitrary: acc)
  case (Cons vm vms)
  from Cons.prems obtain written segs where w: "af_chain F (vm_server_id vm) = Some (Inr written)"
      "load_chain_segments run_id written = Inr segs" "\<not> (vm_segments vm \<noteq> [] \<and> segs = [])"
      "load_chains F run_id vms (AList.update (vm_server_id vm) segs acc) = Inr ([], loaded)"
    by (auto simp: Let_def res_bind_Inr_iff split: option.splits sum.splits if_splits)
  from Cons.IH [OF w(4)]
  have ih: "\<forall>vm\<in>set vms. \<exists>written segs. af_chain F (vm_server_id vm) = Some (Inr written) \<and>
      load_chain_segments run_id written = Inr segs \<and> map_of loaded (vm_server_id vm) = Some segs"
    "\<And>server. server \<notin> vm_server_id ` set vms \<Longrightarrow>
      map_of loaded server = map_of (AList.update (vm_server_id vm) segs acc) server" by blast+
  have "map_of loaded (vm_server_id vm) = Some segs"
  proof (cases "vm_server_id vm \<in> vm_server_id ` set vms")
    case True
    with ih(1) w show ?thesis by fastforce
  next
    case False
    then show ?thesis using ih(2) by (simp add: update_conv')
  qed
  then show ?case using ih w by (simp add: update_conv')
qed simp

lemma verify_servers_all:
  "verify_servers L F keys loaded vms = Inr ([], m, n) \<Longrightarrow> vm \<in> set vms \<Longrightarrow>
     \<exists>m' n'. verify_server L F keys loaded vm = Inr ([], m', n')"
  by (induction vms arbitrary: m n) (auto simp: res_bind_Inr_iff)

definition server_chain_ok ::
  "('sk, 'vk) recorder_lib \<Rightarrow> 'vk audit_files \<Rightarrow> string \<Rightarrow> server_manifest \<Rightarrow> closed_segment list \<Rightarrow> bool" where
  "server_chain_ok L F run_id vm segs \<longleftrightarrow>
     (\<exists>written. af_chain F (vm_server_id vm) = Some (Inr written) \<and> load_chain_segments run_id written = Inr segs) \<and>
     chain_ok L segs \<and>
     (\<forall>gm\<in>set (vm_segments vm). \<exists>seg\<in>set segs.
        cl_segment_seq seg = gm_segment_seq gm \<and> cl_head_hash seg = gm_head_hash gm)"

lemma verify_server_ok:
  assumes "verify_server L F keys loaded vm = Inr ([], m, n)" "map_of loaded (vm_server_id vm) = Some segs"
  shows "chain_ok L segs" "\<forall>gm\<in>set (vm_segments vm). \<exists>seg\<in>set segs.
    cl_segment_seq seg = gm_segment_seq gm \<and> cl_head_hash seg = gm_head_hash gm"
proof -
  from assms have a: "\<forall>gm\<in>set (vm_segments vm). fst (check_expected (vm_server_id vm) segs gm) = []"
      "check_links (vm_server_id vm) segs = []" "check_records L segs = []"
    by (auto simp: verify_server_def Let_def res_bind_Inr_iff)
  show "chain_ok L segs"
    using a(2,3) check_links_any [of "vm_server_id vm" segs "[]"] by (simp add: chain_ok_def)
  show "\<forall>gm\<in>set (vm_segments vm). \<exists>seg\<in>set segs.
    cl_segment_seq seg = gm_segment_seq gm \<and> cl_head_hash seg = gm_head_hash gm"
    using a(1) check_expected_nil by blast
qed

lemma passed_run:
  assumes "verify_run L F run_id device_id = Inr R" "vr_passed R" "af_manifest F = Inr M" "vm \<in> set (rm_servers M)"
  shows "\<exists>segs. server_chain_ok L F run_id vm segs"
proof -
  from assms(1-3) obtain loaded keys m n where
    l: "load_chains F run_id (rm_servers M) [] = Inr ([], loaded)"
    and v: "verify_servers L F keys loaded (rm_servers M) = Inr ([], m, n)"
    by (auto simp: verify_run_def Let_def res_iffs)
  from load_chains_all [OF l] assms(4) obtain written segs where
    w: "af_chain F (vm_server_id vm) = Some (Inr written)" "load_chain_segments run_id written = Inr segs"
      "map_of loaded (vm_server_id vm) = Some segs" by blast
  from verify_servers_all [OF v assms(4)] obtain m' n' where
    "verify_server L F keys loaded vm = Inr ([], m', n')" by blast
  from verify_server_ok [OF this w(3)] w show ?thesis by (auto simp: server_chain_ok_def)
qed

text \<open>A run of one server whose chain is sound passes, with the counts of its manifest.\<close>

definition pass :: "nat \<Rightarrow> nat \<Rightarrow> verification_result" where
  "pass segs recs = \<lparr>vr_passed = True, vr_violations = [], vr_summary = \<lparr>vs_servers_verified = 1,
     vs_segments_verified = segs, vs_records_verified = recs, vs_device_commits_checked = 0\<rparr>\<rparr>"

definition manifest_entry :: "closed_segment \<Rightarrow> segment_manifest" where
  "manifest_entry seg = \<lparr>gm_segment_seq = cl_segment_seq seg, gm_final_seq = length (cl_records seg) - 1,
     gm_head_hash = cl_head_hash seg\<rparr>"

lemma check_expected_entry:
  assumes "distinct (map cl_segment_seq segs)" "seg \<in> set segs"
    "cl_segment_seq seg = gm_segment_seq gm" "cl_head_hash seg = gm_head_hash gm"
  shows "check_expected server segs gm = ([], 1, length (cl_records seg))"
proof -
  have "find (\<lambda>s. cl_segment_seq s = gm_segment_seq gm) segs = Some seg"
    using assms(1-3) by (induction segs) (auto simp: rev_image_eqI)
  then show ?thesis using assms(4) by (simp add: check_expected_def)
qed

definition matches_manifest :: "segment_manifest list \<Rightarrow> closed_segment list \<Rightarrow> bool" where
  "matches_manifest gms segs \<longleftrightarrow> distinct (map cl_segment_seq segs) \<and>
     list_all2 (\<lambda>gm seg. cl_segment_seq seg = gm_segment_seq gm \<and> cl_head_hash seg = gm_head_hash gm) gms segs"

lemma matches_expected:
  assumes "matches_manifest gms segs"
  shows "map (check_expected server segs) gms = map (\<lambda>seg. ([], 1, length (cl_records seg))) segs"
proof -
  have l: "length gms = length segs" using assms by (auto simp: matches_manifest_def dest: list_all2_lengthD)
  show ?thesis
  proof (rule nth_equalityI)
    fix i assume "i < length (map (check_expected server segs) gms)"
    then have "i < length gms" by simp
    with assms l have "check_expected server segs (gms ! i) = ([], 1, length (cl_records (segs ! i)))"
      by (intro check_expected_entry) (auto simp: matches_manifest_def list_all2_conv_all_nth)
    then show "map (check_expected server segs) gms ! i =
        map (\<lambda>seg. ([], 1, length (cl_records seg))) segs ! i"
      using \<open>i < length gms\<close> l by simp
  qed (simp add: l)
qed

definition keys_accept ::
  "('sk, 'vk) recorder_lib \<Rightarrow> 'vk audit_files \<Rightarrow> string \<Rightarrow> closed_segment list \<Rightarrow> bool" where
  "keys_accept L F server segs \<longleftrightarrow>
     (case af_pubkeys F of Inl _ \<Rightarrow> False
      | Inr keys \<Rightarrow> (case map_of (rev keys) server of None \<Rightarrow> True
          | Some key \<Rightarrow> check_signatures L F server key segs = Inr []))"

lemma verify_run_single:
  assumes "af_manifest F = Inr M" "rm_run_id M = run_id" "rm_servers M = [vm]"
    "validate_server_id (vm_server_id vm) = Inr ()"
    "af_chain F (vm_server_id vm) = Some (Inr written)" "load_chain_segments run_id written = Inr segs"
    "matches_manifest (vm_segments vm) segs" "chain_ok L segs" "keys_accept L F (vm_server_id vm) segs"
    "af_device_log F = None"
  shows "verify_run L F run_id device_id = Inr (pass (length segs) (length (concat (map cl_records segs))))"
proof -
  let ?s = "vm_server_id vm"
  have len: "length (vm_segments vm) = length segs"
    using assms(7) by (auto simp: matches_manifest_def dest: list_all2_lengthD)
  have e: "map (check_expected ?s segs) (vm_segments vm) = map (\<lambda>seg. ([], 1, length (cl_records seg))) segs"
    by (rule matches_expected [OF assms(7)])
  have links: "check_links ?s segs = []" "check_records L segs = []"
    using assms(8) check_links_any [of ?s segs "[]"] by (simp_all add: chain_ok_def)
  from assms(9) obtain keys where keys: "af_pubkeys F = Inr keys"
    "(case map_of (rev keys) ?s of None \<Rightarrow> Inr [] | Some key \<Rightarrow> check_signatures L F ?s key segs) = Inr []"
    by (auto simp: keys_accept_def split: sum.splits option.splits)
  have load: "load_chains F run_id [vm] [] = Inr ([], [(?s, segs)])"
    using assms(5,6) len by auto
  have counts: "sum_list (map (fst \<circ> snd) (map (\<lambda>seg. ([] :: violation list, 1, length (cl_records seg))) segs)) = length segs"
    "sum_list (map (snd \<circ> snd) (map (\<lambda>seg. ([] :: violation list, 1 :: nat, length (cl_records seg))) segs)) =
      length (concat (map cl_records segs))"
    by (simp_all add: comp_def sum_list_triv length_concat)
  have none: "concat (map fst (map (\<lambda>seg. ([] :: violation list, 1 :: nat, length (cl_records seg))) segs)) = []"
    by simp
  have "verify_server L F keys [(?s, segs)] vm = Inr ([], length segs, length (concat (map cl_records segs)))"
    unfolding verify_server_def Let_def by (simp only: map_of.simps fst_conv snd_conv fun_upd_same option.case e
        keys(2) res_bind_simps links counts none append.simps)
  then have "verify_servers L F keys [(?s, segs)] [vm] = Inr ([], length segs, length (concat (map cl_records segs)))"
    by simp
  with load keys(1) len assms(1-4,10) show ?thesis
    by (simp add: verify_run_def device_join_def pass_def map_err_def require_def
        del: load_chains.simps verify_servers.simps)
qed

section \<open>What the recorder wrote passes\<close>

lemma first_duplicate_distinct: "distinct xs \<Longrightarrow> first_duplicate xs = None"
  by (induction xs rule: first_duplicate.induct) auto

lemma produced_seqs:
  assumes "produced L C segs"
  shows "sorted (map cl_segment_seq segs)" "distinct (map cl_segment_seq segs)"
  using assms by (simp_all add: produced_def)

lemma load_produced:
  assumes "produced L C segs" "filter (\<lambda>s. cl_run_id s = run_id) written = segs"
  shows "load_chain_segments run_id written = Inr segs"
  using produced_seqs [OF assms(1)] assms(2)
  by (simp add: load_chain_segments_def Let_def sort_key_id_if_sorted first_duplicate_distinct)

lemma linked_origin: "linked p segs \<Longrightarrow> check_links server segs = []"
  by (cases segs) (simp_all add: check_links_nil)

lemma produced_chain_ok: "produced L C segs \<Longrightarrow> chain_ok L segs"
  by (auto simp: produced_def chain_ok_def check_records_nil segment_ok_verifies intro: linked_origin)

lemma hash_chain_digest:
  "hash_chain quote sha p rs = Some h \<Longrightarrow> rs \<noteq> [] \<Longrightarrow> \<exists>t. h = ''sha256:'' @ sha256_hex sha t"
proof (induction rs arbitrary: p)
  case (Cons r rs)
  then show ?case by (cases "rs = []") (auto simp: compute_hashed split: option.splits)
qed simp

text \<open>The documented behaviour of the signature scheme and of SHA-256.\<close>

definition signer_laws :: "('sk, 'vk) recorder_lib \<Rightarrow> bool" where
  "signer_laws L \<longleftrightarrow>
     (\<forall>key m. si_verify (rl_signer L) (si_verifying_key (rl_signer L) key) m (si_sign (rl_signer L) key m)) \<and>
     (\<forall>key m. length (si_sign (rl_signer L) key m) = 64) \<and>
     (\<forall>b. si_decode (rl_signer L) (si_encode (rl_signer L) b) = Some b) \<and>
     (\<forall>t. length (rl_sha256 L t) = 32)"

lemma produced_signature:
  assumes "signer_laws L" "produced L C segs" "rg_signing_key C = Some key" "seg \<in> set segs"
  shows "check_signature L F server (si_verifying_key (rl_signer L) key) seg = Inr []"
proof -
  let ?S = "rl_signer L"
  from assms(2,4) have seg: "segment_ok L seg" "cl_records seg \<noteq> []" "cl_signature seg = expected_signature L C seg"
    by (auto simp: produced_def)
  then obtain t where "cl_head_hash seg = ''sha256:'' @ sha256_hex (rl_sha256 L) t"
    using hash_chain_digest unfolding segment_ok_def by blast
  then have d: "decode_head_hash (cl_head_hash seg) = Inr (rl_sha256 L t)"
    using assms(1) decode_digest [of "rl_sha256 L" t] by (simp add: signer_laws_def)
  then have "cl_signature seg = Some (si_encode ?S (si_sign ?S key (rl_sha256 L t)))"
    using seg(3) assms(3)
    by (simp add: expected_signature_def sign_head_def sign_digest_def encode_signature_def)
  then show ?thesis
    using d assms(1)
    by (simp add: check_signature_def segment_signature_def decode_signature_def verify_head_def
        verify_digest_def signer_laws_def require_def)
qed

lemma check_signatures_nil:
  "\<forall>seg\<in>set segs. check_signature L F server key seg = Inr [] \<Longrightarrow> check_signatures L F server key segs = Inr []"
  by (induction segs) simp_all

lemma produced_matches: "produced L C segs \<Longrightarrow> matches_manifest (map manifest_entry segs) segs"
  using produced_seqs by (auto simp: matches_manifest_def manifest_entry_def list_all2_map1 list_all2_same)

lemma produced_run_verifies:
  assumes "signer_laws L" "produced L C segs" "rg_signing_key C = Some key"
    and "validate_server_id (rg_server_id C) = Inr ()"
    and "af_manifest F = Inr \<lparr>rm_run_id = rg_run_id C, rm_cutoff = cutoff, rm_servers =
      [\<lparr>vm_server_id = rg_server_id C, vm_segments = map manifest_entry segs\<rparr>]\<rparr>"
    and "af_chain F (rg_server_id C) = Some (Inr written)" "filter (\<lambda>g. cl_run_id g = rg_run_id C) written = segs"
    and "af_pubkeys F = Inr [(rg_server_id C, si_verifying_key (rl_signer L) key)]" "af_device_log F = None"
  shows "verify_run L F (rg_run_id C) device_id = Inr (pass (length segs) (length (records_in segs)))"
proof -
  have "keys_accept L F (rg_server_id C) segs"
    using assms(8) produced_signature [OF assms(1-3)] by (simp add: keys_accept_def check_signatures_nil)
  then show ?thesis
    unfolding records_in_def
    by (intro verify_run_single [OF assms(5), where written = written and
          vm = "\<lparr>vm_server_id = rg_server_id C, vm_segments = map manifest_entry segs\<rparr>"])
      (use assms(4,6,9) load_produced [OF assms(2,7)] produced_matches [OF assms(2)]
        produced_chain_ok [OF assms(2)] in simp_all)
qed

section \<open>Dropping records from the front\<close>

text \<open>The first record of a segment removed, the segment re-attached to that record's hash.\<close>

definition drop_first :: "('sk, 'vk) recorder_lib \<Rightarrow> closed_segment \<Rightarrow> closed_segment" where
  "drop_first L seg =
     (case cl_records seg of [] \<Rightarrow> seg
      | r # rs \<Rightarrow> (case compute_record_hash (rl_quote L) (rl_sha256 L) (in_envelope seg r) (cl_prev_hash seg) of
          None \<Rightarrow> seg | Some h \<Rightarrow> seg\<lparr>cl_records := rs, cl_prev_hash := h\<rparr>))"

lemma drop_first_fields [simp]:
  "cl_run_id (drop_first L seg) = cl_run_id seg" "cl_segment_seq (drop_first L seg) = cl_segment_seq seg"
  "cl_head_hash (drop_first L seg) = cl_head_hash seg" "cl_signature (drop_first L seg) = cl_signature seg"
  "cl_server_id (drop_first L seg) = cl_server_id seg"
  by (simp_all add: drop_first_def split: list.split option.split)

lemma drop_first_verifies:
  assumes "verify_segment_records L seg = Inr ()"
  shows "verify_segment_records L (drop_first L seg) = Inr ()" "cl_records (drop_first L seg) = tl (cl_records seg)"
proof -
  have "verify_segment_records L (drop_first L seg) = Inr () \<and> cl_records (drop_first L seg) = tl (cl_records seg)"
  proof (cases "cl_records seg")
    case Nil
    then show ?thesis using assms by (simp add: drop_first_def)
  next
    case (Cons r rs)
    then obtain h where h:
      "compute_record_hash (rl_quote L) (rl_sha256 L) (in_envelope seg r) (cl_prev_hash seg) = Some h"
      "hash_chain (rl_quote L) (rl_sha256 L) h (map (in_envelope seg) rs) = Some (cl_head_hash seg)"
      using assms by (auto simp: verify_segment_iff enveloped_def split: option.splits)
    then have d: "drop_first L seg = seg\<lparr>cl_records := rs, cl_prev_hash := h\<rparr>"
      using Cons by (simp add: drop_first_def)
    have "in_envelope (drop_first L seg) = in_envelope seg" by (simp add: in_envelope_def)
    then show ?thesis using h(2) Cons by (simp add: verify_segment_iff enveloped_def d)
  qed
  then show "verify_segment_records L (drop_first L seg) = Inr ()" "cl_records (drop_first L seg) = tl (cl_records seg)"
    by blast+
qed

lemma drop_first_chain: "chain_ok L (seg # segs) \<Longrightarrow> chain_ok L (drop_first L seg # segs)"
  by (simp add: chain_ok_def check_records_nil check_links_nil drop_first_verifies)

lemma drop_first_loads:
  assumes "load_chain_segments run_id (seg # segs) = Inr (seg # segs)"
  shows "load_chain_segments run_id (drop_first L seg # segs) = Inr (drop_first L seg # segs)"
proof -
  let ?f = "filter (\<lambda>s. cl_run_id s = run_id)"
  from assms have l: "sort_key cl_segment_seq (?f (seg # segs)) = seg # segs"
      "first_duplicate (map cl_segment_seq (seg # segs)) = None"
    by (auto simp: load_chain_segments_def Let_def split: option.splits)
  then have "length (?f (seg # segs)) = length (seg # segs)" by (metis length_sort)
  then have own: "cl_run_id g = run_id" if "g \<in> set (seg # segs)" for g
    using length_filter_less [OF that, of "\<lambda>s. cl_run_id s = run_id"] by linarith
  have "sorted (map cl_segment_seq (seg # segs))" using l(1) by (metis sorted_sort_key)
  then have "sorted (map cl_segment_seq (drop_first L seg # segs))" by simp
  moreover have "?f (drop_first L seg # segs) = drop_first L seg # segs"
    using own by simp
  ultimately show ?thesis
    using l(2) by (simp only: load_chain_segments_def Let_def sort_key_id_if_sorted) simp
qed

lemma drop_first_signature:
  "check_signature L F server key (drop_first L seg) = check_signature L F server key seg"
proof -
  have "segment_signature F server (drop_first L seg) = segment_signature F server seg"
    by (cases "cl_signature seg") (simp_all add: segment_signature_def)
  moreover have "signature_failure server (drop_first L seg) = signature_failure server seg"
    "verify_head (rl_signer L) (drop_first L seg) = verify_head (rl_signer L) seg"
    by (auto simp: signature_failure_def verify_head_def fun_eq_iff)
  ultimately show ?thesis by (simp only: check_signature_def)
qed

end
