(* ===== verification/Device_Log_Facts.thy ===== *)
theory Device_Log_Facts
  imports Device_Log
begin

text \<open>
  What the writer of a provenance line puts in a commit comment is what the log parser reads: the
  log of a list of commits, in the native format of the device, gives back the request of each.
\<close>

section \<open>Printable text\<close>

definition printable :: "char \<Rightarrow> bool" where
  "printable c \<longleftrightarrow> 32 < byte c \<and> byte c < 128"

definition word_text :: "string \<Rightarrow> bool" where
  "word_text s \<longleftrightarrow> s \<noteq> [] \<and> list_all printable s"

lemma printable_solid: "printable c \<Longrightarrow> ws_width (c # s) = 0"
  by (auto simp: printable_def split: list.split)

lemma space_width [simp]: "ws_width (CHR '' '' # s) = 1"
  by (simp add: byte_def)

lemma ws_take_unprintable: "c \<in> set (take (ws_width s) s) \<Longrightarrow> \<not> printable c"
  by (cases s rule: ws_width.cases) (auto simp: printable_def split: if_splits list.splits)

lemma printable_not_blank: "c \<in> set s \<Longrightarrow> printable c \<Longrightarrow> \<not> blank s"
proof (induction s rule: blank.induct)
  case (1 s)
  have "c \<in> set (drop (ws_width s) s)"
    using 1(2,3) ws_take_unprintable [of c s] by (metis UnE append_take_drop_id set_append)
  then show ?case using 1 by (subst blank.simps) auto
qed

lemma trim_start_solid_id: "ws_width s = 0 \<Longrightarrow> trim_start s = s"
  by (subst trim_start.simps) simp

lemma trim_end_word: "printable c \<Longrightarrow> blank r \<Longrightarrow> trim_end (s @ c # r) = s @ [c]"
proof (induction s)
  case Nil
  have "trim_end r = []" using Nil(2) by (cases r) simp_all
  then show ?case using printable_not_blank [of c "c # r"] Nil by simp
next
  case (Cons d s)
  then show ?case using printable_not_blank [of c "d # s @ c # r"] by simp
qed

lemma word_ends:
  assumes "word_text w"
  shows "w \<noteq> []" "printable (hd w)" "printable (last w)"
  using assms by (auto simp: word_text_def list_all_iff)

lemma word_trim_start: "word_text w \<Longrightarrow> trim_start (w @ r) = w @ r"
  using word_ends [of w] by (cases w) (simp_all add: trim_start_solid_id printable_solid del: ws_width.simps)

lemma trim_word: "word_text w \<Longrightarrow> trim w = w"
  using word_trim_start [of w "[]"] word_ends [of w] trim_end_word [of "last w" "[]" "butlast w"]
  by (simp add: trim_def blank.simps [of "[]"])

lemma trim_end_text: "word_text w \<Longrightarrow> blank r \<Longrightarrow> trim_end (s @ w @ r) = s @ w"
  using word_ends [of w] trim_end_word [of "last w" r "s @ butlast w"] append_butlast_last_id [of w]
  by (metis append.assoc append_Cons append_Nil)

lemma take_word_text:
  "list_all printable w \<Longrightarrow> take_word w = (w, [])"
  "list_all printable w \<Longrightarrow> take_word (w @ CHR '' '' # r) = (w, CHR '' '' # r)"
  by (induction w) (auto simp del: ws_width.simps simp: printable_solid)

lemma split_whitespace_space: "split_whitespace (CHR '' '' # s) = split_whitespace s"
proof -
  have "trim_start (CHR '' '' # s) = trim_start s"
    by (subst trim_start.simps) (simp del: ws_width.simps)
  then show ?thesis by (subst (1 2) split_whitespace.simps) simp
qed

lemma split_whitespace_nil [simp]: "split_whitespace [] = []"
  by (subst split_whitespace.simps, subst trim_start.simps) simp

lemma split_whitespace_word:
  assumes "word_text w"
  shows "split_whitespace w = [w]" "split_whitespace (w @ CHR '' '' # r) = w # split_whitespace r"
proof -
  obtain c w' where w: "w = c # w'" using word_ends(1) [OF assms] by (cases w) simp_all
  have "list_all printable w" using assms by (simp add: word_text_def)
  note tw = take_word_text [OF this]
  have "trim_start w = w" "trim_start (w @ CHR '' '' # r) = w @ CHR '' '' # r"
    using word_trim_start [OF assms, of "[]"] word_trim_start [OF assms] by simp_all
  then show "split_whitespace w = [w]" "split_whitespace (w @ CHR '' '' # r) = w # split_whitespace r"
    using w tw by (subst split_whitespace.simps; simp del: take_word.simps add: split_whitespace_space)+
qed

section \<open>The line read back\<close>

definition uuid_text :: "string \<Rightarrow> bool" where
  "uuid_text s \<longleftrightarrow> s \<noteq> [] \<and> list_all (\<lambda>c. is_lower_hex c \<or> c = CHR ''-'') s"

lemma uuid_chars:
  assumes "uuid_text s"
  shows "word_text s" "CHR '','' \<notin> set s" "\<not> sublist REQUEST_ID_KEY s"
proof -
  have p: "printable c" if "is_lower_hex c \<or> c = CHR ''-''" for c
    using that by (auto simp: is_lower_hex_def printable_def byte_def less_eq_char_def)
  with assms show "word_text s" by (auto simp: uuid_text_def word_text_def list_all_iff)
  show "CHR '','' \<notin> set s"
    using assms by (auto simp: uuid_text_def list_all_iff is_lower_hex_def less_eq_char_def)
  have "CHR ''='' \<notin> set s"
    using assms by (auto simp: uuid_text_def list_all_iff is_lower_hex_def less_eq_char_def)
  then show "\<not> sublist REQUEST_ID_KEY s"
    using set_mono_sublist [of REQUEST_ID_KEY s] by (auto simp: REQUEST_ID_KEY_def)
qed

lemma request_id_in_line:
  assumes "uuid_text rid" "\<not> sublist REQUEST_ID_KEY a"
  shows "request_id_in (a @ '' '' @ REQUEST_ID_KEY @ rid) = Some rid"
proof -
  have "CHR '' '' \<notin> set REQUEST_ID_KEY" "REQUEST_ID_KEY \<noteq> []" by (simp_all add: REQUEST_ID_KEY_def)
  from second_piece_sep [OF this assms(2) uuid_chars(3) [OF assms(1)]]
  have "second_piece REQUEST_ID_KEY (a @ '' '' @ REQUEST_ID_KEY @ rid) = Some rid" by simp
  moreover have "first_field (CHR '','') rid = rid"
    using uuid_chars(2) [OF assms(1)] by (auto simp: first_field_def takeWhile_eq_all_conv)
  ultimately show ?thesis
    using uuid_chars(1) [OF assms(1)] assms(1)
    by (simp add: request_id_in_def split_whitespace_word trim_word uuid_text_def)
qed

text \<open>The line is unambiguous when nothing the caller supplied contains the key.\<close>

definition key_free :: "string option \<Rightarrow> attribution \<Rightarrow> bool" where
  "key_free operator_comment a \<longleftrightarrow>
     (case operator_comment of None \<Rightarrow> True | Some c \<Rightarrow> \<not> contains (trim c) REQUEST_ID_KEY) \<and>
     (case at_agent a of None \<Rightarrow> True
      | Some g \<Rightarrow> \<not> contains (provenance_string g (at_on_behalf_of a)) REQUEST_ID_KEY)"

lemma composed_line_read:
  assumes "key_free operator_comment a" "uuid_text (at_request_id a)" "provenance_of a = Some p"
    and pad: "\<not> sublist REQUEST_ID_KEY pad"
  shows "request_id_in (pad @ '' '' @ compose_line operator_comment p) = Some (at_request_id a)"
proof -
  from assms(3) obtain g where g: "at_agent a = Some g"
    "p = provenance_string g (at_on_behalf_of a) @ '' '' @ REQUEST_ID_KEY @ at_request_id a"
    by (auto simp: provenance_of_def split: option.splits)
  have k: "CHR '' '' \<notin> set REQUEST_ID_KEY" "REQUEST_ID_KEY \<noteq> []" by (simp_all add: REQUEST_ID_KEY_def)
  note sep = sublist_sep [OF k]
  have prov: "\<not> sublist REQUEST_ID_KEY (provenance_string g (at_on_behalf_of a))"
    using assms(1) g(1) by (simp add: key_free_def contains_sublist)
  have bar: "\<not> sublist REQUEST_ID_KEY ''|''" by (simp add: REQUEST_ID_KEY_def sublist_Cons_right)
  show ?thesis
  proof (cases "\<exists>c. operator_comment = Some c \<and> trim c \<noteq> []")
    case True
    then obtain c where c: "operator_comment = Some c" "trim c \<noteq> []" by blast
    have "\<not> sublist REQUEST_ID_KEY (trim c)" using assms(1) c by (simp add: key_free_def contains_sublist)
    then have "\<not> sublist REQUEST_ID_KEY
        (pad @ '' '' @ trim c @ '' | '' @ provenance_string g (at_on_behalf_of a))"
      using pad prov bar sep [of pad] sep [of "trim c"] sep [of "''|''"] by simp
    from request_id_in_line [OF assms(2) this] show ?thesis using c g(2) by (simp add: compose_line_def)
  next
    case False
    then have "compose_line operator_comment p = p" by (auto simp: compose_line_def split: option.splits)
    moreover have "\<not> sublist REQUEST_ID_KEY (pad @ '' '' @ provenance_string g (at_on_behalf_of a))"
      using pad prov sep [of pad] by simp
    from request_id_in_line [OF assms(2) this] have
      "request_id_in (pad @ '' '' @ p) = Some (at_request_id a)" using g(2) by simp
    ultimately show ?thesis by simp
  qed
qed

text \<open>
  An operator's comment comes first in the line, and the first occurrence of the key is the one
  read: a comment that names another request is taken for that request.
\<close>

lemma comment_overrides_request:
  assumes "uuid_text other"
  shows "request_id_in (''    '' @ compose_line (Some (REQUEST_ID_KEY @ other)) p) = Some other"
proof -
  have w: "word_text (REQUEST_ID_KEY @ other)"
    using uuid_chars(1) [OF assms(1)] by (auto simp: word_text_def REQUEST_ID_KEY_def printable_def byte_def)
  let ?rest = "other @ CHR '' '' # ''| '' @ p"
  have k: "CHR '' '' \<notin> set REQUEST_ID_KEY" "REQUEST_ID_KEY \<noteq> []" "\<not> sublist REQUEST_ID_KEY ''   ''"
    by (simp_all add: REQUEST_ID_KEY_def sublist_Cons_right)
  have line: "''    '' @ compose_line (Some (REQUEST_ID_KEY @ other)) p = ''   '' @ CHR '' '' # REQUEST_ID_KEY @ ?rest"
    using trim_word [OF w] word_ends(1) [OF w] by (simp add: compose_line_def)
  have "split_once REQUEST_ID_KEY (''   '' @ CHR '' '' # REQUEST_ID_KEY @ ?rest) = Some (''    '', ?rest)"
    using split_once_sep [OF k, of "REQUEST_ID_KEY @ ?rest"] split_once_at [OF k(2), of ?rest] by simp
  moreover have "split_once REQUEST_ID_KEY ?rest =
      map_option (\<lambda>(x, r). (other @ CHR '' '' # x, r)) (split_once REQUEST_ID_KEY (''| '' @ p))"
    by (rule split_once_sep [OF k(1,2) uuid_chars(3) [OF assms(1)]])
  ultimately obtain tail where t: "second_piece REQUEST_ID_KEY (''   '' @ CHR '' '' # REQUEST_ID_KEY @ ?rest) =
      Some (other @ CHR '' '' # tail)"
    by (cases "split_once REQUEST_ID_KEY (''| '' @ p)") (auto simp: second_piece_def)
  have "first_field (CHR '','') (other @ CHR '' '' # tail) = other @ CHR '' '' # first_field (CHR '','') tail"
    unfolding first_field_def using uuid_chars(2) [OF assms(1)] by (subst takeWhile_append2) auto
  then show ?thesis
    using t uuid_chars(1) [OF assms(1)] assms(1)
    by (simp add: request_id_in_def line [simplified] split_whitespace_word trim_word uuid_text_def)
qed

section \<open>Native logs\<close>

text \<open>
  An entry of the native log starts with a line \<open><index>   <date> <time> UTC by ...\<close>, from which the
  reader takes the time.
\<close>

definition stamp_text :: "char \<Rightarrow> string \<Rightarrow> bool" where
  "stamp_text sep s \<longleftrightarrow>
     s \<noteq> [] \<and> list_all (\<lambda>c. CHR ''0'' \<le> c \<and> c \<le> CHR ''9'' \<or> c = sep) s"

lemma stamp_chars:
  assumes "stamp_text sep s" "sep \<in> {CHR ''0'', CHR ''-'', CHR '':''}"
  shows "word_text s" "CHR ''U'' \<notin> set s" "CHR '' '' \<notin> set s"
  using assms by (auto simp: stamp_text_def word_text_def list_all_iff printable_def byte_def less_eq_char_def)

lemma timestamp_read:
  assumes "stamp_text (CHR ''0'') i" "stamp_text (CHR ''-'') d" "List.member d (CHR ''-'')"
    and "stamp_text (CHR '':'') t" "List.member t (CHR '':'')"
  shows "extract_junos_timestamp (i @ ''   '' @ d @ '' '' @ t @ '' UTC by '' @ by_whom) = Some (d @ ''T'' @ t @ ''Z'')"
proof -
  let ?a = "i @ ''   '' @ d @ '' '' @ t" and ?b = "'' by '' @ by_whom"
  have w: "word_text i" "word_text d" "word_text t" using assms stamp_chars(1) by blast+
  have "CHR ''U'' \<notin> set ?a" using assms stamp_chars(2) by auto
  then have "\<not> sublist ''UTC'' ?a" using set_mono_sublist [of "''UTC''" ?a] by auto
  from split_once_sep [OF _ _ this, of "CHR '' ''" "''UTC'' @ ?b"]
  have cutU: "split_once ''UTC'' (?a @ '' '' @ ''UTC'' @ ?b) = Some (?a @ '' '', ?b)"
    using split_once_at [of "''UTC''" ?b] by simp
  have "trim (?a @ '' '') = ?a"
  proof -
    have "trim_start (?a @ '' '') = ?a @ '' ''" using word_trim_start [OF w(1)] by simp
    moreover have "blank '' ''" by code_simp
    ultimately show ?thesis
      using trim_end_text [OF w(3), of "'' ''" "i @ ''   '' @ d @ '' ''"] by (simp add: trim_def)
  qed
  moreover have "split_whitespace ?a = [i, d, t]"
    using split_whitespace_word [OF w(1)] split_whitespace_word [OF w(2)] split_whitespace_word [OF w(3)]
    by (simp add: split_whitespace_space)
  ultimately show ?thesis
    using cutU assms by (simp add: extract_junos_timestamp_def Let_def)
qed

text \<open>
  A commit and its entry in the log: the device's own line, and the lines the commit attached,
  indented by at least one space. The sink is one that keeps what it is given.
\<close>

record logged_commit =
  lc_header :: string
  lc_indent :: nat
  lc_comment :: "string option"
  lc_attribution :: attribution

definition attached_lines :: "logged_commit \<Rightarrow> string list" where
  "attached_lines c =
     snd (apply_commit_metadata (\<lambda>line ls. (Inr (), ls @ [line])) (lc_comment c) (lc_attribution c) [])"

definition commit_lines :: "logged_commit \<Rightarrow> string list" where
  "commit_lines c = lc_header c # map (\<lambda>line. replicate (Suc (lc_indent c)) (CHR '' '') @ line) (attached_lines c)"

text \<open>
  The reader takes the header for one, every attached line is one line of text, and where an agent
  is named the request identifier is well formed and its key occurs nowhere else.
\<close>

definition commit_ok :: "logged_commit \<Rightarrow> bool" where
  "commit_ok c \<longleftrightarrow>
     \<not> starts_with '' '' (lc_header c) \<and> \<not> starts_with [CHR 0x09] (lc_header c) \<and>
     starts_with_digit (lc_header c) \<and> extract_junos_timestamp (lc_header c) \<noteq> None \<and>
     list_all (\<lambda>line. CHR 0x0A \<notin> set line) (attached_lines c) \<and>
     (at_agent (lc_attribution c) \<noteq> None \<longrightarrow>
        key_free (lc_comment c) (lc_attribution c) \<and> uuid_text (at_request_id (lc_attribution c)))"

definition refs_of :: "string \<Rightarrow> logged_commit \<Rightarrow> device_commit_ref list" where
  "refs_of device c =
     (case (at_agent (lc_attribution c), extract_junos_timestamp (lc_header c)) of
        (Some _, Some t) \<Rightarrow> [\<lparr>dr_device_id = device, dr_commit_sha = t, dr_request_id = at_request_id (lc_attribution c)\<rparr>]
      | _ \<Rightarrow> [])"

lemma digit_trim_start:
  assumes "starts_with_digit s"
  shows "trim_start s = s"
proof -
  from assms obtain c r where "s = [c] @ r" "stamp_text (CHR ''0'') [c]"
    by (cases s) (auto simp: starts_with_digit_def stamp_text_def)
  then show ?thesis using word_trim_start [OF stamp_chars(1), of "CHR ''0''" "[c]" r] by simp
qed

lemma no_key_in_spaces: "\<not> sublist REQUEST_ID_KEY (replicate n (CHR '' ''))"
proof
  assume "sublist REQUEST_ID_KEY (replicate n (CHR '' ''))"
  then have "set REQUEST_ID_KEY \<subseteq> set (replicate n (CHR '' ''))" by (rule set_mono_sublist)
  then show False by (auto simp: REQUEST_ID_KEY_def split: if_splits)
qed

lemma junos_commit_step:
  assumes "commit_ok c"
  shows "js_commits (fold (junos_step device) (commit_lines c) s) = js_commits s @ refs_of device c"
proof -
  note ok = assms [unfolded commit_ok_def]
  obtain t where t: "extract_junos_timestamp (lc_header c) = Some t" using ok by blast
  have "trim_start (lc_header c) = lc_header c" using ok by (blast intro: digit_trim_start)
  then have head: "junos_step device (lc_header c) s = s\<lparr>js_timestamp := Some t, js_in_comment := False\<rparr>"
    using ok t by (simp add: junos_step_def junos_enter_def)
  show ?thesis
  proof (cases "provenance_of (lc_attribution c)")
    case None
    then show ?thesis
      using head by (simp add: commit_lines_def attached_lines_def apply_commit_metadata_def refs_of_def provenance_of_def
          split: option.splits)
  next
    case (Some p)
    then obtain g where g: "at_agent (lc_attribution c) = Some g" by (auto simp: provenance_of_def split: option.splits)
    let ?line = "replicate (Suc (lc_indent c)) (CHR '' '') @ compose_line (lc_comment c) p"
    have "?line = replicate (lc_indent c) (CHR '' '') @ '' '' @ compose_line (lc_comment c) p"
      by (simp add: replicate_append_same flip: append_assoc replicate_append_same)
    then have "request_id_in ?line = Some (at_request_id (lc_attribution c))"
      using composed_line_read [OF _ _ Some no_key_in_spaces] ok g by simp
    moreover have "junos_enter ?line u = u\<lparr>js_in_comment := True\<rparr>" for u
      by (simp add: junos_enter_def starts_with_def)
    ultimately show ?thesis
      using head t g Some
      by (simp add: commit_lines_def attached_lines_def apply_commit_metadata_def refs_of_def junos_step_def Let_def)
  qed
qed

lemma junos_log_commits:
  "list_all commit_ok cs \<Longrightarrow>
     js_commits (fold (junos_step device) (concat (map commit_lines cs)) s) = js_commits s @ concat (map (refs_of device) cs)"
  by (induction cs arbitrary: s) (simp_all add: junos_commit_step)

end
