(* ===== verification/Sample_Audit.thy ===== *)
theory Sample_Audit
  imports Recorder_Refinement Verify_Facts Device_Log_Facts
begin

text \<open>
  A concrete recorder and signer: strings rendered with JSON's escapes for the quote and the
  backslash, and short stand-ins for the digest and the signature.
\<close>

definition escape :: "char \<Rightarrow> string" where
  "escape c = (if c = CHR 0x22 \<or> c = CHR 0x5C then [CHR 0x5C, c] else [c])"

definition sample_quote :: "string \<Rightarrow> string" where
  "sample_quote s = CHR 0x22 # concat (map escape s) @ [CHR 0x22]"

lemma escape_inj:
  "concat (map escape s) @ CHR 0x22 # x = concat (map escape t) @ CHR 0x22 # y \<Longrightarrow> s = t \<and> x = y"
proof (induction s arbitrary: t)
  case Nil
  then show ?case by (cases t) (auto simp: escape_def split: if_splits)
next
  case (Cons c s)
  then show ?case by (cases t) (auto simp: escape_def split: if_splits)
qed

lemma sample_quote_delimited: "delimited sample_quote"
  unfolding delimited_def
proof (intro conjI allI impI)
  fix s t x y assume "sample_quote s @ x = sample_quote t @ y"
  then have "concat (map escape s) @ CHR 0x22 # x = concat (map escape t) @ CHR 0x22 # y"
    by (simp add: sample_quote_def)
  from escape_inj [OF this] show "s = t" "x = y" by blast+
qed (simp add: sample_quote_def)

definition sample_sha :: "string \<Rightarrow> string" where
  "sample_sha s = take 32 (rev s @ replicate 32 (CHR ''z''))"

definition sample_signer :: "(unit, unit) signer" where
  "sample_signer = \<lparr>si_verifying_key = (\<lambda>_. ()), si_sign = (\<lambda>_ m. take 64 (m @ replicate 64 (CHR ''s''))),
     si_verify = (\<lambda>_ m g. g = take 64 (m @ replicate 64 (CHR ''s''))), si_encode = (\<lambda>b. b),
     si_decode = Some, si_key_text = (\<lambda>_. ''key'')\<rparr>"

definition sample_recorder_lib :: "(unit, unit) recorder_lib" where
  "sample_recorder_lib = \<lparr>rl_quote = sample_quote, rl_sha256 = sample_sha, rl_signer = sample_signer\<rparr>"

definition sample_recorder_config :: "unit recorder_config" where
  "sample_recorder_config = \<lparr>rg_server_id = ''srv'', rg_run_id = ''run'', rg_resume_from = None,
     rg_records_per_segment = 10, rg_signing_key = Some (), rg_has_spool = True\<rparr>"

lemma sample_signer_laws: "signer_laws sample_recorder_lib"
  by (auto simp: signer_laws_def sample_recorder_lib_def sample_signer_def sample_sha_def)

abbreviation sample_intent :: evidence_record where
  "sample_intent \<equiv> ApplyIntentRecord (blank_body ''req'' ''cs'' ''dev'' ''alice'' ''d'' ''now'')"

definition sample_recorded :: recorder where
  "sample_recorded = record_evidence sample_recorder_lib sample_recorder_config sample_intent
     (record_evidence sample_recorder_lib sample_recorder_config sample_intent (new_recorder sample_recorder_config))"

definition sample_claimed :: "closed_segment list \<times> recorder" where
  "sample_claimed = claim_pending sample_recorder_lib sample_recorder_config sample_recorded"

definition sample_written :: recorder where
  "sample_written = accept_segment (hd (fst sample_claimed)) (count_call (snd sample_claimed))"

lemma sample_limit [simp]: "rg_records_per_segment sample_recorder_config = 10"
  by (simp add: sample_recorder_config_def)

lemma small_append:
  assumes "unsealed r" "metadata_shallow r" "length (sg_records (rc_current s)) + 1 < rg_records_per_segment C"
  shows "\<exists>h. record_evidence L C r s = s\<lparr>rc_current := (rc_current s)\<lparr>sg_records := sg_records (rc_current s) @
    [seal (rc_current s) r], sg_last_hash := Some h\<rparr>\<rparr>"
proof -
  obtain h seg where a: "append_record (rl_quote L) (rl_sha256 L) (rc_current s) r = Inr (h, seg)"
    using unsealed_appends [OF assms(1,2)] by blast
  from append_record_Inr(1) [OF a] show ?thesis
    using a assms(3) by (intro exI [of _ h]) (simp add: record_evidence_def Let_def)
qed

lemma sample_recorded_fields:
  "length (sg_records (rc_current sample_recorded)) = 2" "rc_closed sample_recorded = []"
  "rc_outbox sample_recorded = []" "list_all record_ok (sg_records (rc_current sample_recorded))"
proof -
  let ?R = "record_evidence sample_recorder_lib sample_recorder_config sample_intent"
  have r: "unsealed sample_intent" "metadata_shallow sample_intent"
    by (simp_all add: unsealed_def metadata_shallow_def)
  obtain h where 1: "?R (new_recorder sample_recorder_config) = (new_recorder sample_recorder_config)\<lparr>rc_current :=
      (rc_current (new_recorder sample_recorder_config))\<lparr>sg_records :=
        [seal (rc_current (new_recorder sample_recorder_config)) sample_intent], sg_last_hash := Some h\<rparr>\<rparr>"
    using small_append [OF r, of "new_recorder sample_recorder_config" sample_recorder_config sample_recorder_lib]
    by (auto simp: new_recorder_def new_segment_def)
  obtain h' where 2: "sample_recorded = (?R (new_recorder sample_recorder_config))\<lparr>rc_current :=
      (rc_current (?R (new_recorder sample_recorder_config)))\<lparr>sg_records :=
        sg_records (rc_current (?R (new_recorder sample_recorder_config))) @
          [seal (rc_current (?R (new_recorder sample_recorder_config))) sample_intent], sg_last_hash := Some h'\<rparr>\<rparr>"
    using small_append [OF r, of "?R (new_recorder sample_recorder_config)" sample_recorder_config sample_recorder_lib]
    by (auto simp: sample_recorded_def 1)
  show "length (sg_records (rc_current sample_recorded)) = 2" "rc_closed sample_recorded = []"
    "rc_outbox sample_recorded = []" "list_all record_ok (sg_records (rc_current sample_recorded))"
    unfolding 2 unfolding 1 by (simp_all add: new_recorder_def record_ok_def)
qed

lemma sample_one_pending:
  "fst sample_claimed = [hd (fst sample_claimed)]"
  "cl_records (hd (fst sample_claimed)) = sg_records (rc_current sample_recorded)"
  using sample_recorded_fields
  by (auto simp: sample_claimed_def claim_pending_def take_closed_def roll_def Let_def)

lemma sample_appends:
  "run (recorder_step sample_recorder_lib sample_recorder_config) (new_recorder sample_recorder_config, None)
     [RAppend sample_intent, RAppend sample_intent] (sample_recorded, None)"
  unfolding sample_recorded_def by (rule run_cons, rule step_append, rule run_cons, rule step_append, rule run_nil)

lemma sample_flush_claim:
  "recorder_step sample_recorder_lib sample_recorder_config (sample_recorded, None) RClaim
     (snd sample_claimed, Some [hd (fst sample_claimed)])"
proof (rule step_claim)
  show "rg_has_spool sample_recorder_config" by (simp add: sample_recorder_config_def)
  show "claim_pending sample_recorder_lib sample_recorder_config sample_recorded =
      ([hd (fst sample_claimed)], snd sample_claimed)"
    using sample_one_pending(1) by (simp add: sample_claimed_def prod_eq_iff)
qed

lemma sample_spooled:
  "recorder_step sample_recorder_lib sample_recorder_config
     (snd sample_claimed, Some [hd (fst sample_claimed)]) RSpooled (sample_written, Some [])"
  unfolding sample_written_def by (rule step_spooled)

lemma sample_flush_run:
  "run (recorder_step sample_recorder_lib sample_recorder_config) (new_recorder sample_recorder_config, None)
     ([RAppend sample_intent, RAppend sample_intent] @ [RClaim, RSpooled]) (sample_written, Some [])"
  by (rule run_append [OF sample_appends], rule run_cons, rule sample_flush_claim, rule run_cons, rule sample_spooled,
      rule run_nil)

definition sample_commit :: logged_commit where
  "sample_commit = \<lparr>lc_header = ''0   2026-08-12 18:36:55 UTC by netconf via netconf'', lc_indent = 3,
     lc_comment = Some '' CHG001 '', lc_attribution = with_client_name ''cli'' (stdio_attribution ''550e8400-e29b'')\<rparr>"

definition sample_server :: server_manifest where
  "sample_server = \<lparr>vm_server_id = ''srv'', vm_segments = map manifest_entry (rc_outbox sample_written)\<rparr>"

definition sample_manifest :: run_manifest where
  "sample_manifest = \<lparr>rm_run_id = ''run'', rm_cutoff = ''now'', rm_servers = [sample_server]\<rparr>"

definition sample_files :: "unit audit_files" where
  "sample_files = \<lparr>af_manifest = Inr sample_manifest,
     af_chain = (\<lambda>_. Some (Inr (rc_outbox sample_written))), af_pubkeys = Inr [(''srv'', ())],
     af_signature = (\<lambda>_ _. None), af_device_log = None\<rparr>"

lemma sample_produced: "produced sample_recorder_lib sample_recorder_config (rc_outbox sample_written)"
proof -
  have "recorder_inv sample_recorder_lib sample_recorder_config (sample_written, Some [])"
    using recorder_run.run_inv [OF sample_flush_run recorder_inv_new] .
  then show ?thesis by (auto simp: recorder_inv_def chain_inv_def segs_of_def intro: produced_prefix)
qed

lemma sample_outbox:
  "rc_outbox sample_written = [hd (fst sample_claimed)]" "list_all record_ok (records_in (rc_outbox sample_written))"
  "length (records_in (rc_outbox sample_written)) = 2"
proof -
  have "claim_pending sample_recorder_lib sample_recorder_config sample_recorded = (fst sample_claimed, snd sample_claimed)"
    by (simp add: sample_claimed_def)
  from claim_pending_outbox [OF this] show 1: "rc_outbox sample_written = [hd (fst sample_claimed)]"
    by (simp add: sample_written_def sample_recorded_fields)
  show "list_all record_ok (records_in (rc_outbox sample_written))"
    "length (records_in (rc_outbox sample_written)) = 2"
    by (simp_all add: 1 records_in_def sample_one_pending(2) sample_recorded_fields)
qed

lemma sample_verifies:
  "verify_run sample_recorder_lib sample_files ''run'' None = Inr (pass 1 2)"
proof -
  have v: "validate_server_id (rg_server_id sample_recorder_config) = Inr ()" by code_simp
  have f: "filter (\<lambda>g. cl_run_id g = rg_run_id sample_recorder_config) (rc_outbox sample_written) = rc_outbox sample_written"
    using sample_produced by (simp add: produced_def)
  from produced_run_verifies [OF sample_signer_laws sample_produced _ v, of "()" sample_files "''now''" _ None] f
  show ?thesis
    by (simp add: sample_files_def sample_manifest_def sample_server_def sample_recorder_config_def sample_recorder_lib_def
        sample_signer_def sample_outbox(3)) (simp add: sample_outbox(1))
qed

end
