(* ===== verification/Audit_Properties.thy ===== *)
theory Audit_Properties
  imports Sample_Audit Sample_System
begin

text \<open>
  The claims about the evidence: what the verifier's verdict means for the history the recorder
  kept, that the recorder's files pass, what a flush that succeeded guarantees under interleaving,
  that the recorder implements the evidence trail the coordinator relies on, and that a request
  identifier survives the way through a device's commit log.
\<close>

section \<open>Shared facts\<close>

lemma outbox_produced:
  assumes "run (recorder_step L C) (new_recorder C, None) ls (s, fl)"
  shows "produced L C (rc_outbox s)"
  using recorder_run.run_inv [OF assms recorder_inv_new]
  by (auto simp: recorder_inv_def chain_inv_def segs_of_def intro: produced_prefix)

lemma load_chain_set: "load_chain_segments run_id written = Inr segs \<Longrightarrow> set segs \<subseteq> set written"
  by (auto simp: load_chain_segments_def Let_def split: option.splits)

lemma record_ok_enveloped:
  "list_all record_ok (cl_records seg) \<Longrightarrow> list_all record_ok (enveloped seg)"
  by (auto simp: enveloped_def list_all_iff record_ok_def in_envelope_def)

lemma produced_hash:
  assumes "produced L C segs" "segs \<noteq> []"
  shows "hash_chain (rl_quote L) (rl_sha256 L) (chain_start C) (records_in segs) = Some (cl_head_hash (last segs))"
proof -
  have "concat (map enveloped segs) = records_in segs"
    unfolding records_in_def
    by (rule arg_cong [of _ _ concat], rule map_cong) (use assms(1) in \<open>auto simp: produced_def enveloped_own\<close>)
  moreover have "linked (chain_start C) segs" "\<forall>seg\<in>set segs. verify_segment_records L seg = Inr ()"
    using assms(1) by (auto simp: produced_def segment_ok_verifies)
  ultimately show ?thesis
    using linked_hash_chain [of "chain_start C" segs L] assms(2) by (simp add: head_after_def)
qed

lemma chain_to_origin:
  "hash_chain quote sha p zs = Some [] \<Longrightarrow> zs = [] \<and> p = []"
  using hash_chain_digest [of quote sha p zs "[]"] by (cases "zs = []") auto

lemma chains_agree:
  assumes "delimited quote" "list_all record_ok kept" "list_all record_ok verified"
    and "hash_chain quote sha p kept = Some h" "hash_chain quote sha q verified = Some h" "p = []"
  shows "\<exists>zs. chains_collide quote sha p kept q verified \<or>
    content kept = zs @ content verified \<and> (q = p \<longrightarrow> zs = [])"
proof -
  consider (collide) "chains_collide quote sha p kept q verified"
    | (kept) zs where "content kept = content (zs @ verified)" "hash_chain quote sha p zs = Some q"
    | (more) zs where "content verified = content (zs @ kept)" "hash_chain quote sha q zs = Some p"
    using hash_chain_binds [OF assms(1-5)] by blast
  then show ?thesis
  proof cases
    case kept
    have "q = p \<longrightarrow> zs = []" using kept(2) assms(6) chain_to_origin [of quote sha p zs] by auto
    then show ?thesis using kept(1) by (intro exI [of _ "content zs"]) (auto simp: content_def)
  next
    case more
    then have "zs = []" using assms(6) chain_to_origin by auto
    then show ?thesis using more(1) by auto
  qed blast
qed

section \<open>Claims\<close>

text \<open>
  C8. A run that passes verification against a manifest whose entry names the head of a segment the
  recorder wrote gives back the recorder's own history: the records of the chain file up to that
  segment, as the verifier hashes them, are the last records the recorder wrote up to that head,
  unless two of the texts hashed along the two chains collide under SHA-256. Nothing can be
  altered, inserted or reordered; what may be missing is a front part, and not even that when the
  first segment starts at the chain's origin.
\<close>

theorem verified_chain_is_recorded:
  assumes "delimited (rl_quote L)"
    and recorded: "run (recorder_step L C) (new_recorder C, None) ls (s, fl)" "rg_resume_from C = None"
    and passed: "verify_run L F run_id device_id = Inr R" "vr_passed R"
    and manifest: "af_manifest F = Inr M" "vm \<in> set (rm_servers M)" "gm \<in> set (vm_segments vm)"
    and head: "rc_outbox s = before @ h # after" "gm_head_hash gm = cl_head_hash h"
    and numbers: "list_all record_ok (records_in (rc_outbox s))"
      "\<forall>written. af_chain F (vm_server_id vm) = Some (Inr written) \<longrightarrow>
        (\<forall>seg\<in>set written. list_all record_ok (cl_records seg))"
  shows "\<exists>segs seg later zs. server_chain_ok L F run_id vm (segs @ seg # later) \<and>
    cl_segment_seq seg = gm_segment_seq gm \<and>
    (let kept = records_in (before @ [h]); verified = concat (map enveloped (segs @ [seg]));
         origin = chain_origin (segs @ [seg]) in
     chains_collide (rl_quote L) (rl_sha256 L) (chain_start C) kept origin verified \<or>
     content kept = zs @ content verified \<and> (origin = chain_start C \<longrightarrow> zs = []))"
proof -
  obtain all where all: "server_chain_ok L F run_id vm all" using passed_run [OF passed manifest(1,2)] by blast
  then obtain seg where seg: "seg \<in> set all" "cl_segment_seq seg = gm_segment_seq gm" "cl_head_hash seg = cl_head_hash h"
    using manifest(3) head(2) by (auto simp: server_chain_ok_def)
  then obtain segs later where split: "all = segs @ seg # later" by (meson split_list)
  define verified where "verified = concat (map enveloped (segs @ [seg]))"
  define kept where "kept = records_in (before @ [h])"
  define origin where "origin = chain_origin (segs @ [seg])"
  have "chain_ok L (segs @ [seg])"
    using all split chain_ok_prefix [of L "segs @ [seg]" later] by (simp add: server_chain_ok_def)
  from chain_ok_hash [OF this] have v: "hash_chain (rl_quote L) (rl_sha256 L) origin verified = Some (cl_head_hash h)"
    by (simp add: verified_def origin_def seg(3))
  have "produced L C (before @ [h])"
    using outbox_produced [OF recorded(1)] head(1) produced_prefix [of L C "before @ [h]" after] by simp
  from produced_hash [OF this] have k: "hash_chain (rl_quote L) (rl_sha256 L) (chain_start C) kept = Some (cl_head_hash h)"
    by (simp add: kept_def)
  obtain written where w: "af_chain F (vm_server_id vm) = Some (Inr written)" "set all \<subseteq> set written"
    using all load_chain_set unfolding server_chain_ok_def by blast
  have "list_all record_ok (enveloped g)" if "g \<in> set (segs @ [seg])" for g
    by (rule record_ok_enveloped) (use that w split numbers(2) in auto)
  then have "list_all record_ok verified" by (auto simp: verified_def list_all_iff)
  moreover have "list_all record_ok kept" using numbers(1) head(1) by (simp add: kept_def records_in_def)
  ultimately have "\<exists>zs. chains_collide (rl_quote L) (rl_sha256 L) (chain_start C) kept origin verified \<or>
      content kept = zs @ content verified \<and> (origin = chain_start C \<longrightarrow> zs = [])"
    by (intro chains_agree [OF assms(1) _ _ k v]) (simp_all add: recorded(2) chain_start_def SSDF_CHAIN_START_def)
  then show ?thesis using all split seg(2) by (auto simp: verified_def kept_def origin_def Let_def)
qed

theorem verified_chain_is_recorded_witness:
  "\<exists>segs seg later zs. server_chain_ok sample_recorder_lib sample_files ''run'' sample_server (segs @ seg # later) \<and>
    cl_segment_seq seg = gm_segment_seq (manifest_entry (hd (fst sample_claimed))) \<and>
    (let kept = records_in ([] @ [hd (fst sample_claimed)]); verified = concat (map enveloped (segs @ [seg]));
         origin = chain_origin (segs @ [seg]) in
     chains_collide (rl_quote sample_recorder_lib) (rl_sha256 sample_recorder_lib) (chain_start sample_recorder_config)
       kept origin verified \<or>
     content kept = zs @ content verified \<and> (origin = chain_start sample_recorder_config \<longrightarrow> zs = []))"
proof (rule verified_chain_is_recorded [OF _ sample_flush_run _ sample_verifies, where after = "[]" and M = sample_manifest])
  show "delimited (rl_quote sample_recorder_lib)" by (simp add: sample_recorder_lib_def sample_quote_delimited)
  show "\<forall>written. af_chain sample_files (vm_server_id sample_server) = Some (Inr written) \<longrightarrow>
      (\<forall>seg\<in>set written. list_all record_ok (cl_records seg))"
    using sample_outbox(2) by (auto simp: sample_files_def records_in_def list_all_iff)
  show "list_all record_ok (records_in (rc_outbox sample_written))" by (rule sample_outbox(2))
  show "manifest_entry (hd (fst sample_claimed)) \<in> set (vm_segments sample_server)"
    by (simp add: sample_server_def sample_outbox(1))
  show "rc_outbox sample_written = [] @ hd (fst sample_claimed) # []" by (simp add: sample_outbox(1))
qed (simp_all add: sample_recorder_config_def pass_def sample_files_def sample_manifest_def manifest_entry_def)

text \<open>
  C9. What the recorder writes passes verification. After any interleaving of appends and flushes,
  with the segments the spool accepted in the server's chain file (among segments of other runs),
  a manifest that lists their numbers and heads, and the public half of the recorder's key, the
  verifier reports no violation and counts every segment and every record.
\<close>

theorem recorded_run_verifies:
  assumes "signer_laws L"
    and "run (recorder_step L C) (new_recorder C, None) ls (s, fl)" "rg_signing_key C = Some key"
    and "validate_server_id (rg_server_id C) = Inr ()"
    and "af_manifest F = Inr \<lparr>rm_run_id = rg_run_id C, rm_cutoff = cutoff, rm_servers =
      [\<lparr>vm_server_id = rg_server_id C, vm_segments = map manifest_entry (rc_outbox s)\<rparr>]\<rparr>"
    and "af_chain F (rg_server_id C) = Some (Inr written)"
      "filter (\<lambda>g. cl_run_id g = rg_run_id C) written = rc_outbox s"
    and "af_pubkeys F = Inr [(rg_server_id C, si_verifying_key (rl_signer L) key)]" "af_device_log F = None"
  shows "verify_run L F (rg_run_id C) device_id =
    Inr (pass (length (rc_outbox s)) (length (records_in (rc_outbox s))))"
  by (rule produced_run_verifies [OF assms(1) outbox_produced [OF assms(2)] assms(3-9)])

theorem recorded_run_verifies_witness:
  "verify_run sample_recorder_lib sample_files (rg_run_id sample_recorder_config) None =
    Inr (pass (length (rc_outbox sample_written)) (length (records_in (rc_outbox sample_written))))"
proof (rule recorded_run_verifies [OF sample_signer_laws sample_flush_run, where cutoff = "''now''"])
  show "validate_server_id (rg_server_id sample_recorder_config) = Inr ()" by code_simp
  show "filter (\<lambda>g. cl_run_id g = rg_run_id sample_recorder_config) (rc_outbox sample_written) = rc_outbox sample_written"
    using sample_produced by (simp add: produced_def)
  show "rg_signing_key sample_recorder_config = Some ()" by (simp add: sample_recorder_config_def)
qed (simp_all add: sample_files_def sample_manifest_def sample_server_def sample_recorder_config_def)

text \<open>
  C10. A flush that ends without a refusal has made durable everything recorded before it began: the
  records in the spool's outbox start with the whole history at the time of the claim, whatever
  other threads append while the flusher hands its segments over. No other thread takes closed
  segments meanwhile.
\<close>

theorem flushed_records_are_written:
  assumes "run (recorder_step L C) (new_recorder C, None) ls (s, None)"
    and "recorder_step L C (s, None) RClaim x"
    and "run (recorder_step L C) x ms (s', Some [])" "\<forall>l\<in>set ms. \<forall>e. l \<noteq> RRefused e"
    and "recorder_step L C (s', Some []) RFlushed (s'', None)"
  shows "prefix (history (s, None)) (records_in (rc_outbox s''))"
proof -
  from assms(2) obtain pending t where x: "claim_pending L C s = (pending, t)" "x = (t, Some pending)"
    by (cases rule: recorder_step.cases) auto
  have inv: "recorder_inv L C (s, None)" using recorder_run.run_inv [OF assms(1) recorder_inv_new] .
  then have "chain_inv L C (rc_outbox s @ rc_closed s) s" by (simp add: recorder_inv_def segs_of_def)
  note cp = claim_pending_inv [OF this x(1)]
  have "claimed_prefix (history (s, None)) x"
    using cp(3-5) by (simp add: claimed_prefix_def x(2) history_def segs_of_def all_records_def records_in_def)
  moreover have "recorder_inv L C x" using inv assms(2) recorder_step_inv by blast
  ultimately have "claimed_prefix (history (s, None)) (s', Some [])"
    using recorder_run.run_ginv [OF assms(3)] assms(4) by (auto split: recorder_label.splits)
  moreover have "s'' = s'" using assms(5) by (cases rule: recorder_step.cases) auto
  ultimately show ?thesis by (simp add: claimed_prefix_def)
qed

theorem flushed_records_are_written_witness:
  "prefix (history (sample_recorded, None)) (records_in (rc_outbox sample_written))"
proof (rule flushed_records_are_written [OF sample_appends sample_flush_claim, where ms = "[RSpooled]"])
  show "run (recorder_step sample_recorder_lib sample_recorder_config)
      (snd sample_claimed, Some [hd (fst sample_claimed)]) [RSpooled] (sample_written, Some [])"
    by (rule run_cons, rule sample_spooled, rule run_nil)
  show "recorder_step sample_recorder_lib sample_recorder_config (sample_written, Some []) RFlushed (sample_written, None)"
    by (rule step_flushed)
qed simp

text \<open>
  C11. The recorder implements the evidence the coordinator waits for before it commits. From related
  states, recording an apply intent and flushing it returns success exactly when the coordinator's
  own step, appending the intent to the trail and flushing, returns true for some answer of the
  spool; afterwards the trail is again what the recorder holds, record for record, and its durable
  part is exactly what the spool accepted.
\<close>

theorem intent_recording_refines:
  fixes K :: coordinator
  assumes "idle L C s" "recorder_rel x s" "rg_has_spool C = has_spool K"
    and "rec_apply_intent L C spool t rq c d p s = (r, s')"
  shows "idle L C s' \<and> (\<exists>a. \<forall>E :: 'z env_scheme. spool_at E (tick x) = a \<longrightarrow>
    (\<exists>x'. bnd (append_evidence (EvApplyIntent rq c d p)) (\<lambda>_. flush_evidence E K) x = (Inr (r = Inr ()), x') \<and>
       recorder_rel x' s'))"
  by (rule intent_refines [OF assms])

lemma new_recorder_idle: "idle L C (new_recorder C)"
  using recorder_inv_new by (simp add: new_recorder_def)

theorem intent_recording_refines_witness:
  "\<exists>r s'. rec_apply_intent sample_recorder_lib sample_recorder_config (\<lambda>_. None) ''now'' ''req'' ''cs'' ''dev'' ''alice''
      (new_recorder sample_recorder_config) = (r, s') \<and>
    (\<exists>a. \<forall>E :: unit env_scheme. spool_at E (tick sample_sys) = a \<longrightarrow>
      (\<exists>x'. bnd (append_evidence (EvApplyIntent ''req'' ''cs'' ''dev'' ''alice'')) (\<lambda>_. flush_evidence E sample_coordinator)
         sample_sys = (Inr (r = Inr ()), x') \<and> recorder_rel x' s'))"
proof -
  obtain r s' where rs: "rec_apply_intent sample_recorder_lib sample_recorder_config (\<lambda>_. None) ''now'' ''req'' ''cs''
      ''dev'' ''alice'' (new_recorder sample_recorder_config) = (r, s')"
    by (cases "rec_apply_intent sample_recorder_lib sample_recorder_config (\<lambda>_. None) ''now'' ''req'' ''cs''
      ''dev'' ''alice'' (new_recorder sample_recorder_config)")
  have rel: "recorder_rel sample_sys (new_recorder sample_recorder_config)"
    by (simp add: recorder_rel_def sample_sys_def new_recorder_def new_segment_def history_def segs_of_def
        all_records_def records_in_def)
  have "rg_has_spool sample_recorder_config = has_spool sample_coordinator"
    by (simp add: sample_recorder_config_def sample_coordinator_def)
  from intent_recording_refines [OF new_recorder_idle rel this rs, where 'z = unit]
  show ?thesis using rs by (intro exI [of _ r] exI [of _ s'] conjI) simp_all
qed

text \<open>
  C39. The request identifier that a commit attaches is the one the audit join reads. Take a native
  log in which each entry is a line the reader takes for an entry, followed by the line that
  \<open>apply_commit_metadata\<close> gave to the sink, indented by one or more spaces. If that line holds no
  line break, the request identifier is made of the characters of a UUID, and neither the operator's comment nor the provenance text contains the key
  \<open>request.id=\<close>, then the log parses back to one reference per commit that names an agent, in order,
  with the device, the time of the entry and the request of the commit; a commit that names no
  agent leaves no reference.
\<close>

theorem provenance_read_back:
  assumes "list_all commit_ok cs"
  shows "parse_junos_native_log (concat (map commit_lines cs)) device = concat (map (refs_of device) cs)"
  using junos_log_commits [OF assms] by (simp add: parse_junos_native_log_def)

theorem provenance_read_back_witness:
  "parse_junos_native_log (concat (map commit_lines [sample_commit])) ''vsrx'' =
    [\<lparr>dr_device_id = ''vsrx'', dr_commit_sha = ''2026-08-12T18:36:55Z'', dr_request_id = ''550e8400-e29b''\<rparr>]"
proof -
  have "list_all commit_ok [sample_commit]" by code_simp
  moreover have "concat (map (refs_of ''vsrx'') [sample_commit]) =
    [\<lparr>dr_device_id = ''vsrx'', dr_commit_sha = ''2026-08-12T18:36:55Z'', dr_request_id = ''550e8400-e29b''\<rparr>]"
    by code_simp
  ultimately show ?thesis using provenance_read_back [of "[sample_commit]" "''vsrx''"] by simp
qed

text \<open>
  Records can be dropped from the front of a chain without the verifier noticing. Take the files
  of a run of one server that passes, remove the first record of the first segment and give the
  segment that record's hash as its previous hash: the same manifest, keys and signatures still
  pass, one record fewer being counted. The verifier checks neither where the first segment starts
  nor the number of records the manifest names for a segment.
\<close>

theorem front_truncation_passes:
  assumes "af_manifest F = Inr M" "rm_run_id M = run_id" "rm_servers M = [vm]"
    and "validate_server_id (vm_server_id vm) = Inr ()" "af_device_log F = None"
    and "af_chain F (vm_server_id vm) = Some (Inr (seg # segs))"
      "load_chain_segments run_id (seg # segs) = Inr (seg # segs)"
    and "matches_manifest (vm_segments vm) (seg # segs)" "chain_ok L (seg # segs)"
      "keys_accept L F (vm_server_id vm) (seg # segs)"
    and "cl_records seg = r # rs"
    and F': "F' = F\<lparr>af_chain := (af_chain F)(vm_server_id vm := Some (Inr (drop_first L seg # segs)))\<rparr>"
  shows "verify_run L F run_id device_id = Inr (pass (1 + length segs) (1 + length (rs @ records_in segs))) \<and>
    verify_run L F' run_id device_id = Inr (pass (1 + length segs) (length (rs @ records_in segs)))"
proof
  show "verify_run L F run_id device_id = Inr (pass (1 + length segs) (1 + length (rs @ records_in segs)))"
    using verify_run_single [OF assms(1-4,6-10,5)] assms(11) by (simp add: records_in_def)
  have m: "matches_manifest (vm_segments vm) (drop_first L seg # segs)"
    using assms(8) by (auto simp: matches_manifest_def list_all2_Cons2)
  have sigs: "check_signatures L F' (vm_server_id vm) key (drop_first L seg # segs) =
      check_signatures L F (vm_server_id vm) key (seg # segs)" for key
  proof -
    have one: "check_signature L F' server key g = check_signature L F server key g" for server g
    proof -
      have "segment_signature F' server g = segment_signature F server g"
        by (cases "cl_signature g") (simp_all add: segment_signature_def F')
      then show ?thesis by (simp only: check_signature_def)
    qed
    have "check_signatures L F' server key gs = check_signatures L F server key gs" for server gs
      by (induction gs) (simp_all add: one)
    then show ?thesis by (simp add: one drop_first_signature)
  qed
  have k: "keys_accept L F' (vm_server_id vm) (drop_first L seg # segs)"
    using assms(10) sigs by (simp add: keys_accept_def F' split: sum.splits option.splits del: check_signatures.simps)
  have "verify_segment_records L seg = Inr ()" using assms(9) by (simp add: chain_ok_def check_records_nil)
  then have "cl_records (drop_first L seg) = rs" using drop_first_verifies(2) [of L seg] assms(11) by simp
  then show "verify_run L F' run_id device_id = Inr (pass (1 + length segs) (length (rs @ records_in segs)))"
    using verify_run_single [of F' M run_id vm "drop_first L seg # segs" "drop_first L seg # segs" L device_id]
      assms(1-5) drop_first_loads [OF assms(7), of L] m drop_first_chain [OF assms(9)] k
    by (simp add: F' records_in_def)
qed

theorem front_truncation_passes_witness:
  "\<exists>F'. verify_run sample_recorder_lib sample_files ''run'' None = Inr (pass 1 2) \<and>
     verify_run sample_recorder_lib F' ''run'' None = Inr (pass 1 1)"
proof -
  let ?seg = "hd (fst sample_claimed)"
  obtain r r' where rs: "cl_records ?seg = [r, r']"
    using sample_outbox(1,3) by (auto simp: records_in_def length_Suc_conv numeral_2_eq_2)
  have c: "rg_run_id sample_recorder_config = ''run''" by (simp add: sample_recorder_config_def)
  have p: "produced sample_recorder_lib sample_recorder_config [?seg]" using sample_produced by (simp add: sample_outbox(1))
  have "verify_run sample_recorder_lib sample_files ''run'' None = Inr (pass (1 + length ([] :: closed_segment list)) (1 + length ([r'] @ records_in []))) \<and>
    verify_run sample_recorder_lib (sample_files\<lparr>af_chain := (af_chain sample_files)(vm_server_id sample_server :=
        Some (Inr (drop_first sample_recorder_lib ?seg # [])))\<rparr>) ''run'' None =
      Inr (pass (1 + length ([] :: closed_segment list)) (length ([r'] @ records_in [])))"
  proof (rule front_truncation_passes [where M = sample_manifest and vm = sample_server])
    show "load_chain_segments ''run'' [?seg] = Inr [?seg]"
      using load_produced [OF p, of "''run''" "[?seg]"] p c by (simp add: produced_def)
    show "matches_manifest (vm_segments sample_server) [?seg]"
      using produced_matches [OF p] by (simp add: sample_server_def sample_outbox(1))
    show "keys_accept sample_recorder_lib sample_files (vm_server_id sample_server) [?seg]"
      using produced_signature [OF sample_signer_laws p, of "()"]
      by (simp add: keys_accept_def sample_files_def sample_recorder_config_def)
    show "validate_server_id (vm_server_id sample_server) = Inr ()"
      by (simp add: sample_server_def) code_simp
  qed (simp_all add: sample_manifest_def sample_files_def rs produced_chain_ok [OF p] sample_outbox(1))
  then show ?thesis by (auto simp: records_in_def numeral_2_eq_2)
qed

end
