(* ===== verification/Command_Policy.thy ===== *)
theory Command_Policy
  imports Text_Ops
begin

text \<open>
  \<open>crates/mecmcp-policy/src/lib.rs\<close>: the fail-closed allowlist and the fail-open blocklist for
  commands, and the blocklist for configuration text. Compiling a glob is third-party code
  (\<open>globset\<close>): a compiled pattern is the set of texts it matches, and compiling may fail. The
  per-device rules of a domain are an association list with distinct keys.
\<close>

section \<open>Rules\<close>

datatype rule_source = Defaults | Device

fun rule_source_str :: "rule_source \<Rightarrow> string" where
  "rule_source_str Defaults = ''defaults''"
| "rule_source_str Device = ''device''"

record 'a compiled_rule =
  cr_pattern :: string
  cr_action :: 'a
  cr_source :: rule_source
  cr_matcher :: "string \<Rightarrow> bool"
  cr_specificity :: "nat \<times> nat"

text \<open>A byte that continues a UTF-8 character; the others start one.\<close>

definition continuation :: "char \<Rightarrow> bool" where
  "continuation c \<longleftrightarrow> 128 \<le> byte c \<and> byte c < 192"

fun count_literals :: "bool \<Rightarrow> string \<Rightarrow> nat" where
  "count_literals in_class [] = 0"
| "count_literals True (c # s) = count_literals (c \<noteq> CHR '']'') s"
| "count_literals False (c # s) =
     (if c = CHR ''*'' \<or> c = CHR ''?'' then count_literals False s
      else if c = CHR ''['' then count_literals True s
      else if c = CHR 0x5C then (case s of [] \<Rightarrow> 0 | _ # s' \<Rightarrow> 1 + count_literals False s')
      else if continuation c then count_literals False s
      else 1 + count_literals False s)"

definition count_literal_chars :: "string \<Rightarrow> nat" where
  "count_literal_chars pattern = count_literals False pattern"

fun compile_rules ::
  "(string \<Rightarrow> 'g + (string \<Rightarrow> bool)) \<Rightarrow> ('a \<times> string) list \<Rightarrow> string \<Rightarrow> rule_source \<Rightarrow>
   (string \<Rightarrow> string \<Rightarrow> 'g \<Rightarrow> 'e) \<Rightarrow> 'e + 'a compiled_rule list" where
  "compile_rules glob [] scope source error_builder = Inr []"
| "compile_rules glob ((action, pattern) # rules) scope source error_builder =
     res_bind (map_err (error_builder scope pattern) (glob pattern)) (\<lambda>matcher.
     res_bind (compile_rules glob rules scope source error_builder) (\<lambda>compiled.
     Inr (\<lparr>cr_pattern = pattern, cr_action = action, cr_source = source, cr_matcher = matcher,
           cr_specificity = (count_literal_chars pattern, length pattern)\<rparr> # compiled)))"

section \<open>Allowlists\<close>

datatype command_mode = AllowlistMode | BlocklistMode

definition default_command_mode :: command_mode where
  "default_command_mode = AllowlistMode"

datatype allowlist_deny_reason = NotAllowlisted | PipeNotAllowlisted | ForbiddenMetachar

fun deny_reason_str :: "allowlist_deny_reason \<Rightarrow> string" where
  "deny_reason_str NotAllowlisted = ''not_allowlisted''"
| "deny_reason_str PipeNotAllowlisted = ''pipe_not_allowlisted''"
| "deny_reason_str ForbiddenMetachar = ''forbidden_metachar''"

type_synonym allowlist_entry = "string list"

datatype allowlist_entry_error = GlobMetachar char | EmptyEntry

definition glob_metachar :: "char \<Rightarrow> bool" where
  "glob_metachar c \<longleftrightarrow> c = CHR ''*'' \<or> c = CHR ''?'' \<or> c = CHR ''[''"

fun compile_allowlist_entries ::
  "string list \<Rightarrow> string \<Rightarrow> (string \<Rightarrow> string \<Rightarrow> allowlist_entry_error \<Rightarrow> 'e) \<Rightarrow> 'e + allowlist_entry list" where
  "compile_allowlist_entries [] scope error_builder = Inr []"
| "compile_allowlist_entries (entry # entries) scope error_builder =
     (case find glob_metachar entry of
        Some c \<Rightarrow> Inl (error_builder scope entry (GlobMetachar c))
      | None \<Rightarrow>
          (let tokens = split_whitespace entry in
           if tokens = [] then Inl (error_builder scope entry EmptyEntry)
           else res_bind (compile_allowlist_entries entries scope error_builder) (\<lambda>es. Inr (tokens # es))))"

record command_allowlist =
  al_entries :: "allowlist_entry list"
  al_allowed_pipes :: "allowlist_entry list"

definition forbidden_char :: "char \<Rightarrow> bool" where
  "forbidden_char c \<longleftrightarrow> c = CHR '';'' \<or> c = CHR ''>'' \<or> c = CHR ''<'' \<or> c = CHR 0x60 \<or> c = CHR 0x0A \<or> c = CHR 0x0D"

definition contains_forbidden_metachar :: "string \<Rightarrow> bool" where
  "contains_forbidden_metachar raw \<longleftrightarrow> list_ex forbidden_char raw"

definition is_token_prefix :: "allowlist_entry \<Rightarrow> string list \<Rightarrow> bool" where
  "is_token_prefix entry input_tokens \<longleftrightarrow> length entry \<le> length input_tokens \<and>
     list_all (\<lambda>(a, b). a = b) (zip entry input_tokens)"

definition matches_any_entry :: "allowlist_entry list \<Rightarrow> string list \<Rightarrow> bool" where
  "matches_any_entry entries input_tokens \<longleftrightarrow> list_ex (\<lambda>e. is_token_prefix e input_tokens) entries"

text \<open>\<open>normalize_input\<close>: a run of white space becomes one space.\<close>

function collapse :: "bool \<Rightarrow> string \<Rightarrow> string" where
  "collapse last_was_ws s =
     (if s = [] then []
      else if ws_width s \<noteq> 0
      then if last_was_ws then collapse True (drop (ws_width s) s) else CHR '' '' # collapse True (drop (ws_width s) s)
      else hd s # collapse False (tl s))"
  by pat_completeness auto
termination
  by (relation "measure (\<lambda>(_, s). length s)") (auto simp: less_Suc_eq_le)

declare collapse.simps [simp del]

definition normalize_input :: "string \<Rightarrow> string" where
  "normalize_input s = collapse False (trim s)"

datatype 'a decision =
    Allow
  | Deny "'a compiled_rule" rule_source "nat option"
  | DenyAllowlist command_mode allowlist_deny_reason string

definition is_allowed :: "'a decision \<Rightarrow> bool" where
  "is_allowed d \<longleftrightarrow> (case d of Allow \<Rightarrow> True | _ \<Rightarrow> False)"

definition evaluate_allowlist :: "string \<Rightarrow> command_allowlist \<Rightarrow> 'a decision" where
  "evaluate_allowlist command allowlist =
     (let normalized = normalize_input command; stages = split_char (CHR ''|'') normalized in
      if contains_forbidden_metachar command then DenyAllowlist AllowlistMode ForbiddenMetachar normalized
      else if \<not> matches_any_entry (al_entries allowlist) (split_whitespace (hd stages))
      then DenyAllowlist AllowlistMode NotAllowlisted normalized
      else if list_ex (\<lambda>stage. \<not> matches_any_entry (al_allowed_pipes allowlist) (split_whitespace stage)) (tl stages)
      then DenyAllowlist AllowlistMode PipeNotAllowlisted normalized
      else Allow)"

section \<open>Blocklists\<close>

text \<open>\<open>max_by\<close> keeps the later of two rules that compare equal.\<close>

definition rule_le :: "'a compiled_rule \<Rightarrow> 'a compiled_rule \<Rightarrow> bool" where
  "rule_le a b \<longleftrightarrow>
     (let (m, n) = cr_specificity a; (m', n') = cr_specificity b in
      m < m' \<or> m = m' \<and> (n < n' \<or> n = n' \<and> \<not> (cr_source a = Device \<and> cr_source b = Defaults)))"

definition evaluate :: "'a compiled_rule list \<Rightarrow> string \<Rightarrow> 'a compiled_rule option" where
  "evaluate rules candidate =
     fold (\<lambda>r best. case best of None \<Rightarrow> Some r | Some b \<Rightarrow> if rule_le b r then Some r else Some b)
       (filter (\<lambda>r. cr_matcher r candidate) rules) None"

record 'a domain_rules =
  dom_defaults :: "'a compiled_rule list"
  dom_device_specific :: "(string \<times> 'a compiled_rule list) list"

record 'a command_domain =
  cd_blocklist :: "'a domain_rules"
  cd_allowlist :: command_allowlist

record 'a policy =
  pol_command_mode :: command_mode
  pol_commands :: "'a command_domain"
  pol_config :: "'a domain_rules"
  pol_pfe_commands :: "'a command_domain"

definition rules_for :: "'a domain_rules \<Rightarrow> string \<Rightarrow> 'a compiled_rule list" where
  "rules_for d device =
     dom_defaults d @ (case map_of (dom_device_specific d) device of None \<Rightarrow> [] | Some rs \<Rightarrow> rs)"

definition command_rules_for :: "'a policy \<Rightarrow> string \<Rightarrow> 'a compiled_rule list" where
  "command_rules_for p device = rules_for (cd_blocklist (pol_commands p)) device"

definition config_rules_for :: "'a policy \<Rightarrow> string \<Rightarrow> 'a compiled_rule list" where
  "config_rules_for p device = rules_for (pol_config p) device"

definition pfe_command_rules_for :: "'a policy \<Rightarrow> string \<Rightarrow> 'a compiled_rule list" where
  "pfe_command_rules_for p device = rules_for (cd_blocklist (pol_pfe_commands p)) device"

definition has_config_rules_for :: "'a policy \<Rightarrow> string \<Rightarrow> bool" where
  "has_config_rules_for p device \<longleftrightarrow> dom_defaults (pol_config p) \<noteq> [] \<or>
     (case map_of (dom_device_specific (pol_config p)) device of None \<Rightarrow> False | Some rs \<Rightarrow> rs \<noteq> [])"

definition check_blocklist :: "'a compiled_rule list \<Rightarrow> string \<Rightarrow> 'a \<Rightarrow> 'a decision" where
  "check_blocklist rules command deny_action =
     (case evaluate rules (normalize_input command) of
        Some rule \<Rightarrow> if cr_action rule = deny_action then Deny rule (cr_source rule) None else Allow
      | None \<Rightarrow> Allow)"

definition check_command :: "'a policy \<Rightarrow> string \<Rightarrow> string \<Rightarrow> 'a \<Rightarrow> 'a decision" where
  "check_command p device command deny_action =
     (case pol_command_mode p of
        AllowlistMode \<Rightarrow> evaluate_allowlist command (cd_allowlist (pol_commands p))
      | BlocklistMode \<Rightarrow> check_blocklist (command_rules_for p device) command deny_action)"

definition check_pfe_command :: "'a policy \<Rightarrow> string \<Rightarrow> string \<Rightarrow> 'a \<Rightarrow> 'a decision" where
  "check_pfe_command p device command deny_action =
     (case pol_command_mode p of
        AllowlistMode \<Rightarrow> evaluate_allowlist command (cd_allowlist (pol_pfe_commands p))
      | BlocklistMode \<Rightarrow> check_blocklist (pfe_command_rules_for p device) command deny_action)"

fun check_lines :: "'a compiled_rule list \<Rightarrow> 'a \<Rightarrow> nat \<Rightarrow> string list \<Rightarrow> 'a decision" where
  "check_lines rules deny_action n [] = Allow"
| "check_lines rules deny_action n (raw # raws) =
     (let line = normalize_input raw in
      if line = [] \<or> starts_with ''#'' line then check_lines rules deny_action (n + 1) raws
      else case evaluate rules line of
        Some rule \<Rightarrow>
          if cr_action rule = deny_action then Deny rule (cr_source rule) (Some (n + 1))
          else check_lines rules deny_action (n + 1) raws
      | None \<Rightarrow> check_lines rules deny_action (n + 1) raws)"

definition check_config ::
  "'a policy \<Rightarrow> string \<Rightarrow> string \<Rightarrow> string \<Rightarrow> 'a \<Rightarrow> string \<Rightarrow> (string \<Rightarrow> 'e) \<Rightarrow> 'e + 'a decision" where
  "check_config p device config_format config_text deny_action expected_format error_builder =
     (let rules = config_rules_for p device in
      if rules = [] then Inr Allow
      else if config_format \<noteq> expected_format then Inl (error_builder config_format)
      else Inr (check_lines rules deny_action 0 (lines_of config_text)))"

record policy_counts =
  pc_default_commands :: nat
  pc_default_config :: nat
  pc_default_pfe_commands :: nat
  pc_devices_with_rules :: nat

definition rule_counts :: "'a policy \<Rightarrow> policy_counts" where
  "rule_counts p =
     \<lparr>pc_default_commands = length (dom_defaults (cd_blocklist (pol_commands p))),
      pc_default_config = length (dom_defaults (pol_config p)),
      pc_default_pfe_commands = length (dom_defaults (cd_blocklist (pol_pfe_commands p))),
      pc_devices_with_rules = length (remdups (map fst (dom_device_specific (cd_blocklist (pol_commands p))) @
        map fst (dom_device_specific (pol_config p)) @
        map fst (dom_device_specific (cd_blocklist (pol_pfe_commands p)))))\<rparr>"

end
