(* ===== verification/Xml_Path.thy ===== *)
theory Xml_Path
  imports Command_Policy
begin

text \<open>
  \<open>crates/mecmcp-policy/src/xml_path.rs\<close>: read policy on the element paths of an XML document, and
  the canonical path of a command document. The tokenizer (\<open>quick-xml\<close>) is third-party code: a
  document is the list of its events, each with what the code asks the library about it; the end
  of the list is the end of the file. A hash set of strings is the list of its elements.
\<close>

section \<open>Documents\<close>

definition MAX_DEPTH :: nat where
  "MAX_DEPTH = 512"

definition MAX_ELEMENTS :: nat where
  "MAX_ELEMENTS = 50000"

datatype xml_path_error = InvalidXml string | TooDeep | TooLarge | AmbiguousCommand

datatype xml_ref = BadRef string | CharRef | PredefinedRef | OtherRef

text \<open>An opening tag carries its local name and the error of its attributes, if any.\<close>

datatype xml_event =
    StartEvent string "string option"
  | EmptyEvent string "string option"
  | EndEvent
  | DocTypeEvent
  | GeneralRefEvent xml_ref
  | OtherEvent
  | ErrorEvent string

type_synonym element_path = "string list"

definition path_string :: "element_path \<Rightarrow> string" where
  "path_string path = join_with (CHR ''/'') path"

definition reserved_name_char :: "char \<Rightarrow> bool" where
  "reserved_name_char c \<longleftrightarrow> c \<in> set ''/*?[]{}'' \<or> c = CHR 0x5C"

definition local_name :: "string \<Rightarrow> xml_path_error + string" where
  "local_name name =
     (if name = [] \<or> contains_whitespace name \<or> list_ex reserved_name_char name
      then Inl (InvalidXml (''element name '' @ name @ '' is not a well-formed XML name''))
      else Inr name)"

definition validate_attrs :: "string option \<Rightarrow> xml_path_error + unit" where
  "validate_attrs attrs = (case attrs of None \<Rightarrow> Inr () | Some e \<Rightarrow> Inl (InvalidXml e))"

definition reject_non_predefined_ref :: "xml_ref \<Rightarrow> xml_path_error + unit" where
  "reject_non_predefined_ref r =
     (case r of
        BadRef e \<Rightarrow> Inl (InvalidXml e)
      | CharRef \<Rightarrow> Inr ()
      | PredefinedRef \<Rightarrow> Inr ()
      | OtherRef \<Rightarrow> Inl (InvalidXml ''entity reference is not accepted''))"

definition open_element :: "element_path \<Rightarrow> nat \<Rightarrow> string \<Rightarrow> string option \<Rightarrow> xml_path_error + element_path" where
  "open_element stack n name attrs =
     res_bind (require (length stack < MAX_DEPTH) TooDeep) (\<lambda>_.
     res_bind (validate_attrs attrs) (\<lambda>_.
     res_bind (require (n + 1 \<le> MAX_ELEMENTS) TooLarge) (\<lambda>_.
     res_bind (local_name name) (\<lambda>name. Inr (stack @ [name])))))"

text \<open>The paths the walk calls back with, in document order.\<close>

fun walk_elements :: "element_path \<Rightarrow> nat \<Rightarrow> xml_event list \<Rightarrow> xml_path_error + element_path list" where
  "walk_elements stack n [] =
     (if stack \<noteq> [] then Inl (InvalidXml ''unclosed element'')
      else if n = 0 then Inl (InvalidXml ''document has no root element'')
      else Inr [])"
| "walk_elements stack n (StartEvent name attrs # es) =
     res_bind (open_element stack n name attrs) (\<lambda>path.
     res_bind (walk_elements path (n + 1) es) (\<lambda>paths. Inr (path # paths)))"
| "walk_elements stack n (EmptyEvent name attrs # es) =
     res_bind (open_element stack n name attrs) (\<lambda>path.
     res_bind (walk_elements stack (n + 1) es) (\<lambda>paths. Inr (path # paths)))"
| "walk_elements stack n (EndEvent # es) =
     (if stack = [] then Inl (InvalidXml ''unmatched closing tag'') else walk_elements (butlast stack) n es)"
| "walk_elements stack n (DocTypeEvent # es) = Inl (InvalidXml ''DOCTYPE is not accepted'')"
| "walk_elements stack n (GeneralRefEvent r # es) =
     res_bind (reject_non_predefined_ref r) (\<lambda>_. walk_elements stack n es)"
| "walk_elements stack n (OtherEvent # es) = walk_elements stack n es"
| "walk_elements stack n (ErrorEvent e # es) = Inl (InvalidXml e)"

definition element_paths :: "xml_event list \<Rightarrow> xml_path_error + element_path list" where
  "element_paths es = walk_elements [] 0 es"

section \<open>Blocked paths\<close>

text \<open>The offsets in the joined path at which its prefixes end.\<close>

fun end_offsets :: "nat \<Rightarrow> element_path \<Rightarrow> nat list" where
  "end_offsets n [] = []"
| "end_offsets n (seg # segs) = (n + length seg) # end_offsets (n + length seg + 1) segs"

fun block_prefixes :: "string list \<Rightarrow> string list \<Rightarrow> string list" where
  "block_prefixes blocked [] = blocked"
| "block_prefixes blocked (p # ps) =
     (if List.member blocked p then blocked else block_prefixes (p # blocked) ps)"

record block_state =
  bs_blocked :: "string list"
  bs_directly_denied :: "string list"
  bs_last_path :: "element_path option"

definition denies :: "'a compiled_rule list \<Rightarrow> 'a \<Rightarrow> string \<Rightarrow> bool" where
  "denies rules deny_action candidate \<longleftrightarrow>
     (case evaluate rules candidate of None \<Rightarrow> False | Some rule \<Rightarrow> cr_action rule = deny_action)"

definition block_step :: "'a compiled_rule list \<Rightarrow> 'a \<Rightarrow> element_path \<Rightarrow> block_state \<Rightarrow> block_state" where
  "block_step rules deny_action path s =
     (if bs_last_path s = Some path then s
      else
        let candidate = path_string path; offsets = end_offsets 0 path;
            descendant_of_denied = list_ex (\<lambda>n. List.member (bs_directly_denied s) (take n candidate)) (butlast offsets);
            directly_matches = denies rules deny_action candidate in
        s\<lparr>bs_last_path := Some path,
          bs_directly_denied := (if directly_matches then candidate # bs_directly_denied s else bs_directly_denied s),
          bs_blocked := (if directly_matches \<or> descendant_of_denied
            then block_prefixes (bs_blocked s) (map (\<lambda>n. take n candidate) (rev offsets))
            else bs_blocked s)\<rparr>)"

definition blocked_read_paths ::
  "'a compiled_rule list \<Rightarrow> xml_event list \<Rightarrow> 'a \<Rightarrow> xml_path_error + string list" where
  "blocked_read_paths rules xml deny_action =
     res_bind (walk_elements [] 0 xml) (\<lambda>paths.
       Inr (bs_blocked (fold (block_step rules deny_action) paths
         \<lparr>bs_blocked = [], bs_directly_denied = [], bs_last_path = None\<rparr>)))"

definition is_read_blocked :: "string list \<Rightarrow> element_path \<Rightarrow> bool" where
  "is_read_blocked blocked requested_path \<longleftrightarrow> List.member blocked (path_string requested_path)"

section \<open>Command documents\<close>

record xml_frame =
  fr_name :: string
  fr_child_count :: nat

record command_state =
  cw_stack :: "xml_frame list" \<comment> \<open>innermost first\<close>
  cw_root_seen :: bool
  cw_element_count :: nat
  cw_leaf_path :: "element_path option"

definition open_command :: "command_state \<Rightarrow> xml_path_error + command_state" where
  "open_command s =
     res_bind (require (length (cw_stack s) < MAX_DEPTH) TooDeep) (\<lambda>_.
     res_bind
       (case cw_stack s of
          parent # rest \<Rightarrow>
            (if fr_child_count parent + 1 > 1 then Inl AmbiguousCommand
             else Inr (s\<lparr>cw_stack := parent\<lparr>fr_child_count := fr_child_count parent + 1\<rparr> # rest\<rparr>))
        | [] \<Rightarrow> if cw_root_seen s then Inl AmbiguousCommand else Inr (s\<lparr>cw_root_seen := True\<rparr>)) (\<lambda>s.
     res_bind (require (cw_element_count s + 1 \<le> MAX_ELEMENTS) TooLarge) (\<lambda>_.
     Inr (s\<lparr>cw_element_count := cw_element_count s + 1\<rparr>))))"

definition record_if_leaf :: "nat \<Rightarrow> xml_frame list \<Rightarrow> string \<Rightarrow> command_state \<Rightarrow> xml_path_error + command_state" where
  "record_if_leaf child_count ancestors name s =
     (if child_count \<noteq> 0 then Inr s
      else if cw_leaf_path s \<noteq> None then Inl AmbiguousCommand
      else Inr (s\<lparr>cw_leaf_path := Some (rev (map fr_name ancestors) @ [name])\<rparr>))"

fun walk_command :: "command_state \<Rightarrow> xml_event list \<Rightarrow> xml_path_error + string" where
  "walk_command s [] =
     (if cw_stack s \<noteq> [] then Inl (InvalidXml ''unclosed element'')
      else if \<not> cw_root_seen s then Inl (InvalidXml ''document has no root element'')
      else case cw_leaf_path s of None \<Rightarrow> Inl AmbiguousCommand | Some path \<Rightarrow> Inr (path_string path))"
| "walk_command s (StartEvent name attrs # es) =
     res_bind (validate_attrs attrs) (\<lambda>_.
     res_bind (open_command s) (\<lambda>s.
     res_bind (local_name name) (\<lambda>name.
     walk_command (s\<lparr>cw_stack := \<lparr>fr_name = name, fr_child_count = 0\<rparr> # cw_stack s\<rparr>) es)))"
| "walk_command s (EmptyEvent name attrs # es) =
     res_bind (validate_attrs attrs) (\<lambda>_.
     res_bind (open_command s) (\<lambda>s.
     res_bind (local_name name) (\<lambda>name.
     res_bind (record_if_leaf 0 (cw_stack s) name s) (\<lambda>s. walk_command s es))))"
| "walk_command s (EndEvent # es) =
     (case cw_stack s of
        [] \<Rightarrow> Inl (InvalidXml ''unmatched closing tag'')
      | frame # rest \<Rightarrow>
          res_bind (record_if_leaf (fr_child_count frame) rest (fr_name frame) (s\<lparr>cw_stack := rest\<rparr>))
            (\<lambda>s. walk_command s es))"
| "walk_command s (DocTypeEvent # es) = Inl (InvalidXml ''DOCTYPE is not accepted'')"
| "walk_command s (GeneralRefEvent r # es) =
     res_bind (reject_non_predefined_ref r) (\<lambda>_. walk_command s es)"
| "walk_command s (OtherEvent # es) = walk_command s es"
| "walk_command s (ErrorEvent e # es) = Inl (InvalidXml e)"

definition canonical_command_path :: "xml_event list \<Rightarrow> xml_path_error + string" where
  "canonical_command_path xml =
     walk_command \<lparr>cw_stack = [], cw_root_seen = False, cw_element_count = 0, cw_leaf_path = None\<rparr> xml"

end
