(* ===== verification/Policy_Facts.thy ===== *)
theory Policy_Facts
  imports Command_Policy Device_Log_Facts
begin

text \<open>
  Normalising a command changes neither its stages nor the tokens of a stage, so the allowlist is a
  statement about the command as it was given; and the rule a blocklist picks is the greatest of
  those that match.
\<close>

section \<open>Tokens survive normalisation\<close>

lemma ws_width_nonempty: "ws_width s \<noteq> 0 \<Longrightarrow> s \<noteq> [] \<and> ws_width s \<le> length s"
  by (cases s rule: ws_width.cases) (auto split: if_splits list.splits)

lemma ws_width_first3: "ws_width (a # b # c # x) = ws_width (a # b # c # y)"
  by simp

lemma ws_width_prefix: "ws_width (p @ q) = 0 \<Longrightarrow> ws_width p = 0"
proof (cases p)
  case a: (Cons a r)
  assume w: "ws_width (p @ q) = 0"
  then have n: "\<not> (byte a \<in> {9..13} \<or> byte a = 32)" by (simp only: a ws_width.simps append_Cons split: if_splits) simp
  show ?thesis
  proof (cases r)
    case Nil
    then show ?thesis using n by (simp add: a)
  next
    case b: (Cons b r')
    show ?thesis
    proof (cases r')
      case Nil
      then show ?thesis using w n by (simp add: a b split: if_splits)
    next
      case (Cons c r'')
      then show ?thesis using w ws_width_first3 [of a b c "r'' @ q" r''] by (simp only: a b append_Cons)
    qed
  qed
qed simp

lemma ws_width_take: "ws_width s = k \<Longrightarrow> k \<noteq> 0 \<Longrightarrow> ws_width (take k s @ t) = k"
proof (cases s)
  case a: (Cons a r)
  assume w: "ws_width s = k" "k \<noteq> 0"
  show ?thesis
  proof (cases "byte a \<in> {9..13} \<or> byte a = 32")
    case True
    then have "k = 1" using w by (simp add: a)
    with True show ?thesis by (simp add: a)
  next
    case one: False
    obtain b r' where b: "r = b # r'" using w one by (cases r) (auto simp: a split: if_splits)
    show ?thesis
    proof (cases "byte a = 0xC2 \<and> byte b \<in> {0x85, 0xA0}")
      case True
      then have "k = 2" using w one by (auto simp: a b split: if_splits)
      with True one show ?thesis by (simp add: a b numeral_2_eq_2)
    next
      case two: False
      obtain c r'' where c: "r' = c # r''" using w one two by (cases r') (auto simp: a b split: if_splits)
      have "k = 3" using w one two by (auto simp: a b c split: if_splits)
      then show ?thesis using w ws_width_first3 [of a b c t r''] by (simp only: a b c take_Suc_Cons numeral_3_eq_3 take_0 append_Cons append_Nil)
    qed
  qed
qed simp

lemma split_ws_skip: "ws_width s \<noteq> 0 \<Longrightarrow> split_whitespace s = split_whitespace (drop (ws_width s) s)"
proof -
  assume w: "ws_width s \<noteq> 0"
  then have "trim_start s = trim_start (drop (ws_width s) s)" by (subst trim_start.simps) simp
  then show ?thesis
    by (simp only: split_whitespace.simps [of s] split_whitespace.simps [of "drop (ws_width s) s"])
qed

lemma split_ws_word:
  assumes "ws_width s = 0" "s \<noteq> []"
  shows "split_whitespace s = fst (take_word s) # split_whitespace (snd (take_word s))"
proof -
  obtain a t where s: "s = a # t" using assms(2) by (cases s) auto
  have "trim_start (a # t) = a # t" using trim_start_solid_id [OF assms(1)] by (simp only: s)
  then show ?thesis
    unfolding s by (simp only: split_whitespace.simps [of "a # t"] list.case Let_def split_beta)
qed

lemma space_not_ws:
  "ws_width (a # t) = 0 \<Longrightarrow> ws_width (a # CHR '' '' # y) = 0"
  "ws_width (a # b # t) = 0 \<Longrightarrow> ws_width (a # b # CHR '' '' # y) = 0"
  by (auto simp: byte_def split: if_splits list.splits)

declare ws_width.simps(2) [simp del]

lemma collapse_nil [simp]: "collapse w [] = []"
  by (subst collapse.simps) simp

lemma take_word_shrinks:
  assumes "ws_width s = 0" "s \<noteq> []"
  shows "length (snd (take_word s)) < length s"
proof -
  obtain a t where s: "s = a # t" using assms(2) by (cases s) auto
  have "length (snd (take_word t)) \<le> length t" by (rule take_word_length)
  then show ?thesis using assms(1) by (simp add: s Let_def split_beta)
qed

lemma collapse_solid: "ws_width (a # t) = 0 \<Longrightarrow> collapse w (a # t) = a # collapse False t"
  by (subst collapse.simps) (simp)

lemma collapse_ws:
  "ws_width s \<noteq> 0 \<Longrightarrow> collapse w s = (if w then [] else '' '') @ collapse True (drop (ws_width s) s)"
  using ws_width_nonempty [of s] by (subst collapse.simps) auto

lemma collapse_keeps_solid:
  assumes "ws_width (a # t) = 0"
  shows "ws_width (a # collapse False t) = 0"
proof (cases t)
  case (Cons b t')
  show ?thesis
  proof (cases "ws_width t = 0")
    case False
    then show ?thesis using space_not_ws(1) [OF assms] by (simp add: collapse_ws)
  next
    case b: True
    show ?thesis
    proof (cases t')
      case Nil
      then show ?thesis using assms b Cons by (simp add: collapse_solid)
    next
      case c: (Cons c t'')
      show ?thesis
      proof (cases "ws_width t' = 0")
        case True
        then show ?thesis
          using assms b Cons c ws_width_first3 [of a b c "collapse False t''" t'']
          by (simp add: collapse_solid)
      next
        case False
        then show ?thesis
          using assms b Cons space_not_ws(2) [of a b t']
          by (simp add: collapse_solid collapse_ws)
      qed
    qed
  qed
qed (use assms in simp)

lemma take_word_collapse:
  "take_word (collapse False s) = (fst (take_word s), collapse False (snd (take_word s)))"
proof (induction s)
  case (Cons a t)
  show ?case
  proof (cases "ws_width (a # t) = 0")
    case True
    then have "ws_width (a # collapse False t) = 0" by (rule collapse_keeps_solid)
    then show ?thesis using True Cons by (simp add: collapse_solid Let_def split_beta)
  next
    case False
    then show ?thesis by (simp add: collapse_ws)
  qed
qed simp

lemma split_ws_collapse: "split_whitespace (collapse w s) = split_whitespace s"
proof (induction s arbitrary: w rule: measure_induct_rule [of length])
  case (less s)
  consider "s = []" | "ws_width s \<noteq> 0" | "ws_width s = 0" "s \<noteq> []" by blast
  then show ?case
  proof cases
    case 2
    then have "length (drop (ws_width s) s) < length s" using ws_width_nonempty [OF 2] by auto
    from less.IH [OF this, of True] show ?thesis
      using 2 by (simp add: collapse_ws split_ws_skip [of s] split_whitespace_space)
  next
    case 3
    then obtain a t where s: "s = a # t" by (cases s) auto
    then have c: "collapse w s = collapse False s" using 3 by (simp add: collapse_solid)
    have "ws_width (collapse False s) = 0"
      using 3 s collapse_keeps_solid [of a t] by (simp add: collapse_solid)
    moreover have "collapse False s \<noteq> []" using 3 s by (simp add: collapse_solid)
    ultimately have "split_whitespace (collapse False s) = fst (take_word s) # split_whitespace (collapse False (snd (take_word s)))"
      by (simp add: split_ws_word take_word_collapse)
    also have "split_whitespace (collapse False (snd (take_word s))) = split_whitespace (snd (take_word s))"
      by (rule less.IH) (rule take_word_shrinks [OF 3])
    finally show ?thesis using c split_ws_word [OF 3] by simp
  qed simp
qed

lemma split_ws_trim_start: "split_whitespace (trim_start s) = split_whitespace s"
  using trim_start_solid_id [OF trim_start_solid, of s]
  by (simp only: split_whitespace.simps [of s] split_whitespace.simps [of "trim_start s"])

lemma blank_solid: "ws_width s = 0 \<Longrightarrow> blank s \<longleftrightarrow> s = []"
  by (subst blank.simps) simp

lemma blank_skip: "ws_width s \<noteq> 0 \<Longrightarrow> blank s \<longleftrightarrow> blank (drop (ws_width s) s)"
  using ws_width_nonempty [of s] by (subst blank.simps) simp

lemma high_solid: "128 \<le> byte b \<Longrightarrow> byte b < 192 \<Longrightarrow> ws_width (b # r) = 0"
  by (simp add: ws_width.simps(2) split: list.split)

lemma trim_end_high: "128 \<le> byte b \<Longrightarrow> byte b < 192 \<Longrightarrow> trim_end (b # r) = b # trim_end r"
  by (simp add: blank_solid high_solid)

lemma trim_end_ws:
  assumes "ws_width s \<noteq> 0" "\<not> blank s"
  shows "trim_end s = take (ws_width s) s @ trim_end (drop (ws_width s) s)"
proof -
  obtain a r where a: "s = a # r" using ws_width_nonempty [OF assms(1)] by (cases s) auto
  show ?thesis
  proof (cases "byte a \<in> {9..13} \<or> byte a = 32")
    case True
    then show ?thesis using assms(2) by (simp add: a ws_width.simps(2))
  next
    case one: False
    obtain b r' where b: "r = b # r'" using assms(1) one by (cases r) (auto simp: a ws_width.simps(2) split: if_splits)
    show ?thesis
    proof (cases "byte a = 0xC2 \<and> byte b \<in> {0x85, 0xA0}")
      case True
      then have "ws_width s = 2" "trim_end r = b # trim_end r'"
        using one by (auto simp: a b ws_width.simps(2) trim_end_high simp del: trim_end.simps)
      then show ?thesis using assms(2) by (simp add: a b numeral_2_eq_2)
    next
      case two: False
      obtain c r'' where c: "r' = c # r''"
        using assms(1) one two by (cases r') (auto simp: a b ws_width.simps(2) split: if_splits)
      have w: "ws_width s = 3" "128 \<le> byte b \<and> byte b < 192" "128 \<le> byte c \<and> byte c < 192"
        using assms(1) one two by (auto simp: a b c ws_width.simps(2) split: if_splits)
      then have "trim_end r = b # c # trim_end r''" by (simp add: b c trim_end_high del: trim_end.simps)
      then show ?thesis using assms(2) w(1) by (simp add: a b c numeral_3_eq_3)
    qed
  qed
qed

lemma trim_end_prefix: "\<exists>q. s = trim_end s @ q"
  by (induction s) auto

lemma take_word_trim_end:
  "take_word (trim_end s) = (fst (take_word s), trim_end (snd (take_word s)))"
proof (induction s)
  case (Cons a t)
  show ?case
  proof (cases "ws_width (a # t) = 0")
    case True
    obtain q where "t = trim_end t @ q" using trim_end_prefix by blast
    then have "ws_width (a # trim_end t) = 0" using True ws_width_prefix [of "a # trim_end t" q] by simp
    then show ?thesis using True Cons by (simp add: blank_solid Let_def split_beta)
  next
    case ws: False
    show ?thesis
    proof (cases "blank (a # t)")
      case False
      have "ws_width (trim_end (a # t)) = ws_width (a # t)"
        using ws_width_take [OF refl ws] by (simp only: trim_end_ws [OF ws False])
      then show ?thesis using ws False by simp
    qed (use ws in simp)
  qed
qed simp

lemma split_ws_blank: "blank s \<Longrightarrow> split_whitespace s = []"
proof (induction s rule: blank.induct)
  case (1 s)
  show ?case
  proof (cases "ws_width s = 0")
    case True
    then show ?thesis using 1(2) by (simp add: blank_solid)
  next
    case False
    then have "s \<noteq> []" by auto
    then show ?thesis using 1 False blank_skip [OF False] by (simp add: split_ws_skip [OF False])
  qed
qed

lemma split_ws_trim_end: "split_whitespace (trim_end s) = split_whitespace s"
proof (induction s rule: measure_induct_rule [of length])
  case (less s)
  consider "blank s" | "ws_width s \<noteq> 0" "\<not> blank s" | "ws_width s = 0" "\<not> blank s" by blast
  then show ?case
  proof cases
    case 1
    then have "trim_end s = []" by (cases s) simp_all
    with 1 show ?thesis by (simp add: split_ws_blank)
  next
    case 2
    let ?k = "ws_width s"
    have l: "?k \<le> length s" "length (drop ?k s) < length s" using ws_width_nonempty [OF 2(1)] 2(1) by auto
    have "ws_width (trim_end s) = ?k" using ws_width_take [OF refl 2(1)] by (simp only: trim_end_ws [OF 2])
    then have "split_whitespace (trim_end s) = split_whitespace (drop ?k (trim_end s))"
      using split_ws_skip [of "trim_end s"] 2(1) by simp
    also have "drop ?k (trim_end s) = trim_end (drop ?k s)" using l(1) by (simp add: trim_end_ws [OF 2])
    finally show ?thesis using less.IH [OF l(2)] split_ws_skip [OF 2(1)] by simp
  next
    case 3
    then have s: "s \<noteq> []" by (auto simp: blank.simps [of "[]"])
    obtain q where "s = trim_end s @ q" using trim_end_prefix by blast
    then have "ws_width (trim_end s) = 0" using 3(1) ws_width_prefix [of "trim_end s" q] by simp
    moreover have "trim_end s \<noteq> []" using 3(2) s by (cases s) simp_all
    ultimately have "split_whitespace (trim_end s) = fst (take_word s) # split_whitespace (trim_end (snd (take_word s)))"
      by (simp add: split_ws_word take_word_trim_end)
    also have "split_whitespace (trim_end (snd (take_word s))) = split_whitespace (snd (take_word s))"
      by (rule less.IH) (rule take_word_shrinks [OF 3(1) s])
    finally show ?thesis using split_ws_word [OF 3(1) s] by simp
  qed
qed

section \<open>Stages survive normalisation\<close>

abbreviation pipe :: char where
  "pipe \<equiv> CHR ''|''"

lemma printable_pipe: "printable pipe"
  by (simp add: printable_def byte_def)

lemma split_char_none: "c \<notin> set x \<Longrightarrow> split_char c x = [x]"
  by (induction x) auto

lemma split_char_nonempty: "split_char c s \<noteq> []"
  by (induction s) (auto split: list.split)

lemma split_char_sep: "c \<notin> set x \<Longrightarrow> split_char c (x @ c # y) = x # split_char c y"
  using split_char_nonempty [of c y] by (induction x) (auto split: list.split)

lemma ws_width_pipe: "x \<noteq> [] \<Longrightarrow> ws_width (x @ pipe # y) = ws_width x"
proof (cases x)
  case a: (Cons a r)
  show ?thesis
  proof (cases r)
    case Nil
    then show ?thesis by (simp add: a ws_width.simps(2) byte_def split: list.split)
  next
    case b: (Cons b r')
    show ?thesis
    proof (cases r')
      case Nil
      then show ?thesis by (simp add: a b ws_width.simps(2) byte_def [of pipe])
    next
      case (Cons c r'')
      then show ?thesis using ws_width_first3 [of a b c "r'' @ pipe # y" r''] by (simp only: a b append_Cons)
    qed
  qed
qed simp

lemma collapse_pipe: "collapse w (x @ pipe # y) = collapse w x @ pipe # collapse False y"
proof (induction x arbitrary: w rule: measure_induct_rule [of length])
  case (less x)
  show ?case
  proof (cases x)
    case Nil
    then show ?thesis by (simp add: collapse_solid printable_solid printable_pipe)
  next
    case (Cons a t)
    have w: "ws_width (x @ pipe # y) = ws_width x" using ws_width_pipe Cons by blast
    show ?thesis
    proof (cases "ws_width x = 0")
      case True
      then have "collapse w (a # (t @ pipe # y)) = a # collapse False (t @ pipe # y)"
        using w Cons by (intro collapse_solid) simp
      then show ?thesis using less.IH [of t False] True Cons by (simp add: collapse_solid)
    next
      case False
      let ?k = "ws_width x"
      have l: "?k \<le> length x" "length (drop ?k x) < length x" using ws_width_nonempty [OF False] False by auto
      have "collapse w (x @ pipe # y) = (if w then [] else '' '') @ collapse True (drop ?k (x @ pipe # y))"
        using collapse_ws [of "x @ pipe # y" w] w False by simp
      also have "drop ?k (x @ pipe # y) = drop ?k x @ pipe # y" using l(1) by simp
      finally show ?thesis using less.IH [OF l(2), of True] collapse_ws [OF False, of w] by simp
    qed
  qed
qed

lemma collapse_no_pipe: "pipe \<notin> set x \<Longrightarrow> pipe \<notin> set (collapse w x)"
proof (induction w x rule: collapse.induct)
  case (1 w x)
  then show ?case
    by (subst collapse.simps) (auto dest: in_set_dropD list.set_sel(2))
qed

lemma trim_end_pipe: "trim_end (x @ pipe # y) = x @ pipe # trim_end y"
proof (induction x)
  case (Cons a x)
  then show ?case using printable_not_blank [OF _ printable_pipe, of "a # x @ pipe # y"] by simp
qed (use printable_not_blank [OF _ printable_pipe, of "pipe # y"] in simp)

lemma trim_start_pipe: "trim_start (x @ pipe # y) = trim_start x @ pipe # y"
proof (induction x rule: measure_induct_rule [of length])
  case (less x)
  show ?case
  proof (cases "x = [] \<or> ws_width x = 0")
    case True
    then have "ws_width (x @ pipe # y) = 0" "ws_width x = 0"
      using ws_width_pipe [of x y] printable_solid [OF printable_pipe] by (cases x; auto)+
    then show ?thesis by (simp add: trim_start_solid_id)
  next
    case False
    let ?k = "ws_width x"
    have w: "ws_width (x @ pipe # y) = ?k" "?k \<noteq> 0" using ws_width_pipe False by auto
    have l: "?k \<le> length x" "length (drop ?k x) < length x" using ws_width_nonempty [OF w(2)] w(2) by auto
    have "trim_start (x @ pipe # y) = trim_start (drop ?k x @ pipe # y)" "trim_start x = trim_start (drop ?k x)"
      using trim_start.simps [of "x @ pipe # y"] trim_start.simps [of x] w l(1) by simp_all
    then show ?thesis using less.IH [OF l(2)] by simp
  qed
qed

lemma trim_start_subset: "set (trim_start s) \<subseteq> set s"
proof (induction s rule: trim_start.induct)
  case (1 s)
  then show ?case by (subst trim_start.simps) (auto dest: in_set_dropD)
qed

lemma trim_end_subset: "set (trim_end s) \<subseteq> set s"
  by (induction s) auto

definition stage_tokens :: "string \<Rightarrow> string list list" where
  "stage_tokens s = map split_whitespace (split_char pipe s)"

lemma stage_tokens_simps:
  "pipe \<notin> set x \<Longrightarrow> stage_tokens x = [split_whitespace x]"
  "pipe \<notin> set x \<Longrightarrow> stage_tokens (x @ pipe # y) = split_whitespace x # stage_tokens y"
  by (simp_all add: stage_tokens_def split_char_none split_char_sep)

lemma pipe_cases:
  obtains (none) "pipe \<notin> set s" | (some) x y where "s = x @ pipe # y" "pipe \<notin> set x" "length y < length s"
  using split_list_first [of pipe s] by fastforce

lemma stage_tokens_collapse: "stage_tokens (collapse w s) = stage_tokens s"
proof (induction s arbitrary: w rule: measure_induct_rule [of length])
  case (less s)
  show ?case
    by (cases s rule: pipe_cases)
      (simp_all add: stage_tokens_simps collapse_pipe collapse_no_pipe split_ws_collapse less.IH)
qed

lemma stage_tokens_trim_end: "stage_tokens (trim_end s) = stage_tokens s"
proof (induction s rule: measure_induct_rule [of length])
  case (less s)
  show ?case
  proof (cases s rule: pipe_cases)
    case none
    then have "pipe \<notin> set (trim_end s)" using trim_end_subset by blast
    with none show ?thesis by (simp add: stage_tokens_simps split_ws_trim_end)
  qed (simp add: stage_tokens_simps trim_end_pipe less.IH)
qed

lemma stage_tokens_trim_start: "stage_tokens (trim_start s) = stage_tokens s"
proof (cases s rule: pipe_cases)
  case none
  then have "pipe \<notin> set (trim_start s)" using trim_start_subset by blast
  with none show ?thesis by (simp add: stage_tokens_simps split_ws_trim_start)
next
  case (some x y)
  then have "pipe \<notin> set (trim_start x)" using trim_start_subset by blast
  with some show ?thesis by (simp add: trim_start_pipe stage_tokens_simps split_ws_trim_start)
qed

lemma stage_tokens_normalize: "stage_tokens (normalize_input s) = stage_tokens s"
  by (simp add: normalize_input_def trim_def stage_tokens_collapse stage_tokens_trim_end stage_tokens_trim_start)

section \<open>Allowlists\<close>

lemma is_token_prefix_iff: "is_token_prefix e ts \<longleftrightarrow> prefix e ts"
proof (induction e arbitrary: ts)
  case (Cons a e)
  then show ?case by (cases ts) (auto simp: is_token_prefix_def)
qed (simp add: is_token_prefix_def)

lemma matches_any_iff: "matches_any_entry es ts \<longleftrightarrow> (\<exists>e\<in>set es. prefix e ts)"
  by (auto simp: matches_any_entry_def list_ex_iff is_token_prefix_iff)

lemma evaluate_allowlist_iff:
  "evaluate_allowlist command a = Allow \<longleftrightarrow>
     \<not> contains_forbidden_metachar command \<and>
     (\<exists>e\<in>set (al_entries a). prefix e (hd (stage_tokens command))) \<and>
     (\<forall>ts\<in>set (tl (stage_tokens command)). \<exists>e\<in>set (al_allowed_pipes a). prefix e ts)"
proof -
  let ?st = "split_char pipe (normalize_input command)"
  have ne: "?st \<noteq> []" by (rule split_char_nonempty)
  have "hd (stage_tokens command) = split_whitespace (hd ?st)" "tl (stage_tokens command) = map split_whitespace (tl ?st)"
    using ne by (simp_all add: stage_tokens_normalize [of command, symmetric])
      (simp_all add: stage_tokens_def hd_map map_tl)
  then show ?thesis
    by (auto simp: evaluate_allowlist_def Let_def matches_any_iff list_ex_iff)
qed

section \<open>Blocklists\<close>

lemma rule_le_refl: "rule_le a a"
  by (auto simp: rule_le_def)

lemma rule_le_trans: "rule_le a b \<Longrightarrow> rule_le b c \<Longrightarrow> rule_le a c"
  by (cases "cr_source a"; cases "cr_source b"; cases "cr_source c") (auto simp: rule_le_def split_beta)

lemma rule_le_total: "rule_le a b \<or> rule_le b a"
  by (auto simp: rule_le_def split_beta)

lemma best_fold:
  "fold (\<lambda>r best. case best of None \<Rightarrow> Some r | Some b \<Rightarrow> if rule_le b r then Some r else Some b) rs (Some b) = Some r \<Longrightarrow>
     (r = b \<or> r \<in> set rs) \<and> rule_le b r \<and> (\<forall>r'\<in>set rs. rule_le r' r)"
proof (induction rs arbitrary: b)
  case (Cons a rs)
  show ?case
  proof (cases "rule_le b a")
    case True
    with Cons.prems Cons.IH [of a] have "r = a \<or> r \<in> set rs" "rule_le a r" "\<forall>r'\<in>set rs. rule_le r' r" by auto
    then show ?thesis using True rule_le_trans by auto
  next
    case False
    with Cons.prems Cons.IH [of b] have h: "r = b \<or> r \<in> set rs" "rule_le b r" "\<forall>r'\<in>set rs. rule_le r' r" by auto
    have "rule_le a b" using False rule_le_total by blast
    then show ?thesis using h rule_le_trans by auto
  qed
qed (simp add: rule_le_refl)

lemma evaluate_None: "evaluate rules c = None \<longleftrightarrow> (\<forall>r\<in>set rules. \<not> cr_matcher r c)"
proof -
  have some: "fold (\<lambda>r best. case best of None \<Rightarrow> Some r | Some b \<Rightarrow> if rule_le b r then Some r else Some b) rs (Some b) \<noteq> None"
    for rs :: "'a compiled_rule list" and b by (induction rs arbitrary: b) auto
  show ?thesis
  proof (cases "filter (\<lambda>r. cr_matcher r c) rules")
    case Nil
    then show ?thesis by (auto simp: evaluate_def filter_empty_conv)
  next
    case (Cons a rs)
    then have "a \<in> set (filter (\<lambda>r. cr_matcher r c) rules)" by simp
    then have "a \<in> set rules \<and> cr_matcher a c" unfolding set_filter by blast
    then show ?thesis using some [of rs a] by (auto simp: evaluate_def Cons)
  qed
qed

lemma evaluate_Some:
  assumes "evaluate rules c = Some r"
  shows "r \<in> set rules" "cr_matcher r c" "\<forall>r'\<in>set rules. cr_matcher r' c \<longrightarrow> rule_le r' r"
proof -
  obtain a rs where f: "filter (\<lambda>r. cr_matcher r c) rules = a # rs"
    using assms by (cases "filter (\<lambda>r. cr_matcher r c) rules") (auto simp: evaluate_def)
  with assms have "fold (\<lambda>r best. case best of None \<Rightarrow> Some r | Some b \<Rightarrow> if rule_le b r then Some r else Some b) rs (Some a) = Some r"
    by (simp add: evaluate_def)
  from best_fold [OF this] have h: "r \<in> set (a # rs)" "\<forall>r'\<in>set (a # rs). rule_le r' r" by auto
  have m: "set (a # rs) = {r \<in> set rules. cr_matcher r c}" using f by (metis set_filter)
  then show "r \<in> set rules" "cr_matcher r c" "\<forall>r'\<in>set rules. cr_matcher r' c \<longrightarrow> rule_le r' r"
    using h by auto
qed

end
