(* ===== verification/Xml_Facts.thy ===== *)
theory Xml_Facts
  imports Xml_Path Policy_Facts
begin

text \<open>
  The set of blocked paths, computed in one pass with two shortcuts (a path equal to the previous
  one is skipped, and marking stops at the first prefix already marked), is the set its
  documentation describes; and a document has a canonical command path exactly when its elements
  form one chain.
\<close>

section \<open>Paths as strings\<close>

definition path_ok :: "element_path \<Rightarrow> bool" where
  "path_ok p \<longleftrightarrow> p \<noteq> [] \<and> list_all (\<lambda>seg. CHR ''/'' \<notin> set seg) p"

lemma split_join: "path_ok p \<Longrightarrow> split_char (CHR ''/'') (path_string p) = p"
  unfolding path_string_def path_ok_def
  by (induction "CHR ''/''" p rule: join_with.induct) (auto simp: split_char_none split_char_sep)

lemma path_string_inj: "path_ok p \<Longrightarrow> path_ok q \<Longrightarrow> path_string p = path_string q \<longleftrightarrow> p = q"
  using split_join by metis

lemma path_ok_prefix: "path_ok q \<Longrightarrow> prefix p q \<Longrightarrow> p \<noteq> [] \<Longrightarrow> path_ok p"
  by (auto simp: path_ok_def prefix_def)

definition path_prefixes :: "element_path \<Rightarrow> element_path list" where
  "path_prefixes p = map (\<lambda>i. take i p) [1..<Suc (length p)]"

lemma set_path_prefixes: "set (path_prefixes p) = {d. d \<noteq> [] \<and> prefix d p}"
proof -
  have "d \<in> set (path_prefixes p)" if "d \<noteq> []" "prefix d p" for d
  proof -
    have "length d \<le> length p" "d = take (length d) p" using that(2) by (auto simp: prefix_def)
    moreover have "1 \<le> length d" using that(1) by (cases d) auto
    ultimately have "length d \<in> set [1..<Suc (length p)]" "d = take (length d) p" by (auto simp: less_Suc_eq_le)
    then show ?thesis unfolding path_prefixes_def set_map by (rule rev_image_eqI)
  qed
  then show ?thesis by (auto simp: path_prefixes_def take_is_prefix)
qed

lemma join_prefix_step: "0 < i \<Longrightarrow> t \<noteq> [] \<Longrightarrow>
  join_with c (seg # take i t) = seg @ c # join_with c (take i t)"
  by (cases t; cases i) auto

lemma offsets_prefixes:
  "map (\<lambda>n. take n (pre @ path_string p)) (end_offsets (length pre) p) =
     map (\<lambda>d. pre @ path_string d) (path_prefixes p)"
proof (induction p arbitrary: pre)
  case (Cons seg t)
  show ?case
  proof (cases t)
    case Nil
    then show ?thesis by (simp add: path_string_def path_prefixes_def)
  next
    case c: (Cons seg' t')
    let ?c = "CHR ''/''"
    have "path_string (seg # t) = seg @ ?c # path_string t" by (simp add: path_string_def c)
    then have "map (\<lambda>n. take n (pre @ path_string (seg # t))) (end_offsets (length pre) (seg # t)) =
        (pre @ seg) # map (\<lambda>n. take n ((pre @ seg @ [?c]) @ path_string t)) (end_offsets (length (pre @ seg @ [?c])) t)"
      by simp
    also have "\<dots> = (pre @ seg) # map (\<lambda>d. (pre @ seg @ [?c]) @ path_string d) (path_prefixes t)"
      using Cons.IH [of "pre @ seg @ [?c]"] by simp
    also have "map (\<lambda>d. (pre @ seg @ [?c]) @ path_string d) (path_prefixes t) =
        map (\<lambda>i. pre @ path_string (take (Suc i) (seg # t))) [1..<Suc (length t)]"
      unfolding path_prefixes_def map_map comp_def
    proof (rule map_cong)
      fix i assume "i \<in> set [1..<Suc (length t)]"
      then have "0 < i" by auto
      with join_prefix_step [of i t ?c seg] c
      show "(pre @ seg @ [?c]) @ path_string (take i t) = pre @ path_string (take (Suc i) (seg # t))"
        by (simp add: path_string_def)
    qed simp
    also have "(pre @ seg) # map (\<lambda>i. pre @ path_string (take (Suc i) (seg # t))) [1..<Suc (length t)] =
        map (\<lambda>i. pre @ path_string (take i (seg # t))) (1 # map Suc [1..<Suc (length t)])"
      by (simp add: path_string_def comp_def)
    also have "1 # map Suc [1..<Suc (length t)] = [1..<Suc (length (seg # t))]"
      unfolding map_Suc_upt by (subst upt_conv_Cons [of 1 "Suc (length (seg # t))"]) simp_all
    finally show ?thesis by (simp add: path_prefixes_def comp_def)
  qed
qed (simp add: path_prefixes_def)

lemma prefix_strings:
  "map (\<lambda>n. take n (path_string p)) (end_offsets 0 p) = map path_string (path_prefixes p)"
  using offsets_prefixes [of "[]" p] by simp

lemma butlast_prefixes: "set (butlast (path_prefixes p)) = {d. d \<noteq> [] \<and> strict_prefix d p}"
proof (cases "p = []")
  case False
  then have l: "path_prefixes p = map (\<lambda>i. take i p) [1..<length p] @ [p]"
    by (cases p) (simp_all add: path_prefixes_def)
  have "distinct (path_prefixes p)"
    unfolding path_prefixes_def distinct_map
    by (intro conjI inj_onI distinct_upt, drule arg_cong [of _ _ length]) (auto simp: less_Suc_eq_le)
  then have "set (butlast (path_prefixes p)) = set (path_prefixes p) - {p}" by (simp add: l)
  then show ?thesis by (auto simp: set_path_prefixes strict_prefix_def)
qed (simp add: path_prefixes_def)

section \<open>The walk\<close>

text \<open>In document order every ancestor comes before its descendants.\<close>

fun tree_ordered :: "element_path set \<Rightarrow> element_path list \<Rightarrow> bool" where
  "tree_ordered seen [] \<longleftrightarrow> True"
| "tree_ordered seen (p # ps) \<longleftrightarrow> (\<forall>d. d \<noteq> [] \<and> strict_prefix d p \<longrightarrow> d \<in> seen) \<and> tree_ordered (insert p seen) ps"

lemma open_element_Inr:
  "open_element stack n name attrs = Inr path \<longleftrightarrow>
     length stack < MAX_DEPTH \<and> attrs = None \<and> n + 1 \<le> MAX_ELEMENTS \<and> local_name name = Inr name \<and> path = stack @ [name]"
  by (auto simp: open_element_def validate_attrs_def local_name_def res_bind_Inr_iff require_Inr_iff
      split: option.splits if_splits)

lemma local_name_ok: "local_name name = Inr name \<Longrightarrow> CHR ''/'' \<notin> set name"
  by (auto simp: local_name_def list_ex_iff reserved_name_char_def split: if_splits)

lemma strict_prefix_snoc_iff: "strict_prefix d (stack @ [name]) \<longleftrightarrow> prefix d stack"
  by (auto simp: strict_prefix_def prefix_snoc)

lemma walk_tree_ordered:
  assumes "walk_elements stack n es = Inr ps" "\<forall>d. d \<noteq> [] \<and> prefix d stack \<longrightarrow> d \<in> seen"
    and "list_all (\<lambda>seg. CHR ''/'' \<notin> set seg) stack"
  shows "tree_ordered seen ps \<and> list_all path_ok ps"
  using assms
proof (induction stack n es arbitrary: ps seen rule: walk_elements.induct)
  case (2 stack n name attrs es)
  then obtain qs where q: "ps = (stack @ [name]) # qs" "walk_elements (stack @ [name]) (n + 1) es = Inr qs"
      "open_element stack n name attrs = Inr (stack @ [name])" "local_name name = Inr name"
    by (auto simp: res_bind_Inr_iff open_element_Inr)
  have "\<forall>d. d \<noteq> [] \<and> prefix d (stack @ [name]) \<longrightarrow> d \<in> insert (stack @ [name]) seen"
    using 2(3) by (auto simp: prefix_snoc)
  moreover have "list_all (\<lambda>seg. CHR ''/'' \<notin> set seg) (stack @ [name])" using 2(4) local_name_ok [OF q(4)] by simp
  ultimately show ?case
    using 2(1) [OF q(2)] 2(3) by (auto simp: q(1) strict_prefix_snoc_iff path_ok_def)
next
  case (3 stack n name attrs es)
  then obtain qs where q: "ps = (stack @ [name]) # qs" "walk_elements stack (n + 1) es = Inr qs"
      "open_element stack n name attrs = Inr (stack @ [name])" "local_name name = Inr name"
    by (auto simp: res_bind_Inr_iff open_element_Inr)
  have "\<forall>d. d \<noteq> [] \<and> prefix d stack \<longrightarrow> d \<in> insert (stack @ [name]) seen" using 3(3) by auto
  then show ?case
    using 3(1) [OF q(2)] 3(3,4) local_name_ok [OF q(4)] by (auto simp: q(1) strict_prefix_snoc_iff path_ok_def)
next
  case (4 stack n es)
  then have "\<forall>d. d \<noteq> [] \<and> prefix d (butlast stack) \<longrightarrow> d \<in> seen"
    by (metis prefix_order.trans prefixeq_butlast)
  moreover have "list_all (\<lambda>seg. CHR ''/'' \<notin> set seg) (butlast stack)"
    using 4(4) by (auto simp: list_all_iff dest: in_set_butlastD)
  ultimately show ?case using 4 by (auto split: if_splits)
qed (auto simp: res_bind_Inr_iff split: if_splits)

section \<open>The blocked set\<close>

text \<open>A path is closed when it or one of its ancestors matches a deny rule.\<close>

definition closed_path :: "'a compiled_rule list \<Rightarrow> 'a \<Rightarrow> element_path \<Rightarrow> bool" where
  "closed_path rules deny q \<longleftrightarrow> (\<exists>d. d \<noteq> [] \<and> prefix d q \<and> denies rules deny (path_string d))"

definition must_block :: "'a compiled_rule list \<Rightarrow> 'a \<Rightarrow> element_path set \<Rightarrow> element_path set" where
  "must_block rules deny qs = {p. p \<noteq> [] \<and> (\<exists>q\<in>qs. prefix p q \<and> closed_path rules deny q)}"

definition block_inv ::
  "'a compiled_rule list \<Rightarrow> 'a \<Rightarrow> element_path set \<Rightarrow> block_state \<Rightarrow> bool" where
  "block_inv rules deny qs s \<longleftrightarrow> (\<forall>q\<in>qs. path_ok q) \<and>
     set (bs_directly_denied s) = path_string ` {d \<in> qs. denies rules deny (path_string d)} \<and>
     set (bs_blocked s) = path_string ` must_block rules deny qs \<and>
     (\<forall>p. bs_last_path s = Some p \<longrightarrow> p \<in> qs)"

lemma block_prefixes_set:
  assumes "distinct ps" "\<And>us p vs. ps = us @ p # vs \<Longrightarrow> p \<in> set blocked \<Longrightarrow> set vs \<subseteq> set blocked"
  shows "set (block_prefixes blocked ps) = set blocked \<union> set ps"
  using assms
proof (induction ps arbitrary: blocked)
  case (Cons p ps)
  show ?case
  proof (cases "p \<in> set blocked")
    case True
    then show ?thesis using Cons.prems(2) [of "[]" p ps] by auto
  next
    case False
    have "set vs \<subseteq> set (p # blocked)" if "ps = us @ r # vs" "r \<in> set (p # blocked)" for us r vs
      using Cons.prems(1) Cons.prems(2) [of "p # us" r vs] that by auto
    with Cons.IH [of "p # blocked"] Cons.prems(1) False show ?thesis by simp
  qed
qed simp

lemma distinct_path_prefixes: "distinct (path_prefixes p)"
  unfolding path_prefixes_def distinct_map
  by (intro conjI inj_onI distinct_upt, drule arg_cong [of _ _ length]) (auto simp: less_Suc_eq_le)

lemma length_path_prefixes [simp]: "length (path_prefixes q) = length q"
  by (simp add: path_prefixes_def del: upt_Suc)

lemma nth_path_prefixes: "i < length q \<Longrightarrow> path_prefixes q ! i = take (Suc i) q"
  by (simp add: path_prefixes_def del: upt_Suc)

lemma must_block_ok: "\<forall>q\<in>qs. path_ok q \<Longrightarrow> p \<in> must_block rules deny qs \<Longrightarrow> path_ok p"
  by (auto simp: must_block_def intro: path_ok_prefix)

lemma mark_prefixes:
  assumes "\<forall>q\<in>qs. path_ok q" "path_ok q" "set blocked = path_string ` must_block rules deny qs"
  shows "set (block_prefixes blocked (map path_string (rev (path_prefixes q)))) =
    set blocked \<union> path_string ` {d. d \<noteq> [] \<and> prefix d q}"
proof -
  have ok: "path_ok d" if "d \<in> set (path_prefixes q)" for d
    using that assms(2) by (auto simp: set_path_prefixes intro: path_ok_prefix)
  have "distinct (map path_string (rev (path_prefixes q)))"
    unfolding distinct_map using distinct_path_prefixes [of q] ok path_string_inj by (auto intro!: inj_onI)
  moreover have "set vs \<subseteq> set blocked"
    if split: "map path_string (rev (path_prefixes q)) = us @ p # vs" and p: "p \<in> set blocked" for us p vs
  proof -
    from split obtain us' d vs' where d: "rev (path_prefixes q) = us' @ d # vs'" "p = path_string d" "vs = map path_string vs'"
      by (auto simp: map_eq_append_conv map_eq_Cons_conv)
    then have r: "path_prefixes q = rev vs' @ d # rev us'" by (simp add: rev_eq_append_conv [symmetric] rev_swap)
    then have dq: "d \<in> set (path_prefixes q)" by simp
    obtain e where "path_string d = path_string e" "e \<in> must_block rules deny qs" using p d(2) assms(3) by auto
    then have db: "d \<in> must_block rules deny qs"
      using path_string_inj [of d e] ok [OF dq] must_block_ok [OF assms(1), of e rules deny] by simp
    have "x \<in> must_block rules deny qs" if m: "x \<in> set vs'" for x
    proof -
      obtain ys zs where x: "rev vs' = ys @ x # zs" using m split_list [of x "rev vs'"] by auto
      have "x \<in> set (path_prefixes q)" using m r by simp
      then have xq: "x \<noteq> []" "prefix x q" by (auto simp: set_path_prefixes)
      have "path_prefixes q ! length ys = x" "path_prefixes q ! (length ys + 1 + length zs) = d"
        "length ys + 1 + length zs < length (path_prefixes q)" using r x by (simp_all add: nth_append)
      then have "x = take (Suc (length ys)) q" "d = take (Suc (length ys + 1 + length zs)) q"
        using nth_path_prefixes [of "length ys" q] nth_path_prefixes [of "length ys + 1 + length zs" q] by auto
      then have "x = take (Suc (length ys)) d" by (simp add: min_def)
      then have "prefix x d" by (metis take_is_prefix)
      then show ?thesis using db xq(1) by (auto simp: must_block_def intro: prefix_order.trans)
    qed
    then show ?thesis using d(3) assms(3) by auto
  qed
  ultimately have "set (block_prefixes blocked (map path_string (rev (path_prefixes q)))) =
      set blocked \<union> set (map path_string (rev (path_prefixes q)))" by (rule block_prefixes_set)
  then show ?thesis by (simp add: set_path_prefixes)
qed

lemma must_block_insert:
  "must_block rules deny (insert q qs) = must_block rules deny qs \<union>
     (if closed_path rules deny q then {p. p \<noteq> [] \<and> prefix p q} else {})"
  by (auto simp: must_block_def)

lemma list_ex_cong_map: "list_ex (\<lambda>n. P (f n)) xs = list_ex P (map f xs)"
  by (induction xs) simp_all

lemma block_step_inv:
  assumes inv: "block_inv rules deny qs s" and ok: "path_ok q"
    and anc: "\<forall>d. d \<noteq> [] \<and> strict_prefix d q \<longrightarrow> d \<in> qs"
  shows "block_inv rules deny (insert q qs) (block_step rules deny q s)"
proof (cases "bs_last_path s = Some q")
  case True
  then have "q \<in> qs" using inv by (simp add: block_inv_def)
  then show ?thesis using inv True by (simp add: block_step_def insert_absorb)
next
  case False
  let ?cand = "path_string q" and ?offs = "end_offsets 0 q"
  let ?desc = "list_ex (\<lambda>n. List.member (bs_directly_denied s) (take n ?cand)) (butlast ?offs)"
  have qs: "\<forall>q\<in>qs. path_ok q" using inv by (simp add: block_inv_def)
  have strings: "map (\<lambda>n. take n ?cand) (butlast ?offs) = map path_string (butlast (path_prefixes q))"
    by (simp add: map_butlast prefix_strings)
  have "?desc \<longleftrightarrow> (\<exists>d. d \<noteq> [] \<and> strict_prefix d q \<and> path_string d \<in> set (bs_directly_denied s))"
    by (subst list_ex_cong_map, subst strings) (auto simp: list_ex_iff butlast_prefixes)
  also have "\<dots> \<longleftrightarrow> (\<exists>d. d \<noteq> [] \<and> strict_prefix d q \<and> denies rules deny (path_string d))"
    using inv anc by (auto simp: block_inv_def image_iff)
  finally have closed: "denies rules deny ?cand \<or> ?desc \<longleftrightarrow> closed_path rules deny q"
    using ok by (auto simp: closed_path_def strict_prefix_def path_ok_def)
  have marks: "map (\<lambda>n. take n ?cand) (rev ?offs) = map path_string (rev (path_prefixes q))"
    by (simp add: rev_map [symmetric] prefix_strings)
  have "set (bs_blocked s) = path_string ` must_block rules deny qs" using inv by (simp add: block_inv_def)
  from mark_prefixes [OF qs ok this]
  have "set (if denies rules deny ?cand \<or> ?desc then block_prefixes (bs_blocked s) (map (\<lambda>n. take n ?cand) (rev ?offs))
      else bs_blocked s) = path_string ` must_block rules deny (insert q qs)"
    unfolding closed marks using inv by (auto simp: must_block_insert block_inv_def)
  then show ?thesis
    using inv False ok by (auto simp: block_step_def block_inv_def Let_def)
qed

lemma block_fold_inv:
  "block_inv rules deny qs s \<Longrightarrow> tree_ordered qs ps \<Longrightarrow> list_all path_ok ps \<Longrightarrow>
     block_inv rules deny (qs \<union> set ps) (fold (block_step rules deny) ps s)"
proof (induction ps arbitrary: qs s)
  case (Cons p ps)
  then have "block_inv rules deny (insert p qs) (block_step rules deny p s)"
    by (intro block_step_inv) auto
  from Cons.IH [OF this] Cons.prems show ?case by simp
qed simp

lemma blocked_exact:
  assumes "element_paths xml = Inr paths" "blocked_read_paths rules xml deny = Inr blocked" "path_ok p"
  shows "is_read_blocked blocked p \<longleftrightarrow> (\<exists>q\<in>set paths. prefix p q \<and> closed_path rules deny q)"
proof -
  let ?s = "\<lparr>bs_blocked = [], bs_directly_denied = [], bs_last_path = None\<rparr>"
  have w: "walk_elements [] 0 xml = Inr paths" using assms(1) by (simp add: element_paths_def)
  from walk_tree_ordered [OF w, of "{}"] have t: "tree_ordered {} paths" "list_all path_ok paths" by simp_all
  have "block_inv rules deny {} ?s" by (simp add: block_inv_def must_block_def)
  from block_fold_inv [OF this t] have
    "block_inv rules deny (set paths) (fold (block_step rules deny) paths ?s)" by simp
  then have b: "set blocked = path_string ` must_block rules deny (set paths)" "\<forall>q\<in>set paths. path_ok q"
    using assms(2) w by (auto simp: blocked_read_paths_def block_inv_def)
  have "path_string p \<in> set blocked \<longleftrightarrow> p \<in> must_block rules deny (set paths)"
  proof
    assume "path_string p \<in> set blocked"
    then obtain e where e: "path_string p = path_string e" "e \<in> must_block rules deny (set paths)"
      unfolding b(1) by (rule imageE)
    have "path_ok e" by (rule must_block_ok [OF b(2) e(2)])
    then have "p = e" using e(1) path_string_inj [OF assms(3)] by blast
    then show "p \<in> must_block rules deny (set paths)" using e(2) by simp
  qed (simp add: b(1))
  then show ?thesis using assms(3) by (auto simp: is_read_blocked_def must_block_def path_ok_def)
qed

section \<open>Command documents\<close>

text \<open>
  The two walks agree on a document that is one chain: while its elements open, the command walk
  has each open element with one child, the last with none, and no leaf yet; once the innermost
  has closed, its leaf is the whole chain and no element may open any more.
\<close>

definition frames_of :: "element_path \<Rightarrow> nat \<Rightarrow> xml_frame list" where
  "frames_of stack n =
     (case rev stack of [] \<Rightarrow> []
      | inner # rest \<Rightarrow> \<lparr>fr_name = inner, fr_child_count = n\<rparr> # map (\<lambda>a. \<lparr>fr_name = a, fr_child_count = 1\<rparr>) rest)"

definition opening_at :: "element_path \<Rightarrow> command_state" where
  "opening_at stack = \<lparr>cw_stack = frames_of stack 0, cw_root_seen = (stack \<noteq> []),
     cw_element_count = length stack, cw_leaf_path = None\<rparr>"

definition closing_at :: "element_path \<Rightarrow> element_path \<Rightarrow> command_state" where
  "closing_at stack leaf = \<lparr>cw_stack = frames_of stack 1, cw_root_seen = True,
     cw_element_count = length leaf, cw_leaf_path = Some leaf\<rparr>"

lemma frames_of_simps:
  "frames_of [] n = []"
  "frames_of (stack @ [a]) n = \<lparr>fr_name = a, fr_child_count = n\<rparr> # frames_of stack 1"
  by (simp_all add: frames_of_def split: list.split)

lemma frames_of_length [simp]: "length (frames_of stack n) = length stack"
  by (cases stack rule: rev_cases) (simp_all add: frames_of_def)

lemma frames_names: "rev (map fr_name (frames_of stack n)) = stack"
proof (induction stack arbitrary: n rule: rev_induct)
  case (snoc a stack)
  then show ?case by (simp add: frames_of_simps)
qed (simp add: frames_of_simps)

lemma open_opening:
  "open_command (opening_at stack) = Inr s \<longleftrightarrow> length stack < MAX_DEPTH \<and> length stack + 1 \<le> MAX_ELEMENTS \<and>
     s = \<lparr>cw_stack = frames_of stack 1, cw_root_seen = True, cw_element_count = length stack + 1, cw_leaf_path = None\<rparr>"
  by (cases stack rule: rev_cases)
    (auto simp: open_command_def opening_at_def frames_of_simps res_bind_Inr_iff require_Inr_iff)

lemma open_closing: "open_command (closing_at stack leaf) \<noteq> Inr s"
  by (cases stack rule: rev_cases)
    (auto simp: open_command_def closing_at_def frames_of_simps res_bind_Inr_iff require_Inr_iff)

lemma closing_walk:
  assumes "0 < n"
  shows "walk_command (closing_at stack leaf) es = Inr p \<longleftrightarrow> walk_elements stack n es = Inr [] \<and> p = path_string leaf"
  using assms
proof (induction es arbitrary: stack n)
  case Nil
  show ?case using Nil by (cases stack rule: rev_cases) (auto simp: closing_at_def frames_of_simps)
next
  case (Cons e es)
  show ?case
  proof (cases e)
    case EndEvent
    show ?thesis
    proof (cases stack rule: rev_cases)
      case Nil
      then show ?thesis by (simp add: EndEvent closing_at_def frames_of_simps)
    next
      case (snoc st a)
      have "walk_command (closing_at (st @ [a]) leaf) (EndEvent # es) = walk_command (closing_at st leaf) es"
        by (simp add: closing_at_def frames_of_simps record_if_leaf_def)
      then show ?thesis using Cons.IH [OF Cons.prems, of st] by (simp add: EndEvent snoc)
    qed
  qed (use Cons open_closing in \<open>auto simp: res_bind_Inr_iff\<close>)
qed

lemma walk_first_length: "walk_elements stack n es = Inr (p # ps) \<Longrightarrow> length p \<le> length stack + 1"
proof (induction stack n es rule: walk_elements.induct)
  case (4 stack n es)
  then show ?case by (auto split: if_splits)
qed (auto simp: res_bind_Inr_iff open_element_Inr split: if_splits)

lemma rest_of_chain:
  assumes "prefix stack leaf" "length stack < length leaf"
  shows "drop (length stack) (path_prefixes leaf) = take (Suc (length stack)) leaf # drop (Suc (length stack)) (path_prefixes leaf)"
  using assms(2) Cons_nth_drop_Suc [of "length stack" "path_prefixes leaf"] nth_path_prefixes [of "length stack" leaf]
  by simp

text \<open>What the chain still has to visit, from an element of it that is open.\<close>

definition remaining :: "element_path \<Rightarrow> element_path \<Rightarrow> element_path list" where
  "remaining stack leaf = drop (length stack) (path_prefixes leaf)"

lemma remaining_simps:
  "remaining leaf leaf = []"
  "prefix stack leaf \<Longrightarrow> remaining stack leaf = [] \<Longrightarrow> leaf = stack"
  "prefix (stack @ [a]) leaf \<Longrightarrow> remaining stack leaf = (stack @ [a]) # remaining (stack @ [a]) leaf"
proof -
  show "remaining leaf leaf = []" by (simp add: remaining_def)
  show "prefix stack leaf \<Longrightarrow> remaining stack leaf = [] \<Longrightarrow> leaf = stack"
    by (auto simp: remaining_def prefix_def)
  assume p: "prefix (stack @ [a]) leaf"
  then have "take (Suc (length stack)) leaf = stack @ [a]" "prefix stack leaf" "length stack < length leaf"
    by (auto simp: prefix_def)
  then show "remaining stack leaf = (stack @ [a]) # remaining (stack @ [a]) leaf"
    using rest_of_chain [of stack leaf] by (simp add: remaining_def)
qed

lemma walk_end: "walk_elements (st @ [a]) n (EndEvent # es) = walk_elements st n es"
  by simp

lemma command_end: "walk_command (opening_at (st @ [a])) (EndEvent # es) = walk_command (closing_at st (st @ [a])) es"
  by (simp add: opening_at_def closing_at_def frames_of_simps record_if_leaf_def frames_names)

lemma command_start:
  "walk_command (opening_at stack) (StartEvent name attrs # es) = Inr p \<longleftrightarrow>
     open_element stack (length stack) name attrs = Inr (stack @ [name]) \<and> walk_command (opening_at (stack @ [name])) es = Inr p"
  by (auto simp: res_bind_Inr_iff open_opening open_element_Inr validate_attrs_def opening_at_def [of "stack @ [name]"]
      frames_of_simps local_name_def split: option.splits if_splits)

lemma command_empty:
  "walk_command (opening_at stack) (EmptyEvent name attrs # es) = Inr p \<longleftrightarrow>
     open_element stack (length stack) name attrs = Inr (stack @ [name]) \<and>
     walk_command (closing_at stack (stack @ [name])) es = Inr p"
  by (auto simp: res_bind_Inr_iff open_opening open_element_Inr validate_attrs_def closing_at_def
      record_if_leaf_def frames_names local_name_def split: option.splits if_splits)

lemma command_is_chain:
  "walk_command (opening_at stack) es = Inr p \<Longrightarrow>
     \<exists>leaf. leaf \<noteq> [] \<and> prefix stack leaf \<and> walk_elements stack (length stack) es = Inr (remaining stack leaf) \<and>
       p = path_string leaf"
proof (induction es arbitrary: stack)
  case Nil
  then show ?case by (cases stack rule: rev_cases) (auto simp: opening_at_def frames_of_simps)
next
  case (Cons e es)
  show ?case
  proof (cases e)
    case (StartEvent name attrs)
    with Cons.prems have w: "open_element stack (length stack) name attrs = Inr (stack @ [name])"
      "walk_command (opening_at (stack @ [name])) es = Inr p" by (simp_all only: command_start)
    from Cons.IH [OF w(2)] obtain leaf where l: "leaf \<noteq> []" "prefix (stack @ [name]) leaf"
      "walk_elements (stack @ [name]) (length (stack @ [name])) es = Inr (remaining (stack @ [name]) leaf)" "p = path_string leaf"
      by blast
    then show ?thesis
      using w(1) remaining_simps(3) [OF l(2)]
      by (intro exI [of _ leaf]) (auto simp: StartEvent dest: append_prefixD)
  next
    case (EmptyEvent name attrs)
    with Cons.prems have w: "open_element stack (length stack) name attrs = Inr (stack @ [name])"
      "walk_command (closing_at stack (stack @ [name])) es = Inr p" by (simp_all only: command_empty)
    have "walk_elements stack (length stack + 1) es = Inr []" "p = path_string (stack @ [name])"
      using w(2) closing_walk [of "length stack + 1" stack "stack @ [name]" es p] by simp_all
    then show ?thesis
      using w(1) remaining_simps(1) [of "stack @ [name]"] remaining_simps(3) [of stack name "stack @ [name]"]
      by (intro exI [of _ "stack @ [name]"]) (simp add: EmptyEvent)
  next
    case EndEvent
    then obtain st a where st: "stack = st @ [a]"
      using Cons.prems by (cases stack rule: rev_cases) (simp_all add: opening_at_def frames_of_simps)
    then have "walk_command (closing_at st stack) es = Inr p" using Cons.prems EndEvent by (simp only: command_end)
    then have "walk_elements st (length stack) es = Inr []" "p = path_string stack"
      using closing_walk [of "length stack" st stack es p] st by simp_all
    then show ?thesis using st by (intro exI [of _ stack]) (simp add: EndEvent remaining_simps(1) walk_end del: walk_elements.simps(4))
  qed (use Cons in \<open>auto simp: res_bind_Inr_iff\<close>)
qed

lemma chain_is_command:
  "walk_elements stack (length stack) es = Inr (remaining stack leaf) \<Longrightarrow> prefix stack leaf \<Longrightarrow> leaf \<noteq> [] \<Longrightarrow>
     walk_command (opening_at stack) es = Inr (path_string leaf)"
proof (induction es arbitrary: stack)
  case Nil
  then have "stack = []" "length stack \<noteq> 0" by (auto split: if_splits)
  then show ?case by simp
next
  case (Cons e es)
  have hd: "qs = remaining (stack @ [name]) leaf \<and> prefix (stack @ [name]) leaf"
    if q: "remaining stack leaf = (stack @ [name]) # qs" for name qs
  proof -
    from q have "length stack < length leaf" by (auto simp: remaining_def intro: ccontr)
    with rest_of_chain [OF Cons.prems(2) this] q have "take (Suc (length stack)) leaf = stack @ [name]"
      "qs = drop (Suc (length stack)) (path_prefixes leaf)" by (simp_all add: remaining_def)
    then show ?thesis by (simp add: remaining_def) (metis take_is_prefix)
  qed
  have far: "Suc (length stack) < length q" if "remaining (stack @ [name]) leaf = q # qs" "prefix (stack @ [name]) leaf" for name q qs
  proof -
    have "length (stack @ [name]) < length leaf" using that by (auto simp: remaining_def intro: ccontr)
    with rest_of_chain [OF that(2)] that(1) have "q = take (Suc (length (stack @ [name]))) leaf" by (simp add: remaining_def)
    then show ?thesis using \<open>length (stack @ [name]) < length leaf\<close> by simp
  qed
  show ?case
  proof (cases e)
    case (StartEvent name attrs)
    with Cons.prems obtain qs where q: "open_element stack (length stack) name attrs = Inr (stack @ [name])"
      "walk_elements (stack @ [name]) (length stack + 1) es = Inr qs" "remaining stack leaf = (stack @ [name]) # qs"
      by (auto simp: res_bind_Inr_iff open_element_Inr)
    then show ?thesis using hd [OF q(3)] Cons.IH [of "stack @ [name]"] Cons.prems(3)
      by (simp only: StartEvent command_start) simp
  next
    case (EmptyEvent name attrs)
    with Cons.prems obtain qs where q: "open_element stack (length stack) name attrs = Inr (stack @ [name])"
      "walk_elements stack (length stack + 1) es = Inr qs" "remaining stack leaf = (stack @ [name]) # qs"
      by (auto simp: res_bind_Inr_iff open_element_Inr)
    have r: "qs = remaining (stack @ [name]) leaf" "prefix (stack @ [name]) leaf" using hd [OF q(3)] by simp_all
    have "qs = []"
    proof (cases qs)
      case (Cons p ps)
      then show ?thesis using walk_first_length [of stack "length stack + 1" es p ps] q(2) far [of name p ps] r by simp
    qed
    then have "leaf = stack @ [name]" using r remaining_simps(2) by metis
    then show ?thesis
      using q(1,2) \<open>qs = []\<close> closing_walk [of "length stack + 1" stack leaf es] by (simp only: EmptyEvent command_empty)
  next
    case EndEvent
    then obtain st a where st: "stack = st @ [a]" using Cons.prems by (cases stack rule: rev_cases) auto
    then have w: "walk_elements st (length stack) es = Inr (remaining stack leaf)" using Cons.prems EndEvent by (simp add: walk_end)
    have "remaining stack leaf = []"
    proof (cases "remaining stack leaf")
      case (Cons q qs)
      then have "length stack < length leaf" by (auto simp: remaining_def intro: ccontr)
      with rest_of_chain [OF Cons.prems(2) this] Cons have "length q = Suc (length stack)" by (auto simp: remaining_def)
      then show ?thesis using walk_first_length [of st "length stack" es q qs] w Cons st by simp
    qed
    then have "leaf = stack" using remaining_simps(2) Cons.prems(2) by metis
    then show ?thesis
      using w \<open>remaining stack leaf = []\<close> closing_walk [of "length stack" st stack es] st
      by (simp only: EndEvent command_end) simp
  qed (use Cons in \<open>auto simp: res_bind_Inr_iff\<close>)
qed

lemma canonical_command_iff:
  "canonical_command_path xml = Inr p \<longleftrightarrow>
     (\<exists>path. path \<noteq> [] \<and> element_paths xml = Inr (path_prefixes path) \<and> p = path_string path)"
proof -
  have o: "canonical_command_path xml = walk_command (opening_at []) xml"
    by (simp add: canonical_command_path_def opening_at_def frames_of_simps)
  show ?thesis
    using command_is_chain [of "[]" xml p] chain_is_command [of "[]" xml]
    by (auto simp: o element_paths_def remaining_def)
qed

end
