(* ===== verification/Policy_Properties.thy ===== *)
theory Policy_Properties
  imports Xml_Facts
begin

text \<open>
  The claims about the guardrails: what the allowlist lets through, which paths of a document a
  read policy closes, and which command documents have a canonical path.
\<close>

section \<open>A sample policy\<close>

definition sample_allowlist :: command_allowlist where
  "sample_allowlist = \<lparr>al_entries = [[''show'', ''version'']], al_allowed_pipes = [[''match'']]\<rparr>"

definition sample_rule :: "bool compiled_rule" where
  "sample_rule = \<lparr>cr_pattern = ''c/login'', cr_action = False, cr_source = Defaults,
     cr_matcher = (\<lambda>s. s = ''c/login''), cr_specificity = (7, 7)\<rparr>"

definition sample_document :: "xml_event list" where
  "sample_document = [StartEvent ''c'' None, StartEvent ''login'' None, EmptyEvent ''user'' None, EndEvent,
     EmptyEvent ''host'' None, EndEvent]"

section \<open>Claims\<close>

text \<open>
  C12. Under the fail-closed mode a command is allowed exactly when the command as it was given,
  before any normalisation, has no separator or redirection character, the tokens of its first
  stage start with the tokens of an entry, and the tokens of every further stage start with those
  of an allowed pipe. In particular nothing is allowed by an empty list, and the device is not
  consulted.
\<close>

theorem allowlist_exact:
  "pol_command_mode p = AllowlistMode \<Longrightarrow>
     is_allowed (check_command p device command deny) \<longleftrightarrow>
     (\<forall>c\<in>set command. \<not> forbidden_char c) \<and>
     (\<exists>e\<in>set (al_entries (cd_allowlist (pol_commands p))).
        prefix e (split_whitespace (hd (split_char pipe command)))) \<and>
     (\<forall>stage\<in>set (tl (split_char pipe command)).
        \<exists>e\<in>set (al_allowed_pipes (cd_allowlist (pol_commands p))). prefix e (split_whitespace stage))"
proof -
  assume m: "pol_command_mode p = AllowlistMode"
  have ne: "split_char pipe command \<noteq> []" by (rule split_char_nonempty)
  have t: "hd (stage_tokens command) = split_whitespace (hd (split_char pipe command))"
    "tl (stage_tokens command) = map split_whitespace (tl (split_char pipe command))"
    using ne by (simp_all add: stage_tokens_def hd_map map_tl)
  have "is_allowed (check_command p device command deny) \<longleftrightarrow>
      evaluate_allowlist command (cd_allowlist (pol_commands p)) = (Allow :: 'a decision)"
    by (simp add: check_command_def m is_allowed_def split: decision.split)
  then show ?thesis
    by (auto simp: evaluate_allowlist_iff t contains_forbidden_metachar_def list_ex_iff)
qed

theorem allowlist_exact_witness:
  "is_allowed (check_command \<lparr>pol_command_mode = AllowlistMode,
       pol_commands = \<lparr>cd_blocklist = \<lparr>dom_defaults = [], dom_device_specific = []\<rparr>, cd_allowlist = sample_allowlist\<rparr>,
       pol_config = \<lparr>dom_defaults = [], dom_device_specific = []\<rparr>,
       pol_pfe_commands = \<lparr>cd_blocklist = \<lparr>dom_defaults = [], dom_device_specific = []\<rparr>,
         cd_allowlist = \<lparr>al_entries = [], al_allowed_pipes = []\<rparr>\<rparr>\<rparr> ''dev'' ''show  version | match x'' False)"
proof -
  have s: "split_char pipe ''show  version | match x'' = [''show  version '', '' match x'']" by simp
  have "split_whitespace ''show  version '' = [''show'', ''version'']" "split_whitespace '' match x'' = [''match'', ''x'']"
    by code_simp+
  moreover have "\<forall>c\<in>set ''show  version | match x''. \<not> forbidden_char c" by (simp add: forbidden_char_def)
  ultimately show ?thesis
    by (subst allowlist_exact) (simp_all add: s sample_allowlist_def)
qed

text \<open>
  C15. The blocked set of a read policy is the one its rules require: a path is reported as blocked
  exactly when some element of the document at or below it lies in a closed subtree, that is, has
  itself or an ancestor matched by a deny rule. The two shortcuts of the one-pass algorithm,
  skipping a path equal to the previous one and stopping at the first prefix already marked, lose
  nothing.
\<close>

theorem blocked_paths_exact:
  assumes "element_paths xml = Inr paths" "blocked_read_paths rules xml deny = Inr blocked" "path_ok p"
  shows "is_read_blocked blocked p \<longleftrightarrow>
    (\<exists>q\<in>set paths. prefix p q \<and> (\<exists>d. d \<noteq> [] \<and> prefix d q \<and> denies rules deny (path_string d)))"
  using blocked_exact [OF assms] by (simp add: closed_path_def)

theorem blocked_paths_exact_witness:
  "\<exists>blocked. blocked_read_paths [sample_rule] sample_document False = Inr blocked \<and>
     is_read_blocked blocked [''c''] \<and> is_read_blocked blocked [''c'', ''login'', ''user''] \<and>
     \<not> is_read_blocked blocked [''c'', ''host'']"
proof -
  let ?paths = "[[''c''], [''c'', ''login''], [''c'', ''login'', ''user''], [''c'', ''host'']]"
  have n: "local_name ''c'' = Inr ''c''" "local_name ''login'' = Inr ''login''" "local_name ''user'' = Inr ''user''"
    "local_name ''host'' = Inr ''host''" by code_simp+
  have e: "element_paths sample_document = Inr ?paths"
    by (simp add: element_paths_def sample_document_def open_element_def validate_attrs_def n MAX_DEPTH_def
        MAX_ELEMENTS_def require_def)
  obtain blocked where b: "blocked_read_paths [sample_rule] sample_document False = Inr blocked"
    using e by (auto simp: blocked_read_paths_def element_paths_def)
  have d: "denies [sample_rule] False s \<longleftrightarrow> s = ''c/login''" for s
    by (simp add: denies_def evaluate_def sample_rule_def)
  note x = blocked_paths_exact [OF e b]
  have "path_ok [''c'']" "path_ok [''c'', ''login'', ''user'']" "path_ok [''c'', ''host'']"
    by (simp_all add: path_ok_def)
  note x1 = x [OF this(1)] and x2 = x [OF this(2)] and x3 = x [OF this(3)]
  have "is_read_blocked blocked [''c'']"
    unfolding x1 by (rule bexI [of _ "[''c'', ''login'']"]) (auto simp: d path_string_def intro!: exI [of _ "[''c'', ''login'']"])
  moreover have "is_read_blocked blocked [''c'', ''login'', ''user'']"
    unfolding x2 by (rule bexI [of _ "[''c'', ''login'', ''user'']"])
      (auto simp: d path_string_def intro!: exI [of _ "[''c'', ''login'']"])
  moreover have "\<not> is_read_blocked blocked [''c'', ''host'']"
    unfolding x3 by (auto simp: d path_string_def prefix_Cons)
  ultimately show ?thesis using b by blast
qed

text \<open>
  C40. A command document has a canonical path exactly when its elements are one chain: the walk that
  collects every element path succeeds and yields the nonempty prefixes of one path, each once and
  in order, and the canonical path is that path. Two roots, a second child anywhere, even one of
  the same name, or any parse error is refused.
\<close>

theorem canonical_command_is_chain:
  "canonical_command_path xml = Inr p \<longleftrightarrow>
     (\<exists>path. path \<noteq> [] \<and> element_paths xml = Inr (map (\<lambda>i. take i path) [1..<Suc (length path)]) \<and>
        p = path_string path)"
  using canonical_command_iff [of xml p] by (simp add: path_prefixes_def del: upt_Suc)

end
