(* ===== verification/Rate_Limit.thy ===== *)
theory Rate_Limit
  imports Ordered_Map Text_Ops
begin

text \<open>
  Request-rate limiting (\<open>mecmcp-transport\<close>: \<open>config.rs\<close>, \<open>rate_limit.rs\<close>, and the responses of
  \<open>overload.rs\<close>): the limits, the key a request is counted under, the token buckets with their
  nanosecond arithmetic, the bounded map of buckets and the middlewares. An \<open>Instant\<close> is a number
  of nanoseconds. A \<open>HashMap\<close> is a map in key order; the order in which it is iterated, on which
  the choice between equally old entries depends, is the field \<open>iteration\<close> of the environment.
\<close>

section \<open>Limits\<close>

datatype limits_error =
    IncompleteTokenRateLimit (lim_rate: nat) (lim_burst: nat)
  | IncompleteIpRateLimit (lim_rate: nat) (lim_burst: nat)

record 'net limits_config =
  lc_max_request_body_bytes :: nat
  lc_max_inflight_requests :: nat
  lc_max_inflight_requests_per_token :: nat
  lc_max_requests_per_second_per_ip :: nat
  lc_max_request_burst_per_ip :: nat
  lc_max_requests_per_second_per_token :: nat
  lc_max_request_burst_per_token :: nat
  lc_max_inflight_requests_per_device :: nat
  lc_trusted_proxies :: "'net list"
  lc_max_sessions :: nat
  lc_max_sessions_per_token :: nat
  lc_session_idle_timeout_secs :: nat
  lc_session_max_lifetime_secs :: nat

definition default_limits_config :: "'net limits_config" where
  "default_limits_config = \<lparr>lc_max_request_body_bytes = 10 * 1024 * 1024, lc_max_inflight_requests = 64,
     lc_max_inflight_requests_per_token = 16, lc_max_requests_per_second_per_ip = 50,
     lc_max_request_burst_per_ip = 100, lc_max_requests_per_second_per_token = 20,
     lc_max_request_burst_per_token = 40, lc_max_inflight_requests_per_device = 4,
     lc_trusted_proxies = [], lc_max_sessions = 128, lc_max_sessions_per_token = 16,
     lc_session_idle_timeout_secs = 300, lc_session_max_lifetime_secs = 3600\<rparr>"

definition validate_limits :: "'net limits_config \<Rightarrow> limits_error + unit" where
  "validate_limits c =
     (let token_rate = lc_max_requests_per_second_per_token c;
          token_burst = lc_max_request_burst_per_token c;
          ip_rate = lc_max_requests_per_second_per_ip c;
          ip_burst = lc_max_request_burst_per_ip c in
      if (token_rate = 0) \<noteq> (token_burst = 0) then Inl (IncompleteTokenRateLimit token_rate token_burst)
      else if (ip_rate = 0) \<noteq> (ip_burst = 0) then Inl (IncompleteIpRateLimit ip_rate ip_burst)
      else Inr ())"

definition ip_rate_limit_enabled :: "'net limits_config \<Rightarrow> bool" where
  "ip_rate_limit_enabled c \<longleftrightarrow>
     lc_max_requests_per_second_per_ip c > 0 \<and> lc_max_request_burst_per_ip c > 0"

definition token_rate_limit_enabled :: "'net limits_config \<Rightarrow> bool" where
  "token_rate_limit_enabled c \<longleftrightarrow>
     lc_max_requests_per_second_per_token c > 0 \<and> lc_max_request_burst_per_token c > 0"

definition TOKEN_SCALE :: nat where
  "TOKEN_SCALE = 1000000000"

definition idle_timeout :: "'net limits_config \<Rightarrow> nat option" where
  "idle_timeout c = (if lc_session_idle_timeout_secs c > 0
     then Some (lc_session_idle_timeout_secs c * TOKEN_SCALE) else None)"

definition max_lifetime :: "'net limits_config \<Rightarrow> nat option" where
  "max_lifetime c = (if lc_session_max_lifetime_secs c > 0
     then Some (lc_session_max_lifetime_secs c * TOKEN_SCALE) else None)"


section \<open>The address a request is counted under\<close>

text \<open>
  Addresses and networks are those of \<open>std::net\<close> and \<open>ipnet\<close>: \<open>to_canonical\<close>, the parser, the
  printer and the containment test are parameters, as is \<open>HeaderValue::to_str\<close>, which refuses a
  line that is not visible ASCII.
\<close>

record ('ip, 'net) ip_lib =
  ip_to_canonical :: "'ip \<Rightarrow> 'ip"
  ip_parse :: "string \<Rightarrow> 'ip option"
  ip_to_string :: "'ip \<Rightarrow> string"
  net_contains :: "'net \<Rightarrow> 'ip \<Rightarrow> bool"
  header_to_str :: "string \<Rightarrow> string option"

definition trusted :: "('ip, 'net) ip_lib \<Rightarrow> 'net list \<Rightarrow> 'ip \<Rightarrow> bool" where
  "trusted L proxies ip \<longleftrightarrow> (\<exists>network\<in>set proxies. net_contains L network ip)"

fun forwarded_entries :: "('ip, 'net) ip_lib \<Rightarrow> string list \<Rightarrow> string list option" where
  "forwarded_entries L [] = Some []"
| "forwarded_entries L (value # values) =
     (case header_to_str L value of None \<Rightarrow> None
      | Some text \<Rightarrow> map_option (\<lambda>rest. split_char (CHR '','') text @ rest) (forwarded_entries L values))"

fun rightmost_untrusted :: "('ip, 'net) ip_lib \<Rightarrow> 'net list \<Rightarrow> 'ip \<Rightarrow> string list \<Rightarrow> 'ip" where
  "rightmost_untrusted L proxies peer [] = peer"
| "rightmost_untrusted L proxies peer (entry # entries) =
     (case map_option (ip_to_canonical L) (ip_parse L (trim entry)) of None \<Rightarrow> peer
      | Some addr \<Rightarrow>
          if \<not> trusted L proxies addr then addr else rightmost_untrusted L proxies peer entries)"

definition resolve_rate_limit_ip ::
  "('ip, 'net) ip_lib \<Rightarrow> 'ip \<Rightarrow> string list \<Rightarrow> 'net list \<Rightarrow> 'ip" where
  "resolve_rate_limit_ip L peer0 forwarded trusted_proxies =
     (let peer = ip_to_canonical L peer0 in
      if \<not> trusted L trusted_proxies peer then peer
      else case forwarded_entries L forwarded of None \<Rightarrow> peer
        | Some entries \<Rightarrow> rightmost_untrusted L trusted_proxies peer (rev entries))"


section \<open>Token buckets\<close>

definition U128_MAX :: nat where
  "U128_MAX = 2 ^ 128 - 1"

definition U64_MAX :: nat where
  "U64_MAX = 2 ^ 64 - 1"

definition u128_saturating_add :: "nat \<Rightarrow> nat \<Rightarrow> nat" where
  "u128_saturating_add a b = min (a + b) U128_MAX"

definition u128_saturating_mul :: "nat \<Rightarrow> nat \<Rightarrow> nat" where
  "u128_saturating_mul a b = min (a * b) U128_MAX"

definition div_ceil :: "nat \<Rightarrow> nat \<Rightarrow> nat" where
  "div_ceil a b = (if a mod b > 0 then a div b + 1 else a div b)"

definition capacity_units :: "nat \<Rightarrow> nat" where
  "capacity_units burst = u128_saturating_mul burst TOKEN_SCALE"

definition refill_units :: "nat \<Rightarrow> nat \<Rightarrow> nat" where
  "refill_units elapsed rate = u128_saturating_mul elapsed rate"

datatype rate_decision = RateAllowed | RateLimited (retry_after_secs: nat)

record bucket =
  bk_available_units :: nat
  bk_last_refill :: nat

definition full_bucket :: "nat \<Rightarrow> nat \<Rightarrow> bucket" where
  "full_bucket burst at = \<lparr>bk_available_units = capacity_units burst, bk_last_refill = at\<rparr>"

text \<open>\<open>checked_duration_since\<close> is \<open>None\<close> when the clock is behind the last refill. A rate of zero,
  on which the division would panic, never reaches this function: both callers return first.\<close>

definition refilled :: "bucket \<Rightarrow> nat \<Rightarrow> nat \<Rightarrow> nat \<Rightarrow> bucket" where
  "refilled b at rate burst =
     (if bk_last_refill b \<le> at
      then \<lparr>bk_available_units = min (u128_saturating_add (bk_available_units b)
              (refill_units (at - bk_last_refill b) rate)) (capacity_units burst),
            bk_last_refill = at\<rparr>
      else b)"

definition bucket_check :: "bucket \<Rightarrow> nat \<Rightarrow> nat \<Rightarrow> nat \<Rightarrow> rate_decision \<times> bucket" where
  "bucket_check b0 at rate burst =
     (let b = refilled b0 at rate burst in
      if bk_available_units b \<ge> TOKEN_SCALE
      then (RateAllowed, b\<lparr>bk_available_units := bk_available_units b - TOKEN_SCALE\<rparr>)
      else let deficit_units = TOKEN_SCALE - bk_available_units b;
               wait_ns = div_ceil deficit_units rate;
               retry_secs = max (div_ceil wait_ns TOKEN_SCALE) 1
           in (RateLimited (if retry_secs \<le> U64_MAX then retry_secs else U64_MAX), b))"


section \<open>The bounded map of buckets\<close>

definition MAX_IP_BUCKETS :: nat where
  "MAX_IP_BUCKETS = 8192"

definition MAX_TOKEN_BUCKETS :: nat where
  "MAX_TOKEN_BUCKETS = 2048"

record bucket_map =
  bm_buckets :: "(string, bucket \<times> nat) btree"
  bm_max_size :: nat

definition new_bucket_map :: "nat \<Rightarrow> bucket_map" where
  "new_bucket_map max_size = \<lparr>bm_buckets = [], bm_max_size = max_size\<rparr>"

text \<open>The order in which a \<open>HashMap\<close> hands out its entries.\<close>

type_synonym iteration = "(string \<times> bucket \<times> nat) list \<Rightarrow> (string \<times> bucket \<times> nat) list"

text \<open>\<open>Iterator::min_by_key\<close>: the first of the least elements.\<close>

fun min_by_key :: "('a \<Rightarrow> nat) \<Rightarrow> 'a list \<Rightarrow> 'a option" where
  "min_by_key f [] = None"
| "min_by_key f (x # xs) =
     (case min_by_key f xs of None \<Rightarrow> Some x | Some y \<Rightarrow> if f y < f x then Some y else Some x)"

definition oldest_key :: "iteration \<Rightarrow> (string, bucket \<times> nat) btree \<Rightarrow> string option" where
  "oldest_key iter m = map_option fst (min_by_key (\<lambda>(_, _, last_access). last_access) (iter m))"

text \<open>The key \<open>BucketMap::check\<close> evicts to make room for another one, if any.\<close>

definition evicted_key :: "iteration \<Rightarrow> bucket_map \<Rightarrow> string \<Rightarrow> string option" where
  "evicted_key iter m key =
     (if bt_get (bm_buckets m) key = None \<and> length (bm_buckets m) \<ge> bm_max_size m
      then oldest_key iter (bm_buckets m) else None)"

definition make_room :: "iteration \<Rightarrow> bucket_map \<Rightarrow> string \<Rightarrow> (string, bucket \<times> nat) btree" where
  "make_room iter m key =
     (case evicted_key iter m key of None \<Rightarrow> bm_buckets m
      | Some oldest \<Rightarrow> bt_remove oldest (bm_buckets m))"

definition map_check ::
  "iteration \<Rightarrow> bucket_map \<Rightarrow> string \<Rightarrow> nat \<Rightarrow> nat \<Rightarrow> nat \<Rightarrow> rate_decision \<times> bucket_map" where
  "map_check iter m key at rate burst =
     (let buckets = make_room iter m key;
          b = (case bt_get buckets key of None \<Rightarrow> full_bucket burst at | Some (b, _) \<Rightarrow> b);
          (d, b') = bucket_check b at rate burst
      in (d, m\<lparr>bm_buckets := bt_insert key (b', at) buckets\<rparr>))"


section \<open>The limiter and its middlewares\<close>

record 'net rate_limit_state =
  rl_ip_buckets :: bucket_map
  rl_token_buckets :: bucket_map
  rl_ip_rate_per_second :: nat
  rl_ip_burst :: nat
  rl_token_rate_per_second :: nat
  rl_token_burst :: nat
  rl_trusted_proxies :: "'net list"

definition new_rate_limit_state :: "'net limits_config \<Rightarrow> 'net rate_limit_state" where
  "new_rate_limit_state c =
     \<lparr>rl_ip_buckets = new_bucket_map MAX_IP_BUCKETS, rl_token_buckets = new_bucket_map MAX_TOKEN_BUCKETS,
      rl_ip_rate_per_second = lc_max_requests_per_second_per_ip c,
      rl_ip_burst = lc_max_request_burst_per_ip c,
      rl_token_rate_per_second = lc_max_requests_per_second_per_token c,
      rl_token_burst = lc_max_request_burst_per_token c,
      rl_trusted_proxies = lc_trusted_proxies c\<rparr>"

definition check_ip ::
  "iteration \<Rightarrow> 'net rate_limit_state \<Rightarrow> string \<Rightarrow> nat \<Rightarrow> rate_decision \<times> 'net rate_limit_state" where
  "check_ip iter s ip at =
     (if rl_ip_rate_per_second s = 0 \<or> rl_ip_burst s = 0 then (RateAllowed, s)
      else let (d, m) = map_check iter (rl_ip_buckets s) ip at (rl_ip_rate_per_second s) (rl_ip_burst s)
           in (d, s\<lparr>rl_ip_buckets := m\<rparr>))"

definition check_token ::
  "iteration \<Rightarrow> 'net rate_limit_state \<Rightarrow> string \<Rightarrow> nat \<Rightarrow> rate_decision \<times> 'net rate_limit_state" where
  "check_token iter s token at =
     (if rl_token_rate_per_second s = 0 then (RateAllowed, s)
      else let (d, m) = map_check iter (rl_token_buckets s) token at (rl_token_rate_per_second s)
                 (rl_token_burst s)
           in (d, s\<lparr>rl_token_buckets := m\<rparr>))"

text \<open>What the middlewares read of a request: the peer of the connection, the forwarding headers,
  and the two extensions that may name the token.\<close>

record 'ip http_request =
  rq_connect_info :: "'ip option"
  rq_forwarded_for :: "string list"
  rq_authenticated_token :: "string option"
  rq_caller_ctx :: "string option"

definition token_name :: "'ip http_request \<Rightarrow> string option" where
  "token_name r = (case rq_authenticated_token r of Some name \<Rightarrow> Some name | None \<Rightarrow> rq_caller_ctx r)"

datatype rate_response = TooManyRequests (rr_limit: string) (rr_retry_after: nat) | Forwarded

definition rate_limit_ip ::
  "('ip, 'net) ip_lib \<Rightarrow> 'net rate_limit_state \<Rightarrow> 'ip http_request \<Rightarrow> string option" where
  "rate_limit_ip L s r =
     map_option (\<lambda>peer. ip_to_string L (resolve_rate_limit_ip L peer (rq_forwarded_for r) (rl_trusted_proxies s)))
       (rq_connect_info r)"

definition ip_rate_limit_middleware ::
  "('ip, 'net) ip_lib \<Rightarrow> iteration \<Rightarrow> 'net rate_limit_state \<Rightarrow> 'ip http_request \<Rightarrow> nat \<Rightarrow>
     rate_response \<times> 'net rate_limit_state" where
  "ip_rate_limit_middleware L iter s r at =
     (case rate_limit_ip L s r of None \<Rightarrow> (Forwarded, s)
      | Some ip \<Rightarrow> (case check_ip iter s ip at of
            (RateLimited secs, s') \<Rightarrow> (TooManyRequests ''ip_rate'' secs, s')
          | (RateAllowed, s') \<Rightarrow> (Forwarded, s')))"

definition token_rate_limit_middleware ::
  "iteration \<Rightarrow> 'net rate_limit_state \<Rightarrow> 'ip http_request \<Rightarrow> nat \<Rightarrow>
     rate_response \<times> 'net rate_limit_state" where
  "token_rate_limit_middleware iter s r at =
     (case token_name r of None \<Rightarrow> (Forwarded, s)
      | Some token \<Rightarrow> (case check_token iter s token at of
            (RateLimited secs, s') \<Rightarrow> (TooManyRequests ''token_rate'' secs, s')
          | (RateAllowed, s') \<Rightarrow> (Forwarded, s')))"

definition rate_limit_middleware ::
  "('ip, 'net) ip_lib \<Rightarrow> iteration \<Rightarrow> 'net rate_limit_state \<Rightarrow> 'ip http_request \<Rightarrow> nat \<Rightarrow>
     rate_response \<times> 'net rate_limit_state" where
  "rate_limit_middleware L iter s r at =
     (case (case rate_limit_ip L s r of None \<Rightarrow> (RateAllowed, s) | Some ip \<Rightarrow> check_ip iter s ip at) of
        (RateLimited secs, s') \<Rightarrow> (TooManyRequests ''ip_rate'' secs, s')
      | (RateAllowed, s') \<Rightarrow>
          (case (case token_name r of None \<Rightarrow> (RateAllowed, s') | Some token \<Rightarrow> check_token iter s' token at) of
             (RateLimited secs, s'') \<Rightarrow> (TooManyRequests ''token_rate'' secs, s'')
           | (RateAllowed, s'') \<Rightarrow> (Forwarded, s'')))"

definition RETRY_AFTER_SECS :: nat where
  "RETRY_AFTER_SECS = 1"

record overload_reply =
  ov_status :: nat
  ov_retry_after :: string
  ov_body :: string

definition overload_response :: "string \<Rightarrow> overload_reply" where
  "overload_response limit_kind =
     \<lparr>ov_status = 503, ov_retry_after = decimal RETRY_AFTER_SECS,
      ov_body = ''{\"error\":\"overloaded\",\"limit\":\"'' @ limit_kind @ ''\"}''\<rparr>"

definition rate_limited_response :: "string \<Rightarrow> nat \<Rightarrow> overload_reply" where
  "rate_limited_response limit_kind secs =
     \<lparr>ov_status = 429, ov_retry_after = decimal secs,
      ov_body = ''{\"error\":\"rate_limited\",\"limit\":\"'' @ limit_kind @ ''\"}''\<rparr>"

end
