(* ===== verification/Rate_Facts.thy ===== *)
theory Rate_Facts
  imports Rate_Limit
begin

text \<open>
  What the buckets guarantee. The \<^emph>\<open>credit\<close> of a key is what its bucket would hold if it were
  refilled now; a check takes one unit of it exactly when it allows the request. Along a run of
  the middleware the credit bounds the number of requests let through, and a refused caller who
  waits as told finds a unit of credit. The size of the map is bounded.
\<close>

section \<open>Arithmetic\<close>

lemma TOKEN_SCALE_pos [simp]: "0 < TOKEN_SCALE"
  by (simp add: TOKEN_SCALE_def)

lemma div_ceil_mult: "0 < b \<Longrightarrow> a \<le> b * div_ceil a b"
proof -
  assume "0 < b"
  have a: "a = b * (a div b) + a mod b" and "a mod b < b" using \<open>0 < b\<close> by simp_all
  show ?thesis
  proof (cases "a mod b = 0")
    case False
    have "a \<le> b * (a div b) + b" using a \<open>a mod b < b\<close> by linarith
    then show ?thesis using False by (simp add: div_ceil_def)
  qed (use a in \<open>simp add: div_ceil_def\<close>)
qed

lemma div_ceil_one: "a \<le> b \<Longrightarrow> 0 < b \<Longrightarrow> div_ceil a b \<le> 1"
  by (cases "a = b") (simp_all add: div_ceil_def)

lemma div_ceil_le: "0 < b \<Longrightarrow> div_ceil a b \<le> a"
proof -
  assume "0 < b"
  have "a div b < a" if "0 < a mod b"
  proof (cases "b = 1")
    case False
    then show ?thesis using \<open>0 < b\<close> that by (intro div_less_dividend) (auto intro: gr0I)
  qed (use that in simp)
  then show ?thesis by (simp add: div_ceil_def Suc_leI)
qed

lemma capacity_le: "capacity_units burst \<le> U128_MAX" "capacity_units burst \<le> burst * TOKEN_SCALE"
  by (simp_all add: capacity_units_def u128_saturating_mul_def)

lemma capacity_scale: "0 < burst \<Longrightarrow> TOKEN_SCALE \<le> capacity_units burst"
  by (simp add: capacity_units_def u128_saturating_mul_def TOKEN_SCALE_def U128_MAX_def)

text \<open>Saturation never shows: the capacity is below the bound at which it sets in.\<close>

lemma refill_exact:
  "min (u128_saturating_add a (refill_units e rate)) (capacity_units burst) = min (a + e * rate) (capacity_units burst)"
  using capacity_le(1) [of burst]
  by (auto simp: u128_saturating_add_def refill_units_def u128_saturating_mul_def min_def)


section \<open>Credit\<close>

definition bucket_credit :: "nat \<Rightarrow> nat \<Rightarrow> nat \<Rightarrow> bucket \<Rightarrow> nat" where
  "bucket_credit rate burst at b =
     min (bk_available_units b + (at - bk_last_refill b) * rate) (capacity_units burst)"

definition credit :: "nat \<Rightarrow> nat \<Rightarrow> nat \<Rightarrow> string \<Rightarrow> bucket_map \<Rightarrow> nat" where
  "credit rate burst at key m = (case bt_get (bm_buckets m) key of
     None \<Rightarrow> capacity_units burst | Some (b, _) \<Rightarrow> bucket_credit rate burst at b)"

lemma credit_le: "credit rate burst at key m \<le> capacity_units burst"
  by (auto simp: credit_def bucket_credit_def split: option.splits)

lemma credit_later: "at \<le> at' \<Longrightarrow> credit rate burst at' key m \<le> credit rate burst at key m + (at' - at) * rate"
proof -
  assume le: "at \<le> at'"
  have "(at' - l) * rate \<le> (at - l) * rate + (at' - at) * rate" for l
    unfolding add_mult_distrib [symmetric] by (rule mult_le_mono1) (use le in arith)
  then have "bucket_credit rate burst at' b \<le> bucket_credit rate burst at b + (at' - at) * rate" for b
    unfolding bucket_credit_def min_def by (smt (verit) add.assoc add_left_mono le_trans nat_le_linear trans_le_add1)
  then show ?thesis by (auto simp: credit_def split: option.splits)
qed

text \<open>The clock of a map: no bucket was refilled after the given instant.\<close>

definition clock_ok :: "nat \<Rightarrow> bucket_map \<Rightarrow> bool" where
  "clock_ok t m \<longleftrightarrow> (\<forall>key b l. bt_get (bm_buckets m) key = Some (b, l) \<longrightarrow> bk_last_refill b \<le> t)"

lemma refilled_credit:
  "bk_last_refill b \<le> at \<Longrightarrow> refilled b at rate burst =
     \<lparr>bk_available_units = bucket_credit rate burst at b, bk_last_refill = at\<rparr>"
  by (simp add: refilled_def refill_exact bucket_credit_def)

lemma retry_is_one:
  "0 < rate \<Longrightarrow> d \<le> TOKEN_SCALE \<Longrightarrow> max (div_ceil (div_ceil d rate) TOKEN_SCALE) 1 = 1"
  using div_ceil_one [OF order_trans [OF div_ceil_le [of rate d]], of TOKEN_SCALE] by simp

lemma bucket_check_credit:
  assumes "bk_last_refill b \<le> at" "0 < rate"
  shows "bucket_check b at rate burst =
    (if TOKEN_SCALE \<le> bucket_credit rate burst at b
     then (RateAllowed, \<lparr>bk_available_units = bucket_credit rate burst at b - TOKEN_SCALE, bk_last_refill = at\<rparr>)
     else (RateLimited 1, \<lparr>bk_available_units = bucket_credit rate burst at b, bk_last_refill = at\<rparr>))"
  using retry_is_one [OF assms(2), of "TOKEN_SCALE - bucket_credit rate burst at b"]
  by (auto simp: bucket_check_def refilled_credit [OF assms(1)] Let_def U64_MAX_def max_def split: if_splits)

lemma full_bucket_credit [simp]: "bucket_credit rate burst at (full_bucket burst at) = capacity_units burst"
  by (simp add: bucket_credit_def full_bucket_def)

lemma bucket_credit_now [simp]:
  "a \<le> capacity_units burst \<Longrightarrow> bucket_credit rate burst at \<lparr>bk_available_units = a, bk_last_refill = at\<rparr> = a"
  by (simp add: bucket_credit_def)


section \<open>One check of the map\<close>

definition bm_ok :: "nat \<Rightarrow> bucket_map \<Rightarrow> bool" where
  "bm_ok t m \<longleftrightarrow> bt_ok (bm_buckets m) \<and> clock_ok t m"

definition paid :: "rate_decision \<Rightarrow> nat" where
  "paid d = (if d = RateAllowed then TOKEN_SCALE else 0)"

lemma get_make_room:
  "bt_get (make_room iter m key) k =
     (if evicted_key iter m key = Some k then None else bt_get (bm_buckets m) k)"
  by (simp add: make_room_def bt_get_remove split: option.split)

lemma bt_ok_make_room: "bt_ok (bm_buckets m) \<Longrightarrow> bt_ok (make_room iter m key)"
  by (simp add: make_room_def bt_ok_remove split: option.split)

text \<open>The bucket a check works on: that of the key, or a full one.\<close>

definition bucket_for :: "nat \<Rightarrow> nat \<Rightarrow> string \<Rightarrow> bucket_map \<Rightarrow> bucket" where
  "bucket_for burst at key m = (case bt_get (bm_buckets m) key of None \<Rightarrow> full_bucket burst at | Some (b, _) \<Rightarrow> b)"

lemma bucket_for_credit: "bucket_credit rate burst at (bucket_for burst at key m) = credit rate burst at key m"
  by (auto simp: bucket_for_def credit_def split: option.splits)

lemma bucket_for_clock: "clock_ok t m \<Longrightarrow> t \<le> at \<Longrightarrow> bk_last_refill (bucket_for burst at key m) \<le> at"
  by (fastforce simp: bucket_for_def clock_ok_def full_bucket_def split: option.splits)

lemma evicted_other: "evicted_key iter m key = Some k \<Longrightarrow> bt_get (bm_buckets m) key = None"
  by (auto simp: evicted_key_def split: if_splits)

lemma map_check_eq:
  assumes "clock_ok t m" "t \<le> at" "0 < rate"
  shows "map_check iter m key at rate burst =
    (let c = credit rate burst at key m in
     (if TOKEN_SCALE \<le> c then RateAllowed else RateLimited 1,
      m\<lparr>bm_buckets := bt_insert key (\<lparr>bk_available_units = c - (if TOKEN_SCALE \<le> c then TOKEN_SCALE else 0),
          bk_last_refill = at\<rparr>, at) (make_room iter m key)\<rparr>))"
proof -
  have b: "(case bt_get (make_room iter m key) key of None \<Rightarrow> full_bucket burst at | Some (b, _) \<Rightarrow> b) =
      bucket_for burst at key m"
    using evicted_other [of iter m key key] by (auto simp: bucket_for_def get_make_room)
  show ?thesis
    using bucket_check_credit [OF bucket_for_clock [OF assms(1,2)] assms(3), of burst key burst]
    by (simp add: map_check_def b bucket_for_credit Let_def)
qed

text \<open>What a check does to the credit of its own key and of another one.\<close>

lemma map_check_spends:
  assumes "clock_ok t m" "t \<le> at" "0 < rate" "map_check iter m key at rate burst = (d, m')"
  shows "credit rate burst at key m' + paid d = credit rate burst at key m"
    and "d = RateAllowed \<longleftrightarrow> TOKEN_SCALE \<le> credit rate burst at key m"
    and "d \<noteq> RateAllowed \<Longrightarrow> d = RateLimited 1"
  using assms(4) credit_le [of rate burst at key m] unfolding map_check_eq [OF assms(1-3)] Let_def
  by (auto simp: credit_def [of _ _ _ _ "_\<lparr>bm_buckets := _\<rparr>"] bt_get_insert paid_def split: if_splits)

lemma map_check_other:
  assumes "map_check iter m key at rate burst = (d, m')" "k \<noteq> key"
  shows "credit rate burst u k m' =
    (if evicted_key iter m key = Some k then capacity_units burst else credit rate burst u k m)"
  using assms by (auto simp: map_check_def Let_def credit_def bt_get_insert get_make_room split: prod.splits)

lemma bucket_check_clock:
  "bk_last_refill b \<le> at \<Longrightarrow> bucket_check b at rate burst = (d, b') \<Longrightarrow> bk_last_refill b' \<le> at"
  by (auto simp: bucket_check_def refilled_def Let_def split: if_splits)

lemma map_check_bm_ok:
  assumes "bm_ok t m" "t \<le> at" "map_check iter m key at rate burst = (d, m')"
  shows "bm_ok at m'" "bm_max_size m' = bm_max_size m"
proof -
  have ok: "bt_ok (bm_buckets m)" and clock: "clock_ok t m" using assms(1) by (simp_all add: bm_ok_def)
  obtain b b' where b: "bucket_check b at rate burst = (d, b')" "bk_last_refill b \<le> at"
    and m': "m' = m\<lparr>bm_buckets := bt_insert key (b', at) (make_room iter m key)\<rparr>"
  proof -
    let ?b = "case bt_get (make_room iter m key) key of None \<Rightarrow> full_bucket burst at | Some (b, _) \<Rightarrow> b"
    obtain d' b' where c: "bucket_check ?b at rate burst = (d', b')" by fastforce
    have "bk_last_refill ?b \<le> at"
      using clock assms(2) by (fastforce simp: clock_ok_def get_make_room full_bucket_def split: option.splits)
    then show thesis using that [of ?b b'] c assms(3) by (simp add: map_check_def Let_def)
  qed
  have "bk_last_refill b' \<le> at" using bucket_check_clock b by blast
  then have "clock_ok at m'"
    using clock assms(2) unfolding clock_ok_def m'
    by (fastforce simp: bt_get_insert get_make_room split: if_splits)
  then show "bm_ok at m'" using ok by (simp add: bm_ok_def m' bt_ok_insert bt_ok_make_room)
  show "bm_max_size m' = bm_max_size m" by (simp add: m')
qed

text \<open>The map never holds more than its bound, provided the iteration visits every entry.\<close>

lemma min_by_key_mem: "min_by_key f xs = Some x \<Longrightarrow> x \<in> set xs"
  by (induction xs arbitrary: x) (auto split: option.splits if_splits)

lemma min_by_key_None [simp]: "min_by_key f xs = None \<longleftrightarrow> xs = []"
  by (cases xs) (auto split: option.splits)

lemma length_bt_remove: "bt_ok m \<Longrightarrow> bt_get m k \<noteq> None \<Longrightarrow> Suc (length (bt_remove k m)) = length m"
proof (induction m)
  case (Cons a m)
  have "bt_remove k m = m" if "fst a = k"
    using Cons.prems(1) that by (cases a) (auto simp: bt_remove_def filter_id_conv)
  then show ?case using Cons by (cases a) auto
qed simp

lemma map_check_size:
  assumes iter: "\<And>xs. set (iter xs) = set xs" and "bt_ok (bm_buckets m)" "length (bm_buckets m) \<le> bm_max_size m"
    "0 < bm_max_size m" "map_check iter m key at rate burst = (d, m')"
  shows "length (bm_buckets m') \<le> bm_max_size m'"
proof -
  obtain x where m': "m' = m\<lparr>bm_buckets := bt_insert key x (make_room iter m key)\<rparr>"
    using assms(5) by (auto simp: map_check_def Let_def split: prod.splits)
  have "length (make_room iter m key) < bm_max_size m" if "bt_get (make_room iter m key) key = None"
  proof (cases "evicted_key iter m key")
    case None
    then show ?thesis
      using assms(3,4) that iter [of "bm_buckets m"] empty_set
      by (fastforce simp: evicted_key_def oldest_key_def make_room_def get_make_room split: if_splits)
  next
    case (Some k)
    then obtain b l where "min_by_key (\<lambda>(_, _, last_access). last_access) (iter (bm_buckets m)) = Some (k, b, l)"
      by (auto simp: evicted_key_def oldest_key_def split: if_splits)
    then have "bt_get (bm_buckets m) k \<noteq> None"
      using min_by_key_mem iter bt_mem_get [OF assms(2)] by fastforce
    then show ?thesis using Some length_bt_remove [OF assms(2)] assms(3) by (fastforce simp: make_room_def)
  qed
  moreover have "length (make_room iter m key) \<le> bm_max_size m"
    using assms(3) by (auto simp: make_room_def bt_remove_def intro: order_trans [OF length_filter_le] split: option.splits)
  ultimately show ?thesis
    using bt_length_insert [OF bt_ok_make_room [OF assms(2)], of key x iter key] by (simp add: m' Suc_leI)
qed

text \<open>A refused key has a unit of credit once it has waited as long as it was told.\<close>

lemma refused_credit:
  assumes "clock_ok t m" "t \<le> at" "0 < rate" "0 < burst" "map_check iter m key at rate burst = (RateLimited n, m')"
    "at + n * TOKEN_SCALE \<le> later"
  shows "TOKEN_SCALE \<le> credit rate burst later key m'"
proof -
  have n: "n = 1" using map_check_spends(3) [OF assms(1-3,5)] by simp
  have "bt_get (bm_buckets m') key = Some (\<lparr>bk_available_units = credit rate burst at key m, bk_last_refill = at\<rparr>, at)"
    using assms(5) unfolding map_check_eq [OF assms(1-3)] Let_def by (auto simp: bt_get_insert split: if_splits)
  moreover have "TOKEN_SCALE * 1 \<le> (later - at) * rate"
    using assms(3,6) n by (intro mult_le_mono) auto
  ultimately show ?thesis
    using capacity_scale [OF assms(4)] by (simp add: credit_def bucket_credit_def)
qed


section \<open>Runs of a middleware\<close>

text \<open>A middleware handles one request after the other, each at its instant; the responses are
  collected. The evictions of a key along a run are counted, because each one gives it a full
  bucket again.\<close>

fun serve :: "('s \<Rightarrow> 'r \<Rightarrow> nat \<Rightarrow> rate_response \<times> 's) \<Rightarrow> 's \<Rightarrow> ('r \<times> nat) list \<Rightarrow> rate_response list \<times> 's" where
  "serve mw s [] = ([], s)"
| "serve mw s ((r, at) # rs) =
     (let (a, s1) = mw s r at; (as, s2) = serve mw s1 rs in (a # as, s2))"

fun evictions :: "('s \<Rightarrow> 'r \<Rightarrow> nat \<Rightarrow> rate_response \<times> 's) \<Rightarrow> ('s \<Rightarrow> 'r \<Rightarrow> string option) \<Rightarrow>
    ('s \<Rightarrow> bucket_map) \<Rightarrow> iteration \<Rightarrow> string \<Rightarrow> 's \<Rightarrow> ('r \<times> nat) list \<Rightarrow> nat" where
  "evictions mw key_of buckets iter k s [] = 0"
| "evictions mw key_of buckets iter k s ((r, at) # rs) =
     (case key_of s r of None \<Rightarrow> 0
      | Some key \<Rightarrow> if evicted_key iter (buckets s) key = Some k then 1 else 0)
     + evictions mw key_of buckets iter k (snd (mw s r at)) rs"

definition admitted :: "('r \<Rightarrow> string option) \<Rightarrow> string \<Rightarrow> ('r \<times> nat) list \<Rightarrow> rate_response list \<Rightarrow> nat" where
  "admitted key_of k rs as =
     length (filter (\<lambda>((r, _), a). key_of r = Some k \<and> a = Forwarded) (zip rs as))"

text \<open>What a middleware that limits by one key has to do: nothing for a request without a key,
  and one check of the map for a request with one.\<close>

locale keyed_limiter =
  fixes mw :: "'s \<Rightarrow> 'r \<Rightarrow> nat \<Rightarrow> rate_response \<times> 's"
    and key_of :: "'s \<Rightarrow> 'r \<Rightarrow> string option"
    and buckets :: "'s \<Rightarrow> bucket_map"
    and rate burst :: "'s \<Rightarrow> nat"
    and iter :: iteration
    and limit :: string
  assumes no_key: "key_of s r = None \<Longrightarrow> mw s r at = (Forwarded, s)"
    and with_key: "key_of s r = Some k \<Longrightarrow> 0 < rate s \<Longrightarrow> 0 < burst s \<Longrightarrow>
      map_check iter (buckets s) k at (rate s) (burst s) = (d, m) \<Longrightarrow>
      fst (mw s r at) = (case d of RateAllowed \<Rightarrow> Forwarded | RateLimited n \<Rightarrow> TooManyRequests limit n) \<and>
      buckets (snd (mw s r at)) = m"
    and settings: "rate (snd (mw s r at)) = rate s" "burst (snd (mw s r at)) = burst s"
      "key_of (snd (mw s r at)) = key_of s"
begin

abbreviation cap :: "'s \<Rightarrow> nat" where
  "cap s \<equiv> capacity_units (burst s)"

abbreviation left :: "nat \<Rightarrow> string \<Rightarrow> 's \<Rightarrow> nat" where
  "left at k s \<equiv> credit (rate s) (burst s) at k (buckets s)"

text \<open>One request, seen from a key: a request let through is paid for.\<close>

lemma step_credit:
  assumes "clock_ok t (buckets s)" "t \<le> at" "0 < rate s" "0 < burst s" "mw s r at = (a, s')"
  shows "left at k s' + (if key_of s r = Some k \<and> a = Forwarded then TOKEN_SCALE else 0)
    \<le> left at k s + evictions mw key_of buckets iter k s [(r, at)] * cap s"
proof (cases "key_of s r")
  case None
  then show ?thesis using no_key [OF None, of at] assms(5) by simp
next
  case (Some key)
  obtain d m where c: "map_check iter (buckets s) key at (rate s) (burst s) = (d, m)" by fastforce
  note w = with_key [OF Some assms(3,4) c]
  have st: "rate s' = rate s" "burst s' = burst s" using settings [of s r at] assms(5) by simp_all
  show ?thesis
  proof (cases "key = k")
    case True
    then show ?thesis
      using map_check_spends(1) [OF assms(1-3) c] w Some assms(5) st
      by (cases d) (auto simp: paid_def)
  next
    case False
    then show ?thesis
      using map_check_other [OF c, of k at] w Some assms(5) st by auto
  qed
qed

lemma step_ok:
  assumes "bm_ok t (buckets s)" "t \<le> at" "0 < rate s" "0 < burst s" "mw s r at = (a, s')"
  shows "bm_ok at (buckets s')"
proof (cases "key_of s r")
  case None
  then show ?thesis
    using no_key [OF None, of at] assms unfolding bm_ok_def clock_ok_def by fastforce
next
  case (Some key)
  obtain d m where c: "map_check iter (buckets s) key at (rate s) (burst s) = (d, m)" by fastforce
  then show ?thesis
    using map_check_bm_ok(1) [OF assms(1,2) c] with_key [OF Some assms(3,4) c] assms(5) by simp
qed

text \<open>A whole run, from an instant on.\<close>

lemma run_credit:
  assumes "bm_ok t (buckets s)" "sorted (t # map snd rs)" "0 < rate s" "0 < burst s" "serve mw s rs = (as, s')"
  shows "TOKEN_SCALE * admitted (key_of s) k rs as
    \<le> left t k s + evictions mw key_of buckets iter k s rs * cap s + (last (t # map snd rs) - t) * rate s"
  using assms
proof (induction rs arbitrary: s t as)
  case Nil
  then show ?case by (simp add: admitted_def)
next
  case (Cons q rs)
  obtain r at where q: "q = (r, at)" by fastforce
  obtain a s1 where m: "mw s r at = (a, s1)" by fastforce
  obtain as1 where as: "as = a # as1" and sv: "serve mw s1 rs = (as1, s')"
    using Cons.prems(5) by (auto simp: q m Let_def split: prod.splits)
  have le: "t \<le> at" "sorted (at # map snd rs)" using Cons.prems(2) by (auto simp: q)
  have st: "rate s1 = rate s" "burst s1 = burst s" "key_of s1 = key_of s"
    using settings [of s r at] m by simp_all
  let ?x = "if key_of s r = Some k \<and> a = Forwarded then TOKEN_SCALE else 0"
  have ad: "TOKEN_SCALE * admitted (key_of s) k (q # rs) as = ?x + TOKEN_SCALE * admitted (key_of s1) k rs as1"
    by (simp add: admitted_def q as st)
  have ih: "TOKEN_SCALE * admitted (key_of s1) k rs as1
      \<le> left at k s1 + evictions mw key_of buckets iter k s1 rs * cap s1 + (last (at # map snd rs) - at) * rate s1"
    using Cons.IH [OF step_ok [OF Cons.prems(1) le(1) Cons.prems(3,4) m] le(2) _ _ sv] Cons.prems(3,4) st by simp
  have one: "left at k s1 + ?x \<le> left at k s + evictions mw key_of buckets iter k s [(r, at)] * cap s"
    using step_credit [OF _ le(1) Cons.prems(3,4) m] Cons.prems(1) by (simp add: bm_ok_def)
  have ev: "evictions mw key_of buckets iter k s (q # rs) =
      evictions mw key_of buckets iter k s [(r, at)] + evictions mw key_of buckets iter k s1 rs"
    by (simp add: q m)
  have "at \<le> last (at # map snd rs)" using le(2) by (cases rs rule: rev_cases) auto
  then have "(at - t) * rate s + (last (at # map snd rs) - at) * rate s = (last (t # map snd (q # rs)) - t) * rate s"
    using le(1) by (simp add: q add_mult_distrib [symmetric])
  then show ?case
    using ih one credit_later [OF le(1), of "rate s" "burst s" k "buckets s"]
    unfolding ad ev st add_mult_distrib by linarith
qed

lemma run_ok:
  assumes "bm_ok t (buckets s)" "sorted (t # map snd rs)" "0 < rate s" "0 < burst s" "serve mw s rs = (as, s')"
  shows "bm_ok (last (t # map snd rs)) (buckets s') \<and> rate s' = rate s \<and> burst s' = burst s \<and> key_of s' = key_of s"
  using assms
proof (induction rs arbitrary: s t as)
  case (Cons q rs)
  obtain r at where q: "q = (r, at)" by fastforce
  obtain a s1 where m: "mw s r at = (a, s1)" by fastforce
  obtain as1 where sv: "serve mw s1 rs = (as1, s')"
    using Cons.prems(5) by (auto simp: q m Let_def split: prod.splits)
  have le: "t \<le> at" "sorted (at # map snd rs)" using Cons.prems(2) by (auto simp: q)
  show ?case
    using Cons.IH [OF step_ok [OF Cons.prems(1) le(1) Cons.prems(3,4) m] le(2) _ _ sv] Cons.prems(3,4)
      settings [of s r at] m by (simp add: q)
qed simp

text \<open>Requests of others only ever fill the bucket of a key.\<close>

lemma others_credit:
  assumes "0 < rate s" "0 < burst s" "serve mw s rs = (as, s')" "\<forall>(r, _)\<in>set rs. key_of s r \<noteq> Some k"
    "x \<le> left u k s" "x \<le> cap s"
  shows "x \<le> left u k s'"
  using assms
proof (induction rs arbitrary: s as)
  case (Cons q rs)
  obtain r at where q: "q = (r, at)" by fastforce
  obtain a s1 where m: "mw s r at = (a, s1)" by fastforce
  obtain as1 where sv: "serve mw s1 rs = (as1, s')"
    using Cons.prems(3) by (auto simp: q m Let_def split: prod.splits)
  have st: "rate s1 = rate s" "burst s1 = burst s" "key_of s1 = key_of s"
    using settings [of s r at] m by simp_all
  have "x \<le> left u k s1"
  proof (cases "key_of s r")
    case None
    then show ?thesis using no_key [OF None, of at] m Cons.prems(5) by simp
  next
    case (Some key)
    obtain d m' where c: "map_check iter (buckets s) key at (rate s) (burst s) = (d, m')" by fastforce
    have "k \<noteq> key" using Cons.prems(4) Some by (auto simp: q)
    then show ?thesis
      using map_check_other [OF c, of k u] with_key [OF Some Cons.prems(1,2) c] m st Cons.prems(5,6) by auto
  qed
  then show ?case using Cons.IH [OF _ _ sv] Cons.prems st by (simp add: q)
qed simp

lemma waited_admitted:
  assumes "bm_ok t (buckets s)" "0 < rate s" "0 < burst s" "sorted (t # at # map snd others @ [later])"
    "key_of s r = Some k" "mw s r at = (TooManyRequests l n, s1)" "serve mw s1 others = (as, s2)"
    "\<forall>(r', _)\<in>set others. key_of s r' \<noteq> Some k" "key_of s r2 = Some k" "at + n * TOKEN_SCALE \<le> later"
  shows "fst (mw s2 r2 later) = Forwarded"
proof -
  have le: "t \<le> at" "sorted (at # map snd others)" "last (at # map snd others) \<le> later"
    using assms(4) by (auto simp: sorted_append last_map)
  have st: "rate s1 = rate s" "burst s1 = burst s" "key_of s1 = key_of s"
    using settings [of s r at] assms(6) by simp_all
  note ok1 = step_ok [OF assms(1) le(1) assms(2,3,6)]
  have ok2: "bm_ok (last (at # map snd others)) (buckets s2)" "rate s2 = rate s" "burst s2 = burst s" "key_of s2 = key_of s"
    using run_ok [OF ok1 le(2) _ _ assms(7)] assms(2,3) st by simp_all
  obtain d m where c: "map_check iter (buckets s) k at (rate s) (burst s) = (d, m)" by fastforce
  have "d = RateLimited n" "buckets s1 = m"
    using with_key [OF assms(5,2,3) c] assms(6) by (auto split: rate_decision.splits)
  then have "TOKEN_SCALE \<le> left later k s1"
    using refused_credit [OF _ le(1) assms(2,3), of "buckets s"] c assms(1,10) st by (simp add: bm_ok_def)
  then have "TOKEN_SCALE \<le> left later k s2"
    using others_credit [OF _ _ assms(7)] assms(2,3,8) st capacity_scale [OF assms(3)] by simp
  moreover obtain d' m' where c': "map_check iter (buckets s2) k later (rate s2) (burst s2) = (d', m')" by fastforce
  ultimately have "d' = RateAllowed"
    using map_check_spends(2) [OF _ le(3) _ c'] ok2 assms(2) by (simp add: bm_ok_def)
  then show ?thesis
    using with_key [of s2 r2 k, OF _ _ _ c'] ok2 assms(2,3,9) by simp
qed

end

section \<open>Both middlewares are such limiters\<close>

lemma rate_limit_ip_settings:
  "rl_trusted_proxies s' = rl_trusted_proxies s \<Longrightarrow> rate_limit_ip L s' = rate_limit_ip L s"
  by (simp add: rate_limit_ip_def fun_eq_iff)

interpretation ipl: keyed_limiter "ip_rate_limit_middleware L iter" "rate_limit_ip L" rl_ip_buckets
  rl_ip_rate_per_second rl_ip_burst iter "''ip_rate''" for L iter
  by unfold_locales
    (auto simp: ip_rate_limit_middleware_def check_ip_def intro!: rate_limit_ip_settings
      split: option.splits prod.splits rate_decision.splits)

interpretation tkl: keyed_limiter "token_rate_limit_middleware iter" "\<lambda>_. token_name" rl_token_buckets
  rl_token_rate_per_second rl_token_burst iter "''token_rate''" for iter
  by unfold_locales
    (auto simp: token_rate_limit_middleware_def check_token_def
      split: option.splits prod.splits rate_decision.splits)

end
