(* ===== verification/Rate_Properties.thy ===== *)
theory Rate_Properties
  imports Rate_Facts
begin

text \<open>
  The claims about request-rate limiting: how many requests one address gets through in any
  window, what a refused caller can rely on, and which address a request is counted under.
\<close>

section \<open>Helpers\<close>

lemma new_limiter_ok [simp]:
  "bm_ok t (rl_ip_buckets (new_rate_limit_state c))" "bm_ok t (rl_token_buckets (new_rate_limit_state c))"
  by (simp_all add: bm_ok_def clock_ok_def new_rate_limit_state_def new_bucket_map_def)

lemma new_limiter_settings [simp]:
  "rl_ip_rate_per_second (new_rate_limit_state c) = lc_max_requests_per_second_per_ip c"
  "rl_ip_burst (new_rate_limit_state c) = lc_max_request_burst_per_ip c"
  by (simp_all add: new_rate_limit_state_def)

text \<open>The limiter after some requests, at the instant of the next one.\<close>

lemma limiter_reached:
  assumes "ip_rate_limit_enabled c" "sorted (map snd rs @ [at])"
    "serve (ip_rate_limit_middleware L iter) (new_rate_limit_state c) rs = (as, s)"
  shows "bm_ok at (rl_ip_buckets s)" "rl_ip_rate_per_second s = lc_max_requests_per_second_per_ip c"
    "rl_ip_burst s = lc_max_request_burst_per_ip c"
proof -
  have s: "sorted (0 # map snd rs)" and le: "last (0 # map snd rs) \<le> at"
    using assms(2) by (auto simp: sorted_append last_map)
  have r: "bm_ok (last (0 # map snd rs)) (rl_ip_buckets s) \<and>
      rl_ip_rate_per_second s = lc_max_requests_per_second_per_ip c \<and> rl_ip_burst s = lc_max_request_burst_per_ip c"
    using ipl.run_ok [OF new_limiter_ok(1) s _ _ assms(3)] assms(1) by (simp add: ip_rate_limit_enabled_def)
  then show "bm_ok at (rl_ip_buckets s)" using le unfolding bm_ok_def clock_ok_def by fastforce
  show "rl_ip_rate_per_second s = lc_max_requests_per_second_per_ip c" "rl_ip_burst s = lc_max_request_burst_per_ip c"
    using r by simp_all
qed

lemma entries_append:
  "forwarded_entries L (xs @ ys) =
     Option.bind (forwarded_entries L xs) (\<lambda>a. map_option (\<lambda>b. a @ b) (forwarded_entries L ys))"
  by (induction xs; cases "forwarded_entries L ys") (auto split: option.splits bind_splits)

lemma split_char_last: "c \<notin> set t \<Longrightarrow> \<exists>ps. split_char c (s @ c # t) = ps @ [t] \<and> split_char c t = [t]"
proof -
  assume c: "c \<notin> set t"
  then have t: "split_char c t = [t]" by (induction t) (auto split: list.splits)
  have "\<exists>p ps. split_char c (s @ c # t) = p # ps @ [t]"
    by (induction s) (use t in auto)
  then show ?thesis using t by (metis append_Cons)
qed

text \<open>A limiter of one request per second, with a burst of one, in front of two addresses.\<close>

definition sample_ip_lib :: "(nat, nat) ip_lib" where
  "sample_ip_lib = \<lparr>ip_to_canonical = (\<lambda>ip. ip),
     ip_parse = (\<lambda>t. if t = ''7'' then Some 7 else None), ip_to_string = (\<lambda>ip. replicate ip (CHR ''x'')),
     net_contains = (\<lambda>network ip. network = ip), header_to_str = Some\<rparr>"

definition sample_limits :: "nat limits_config" where
  "sample_limits = default_limits_config\<lparr>lc_max_requests_per_second_per_ip := 1, lc_max_request_burst_per_ip := 1\<rparr>"

definition sample_request :: "nat \<Rightarrow> nat http_request" where
  "sample_request ip = \<lparr>rq_connect_info = Some ip, rq_forwarded_for = [], rq_authenticated_token = None,
     rq_caller_ctx = None\<rparr>"

abbreviation sample_mw :: "nat rate_limit_state \<Rightarrow> nat http_request \<Rightarrow> nat \<Rightarrow> rate_response \<times> nat rate_limit_state" where
  "sample_mw \<equiv> ip_rate_limit_middleware sample_ip_lib (\<lambda>xs. xs)"

definition sample_limiter :: "nat \<Rightarrow> nat rate_limit_state" where
  "sample_limiter units = (new_rate_limit_state sample_limits)\<lparr>rl_ip_buckets :=
     \<lparr>bm_buckets = [(''xx'', \<lparr>bk_available_units = units, bk_last_refill = 0\<rparr>, 0)], bm_max_size = MAX_IP_BUCKETS\<rparr>\<rparr>"

lemma sample_enabled [simp]: "ip_rate_limit_enabled sample_limits"
  by (simp add: ip_rate_limit_enabled_def sample_limits_def)

lemma replicate_two [simp]: "replicate 2 c = [c, c]"
  by (simp add: numeral_2_eq_2)

lemma sample_room [simp]:
  "evicted_key iter (rl_ip_buckets (new_rate_limit_state sample_limits)) k = None"
  "evicted_key iter (rl_ip_buckets (sample_limiter u)) k = None"
  by (simp_all add: evicted_key_def new_rate_limit_state_def new_bucket_map_def sample_limiter_def MAX_IP_BUCKETS_def)

lemma sample_key [simp]:
  "rl_trusted_proxies s = [] \<Longrightarrow> rate_limit_ip sample_ip_lib s (sample_request ip) = Some (replicate ip (CHR ''x''))"
  by (simp add: rate_limit_ip_def sample_request_def resolve_rate_limit_ip_def trusted_def sample_ip_lib_def Let_def)

lemma sample_proxies [simp]:
  "rl_trusted_proxies (new_rate_limit_state sample_limits) = []" "rl_trusted_proxies (sample_limiter u) = []"
  by (simp_all add: new_rate_limit_state_def sample_limiter_def sample_limits_def default_limits_config_def)

lemma sample_first: "sample_mw (new_rate_limit_state sample_limits) (sample_request 2) 0 = (Forwarded, sample_limiter 0)"
  by (simp add: ip_rate_limit_middleware_def check_ip_def map_check_def make_room_def evicted_key_def bucket_check_def
      refilled_def full_bucket_def capacity_units_def refill_units_def u128_saturating_mul_def u128_saturating_add_def U128_MAX_def TOKEN_SCALE_def
      new_rate_limit_state_def new_bucket_map_def sample_limiter_def sample_limits_def default_limits_config_def MAX_IP_BUCKETS_def Let_def)

lemma sample_second: "sample_mw (sample_limiter 0) (sample_request 2) 0 = (TooManyRequests ''ip_rate'' 1, sample_limiter 0)"
  by (simp add: ip_rate_limit_middleware_def check_ip_def map_check_def make_room_def evicted_key_def bucket_check_def
      refilled_def capacity_units_def refill_units_def u128_saturating_mul_def u128_saturating_add_def U128_MAX_def TOKEN_SCALE_def U64_MAX_def
      div_ceil_def new_rate_limit_state_def new_bucket_map_def sample_limiter_def sample_limits_def default_limits_config_def MAX_IP_BUCKETS_def Let_def)

section \<open>Claims\<close>

text \<open>
  C13. In any window of a run of the per-address middleware, and whatever requests came before it,
  one address gets at most its burst plus its rate times the length of the window through, plus
  one more burst for each time its bucket was evicted from the full map within the window. The
  saturating nanosecond arithmetic never lets more through.
\<close>

theorem request_rate_bounded:
  assumes "ip_rate_limit_enabled c"
    and "serve (ip_rate_limit_middleware L iter) (new_rate_limit_state c) earlier = (as0, s)"
    and "serve (ip_rate_limit_middleware L iter) s window = (as, s')"
    and "sorted (map snd (earlier @ window))" "window \<noteq> []"
  shows "admitted (rate_limit_ip L s) k window as * TOKEN_SCALE
    \<le> (1 + evictions (ip_rate_limit_middleware L iter) (rate_limit_ip L) rl_ip_buckets iter k s window)
        * (lc_max_request_burst_per_ip c * TOKEN_SCALE)
      + (snd (last window) - snd (hd window)) * lc_max_requests_per_second_per_ip c"
proof -
  let ?t = "snd (hd window)" and ?burst = "lc_max_request_burst_per_ip c"
  let ?e = "evictions (ip_rate_limit_middleware L iter) (rate_limit_ip L) rl_ip_buckets iter k s window"
  obtain q qs where w: "window = q # qs" using assms(5) by (cases window) auto
  have e: "sorted (map snd earlier @ [?t])" and t: "sorted (?t # map snd window)"
    using assms(4) by (auto simp: w sorted_append)
  note r = limiter_reached [OF assms(1) e assms(2)]
  have "admitted (rate_limit_ip L s) k window as * TOKEN_SCALE
      \<le> credit (rl_ip_rate_per_second s) (rl_ip_burst s) ?t k (rl_ip_buckets s) + ?e * capacity_units (rl_ip_burst s)
        + (last (?t # map snd window) - ?t) * rl_ip_rate_per_second s"
    using ipl.run_credit [OF r(1) t _ _ assms(3), of k] assms(1) r(2,3)
    by (simp add: ip_rate_limit_enabled_def mult.commute)
  also have "\<dots> \<le> (1 + ?e) * capacity_units ?burst + (snd (last window) - ?t) * lc_max_requests_per_second_per_ip c"
    using credit_le [of "lc_max_requests_per_second_per_ip c" ?burst ?t k "rl_ip_buckets s"] assms(5) r(2,3)
    by (simp add: last_map)
  also have "\<dots> \<le> (1 + ?e) * (?burst * TOKEN_SCALE) + (snd (last window) - ?t) * lc_max_requests_per_second_per_ip c"
    using mult_le_mono2 [OF capacity_le(2), of "1 + ?e" ?burst] by linarith
  finally show ?thesis .
qed

theorem request_rate_bounded_witness:
  "fst (serve sample_mw (new_rate_limit_state sample_limits) [(sample_request 2, 0), (sample_request 2, 0)]) =
     [Forwarded, TooManyRequests ''ip_rate'' 1] \<and>
   1 * TOKEN_SCALE \<le> (1 + 0) * (1 * TOKEN_SCALE) + (0 - 0) * 1"
proof -
  let ?w = "[(sample_request 2, 0), (sample_request 2, 0::nat)]" and ?s = "new_rate_limit_state sample_limits"
  have w: "serve sample_mw ?s ?w = ([Forwarded, TooManyRequests ''ip_rate'' 1], sample_limiter 0)"
    by (simp add: sample_first sample_second)
  have ev: "evictions sample_mw (rate_limit_ip sample_ip_lib) rl_ip_buckets (\<lambda>xs. xs) ''xx'' ?s ?w = 0"
    by (simp add: sample_first)
  have ad: "admitted (rate_limit_ip sample_ip_lib ?s) ''xx'' ?w [Forwarded, TooManyRequests ''ip_rate'' 1] = 1"
    by (simp add: admitted_def)
  have l: "lc_max_request_burst_per_ip sample_limits = 1" "lc_max_requests_per_second_per_ip sample_limits = 1"
    by (simp_all add: sample_limits_def)
  show ?thesis
    using request_rate_bounded [of sample_limits sample_ip_lib "\<lambda>xs. xs" "[]" "[]" ?s ?w _ _ "''xx''", OF _ _ w]
    unfolding ev ad l w by simp
qed

text \<open>
  C22. A caller whom the per-address middleware refuses can rely on the answer: after waiting the
  number of seconds it was given, and whatever other addresses sent meanwhile, its next request
  is let through.
\<close>

theorem refused_caller_admitted:
  assumes "ip_rate_limit_enabled c"
    and "serve (ip_rate_limit_middleware L iter) (new_rate_limit_state c) earlier = (as0, s)"
    and "ip_rate_limit_middleware L iter s r at = (TooManyRequests l n, s1)"
    and "serve (ip_rate_limit_middleware L iter) s1 others = (as, s2)"
    and "\<forall>(r', _)\<in>set others. rate_limit_ip L s r' \<noteq> rate_limit_ip L s r"
    and "rate_limit_ip L s r2 = rate_limit_ip L s r" "at + n * TOKEN_SCALE \<le> later"
    and "sorted (map snd earlier @ at # map snd others @ [later])"
  shows "fst (ip_rate_limit_middleware L iter s2 r2 later) = Forwarded"
proof -
  have e: "sorted (map snd earlier @ [at])" and t: "sorted (at # at # map snd others @ [later])"
    using assms(8) by (auto simp: sorted_append)
  note reached = limiter_reached [OF assms(1) e assms(2)]
  obtain k where k: "rate_limit_ip L s r = Some k"
    using assms(3) by (auto simp: ip_rate_limit_middleware_def split: option.splits)
  show ?thesis
    using ipl.waited_admitted [OF reached(1) _ _ t k assms(3,4) _ _ assms(7)] assms(1,5,6) reached(2,3) k
    by (simp add: ip_rate_limit_enabled_def)
qed

theorem refused_caller_admitted_witness:
  "fst (sample_mw (sample_limiter 0) (sample_request 2) TOKEN_SCALE) = Forwarded"
proof -
  have e: "serve sample_mw (new_rate_limit_state sample_limits) [(sample_request 2, 0)] = ([Forwarded], sample_limiter 0)"
    by (simp add: sample_first)
  show ?thesis
    by (rule refused_caller_admitted [OF sample_enabled e sample_second, where others = "[]"]) simp_all
qed

text \<open>
  C21. The address a request is counted under cannot be chosen by the client. Headers from a peer
  that is no trusted proxy are ignored. Behind a trusted proxy that appends the address it saw,
  on a line of its own or after a comma, the request is counted under that address whatever the
  client sent in front of it, or under the proxy if some line is not visible ASCII.
\<close>

theorem forwarded_address_sound:
  assumes "header_to_str L line = Some text" "text = seen \<or> (\<exists>sent. text = sent @ CHR '','' # seen)"
    and "CHR '','' \<notin> set seen" "ip_parse L (trim seen) = Some client" "\<not> trusted L proxies (ip_to_canonical L client)"
  shows "resolve_rate_limit_ip L peer (sent_lines @ [line]) proxies =
    (if trusted L proxies (ip_to_canonical L peer) \<and> (\<forall>l\<in>set sent_lines. header_to_str L l \<noteq> None)
     then ip_to_canonical L client else ip_to_canonical L peer)"
proof -
  obtain ps where ps: "split_char (CHR '','') text = ps @ [seen]"
    using assms(2) split_char_last [OF assms(3)] by (metis append_Nil)
  have visible: "forwarded_entries L sent_lines \<noteq> None \<longleftrightarrow> (\<forall>l\<in>set sent_lines. header_to_str L l \<noteq> None)"
    by (induction sent_lines) (auto split: option.splits)
  have "forwarded_entries L (sent_lines @ [line]) = map_option (\<lambda>es. es @ ps @ [seen]) (forwarded_entries L sent_lines)"
    using assms(1) by (cases "forwarded_entries L sent_lines") (simp_all add: entries_append ps)
  then show ?thesis
    using visible assms(4,5) by (auto simp: resolve_rate_limit_ip_def Let_def split: option.splits)
qed

theorem forwarded_address_sound_witness:
  "resolve_rate_limit_ip sample_ip_lib 3 [''9, 8'', ''5,7''] [3] = 7 \<and>
   resolve_rate_limit_ip sample_ip_lib 4 [''9, 8'', ''5,7''] [3] = 4"
proof -
  have t: "trim ''7'' = ''7''" by code_simp
  show ?thesis
    using forwarded_address_sound [of sample_ip_lib "''5,7''" "''5,7''" "''7''" 7 "[3]" 3 "[''9, 8'']"]
      forwarded_address_sound [of sample_ip_lib "''5,7''" "''5,7''" "''7''" 7 "[3]" 4 "[''9, 8'']"]
    by (simp add: sample_ip_lib_def trusted_def t)
qed

end
