(* ===== verification/Job_Poll.thy ===== *)
theory Job_Poll
  imports Rate_Limit
begin

text \<open>
  Waiting for an asynchronous job (\<open>mecmcp-job\<close>): the configuration and its validation, the
  backoff, and the polling loop. Durations and instants are nanoseconds. The clock, the
  cancellation token, the probe raced against both, and the sleep are operations of a world \<open>'w\<close>,
  the fields of \<open>poll_env\<close>; what \<open>tokio\<close> documents of them is \<open>lawful_clock\<close>.
\<close>

section \<open>Configuration\<close>

datatype 'a probe = ProbePending | ProbeReady 'a

record poll_config =
  pc_first_interval :: nat
  pc_max_interval :: nat
  pc_multiplier :: nat
  pc_deadline :: nat

definition default_poll_config :: poll_config where
  "default_poll_config = \<lparr>pc_first_interval = 1 * TOKEN_SCALE, pc_max_interval = 30 * TOKEN_SCALE,
     pc_multiplier = 2, pc_deadline = 300 * TOKEN_SCALE\<rparr>"

datatype poll_config_error =
    ZeroDuration string
  | MultiplierBelowOne nat
  | DeadlineUnrepresentable nat
  | IntervalAboveMaximum nat nat

datatype 'e poll_error =
    PollCancelled (poll_attempts: nat)
  | PollDeadlineExceeded (poll_attempts: nat) (poll_deadline: nat)
  | PollProbe (poll_attempts: nat) 'e
  | PollConfigError poll_config_error

definition MAX_REPRESENTABLE_DEADLINE :: nat where
  "MAX_REPRESENTABLE_DEADLINE = 50 * 365 * 24 * 60 * 60 * TOKEN_SCALE"

definition validate_poll_config :: "poll_config \<Rightarrow> poll_config_error + unit" where
  "validate_poll_config c =
     (if pc_first_interval c = 0 then Inl (ZeroDuration ''first_interval'')
      else if pc_max_interval c = 0 then Inl (ZeroDuration ''max_interval'')
      else if pc_deadline c = 0 then Inl (ZeroDuration ''deadline'')
      else if pc_multiplier c < 1 then Inl (MultiplierBelowOne (pc_multiplier c))
      else if pc_deadline c > MAX_REPRESENTABLE_DEADLINE then Inl (DeadlineUnrepresentable (pc_deadline c))
      else if pc_first_interval c > pc_max_interval c
        then Inl (IntervalAboveMaximum (pc_first_interval c) (pc_max_interval c))
      else Inr ())"


section \<open>Backoff\<close>

definition DURATION_MAX :: nat where
  "DURATION_MAX = U64_MAX * TOKEN_SCALE + 999999999"

definition duration_from_nanos :: "nat \<Rightarrow> nat" where
  "duration_from_nanos nanos =
     (let seconds = nanos div TOKEN_SCALE; remainder = nanos mod TOKEN_SCALE in
      if seconds \<le> U64_MAX then seconds * TOKEN_SCALE + remainder else DURATION_MAX)"

definition next_interval :: "nat \<Rightarrow> nat \<Rightarrow> nat \<Rightarrow> nat" where
  "next_interval current multiplier ceiling =
     duration_from_nanos (min (u128_saturating_mul current multiplier) ceiling)"


section \<open>The loop\<close>

text \<open>The probe raced against the deadline and the token: one of them wins.\<close>

datatype ('e, 'a) raced = RaceCancelled | RaceElapsed | RaceDone "'e + 'a probe"

record ('w, 'e, 'a) poll_env =
  pe_now :: "'w \<Rightarrow> nat \<times> 'w"
  pe_cancelled :: "'w \<Rightarrow> bool \<times> 'w"
  pe_probe :: "nat \<Rightarrow> nat \<Rightarrow> 'w \<Rightarrow> ('e, 'a) raced \<times> 'w"
  pe_sleep_until :: "nat \<Rightarrow> 'w \<Rightarrow> bool \<times> 'w"
  pe_checked_add :: "nat \<Rightarrow> nat \<Rightarrow> nat option"

type_synonym ('w, 'e, 'a) polled = "(('e poll_error + 'a) \<times> 'w) option"

text \<open>What follows a probe: an answer, or the wait with its wake-up instant.\<close>

definition after_probe ::
  "('w, 'e, 'a) poll_env \<Rightarrow> poll_config \<Rightarrow> nat \<Rightarrow> nat \<Rightarrow> nat \<Rightarrow> 'w \<Rightarrow>
     (('e poll_error + 'a) + unit) \<times> 'w" where
  "after_probe E c expires_at interval attempts w0 =
     (case pe_probe E expires_at attempts w0 of (probed, w1) \<Rightarrow>
      case pe_cancelled E w1 of (gone, w2) \<Rightarrow>
      if gone then (Inl (Inl (PollCancelled attempts)), w2)
      else case probed of
          RaceCancelled \<Rightarrow> (Inl (Inl (PollCancelled attempts)), w2)
        | RaceElapsed \<Rightarrow> (Inl (Inl (PollDeadlineExceeded attempts (pc_deadline c))), w2)
        | RaceDone completed \<Rightarrow>
          (case pe_now E w2 of (t, w3) \<Rightarrow>
           if t \<ge> expires_at then (Inl (Inl (PollDeadlineExceeded attempts (pc_deadline c))), w3)
           else case completed of
               Inl source \<Rightarrow> (Inl (Inl (PollProbe attempts source)), w3)
             | Inr (ProbeReady v) \<Rightarrow> (Inl (Inr v), w3)
             | Inr ProbePending \<Rightarrow>
               (case pe_now E w3 of (t', w4) \<Rightarrow>
                if t' \<ge> expires_at then (Inl (Inl (PollDeadlineExceeded attempts (pc_deadline c))), w4)
                else let wake_at = (case pe_checked_add E t' interval of None \<Rightarrow> expires_at
                           | Some wake \<Rightarrow> min wake expires_at)
                     in case pe_sleep_until E wake_at w4 of (cancelled, w5) \<Rightarrow>
                        if cancelled then (Inl (Inl (PollCancelled attempts)), w5) else (Inr (), w5))))"

partial_function (option) poll_loop ::
  "('w, 'e, 'a) poll_env \<Rightarrow> poll_config \<Rightarrow> nat \<Rightarrow> nat \<Rightarrow> nat \<Rightarrow> 'w \<Rightarrow> ('w, 'e, 'a) polled" where
  "poll_loop E c expires_at interval attempts w0 =
     (case pe_cancelled E w0 of (gone, w1) \<Rightarrow>
      if gone then Some (Inl (PollCancelled attempts), w1)
      else case pe_now E w1 of (t, w2) \<Rightarrow>
      if t \<ge> expires_at then Some (Inl (PollDeadlineExceeded attempts (pc_deadline c)), w2)
      else let attempts' = min (attempts + 1) U64_MAX in
      case after_probe E c expires_at interval attempts' w2 of
        (Inl answer, w3) \<Rightarrow> Some (answer, w3)
      | (Inr _, w3) \<Rightarrow>
          poll_loop E c expires_at (next_interval interval (pc_multiplier c) (pc_max_interval c)) attempts' w3)"

definition poll_until_ready ::
  "('w, 'e, 'a) poll_env \<Rightarrow> poll_config \<Rightarrow> 'w \<Rightarrow> ('w, 'e, 'a) polled" where
  "poll_until_ready E c w =
     (case validate_poll_config c of Inl e \<Rightarrow> Some (Inl (PollConfigError e), w)
      | Inr _ \<Rightarrow>
        case pe_now E w of (started, w1) \<Rightarrow>
        case pe_checked_add E started (pc_deadline c) of
          None \<Rightarrow> Some (Inl (PollConfigError (DeadlineUnrepresentable (pc_deadline c))), w1)
        | Some expires_at \<Rightarrow> poll_loop E c expires_at (pc_first_interval c) 0 w1)"


section \<open>What the clock is documented to do\<close>

text \<open>Time does not run backwards, reading the clock gives the time, a sleep that was not cancelled
  ends no earlier than asked, and addition of instants is exact where it succeeds.\<close>

definition lawful_clock :: "('w \<Rightarrow> nat) \<Rightarrow> ('w, 'e, 'a) poll_env \<Rightarrow> bool" where
  "lawful_clock time E \<longleftrightarrow>
     (\<forall>w t w'. pe_now E w = (t, w') \<longrightarrow> t = time w' \<and> time w \<le> time w') \<and>
     (\<forall>w b w'. pe_cancelled E w = (b, w') \<longrightarrow> time w \<le> time w') \<and>
     (\<forall>x n w r w'. pe_probe E x n w = (r, w') \<longrightarrow> time w \<le> time w') \<and>
     (\<forall>u w b w'. pe_sleep_until E u w = (b, w') \<longrightarrow> time w \<le> time w' \<and> (\<not> b \<longrightarrow> u \<le> time w')) \<and>
     (\<forall>a b s. pe_checked_add E a b = Some s \<longrightarrow> s = a + b)"

section \<open>Facts\<close>

lemma validate_poll_config_iff:
  "validate_poll_config c = Inr () \<longleftrightarrow> 0 < pc_first_interval c \<and> 0 < pc_deadline c \<and>
     1 \<le> pc_multiplier c \<and> pc_deadline c \<le> MAX_REPRESENTABLE_DEADLINE \<and> pc_first_interval c \<le> pc_max_interval c"
  by (auto simp: validate_poll_config_def)

lemma duration_from_nanos_id: "n \<le> DURATION_MAX \<Longrightarrow> duration_from_nanos n = n"
proof -
  assume "n \<le> DURATION_MAX"
  then have "n div TOKEN_SCALE \<le> U64_MAX"
    using div_le_mono [of n DURATION_MAX TOKEN_SCALE] by (simp add: DURATION_MAX_def TOKEN_SCALE_def)
  then show ?thesis by (simp add: duration_from_nanos_def Let_def)
qed

lemma next_interval_grows:
  assumes "f \<le> i" "1 \<le> m" "f \<le> c" "c \<le> DURATION_MAX"
  shows "f \<le> next_interval i m c"
proof -
  have "f \<le> i * m" using assms(1,2) by (metis le_trans mult_le_mono2 nat_mult_1_right)
  moreover have "DURATION_MAX \<le> U128_MAX" by (simp add: DURATION_MAX_def U64_MAX_def U128_MAX_def TOKEN_SCALE_def)
  ultimately show ?thesis
    using assms(3,4) by (simp add: next_interval_def duration_from_nanos_id u128_saturating_mul_def)
qed

end
