(* ===== verification/Job_Properties.thy ===== *)
theory Job_Properties
  imports Job_Poll
begin

text \<open>
  The claim about the polling loop: it returns, and within its budget. The loop has no structural
  argument to recurse on; what ends it is that every round sleeps at least the first interval or
  to the deadline.
\<close>

section \<open>One round\<close>

lemma lawful_clockD:
  assumes "lawful_clock time E"
  shows "pe_now E w = (t, w') \<Longrightarrow> t = time w'" "pe_now E w = (t, w') \<Longrightarrow> time w \<le> time w'"
    "pe_cancelled E w = (b, w') \<Longrightarrow> time w \<le> time w'" "pe_probe E x n w = (r, w') \<Longrightarrow> time w \<le> time w'"
    "pe_sleep_until E u w = (b, w') \<Longrightarrow> time w \<le> time w'"
    "pe_sleep_until E u w = (False, w') \<Longrightarrow> u \<le> time w'"
    "pe_checked_add E a d = Some s \<Longrightarrow> s = a + d"
  using assms by (auto simp: lawful_clock_def)

text \<open>The answers a round can end with, and how far the time has moved when it ends with none.\<close>

definition answer_ok :: "('w \<Rightarrow> nat) \<Rightarrow> nat \<Rightarrow> nat \<Rightarrow> ('e poll_error + 'a) \<Rightarrow> 'w \<Rightarrow> bool" where
  "answer_ok time x n r w \<longleftrightarrow> (case r of Inr _ \<Rightarrow> time w < x
     | Inl (PollConfigError _) \<Rightarrow> False | Inl e \<Rightarrow> poll_attempts e = n)"

lemma after_probe_time:
  assumes "lawful_clock time E" "after_probe E c x i n w = (res, w')"
  shows "(\<forall>r. res = Inl r \<longrightarrow> answer_ok time x n r w') \<and>
    (res = Inr () \<longrightarrow> x \<le> time w' \<or> time w + i \<le> time w')"
proof -
  note L = lawful_clockD [OF assms(1)]
  obtain p w1 where p: "pe_probe E x n w = (p, w1)" by fastforce
  obtain g w2 where g: "pe_cancelled E w1 = (g, w2)" by fastforce
  obtain t w3 where t: "pe_now E w2 = (t, w3)" by fastforce
  obtain t' w4 where t': "pe_now E w3 = (t', w4)" by fastforce
  let ?wake = "case pe_checked_add E t' i of None \<Rightarrow> x | Some wake \<Rightarrow> min wake x"
  obtain b w5 where b: "pe_sleep_until E ?wake w4 = (b, w5)" by fastforce
  have le: "time w \<le> time w4" using L(4) [OF p] L(3) [OF g] L(2) [OF t] L(2) [OF t'] by linarith
  have "x \<le> time w5 \<or> time w + i \<le> time w5" if "\<not> b"
  proof -
    have "?wake \<le> time w5" using L(6) b that by simp
    then show ?thesis
      using L(7) [of t' i] L(1) [OF t'] le by (cases "pe_checked_add E t' i") auto
  qed
  moreover have "after_probe E c x i n w = (if g then (Inl (Inl (PollCancelled n)), w2) else case p of
      RaceCancelled \<Rightarrow> (Inl (Inl (PollCancelled n)), w2)
    | RaceElapsed \<Rightarrow> (Inl (Inl (PollDeadlineExceeded n (pc_deadline c))), w2)
    | RaceDone r \<Rightarrow> if t \<ge> x then (Inl (Inl (PollDeadlineExceeded n (pc_deadline c))), w3)
      else case r of Inl e \<Rightarrow> (Inl (Inl (PollProbe n e)), w3) | Inr (ProbeReady v) \<Rightarrow> (Inl (Inr v), w3)
      | Inr ProbePending \<Rightarrow> if t' \<ge> x then (Inl (Inl (PollDeadlineExceeded n (pc_deadline c))), w4)
        else if b then (Inl (Inl (PollCancelled n)), w5) else (Inr (), w5))"
    by (simp add: after_probe_def p g t t' b Let_def cong: raced.case_cong sum.case_cong probe.case_cong if_cong)
  ultimately show ?thesis
    using assms(2) L(1) [OF t] by (auto simp: answer_ok_def split: if_splits raced.splits sum.splits probe.splits)
qed

section \<open>The loop\<close>

lemma poll_loop_returns:
  assumes "lawful_clock time E" "0 < f" "1 \<le> pc_multiplier c" "f \<le> pc_max_interval c"
    "pc_max_interval c \<le> DURATION_MAX" "f \<le> i" "x = s + d"
    "s + n * f \<le> time w \<or> x \<le> time w" "n = 0 \<or> (n - 1) * f < d"
  shows "\<exists>r w' m. poll_loop E c x i n w = Some (r, w') \<and> answer_ok time x m r w' \<and> (m = 0 \<or> (m - 1) * f < d)"
  using assms(6,8,9)
proof (induction "x - time w" arbitrary: w i n rule: less_induct)
  case less
  note L = lawful_clockD [OF assms(1)]
  obtain g w1 where g: "pe_cancelled E w = (g, w1)" by fastforce
  obtain t w2 where t: "pe_now E w1 = (t, w2)" by fastforce
  let ?n = "min (n + 1) U64_MAX"
  obtain res w3 where a: "after_probe E c x i ?n w2 = (res, w3)" by fastforce
  have le: "time w \<le> time w2" "t = time w2" using L(3) [OF g] L(1,2) [OF t] by linarith+
  show ?case
  proof (cases "g \<or> x \<le> t")
    case True
    then show ?thesis
      using less.prems(3) by (subst poll_loop.simps) (auto simp: g t answer_ok_def intro!: exI [of _ n])
  next
    case False
    have "s + n * f \<le> time w" using less.prems(2) False le by linarith
    then have "n * f < d" using False le assms(7) by linarith
    then have n': "(?n - 1) * f < d"
      by (metis add_diff_cancel_right' diff_le_mono le_less_trans min.cobounded1 mult_le_mono1)
    note A = after_probe_time [OF assms(1) a]
    show ?thesis
    proof (cases res)
      case (Inl r)
      then have "poll_loop E c x i n w = Some (r, w3)"
        using False a by (subst poll_loop.simps) (simp add: g t Let_def)
      then show ?thesis using A n' Inl by blast
    next
      case (Inr u)
      then have far: "x \<le> time w3 \<or> time w2 + i \<le> time w3" using A by simp
      have "x - time w3 < x - time w" using far False le assms(2) less.prems(1) by linarith
      moreover have "f \<le> next_interval i (pc_multiplier c) (pc_max_interval c)"
        using next_interval_grows less.prems(1) assms(3-5) by blast
      moreover have "s + ?n * f \<le> time w3 \<or> x \<le> time w3"
      proof -
        have "?n * f \<le> n * f + f" by (metis add_mult_distrib min.cobounded1 mult_le_mono1 nat_mult_1)
        then show ?thesis using far \<open>s + n * f \<le> time w\<close> le less.prems(1) by linarith
      qed
      ultimately have "\<exists>r w' m. poll_loop E c x (next_interval i (pc_multiplier c) (pc_max_interval c)) ?n w3 = Some (r, w') \<and>
          answer_ok time x m r w' \<and> (m = 0 \<or> (m - 1) * f < d)"
        using less.hyps n' by blast
      moreover have "poll_loop E c x i n w = poll_loop E c x (next_interval i (pc_multiplier c) (pc_max_interval c)) ?n w3"
        using Inr False a by (subst poll_loop.simps) (simp add: g t Let_def)
      ultimately show ?thesis by simp
    qed
  qed
qed

section \<open>Claims\<close>

text \<open>
  C23. Polling ends. With any configuration, its durations being within the range of the type, and
  a clock that behaves as documented, the loop returns: a value only before the deadline it was given, counted from the start, and
  otherwise an error. The number of probes it reports is at most one more than the number of first
  intervals that fit into the deadline, because the backoff never shrinks.
\<close>

theorem polling_ends:
  assumes "lawful_clock time E" "pc_max_interval c \<le> DURATION_MAX"
  shows "\<exists>r w'. poll_until_ready E c w = Some (r, w') \<and>
    (case r of Inr _ \<Rightarrow> time w' < time (snd (pe_now E w)) + pc_deadline c
     | Inl (PollConfigError _) \<Rightarrow> True
     | Inl e \<Rightarrow> poll_attempts e = 0 \<or> (poll_attempts e - 1) * pc_first_interval c < pc_deadline c)"
proof -
  obtain t w1 where t: "pe_now E w = (t, w1)" by fastforce
  show ?thesis
  proof (cases "validate_poll_config c = Inr () \<and> pe_checked_add E t (pc_deadline c) \<noteq> None")
    case True
    then have x: "pe_checked_add E t (pc_deadline c) = Some (time w1 + pc_deadline c)"
      using lawful_clockD(1,7) [OF assms(1)] t by fastforce
    have v: "0 < pc_first_interval c" "1 \<le> pc_multiplier c" "pc_first_interval c \<le> pc_max_interval c"
      using True by (simp_all add: validate_poll_config_iff)
    obtain r w' m where r: "poll_loop E c (time w1 + pc_deadline c) (pc_first_interval c) 0 w1 = Some (r, w')"
        "answer_ok time (time w1 + pc_deadline c) m r w'" "m = 0 \<or> (m - 1) * pc_first_interval c < pc_deadline c"
      using poll_loop_returns [OF assms(1) v assms(2), of "pc_first_interval c" _ "time w1" "pc_deadline c" 0 w1] by auto
    have "poll_until_ready E c w = Some (r, w')" using True r(1) by (simp add: poll_until_ready_def t x)
    then show ?thesis
      using r(2,3) by (intro exI [of _ r] exI [of _ w']) (auto simp: t answer_ok_def split: sum.splits poll_error.splits)
  next
    case False
    then show ?thesis
      by (cases "validate_poll_config c") (auto simp: poll_until_ready_def t split: option.splits)
  qed
qed

text \<open>A job that is ready on its second probe, on a clock that only a sleep moves.\<close>

definition sample_poll_env :: "(nat, string, string) poll_env" where
  "sample_poll_env = \<lparr>pe_now = (\<lambda>w. (w, w)), pe_cancelled = (\<lambda>w. (False, w)),
     pe_probe = (\<lambda>x n w. (RaceDone (Inr (if n = 1 then ProbePending else ProbeReady ''done'')), w)),
     pe_sleep_until = (\<lambda>u w. (False, max u w)), pe_checked_add = (\<lambda>a b. Some (a + b))\<rparr>"

theorem polling_ends_witness:
  "poll_until_ready sample_poll_env default_poll_config 0 = Some (Inr ''done'', TOKEN_SCALE) \<and>
   TOKEN_SCALE < 0 + pc_deadline default_poll_config"
proof -
  have v: "validate_poll_config default_poll_config = Inr ()"
    by (simp add: validate_poll_config_iff default_poll_config_def TOKEN_SCALE_def MAX_REPRESENTABLE_DEADLINE_def)
  have l: "lawful_clock (\<lambda>w. w) sample_poll_env" by (auto simp: lawful_clock_def sample_poll_env_def)
  have p: "poll_until_ready sample_poll_env default_poll_config 0 = Some (Inr ''done'', TOKEN_SCALE)"
    by (simp add: poll_until_ready_def v, subst poll_loop.simps, subst poll_loop.simps)
      (simp add: sample_poll_env_def after_probe_def default_poll_config_def TOKEN_SCALE_def U64_MAX_def Let_def)
  then show ?thesis
    using polling_ends [OF l, of default_poll_config 0]
    by (simp add: sample_poll_env_def default_poll_config_def DURATION_MAX_def U64_MAX_def TOKEN_SCALE_def)
qed

end
