(* ===== verification/Url_Path.thy ===== *)
theory Url_Path
  imports Text_Ops "HOL-Library.Word"
begin

text \<open>
  Paths and pages of outgoing requests (\<open>mecmcp-openapi\<close>): the expansion of a path template, with
  the checks that a value stays inside its segment however often it is decoded downstream, and the
  validation of a pagination window on 64-bit and 32-bit words.
\<close>

section \<open>Bytes\<close>

abbreviation byte_of :: "char \<Rightarrow> nat" where
  "byte_of \<equiv> of_char"

definition is_ascii_control :: "char \<Rightarrow> bool" where
  "is_ascii_control c \<longleftrightarrow> byte_of c < 32 \<or> byte_of c = 127"

definition is_unreserved :: "char \<Rightarrow> bool" where
  "is_unreserved c \<longleftrightarrow>
     (CHR ''0'' \<le> c \<and> c \<le> CHR ''9'') \<or> (CHR ''A'' \<le> c \<and> c \<le> CHR ''Z'') \<or>
     (CHR ''a'' \<le> c \<and> c \<le> CHR ''z'') \<or> c \<in> set ''-._~''"

definition is_structural :: "char \<Rightarrow> bool" where
  "is_structural c \<longleftrightarrow> c = CHR ''/'' \<or> c = CHR 0x5C \<or> c = CHR ''?'' \<or> c = CHR ''#'' \<or> is_ascii_control c"

datatype path_error =
    SegmentBreak string
  | QueryOrFragment string
  | RelativeComponent string
  | EmptyValue string
  | ControlCharacter string
  | MissingParameter string
  | UnknownParameter string
  | MalformedTemplate

definition structural_error :: "string \<Rightarrow> char \<Rightarrow> path_error" where
  "structural_error name c =
     (if c = CHR ''?'' \<or> c = CHR ''#'' then QueryOrFragment name
      else if is_ascii_control c then ControlCharacter name else SegmentBreak name)"


section \<open>Lossy UTF-8\<close>

text \<open>\<open>String::from_utf8_lossy\<close>: every maximal ill-formed run of bytes becomes U+FFFD. The length of
  the chunk at the front of a string, and whether it is well-formed.\<close>

definition utf8_width :: "nat \<Rightarrow> nat" where
  "utf8_width b = (if b < 0x80 then 1 else if 0xC2 \<le> b \<and> b \<le> 0xDF then 2
     else if 0xE0 \<le> b \<and> b \<le> 0xEF then 3 else if 0xF0 \<le> b \<and> b \<le> 0xF4 then 4 else 0)"

definition second_ok :: "nat \<Rightarrow> nat \<Rightarrow> bool" where
  "second_ok b b1 \<longleftrightarrow>
     (if b = 0xE0 then 0xA0 else if b = 0xF0 then 0x90 else 0x80) \<le> b1 \<and>
     b1 \<le> (if b = 0xED then 0x9F else if b = 0xF4 then 0x8F else 0xBF)"

definition trail_ok :: "string \<Rightarrow> nat \<Rightarrow> bool" where
  "trail_ok s i \<longleftrightarrow> i < length s \<and> 0x80 \<le> byte_of (s ! i) \<and> byte_of (s ! i) \<le> 0xBF"

definition utf8_chunk :: "string \<Rightarrow> bool \<times> nat" where
  "utf8_chunk s =
     (let b = byte_of (hd s); w = utf8_width b in
      if w \<le> 1 then (w = 1, 1)
      else if \<not> (1 < length s \<and> second_ok b (byte_of (s ! 1))) then (False, 1)
      else if w = 2 then (True, 2)
      else if \<not> trail_ok s 2 then (False, 2)
      else if w = 3 then (True, 3)
      else if \<not> trail_ok s 3 then (False, 3)
      else (True, 4))"

definition replacement :: string where
  "replacement = [CHR 0xEF, CHR 0xBF, CHR 0xBD]"

lemma utf8_chunk_pos: "utf8_chunk s = (ok, n) \<Longrightarrow> 0 < n"
  by (auto simp: utf8_chunk_def Let_def split: if_splits)

function from_utf8_lossy :: "string \<Rightarrow> string" where
  "from_utf8_lossy s =
     (if s = [] then []
      else case utf8_chunk s of (ok, n) \<Rightarrow>
        (if ok then take n s else replacement) @ from_utf8_lossy (drop n s))"
  by auto
termination
  by (relation "measure length") (auto dest: utf8_chunk_pos [OF sym])

declare from_utf8_lossy.simps [simp del]

text \<open>A Rust string is well-formed.\<close>

function utf8_valid :: "string \<Rightarrow> bool" where
  "utf8_valid s = (if s = [] then True else case utf8_chunk s of (ok, n) \<Rightarrow> ok \<and> utf8_valid (drop n s))"
  by auto
termination
  by (relation "measure length") (auto dest: utf8_chunk_pos [OF sym])

declare utf8_valid.simps [simp del]


section \<open>Percent-decoding\<close>

definition radix16_digit :: "char \<Rightarrow> nat option" where
  "radix16_digit c =
     (if CHR ''0'' \<le> c \<and> c \<le> CHR ''9'' then Some (byte_of c - 48)
      else if CHR ''a'' \<le> c \<and> c \<le> CHR ''f'' then Some (byte_of c - 87)
      else if CHR ''A'' \<le> c \<and> c \<le> CHR ''F'' then Some (byte_of c - 55) else None)"

text \<open>\<open>u8::from_str_radix\<close> on two bytes; it accepts a leading plus sign.\<close>

definition hex_pair :: "char \<Rightarrow> char \<Rightarrow> nat option" where
  "hex_pair a b =
     (if a = CHR ''+'' then radix16_digit b
      else case radix16_digit a of None \<Rightarrow> None
        | Some x \<Rightarrow> map_option (\<lambda>y. 16 * x + y) (radix16_digit b))"

fun decode_bytes :: "string \<Rightarrow> string" where
  "decode_bytes (c # a # b # s) =
     (if c = CHR ''%''
      then case hex_pair a b of Some n \<Rightarrow> char_of n # decode_bytes s
        | None \<Rightarrow> c # decode_bytes (a # b # s)
      else c # decode_bytes (a # b # s))"
| "decode_bytes s = s"

definition percent_decode_lossy :: "string \<Rightarrow> string" where
  "percent_decode_lossy input = from_utf8_lossy (decode_bytes input)"

definition MAX_DECODE_ROUNDS :: nat where
  "MAX_DECODE_ROUNDS = 4"

fun decode_rounds :: "nat \<Rightarrow> string \<Rightarrow> string \<Rightarrow> path_error option" where
  "decode_rounds 0 name current = Some (SegmentBreak name)"
| "decode_rounds (Suc k) name current =
     (let decoded = percent_decode_lossy current in
      if decoded = current then None
      else case find is_structural decoded of Some c \<Rightarrow> Some (structural_error name c)
      | None \<Rightarrow> if decoded = ''.'' \<or> decoded = ''..'' then Some (RelativeComponent name)
          else decode_rounds k name decoded)"

definition structural_after_decoding :: "string \<Rightarrow> string \<Rightarrow> path_error option" where
  "structural_after_decoding name v = decode_rounds MAX_DECODE_ROUNDS name v"


section \<open>One segment\<close>

definition upper_hex_digit :: "nat \<Rightarrow> char" where
  "upper_hex_digit n = ''0123456789ABCDEF'' ! n"

definition encode_byte :: "char \<Rightarrow> string" where
  "encode_byte c = (if is_unreserved c then [c]
     else [CHR ''%'', upper_hex_digit (byte_of c div 16), upper_hex_digit (byte_of c mod 16)])"

definition encode_segment :: "string \<Rightarrow> string \<Rightarrow> path_error + string" where
  "encode_segment name v =
     (if v = [] then Inl (EmptyValue name)
      else if v = ''.'' \<or> v = ''..'' then Inl (RelativeComponent name)
      else case find is_structural v of Some c \<Rightarrow> Inl (structural_error name c)
      | None \<Rightarrow> (case structural_after_decoding name v of Some e \<Rightarrow> Inl e
          | None \<Rightarrow> Inr (concat (map encode_byte v))))"


section \<open>The template\<close>

record expansion =
  ex_name :: string
  ex_start :: nat
  ex_end :: nat

fun position_of :: "('a \<Rightarrow> bool) \<Rightarrow> 'a list \<Rightarrow> nat option" where
  "position_of p [] = None"
| "position_of p (x # xs) = (if p x then Some 0 else map_option Suc (position_of p xs))"

fun check_segments :: "expansion list \<Rightarrow> nat \<Rightarrow> string list \<Rightarrow> path_error option" where
  "check_segments expansions offset [] = None"
| "check_segments expansions offset (segment # segments) =
     (let segment_end = offset + length segment;
          rest = check_segments expansions (segment_end + 1) segments in
      case find (\<lambda>e. ex_start e < segment_end \<and> ex_end e > offset) expansions of
        None \<Rightarrow> rest
      | Some e \<Rightarrow> (case structural_after_decoding (ex_name e) segment of Some err \<Rightarrow> Some err | None \<Rightarrow> rest))"

definition structural_after_joining :: "string \<Rightarrow> expansion list \<Rightarrow> path_error option" where
  "structural_after_joining path expansions =
     (if expansions = [] then None else check_segments expansions 0 (split_char (CHR ''/'') path))"

record expand_state =
  xs_out :: string
  xs_used :: "bool list"
  xs_expansions :: "expansion list"

lemma placeholder_shorter:
  "length (tl (dropWhile (\<lambda>c. c \<noteq> CHR 0x7D) (tl (dropWhile (\<lambda>c. c \<noteq> CHR 0x7B) s)))) < length s"
  if "CHR 0x7B \<in> set s"
proof -
  have "length (tl (dropWhile (\<lambda>c. c \<noteq> CHR 0x7B) s)) < length s"
    using that length_dropWhile_le [of "\<lambda>c. c \<noteq> CHR 0x7B" s] by (cases s) auto
  then show ?thesis
    using length_dropWhile_le [of "\<lambda>c. c \<noteq> CHR 0x7D" "tl (dropWhile (\<lambda>c. c \<noteq> CHR 0x7B) s)"]
    unfolding length_tl by linarith
qed

text \<open>The loop over the placeholders; what is left of the template at the end is literal text.\<close>

function expand_loop ::
  "(string \<times> string) list \<Rightarrow> string \<Rightarrow> expand_state \<Rightarrow> path_error + (string \<times> expand_state)" where
  "expand_loop params rest s =
     (if CHR 0x7B \<notin> set rest then Inr (rest, s)
      else
        let literal = takeWhile (\<lambda>c. c \<noteq> CHR 0x7B) rest;
            after = tl (dropWhile (\<lambda>c. c \<noteq> CHR 0x7B) rest) in
        if CHR 0x7D \<in> set literal then Inl MalformedTemplate
        else if CHR 0x7D \<notin> set after then Inl MalformedTemplate
        else
          let name = takeWhile (\<lambda>c. c \<noteq> CHR 0x7D) after in
          if CHR 0x7B \<in> set name then Inl MalformedTemplate
          else case position_of (\<lambda>(candidate, _). candidate = name) params of
            None \<Rightarrow> Inl (MissingParameter name)
          | Some index \<Rightarrow>
              (case encode_segment name (snd (params ! index)) of
                Inl e \<Rightarrow> Inl e
              | Inr encoded \<Rightarrow>
                  let at = length (xs_out s @ literal) in
                  expand_loop params (tl (dropWhile (\<lambda>c. c \<noteq> CHR 0x7D) after))
                    \<lparr>xs_out = xs_out s @ literal @ encoded, xs_used = (xs_used s)[index := True],
                     xs_expansions = xs_expansions s @
                       [\<lparr>ex_name = name, ex_start = at, ex_end = at + length encoded\<rparr>]\<rparr>))"
  by auto
termination
  by (relation "measure (\<lambda>(_, rest, _). length rest)") (auto simp del: length_tl intro: placeholder_shorter)

declare expand_loop.simps [simp del]

definition expand_path :: "string \<Rightarrow> (string \<times> string) list \<Rightarrow> path_error + string" where
  "expand_path template params =
     (case expand_loop params template
         \<lparr>xs_out = [], xs_used = replicate (length params) False, xs_expansions = []\<rparr> of
        Inl e \<Rightarrow> Inl e
      | Inr (rest, s) \<Rightarrow>
          if CHR 0x7D \<in> set rest then Inl MalformedTemplate
          else let out = xs_out s @ rest in
          (case position_of Not (xs_used s) of
            Some unused \<Rightarrow> Inl (UnknownParameter (fst (params ! unused)))
          | None \<Rightarrow> (case structural_after_joining out (xs_expansions s) of
              Some e \<Rightarrow> Inl e | None \<Rightarrow> Inr out)))"


section \<open>Pagination\<close>

record page_limits =
  pl_max_size :: "32 word"
  pl_max_from :: "32 word"

definition default_page_limits :: page_limits where
  "default_page_limits = \<lparr>pl_max_size = 1000, pl_max_from = 100000\<rparr>"

record page_window =
  pg_from :: "32 word"
  pg_size :: "32 word"

datatype page_error =
    ZeroSize
  | SizeTooLarge "64 word" "32 word"
  | FromTooLarge "64 word" "32 word"
  | WindowOverflow "64 word" "64 word"

definition checked_add :: "64 word \<Rightarrow> 64 word \<Rightarrow> 64 word option" where
  "checked_add a b = (if unat a + unat b < 2 ^ 64 then Some (a + b) else None)"

definition try_u32 :: "64 word \<Rightarrow> 32 word option" where
  "try_u32 w = (if unat w < 2 ^ 32 then Some (ucast w) else None)"

definition page :: "64 word \<Rightarrow> 64 word \<Rightarrow> page_limits \<Rightarrow> page_error + page_window" where
  "page from sz limits =
     (if sz = 0 then Inl ZeroSize
      else if sz > ucast (pl_max_size limits) then Inl (SizeTooLarge sz (pl_max_size limits))
      else if from > ucast (pl_max_from limits) then Inl (FromTooLarge from (pl_max_from limits))
      else if (case checked_add from sz of None \<Rightarrow> True | Some e \<Rightarrow> e > ucast (- 1 :: 32 word))
        then Inl (WindowOverflow from sz)
      else case try_u32 from of None \<Rightarrow> Inl (FromTooLarge from (pl_max_from limits))
      | Some f \<Rightarrow> (case try_u32 sz of None \<Rightarrow> Inl (SizeTooLarge sz (pl_max_size limits))
          | Some n \<Rightarrow> Inr \<lparr>pg_from = f, pg_size = n\<rparr>))"

end
