(* ===== verification/Url_Facts.thy ===== *)
theory Url_Facts
  imports Url_Path
begin

text \<open>
  Facts about template expansion. A rendered path is a list of \<^emph>\<open>pieces\<close>, literal characters and
  encoded values; its shape depends on the template alone. Encoded values decode to what they
  encode and hold no separator, so the segments of the path are those of its pieces, and the final
  check has looked at every segment a value reached.
\<close>

section \<open>Decoding\<close>

definition plain :: "string \<Rightarrow> bool" where
  "plain s \<longleftrightarrow> (\<forall>c\<in>set s. \<not> is_structural c)"

definition dots :: "string \<Rightarrow> bool" where
  "dots s \<longleftrightarrow> s = ''.'' \<or> s = ''..''"

text \<open>However often it is decoded, the text stays as it is or becomes something inert.\<close>

definition inert :: "string \<Rightarrow> bool" where
  "inert s \<longleftrightarrow> (\<forall>n. (percent_decode_lossy ^^ n) s = s \<or>
     plain ((percent_decode_lossy ^^ n) s) \<and> \<not> dots ((percent_decode_lossy ^^ n) s))"

lemma decode_rounds_settled: "decode_rounds k name s = None \<Longrightarrow> inert s"
proof (induction k name s rule: decode_rounds.induct)
  case (2 k name s)
  let ?d = "percent_decode_lossy s"
  show ?case
  proof (cases "?d = s")
    case True
    have "(percent_decode_lossy ^^ n) s = s" for n by (induction n) (simp_all add: True)
    then show ?thesis by (simp add: inert_def)
  next
    case False
    have safe: "plain ?d" "\<not> dots ?d" and IH: "inert ?d"
      using 2 False by (auto simp: Let_def plain_def dots_def find_None_iff split: option.splits if_splits)
    have "(percent_decode_lossy ^^ Suc n) s = ?d \<or>
        plain ((percent_decode_lossy ^^ Suc n) s) \<and> \<not> dots ((percent_decode_lossy ^^ Suc n) s)" for n
      using IH by (simp add: inert_def funpow_swap1)
    then show ?thesis unfolding inert_def using safe by (metis funpow_0 not0_implies_Suc)
  qed
qed simp

lemma lossy_valid: "utf8_valid s \<Longrightarrow> from_utf8_lossy s = s"
proof (induction s rule: from_utf8_lossy.induct)
  case (1 s)
  show ?case
  proof (cases "s = []")
    case False
    obtain ok n where c: "utf8_chunk s = (ok, n)" by fastforce
    have "ok" "utf8_valid (drop n s)" using 1(2) False c by (auto simp: utf8_valid.simps [of s])
    then show ?thesis using 1(1) [OF False c [symmetric]] False c by (simp add: from_utf8_lossy.simps [of s])
  qed (simp add: from_utf8_lossy.simps)
qed

section \<open>Encoding\<close>

lemma decode_bytes_skip: "c \<noteq> CHR ''%'' \<Longrightarrow> decode_bytes (c # s) = c # decode_bytes s"
  by (cases s rule: decode_bytes.cases) simp_all

lemma upper_digit:
  "n < 16 \<Longrightarrow> radix16_digit (upper_hex_digit n) = Some n \<and> upper_hex_digit n \<noteq> CHR ''+'' \<and>
     \<not> is_structural (upper_hex_digit n)"
proof -
  have "list_all (\<lambda>n. radix16_digit (upper_hex_digit n) = Some n \<and> upper_hex_digit n \<noteq> CHR ''+'' \<and>
      \<not> is_structural (upper_hex_digit n)) [0..<16]" by code_simp
  then show "n < 16 \<Longrightarrow> ?thesis" by (simp add: list_all_iff)
qed

lemma unreserved_plain: "is_unreserved c \<Longrightarrow> \<not> is_structural c \<and> c \<noteq> CHR ''%''"
  by (auto simp: is_unreserved_def is_structural_def is_ascii_control_def less_eq_char_def)

lemma encode_byte_plain: "c \<in> set (encode_byte b) \<Longrightarrow> \<not> is_structural c"
  using unreserved_plain upper_digit [OF of_char_nibble [of b]] upper_digit [of "byte_of b mod 16"]
  by (auto simp: encode_byte_def is_structural_def is_ascii_control_def split: if_splits)

lemma decode_encode_byte: "decode_bytes (encode_byte c @ s) = c # decode_bytes s"
proof (cases "is_unreserved c")
  case True
  then show ?thesis using unreserved_plain by (simp add: encode_byte_def decode_bytes_skip)
next
  case False
  then show ?thesis
    using upper_digit [OF of_char_nibble [of c]] upper_digit [of "byte_of c mod 16"]
    by (simp add: encode_byte_def hex_pair_def)
qed

lemma decode_encode: "decode_bytes (concat (map encode_byte v)) = v"
  by (induction v) (simp_all add: decode_encode_byte)

lemma encode_segment_Inr:
  assumes "encode_segment name v = Inr e"
  shows "e = concat (map encode_byte v)" "plain e" "e \<noteq> []" "\<not> dots e" "plain v" "\<not> dots v" "inert v"
proof -
  show e: "e = concat (map encode_byte v)" and v: "plain v" "\<not> dots v" "inert v"
    using assms decode_rounds_settled
    by (auto simp: encode_segment_def structural_after_decoding_def plain_def dots_def find_None_iff
        split: if_splits option.splits)
  have ne: "v \<noteq> []" using assms by (auto simp: encode_segment_def)
  show "plain e" using encode_byte_plain by (auto simp: e plain_def)
  have d: "decode_bytes e = v" by (simp add: e decode_encode)
  then show "e \<noteq> []" using ne by auto
  show "\<not> dots e" using d v(2) by (auto simp: dots_def)
qed


section \<open>Pieces\<close>

datatype piece = Lit char | Val string

fun piece_text :: "piece \<Rightarrow> string" where
  "piece_text (Lit c) = [c]"
| "piece_text (Val v) = v"

fun shape :: "piece \<Rightarrow> char option" where
  "shape (Lit c) = Some c"
| "shape (Val v) = None"

definition piece_string :: "piece list \<Rightarrow> string" where
  "piece_string ps = concat (map piece_text ps)"

lemma render_simps [simp]:
  "piece_string [] = []" "piece_string (p # ps) = piece_text p @ piece_string ps" "piece_string (ps @ qs) = piece_string ps @ piece_string qs"
  by (simp_all add: piece_string_def)

lemma render_lits [simp]: "piece_string (map Lit s) = s"
  by (induction s) simp_all

definition pieces_ok :: "piece list \<Rightarrow> bool" where
  "pieces_ok ps \<longleftrightarrow> (\<forall>v. Val v \<in> set ps \<longrightarrow> v \<noteq> [] \<and> plain v \<and> \<not> dots v)"

lemma pieces_ok_simps [simp]:
  "pieces_ok []" "pieces_ok (ps @ qs) \<longleftrightarrow> pieces_ok ps \<and> pieces_ok qs"
  "pieces_ok (Lit c # ps) \<longleftrightarrow> pieces_ok ps" "pieces_ok (map Lit s)"
  "pieces_ok (Val v # ps) \<longleftrightarrow> v \<noteq> [] \<and> plain v \<and> \<not> dots v \<and> pieces_ok ps"
  by (auto simp: pieces_ok_def)

text \<open>Where the values are, from an offset on.\<close>

fun vals_at :: "nat \<Rightarrow> piece list \<Rightarrow> (nat \<times> nat) list" where
  "vals_at k [] = []"
| "vals_at k (Lit c # ps) = vals_at (Suc k) ps"
| "vals_at k (Val v # ps) = (k, k + length v) # vals_at (k + length v) ps"

lemma vals_at_append: "vals_at k (ps @ qs) = vals_at k ps @ vals_at (k + length (piece_string ps)) qs"
  by (induction k ps rule: vals_at.induct) (simp_all add: add.assoc)

lemma vals_at_lits [simp]: "vals_at k (map Lit s) = []"
  by (induction s arbitrary: k) simp_all

text \<open>The pieces of each segment.\<close>

fun segments :: "piece list \<Rightarrow> piece list list" where
  "segments [] = [[]]"
| "segments (p # ps) =
     (if p = Lit (CHR ''/'') then [] # segments ps
      else (case segments ps of [] \<Rightarrow> [[p]] | q # qs \<Rightarrow> (p # q) # qs))"

lemma segments_nonempty [simp]: "segments ps \<noteq> []"
  by (cases ps) (auto split: list.splits)

lemma segments_member: "g \<in> set (segments ps) \<Longrightarrow> p \<in> set g \<Longrightarrow> p \<in> set ps"
proof (induction ps arbitrary: g)
  case (Cons q ps)
  obtain h hs where "segments ps = h # hs" by (cases "segments ps") auto
  then show ?case using Cons by (fastforce split: if_splits)
qed simp

lemma split_char_value: "CHR ''/'' \<notin> set v \<Longrightarrow> split_char (CHR ''/'') s = q # qs \<Longrightarrow>
    split_char (CHR ''/'') (v @ s) = (v @ q) # qs"
  by (induction v) auto

lemma split_render: "pieces_ok ps \<Longrightarrow> split_char (CHR ''/'') (piece_string ps) = map piece_string (segments ps)"
proof (induction ps)
  case (Cons p ps)
  obtain q qs where s: "segments ps = q # qs" by (cases "segments ps") auto
  show ?case
  proof (cases p)
    case (Lit c)
    then show ?thesis using Cons s by simp
  next
    case (Val v)
    then have "CHR ''/'' \<notin> set v" using Cons.prems by (auto simp: plain_def is_structural_def)
    then show ?thesis using Cons s Val split_char_value [of v "piece_string ps"] by simp
  qed
qed simp

lemma segments_shape:
  "map shape ps = map shape qs \<Longrightarrow> map (map shape) (segments ps) = map (map shape) (segments qs)"
proof (induction ps arbitrary: qs)
  case (Cons p ps)
  then obtain q rs where q: "qs = q # rs" "shape p = shape q" "map shape ps = map shape rs" by auto
  have "p = Lit (CHR ''/'') \<longleftrightarrow> q = Lit (CHR ''/'')" using q(2) by (cases p; cases q) auto
  then show ?case using Cons.IH [OF q(3)] q by (auto split: list.splits)
qed simp

lemma shape_literal: "map shape ps = map shape qs \<Longrightarrow> (\<And>v. Val v \<notin> set ps) \<Longrightarrow> piece_string ps = piece_string qs"
proof (induction ps arbitrary: qs)
  case (Cons p ps)
  then obtain q rs where q: "qs = q # rs" "shape p = shape q" "map shape ps = map shape rs" by auto
  obtain c where "p = Lit c" using Cons.prems(2) by (cases p) auto
  then have "q = p" using q(2) by (cases q) auto
  then show ?case using Cons.IH [OF q(3)] Cons.prems(2) q(1) by auto
qed simp

text \<open>A segment that a value reached is neither one dot nor two.\<close>

lemma value_not_dots: "pieces_ok ps \<Longrightarrow> Val v \<in> set ps \<Longrightarrow> \<not> dots (piece_string ps)"
proof
  assume ok: "pieces_ok ps" and v: "Val v \<in> set ps" and d: "dots (piece_string ps)"
  obtain as bs where ps: "ps = as @ Val v # bs" using v by (meson split_list)
  have r: "piece_string ps = piece_string as @ v @ piece_string bs" by (simp add: ps)
  have "set v \<subseteq> {CHR ''.''}" "length v \<le> 2" "v \<noteq> []"
    using d ok ps by (auto simp: dots_def r append_eq_Cons_conv Cons_eq_append_conv)
  then have "dots v" by (cases v rule: list.exhaust; cases "tl v") (auto simp: dots_def)
  then show False using ok v by (auto simp: pieces_ok_def)
qed


section \<open>The final check\<close>

fun seg_vals :: "nat \<Rightarrow> piece list list \<Rightarrow> (nat \<times> nat) list" where
  "seg_vals k [] = []"
| "seg_vals k (g # gs) = vals_at k g @ seg_vals (k + length (piece_string g) + 1) gs"

lemma vals_at_segments: "vals_at k ps = seg_vals k (segments ps)"
proof (induction k ps rule: vals_at.induct)
  case (2 k c ps)
  then show ?case by (cases "segments ps") auto
next
  case (3 k v ps)
  then show ?case by (cases "segments ps") (auto simp: add.assoc)
qed simp

lemma value_place:
  "Val v \<in> set g \<Longrightarrow> \<exists>a. (a, a + length v) \<in> set (vals_at k g) \<and> k \<le> a \<and> a + length v \<le> k + length (piece_string g)"
proof (induction k g rule: vals_at.induct)
  case (3 k w ps)
  then show ?case by (cases "v = w") fastforce+
qed fastforce+

definition places :: "expansion list \<Rightarrow> (nat \<times> nat) list" where
  "places es = map (\<lambda>e. (ex_start e, ex_end e)) es"

lemma check_segments_settled:
  "check_segments es k (map piece_string gs) = None \<Longrightarrow> set (seg_vals k gs) \<subseteq> set (places es) \<Longrightarrow>
     g \<in> set gs \<Longrightarrow> Val v \<in> set g \<Longrightarrow> v \<noteq> [] \<Longrightarrow> inert (piece_string g)"
proof (induction gs arbitrary: k)
  case (Cons h gs)
  let ?hit = "\<lambda>e. ex_start e < k + length (piece_string h) \<and> k < ex_end e"
  have rest: "check_segments es (k + length (piece_string h) + 1) (map piece_string gs) = None"
    using Cons.prems(1) by (auto simp: Let_def split: option.splits)
  show ?case
  proof (cases "g = h")
    case True
    obtain a where a: "(a, a + length v) \<in> set (vals_at k h)" "k \<le> a" "a + length v \<le> k + length (piece_string h)"
      using value_place [of v h k] Cons.prems(4) True by blast
    have "(a, a + length v) \<in> set (places es)" using a(1) Cons.prems(2) by auto
    then obtain e where "e \<in> set es" "ex_start e = a" "ex_end e = a + length v" by (auto simp: places_def)
    moreover have "0 < length v" using Cons.prems(5) by simp
    ultimately have "e \<in> set es" "?hit e" using a(2,3) by linarith+
    then have "find ?hit es \<noteq> None" by (auto simp: find_None_iff)
    then show ?thesis
      using Cons.prems(1) decode_rounds_settled True
      by (auto simp: Let_def structural_after_decoding_def split: option.splits)
  next
    case False
    then show ?thesis using Cons.IH [OF rest] Cons.prems by auto
  qed
qed simp


section \<open>The loop\<close>

text \<open>The shape of the rendered path, read off the template.\<close>

function skeleton :: "string \<Rightarrow> char option list" where
  "skeleton rest =
     (if CHR 0x7B \<notin> set rest then map Some rest
      else map Some (takeWhile (\<lambda>c. c \<noteq> CHR 0x7B) rest) @ None #
        skeleton (tl (dropWhile (\<lambda>c. c \<noteq> CHR 0x7D) (tl (dropWhile (\<lambda>c. c \<noteq> CHR 0x7B) rest)))))"
  by auto
termination
  by (relation "measure length") (auto simp del: length_tl intro: placeholder_shorter)

declare skeleton.simps [simp del]

lemma expand_loop_pieces:
  assumes "expand_loop params rest s = Inr (left, s')"
  shows "\<exists>ps. xs_out s' = xs_out s @ piece_string ps \<and> pieces_ok ps \<and> map shape ps @ map Some left = skeleton rest \<and>
    places (xs_expansions s') = places (xs_expansions s) @ vals_at (length (xs_out s)) ps"
  using assms
proof (induction params rest s rule: expand_loop.induct)
  case (1 params rest s)
  show ?case
  proof (cases "CHR 0x7B \<in> set rest")
    case False
    then show ?thesis
      using 1(2) skeleton.simps [of rest] by (auto simp: expand_loop.simps [of params rest] intro!: exI [of _ "[]"])
  next
    case True
    define literal where "literal = takeWhile (\<lambda>c. c \<noteq> CHR 0x7B) rest"
    define after where "after = tl (dropWhile (\<lambda>c. c \<noteq> CHR 0x7B) rest)"
    define name where "name = takeWhile (\<lambda>c. c \<noteq> CHR 0x7D) after"
    note defs = literal_def [symmetric] after_def [symmetric] name_def [symmetric]
    obtain index encoded where g: "CHR 0x7D \<notin> set literal" "CHR 0x7D \<in> set after" "CHR 0x7B \<notin> set name"
        "position_of (\<lambda>(candidate, _). candidate = name) params = Some index"
        "encode_segment name (snd (params ! index)) = Inr encoded"
      using 1(2) True by (auto simp: expand_loop.simps [of params rest] Let_def defs split: if_splits option.splits sum.splits)
    define next_state where "next_state = \<lparr>xs_out = xs_out s @ literal @ encoded, xs_used = (xs_used s)[index := True],
        xs_expansions = xs_expansions s @ [\<lparr>ex_name = name, ex_start = length (xs_out s @ literal),
          ex_end = length (xs_out s @ literal) + length encoded\<rparr>]\<rparr>"
    have l: "expand_loop params (tl (dropWhile (\<lambda>c. c \<noteq> CHR 0x7D) after)) next_state = Inr (left, s')"
      using 1(2) True g by (simp add: expand_loop.simps [of params rest] Let_def defs next_state_def)
    obtain ps where ps: "xs_out s' = xs_out next_state @ piece_string ps" "pieces_ok ps"
        "map shape ps @ map Some left = skeleton (tl (dropWhile (\<lambda>c. c \<noteq> CHR 0x7D) after))"
        "places (xs_expansions s') = places (xs_expansions next_state) @ vals_at (length (xs_out next_state)) ps"
      using 1(1) [OF _ literal_def after_def _ _ name_def _ g(4,5) refl] True g l unfolding next_state_def by auto
    have e: "encoded \<noteq> []" "plain encoded" "\<not> dots encoded" using encode_segment_Inr [OF g(5)] by simp_all
    show ?thesis
      using ps e True
      by (intro exI [of _ "map Lit literal @ Val encoded # ps"])
        (simp add: next_state_def places_def vals_at_append skeleton.simps [of rest] defs comp_def add.assoc)
  qed
qed

text \<open>All of it: a path that was accepted, as pieces.\<close>

lemma expand_path_pieces:
  assumes "expand_path template params = Inr out"
  shows "\<exists>ps. out = piece_string ps \<and> pieces_ok ps \<and> map shape ps = skeleton template \<and>
    (\<forall>g\<in>set (segments ps). \<forall>v. Val v \<in> set g \<longrightarrow> inert (piece_string g))"
proof -
  let ?s0 = "\<lparr>xs_out = [], xs_used = replicate (length params) False, xs_expansions = []\<rparr>"
  obtain left s where l: "expand_loop params template ?s0 = Inr (left, s)" and out: "out = xs_out s @ left"
      and j: "structural_after_joining out (xs_expansions s) = None"
    using assms by (auto simp: expand_path_def Let_def split: sum.splits if_splits option.splits)
  obtain ps where ps: "xs_out s = piece_string ps" "pieces_ok ps" "map shape ps @ map Some left = skeleton template"
      "places (xs_expansions s) = vals_at 0 ps"
    using expand_loop_pieces [OF l] by (auto simp: places_def)
  let ?ps = "ps @ map Lit left"
  have ok: "pieces_ok ?ps" and r: "out = piece_string ?ps" using ps(1,2) out by simp_all
  have v: "vals_at 0 ?ps = places (xs_expansions s)" by (simp add: vals_at_append ps(4))
  have "inert (piece_string g)" if g: "g \<in> set (segments ?ps)" "Val v \<in> set g" for g v
  proof -
    have "v \<noteq> []" using ok g by (meson pieces_ok_def segments_member)
    moreover have "xs_expansions s \<noteq> []"
    proof -
      have "Val v \<in> set ?ps" using g segments_member by blast
      then show ?thesis using value_place [of v ?ps 0] v by (auto simp: places_def)
    qed
    ultimately show ?thesis
      using check_segments_settled [of "xs_expansions s" 0 "segments ?ps" g v] j v g split_render [OF ok]
      by (simp add: structural_after_joining_def r vals_at_segments)
  qed
  moreover have "map shape ?ps = skeleton template" using ps(3) by (simp add: comp_def)
  ultimately show ?thesis using ok r by blast
qed

end
