(* ===== verification/Url_Properties.thy ===== *)
theory Url_Properties
  imports Url_Facts
begin

text \<open>
  The claim about path templates, and the two facts beside it: an encoded value decodes to itself,
  and a validated page has the requested bounds without wrap-around.
\<close>

section \<open>Values and pages\<close>

text \<open>The segment of a value decodes to the value, and no further decoding makes it structural.\<close>

lemma segment_decodes_back:
  assumes "encode_segment name v = Inr e" "utf8_valid v"
  shows "percent_decode_lossy e = v"
    and "plain ((percent_decode_lossy ^^ n) e) \<and> \<not> dots ((percent_decode_lossy ^^ n) e)"
proof -
  note e = encode_segment_Inr [OF assms(1)]
  show d: "percent_decode_lossy e = v"
    by (simp add: percent_decode_lossy_def e(1) decode_encode lossy_valid assms(2))
  show "plain ((percent_decode_lossy ^^ n) e) \<and> \<not> dots ((percent_decode_lossy ^^ n) e)"
  proof (cases n)
    case 0
    then show ?thesis using e(2,4) by simp
  next
    case (Suc m)
    have "(percent_decode_lossy ^^ n) e = (percent_decode_lossy ^^ m) v" by (simp add: Suc funpow_swap1 d)
    then show ?thesis using e(5-7) unfolding inert_def by metis
  qed
qed

text \<open>A page is granted exactly for a nonempty window within both limits whose end fits 32 bits, and
  it is the requested window.\<close>

lemma page_exact:
  "page from sz limits = Inr w \<longleftrightarrow>
     0 < unat sz \<and> unat sz \<le> unat (pl_max_size limits) \<and> unat from \<le> unat (pl_max_from limits) \<and>
     unat from + unat sz < 2 ^ 32 \<and> w = \<lparr>pg_from = ucast from, pg_size = ucast sz\<rparr>"
proof -
  have m: "unat (ucast x :: 64 word) = unat x" for x :: "32 word"
  proof -
    have "unat x < 2 ^ LENGTH(32)" by (rule unsigned_less)
    then show ?thesis by (simp add: unsigned_ucast_eq take_bit_nat_eq_self)
  qed
  have mx: "unat (- 1 :: 32 word) = 2 ^ 32 - 1" by (simp add: unsigned_minus_1_eq_mask mask_eq_exp_minus_1)
  have add: "unat (from + sz) = unat from + unat sz" if "unat from + unat sz < 2 ^ 64"
    using that by (simp add: unat_add_lem [THEN iffD1])
  show ?thesis
    by (auto simp: page_def checked_add_def try_u32_def word_less_nat_alt m mx add unat_gt_0 split: if_splits option.splits)
qed

section \<open>Claims\<close>

lemma map_shape_nth:
  "map (map shape) gs = map (map shape) hs \<Longrightarrow> i < length gs \<Longrightarrow> map shape (gs ! i) = map shape (hs ! i)"
  by (metis length_map nth_map)

text \<open>
  C14. Caller values cannot change what a request addresses. Two accepted expansions of one template
  have the same number of segments, whatever the values; and a segment in which they differ, that
  is, one a value reached, is never a relative component, and however often a proxy or the
  application decodes it, it stays as it is or turns into text without separator, query, fragment
  or control byte.
\<close>

theorem values_keep_structure:
  assumes "expand_path template params = Inr out" "expand_path template params' = Inr out'"
  shows "length (split_char (CHR ''/'') out) = length (split_char (CHR ''/'') out') \<and>
    (\<forall>i<length (split_char (CHR ''/'') out).
       let segment = split_char (CHR ''/'') out ! i in
       segment \<noteq> split_char (CHR ''/'') out' ! i \<longrightarrow>
       segment \<noteq> ''.'' \<and> segment \<noteq> ''..'' \<and>
       (\<forall>n. let decoded = (percent_decode_lossy ^^ n) segment in
          decoded = segment \<or> (\<forall>c\<in>set decoded. \<not> is_structural c) \<and> decoded \<noteq> ''.'' \<and> decoded \<noteq> ''..''))"
proof -
  obtain ps where ps: "out = piece_string ps" "pieces_ok ps" "map shape ps = skeleton template"
      "\<forall>g\<in>set (segments ps). \<forall>v. Val v \<in> set g \<longrightarrow> inert (piece_string g)"
    using expand_path_pieces [OF assms(1)] by blast
  obtain qs where qs: "out' = piece_string qs" "pieces_ok qs" "map shape qs = skeleton template"
    using expand_path_pieces [OF assms(2)] by blast
  have sh: "map (map shape) (segments ps) = map (map shape) (segments qs)"
    using segments_shape ps(3) qs(3) by simp
  then have len: "length (segments ps) = length (segments qs)" by (metis length_map)
  have "\<not> dots (piece_string (segments ps ! i)) \<and> inert (piece_string (segments ps ! i))"
    if i: "i < length (segments ps)" "piece_string (segments ps ! i) \<noteq> piece_string (segments qs ! i)" for i
  proof -
    have g: "segments ps ! i \<in> set (segments ps)" using i(1) by simp
    obtain v where v: "Val v \<in> set (segments ps ! i)"
      using shape_literal [OF map_shape_nth [OF sh i(1)]] i(2) by blast
    have "pieces_ok (segments ps ! i)" using ps(2) g segments_member unfolding pieces_ok_def by blast
    then show ?thesis using value_not_dots v ps(4) g by blast
  qed
  then show ?thesis
    using len by (simp add: ps(1,2) qs(1,2) split_render Let_def inert_def dots_def plain_def)
qed

theorem values_keep_structure_witness:
  "expand_path ''/v1/{id}/p'' [(''id'', ''fw 1'')] = Inr ''/v1/fw%201/p'' \<and>
   expand_path ''/v1/{id}/p'' [(''id'', ''b'')] = Inr ''/v1/b/p'' \<and>
   (\<forall>n. let decoded = (percent_decode_lossy ^^ n) ''fw%201'' in
      decoded = ''fw%201'' \<or> (\<forall>c\<in>set decoded. \<not> is_structural c) \<and> decoded \<noteq> ''.'' \<and> decoded \<noteq> ''..'')"
proof -
  have a: "expand_path ''/v1/{id}/p'' [(''id'', ''fw 1'')] = Inr ''/v1/fw%201/p''" by code_simp
  have b: "expand_path ''/v1/{id}/p'' [(''id'', ''b'')] = Inr ''/v1/b/p''" by code_simp
  have s: "split_char (CHR ''/'') ''/v1/fw%201/p'' = [[], ''v1'', ''fw%201'', ''p'']"
    "split_char (CHR ''/'') ''/v1/b/p'' = [[], ''v1'', ''b'', ''p'']" by code_simp+
  show ?thesis
    using conjunct2 [OF values_keep_structure [OF a b], unfolded s, rule_format, of 2] a b
    by (simp add: Let_def numeral_2_eq_2)
qed

end
