(* ===== verification/Spec2Isabelle.thy ===== *)
theory Spec2Isabelle
  imports Persistence_Properties Coordinator_Properties Operation_Properties Apply_Properties
    Auth_Properties Audit_Properties Policy_Properties Rate_Properties Job_Properties Url_Properties
begin

text \<open>
  \<^bold>\<open>mecmcp: change control for network devices behind MCP servers.\<close> The workspace under
  \<open>src/crates\<close> is the part the vendor servers share: who is calling (\<open>mecmcp-auth\<close>,
  \<open>mecmcp-server\<close>), how a change to a device is planned, approved, applied and undone
  (\<open>mecmcp-changeset\<close>), the evidence kept about it (\<open>mecmcp-audit\<close>), the rules about what may be
  read or sent (\<open>mecmcp-policy\<close>), the limits on requests (\<open>mecmcp-transport\<close>), and two helpers of the vendor
  servers, polling a device job (\<open>mecmcp-job\<close>) and building request paths (\<open>mecmcp-openapi\<close>). A request passes
  the limits, authenticates with a bearer token, is authorized against the token's scopes, and reaches the coordinator,
  which keeps change sets and operations in memory and in one state file, talks to the device
  through a vendor's \<open>DeviceTransaction\<close>, and records evidence before it commits.

  \<^bold>\<open>Conventions.\<close> A Rust string is its list of UTF-8 bytes. A fallible function returns a sum
  whose left side is the error; a method that changes state is an action
  \<open>'s \<Rightarrow> ('e + 'a) \<times> 's\<close> of \<open>Mecmcp_Prelude\<close>, composed by \<open>bnd\<close>, with \<open>keeps\<close> and \<open>spec\<close> as
  the judgements about it. A \<open>BTreeMap\<close> is a list of pairs in key order (\<open>Ordered_Map\<close>). Third-party
  code (SHA-256, HMAC, serde_json, chrono, the operating system, the vendor's device and grant)
  is a field of a library or environment record; what a proof needs of it is a named hypothesis.

  \<^bold>\<open>The state file\<close> (\<open>persistence.rs\<close>, \<open>records.rs\<close>, \<open>digest.rs\<close>, \<open>lifecycle.rs\<close>,
  \<open>types.rs\<close>). \<open>Lifecycle\<close>, \<open>Records\<close> and \<open>Digest\<close> hold the data, the state machines and the
  plan, preview, approval and waiver digests; \<open>Record_Checks\<close> and \<open>Persistence\<close> the checks of a
  loaded record, the migrations and the read and write of the file. \<open>Persistence_Facts\<close> and
  \<open>Persistence_Properties\<close> show that a write reads back, that migration is stable, what a key
  guarantees about approvals, and where it guarantees nothing.

  \<^bold>\<open>The coordinator\<close> (\<open>coordinator.rs\<close>, \<open>changeset.rs\<close>, \<open>recovery.rs\<close>). \<open>System\<close> is the state
  around it: memory, file, evidence trail, held device guards, the dialogue with the device, and
  the environment that answers each call at a tick. \<open>Coordinator\<close> has its store operations with
  the write gate and start-up recovery, \<open>Changeset\<close> the tools that plan, approve, waive, query
  and cancel, \<open>Recovery\<close> the offline repair. \<open>Store_Moves\<close>, \<open>Store_Refinement\<close>,
  \<open>Stable_Records\<close> and \<open>Coordinator_System\<close> make it a labelled step relation in which tasks,
  crashes, reloads and repairs interleave, with its invariant; \<open>Coordinator_Facts\<close> and
  \<open>Coordinator_Properties\<close> show that an approval is claimed at most once, that no record is
  approved by its owner, in memory or in a file written meanwhile, that the owner, device, digest
  and an approval by a person are frozen, and that a principal has one pending change set per device.

  \<^bold>\<open>Device work\<close> (\<open>operation.rs\<close>, \<open>apply.rs\<close>, \<open>transaction.rs\<close>; \<open>trust.rs\<close> of
  \<open>mecmcp-redact\<close>). \<open>Operation\<close> and \<open>Apply\<close> are the methods that call the device, whole, with
  every early return; \<open>Trust\<close> is the tagging of device text. Other tasks may run at every await
  point: \<open>Tools\<close>, \<open>Tool_Runs\<close>, \<open>Dialogue\<close> and \<open>Plan_Moves\<close> carry a rely relation through the
  methods. \<open>Operation_Facts\<close>, \<open>Staging_Facts\<close>, \<open>Apply_Facts\<close>, \<open>Apply_Outcome\<close> and the two property
  theories show that no method breaks the invariant of the store; that apply stages only a change
  set that is approved at its first device call, whose approval, as the call first read it, was
  given by a second person unless lab mode is on; that a commit follows a durable intent; and
  what each answer says about the record and the device, the case of a lock that is not given
  back included. The approval is checked before the wait for the device guard and not again after
  it: what keeps it true meanwhile is the write gate, for an approval by a person only. \<open>Sample_Inputs\<close>, \<open>Sample_System\<close> and \<open>Sample_Runs\<close> are
  concrete states and runs the witnesses evaluate.

  \<^bold>\<open>Callers\<close> (\<open>mecmcp-auth\<close>, \<open>authorize.rs\<close> of \<open>mecmcp-server\<close>, \<open>attribution.rs\<close>).
  \<open>Auth_Scope\<close>, \<open>Token_Store\<close> and \<open>Token_File\<close> model scopes, token digests, the bearer header,
  the store and its scan, call authorization, and the file with its rewriting operations.
  \<open>Token_Facts\<close> and \<open>Auth_Properties\<close> show that a write tool needs a token that names it, that
  the file operations are all or nothing and do what they say to secrets, and that the header
  parser accepts exactly the documented form.

  \<^bold>\<open>Evidence\<close> (\<open>mecmcp-audit\<close>: \<open>canonical.rs\<close>, \<open>evidence.rs\<close>, \<open>signing.rs\<close>, \<open>checkpoint.rs\<close>,
  \<open>recorder.rs\<close>, \<open>device_log.rs\<close>, \<open>bin/mecmcp-verify.rs\<close>; \<open>commit_metadata.rs\<close>).
  \<open>Canonical_Json\<close> renders a value with sorted keys, injectively up to key order; \<open>Evidence\<close> and
  \<open>Evidence_Facts\<close> have the records and the hash-chained segments; \<open>Signing\<close> the detached
  signatures and checkpoints over a curve given as a parameter; \<open>Recorder\<close>, \<open>Recorder_Facts\<close> and
  \<open>Recorder_Refinement\<close> the recorder, whose appends and flushes interleave, and that it implements
  the evidence trail the coordinator writes to. \<open>Text_Ops\<close>, \<open>Device_Log\<close> and
  \<open>Device_Log_Facts\<close> compose the commit comment and parse it back; \<open>Audit_Verify\<close> and
  \<open>Verify_Facts\<close> are the offline verifier. \<open>Audit_Properties\<close>, on the runs of \<open>Sample_Audit\<close>, shows
  that what passes the verifier is what was recorded, that what was recorded passes, that flushing
  loses nothing, that the request of a commit is read back from the device's log, and that records
  dropped from the front go unnoticed.

  \<^bold>\<open>Guardrails\<close> (\<open>mecmcp-policy\<close>). \<open>Command_Policy\<close> and \<open>Policy_Facts\<close> have the rules, the
  allowlist mode and the checks of commands and configuration; \<open>Xml_Path\<close> and \<open>Xml_Facts\<close> the
  walk over a document, the paths a read policy closes and the canonical path of a command.
  \<open>Policy_Properties\<close> shows what the allowlist lets through, that the one-pass computation of
  closed paths is exact, and which documents have a canonical path.

  \<^bold>\<open>Request limits\<close> (\<open>mecmcp-transport\<close>: \<open>config.rs\<close>, \<open>rate_limit.rs\<close>, \<open>caller.rs\<close>,
  \<open>overload.rs\<close>). \<open>Rate_Limit\<close> has the limits, the address a request is counted under, the token
  buckets with their saturating 128-bit arithmetic, the bounded map with its eviction, and the
  middlewares. \<open>Rate_Facts\<close> follows the credit of a key along a run, once for both middlewares;
  \<open>Rate_Properties\<close> bounds what one address gets through in any window, shows that a refused
  caller who waits is admitted, and that the address cannot be chosen by the client.

  \<^bold>\<open>Device jobs and request paths\<close> (\<open>lib.rs\<close> of \<open>mecmcp-job\<close> and of \<open>mecmcp-openapi\<close>).
  \<open>Job_Poll\<close> has the configuration of a polling loop, its backoff and the loop, which may not return
  (the value \<open>None\<close>) unless the clock is lawful; \<open>Job_Properties\<close> shows that it then returns, within its
  budget. \<open>Url_Path\<close> and \<open>Url_Facts\<close> expand path templates; \<open>Url_Properties\<close> shows that a value
  cannot change the segments of a path, however often it is decoded later.

  \<^bold>\<open>Limits of the model.\<close> A file is the value that serde reads from it: its length and whether it
  can be decoded are kept, its text is not. Loading a token file leaves out the 1 MiB bound of the
  hardened reader, and a theorem about that file assumes that a grant reads back as it was written,
  which excludes a grant whose serialised form is null. Whether the token file exists is asked of
  the environment separately from reading it. A call to \<open>device_guard\<close> that would wait on is not
  among the model's runs; it returns as cancelled or with the guard. The interleaved steps of the
  recorder are its lifecycle points and flushes; \<open>take_closed\<close> and \<open>close_current\<close> are functions but
  not steps. A device's native log is a header line the parser recognises and the attached line,
  indented; how a device wraps a longer comment is not known here.

  \<^bold>\<open>Bounds and fuel.\<close> No definition uses fuel. Every recursion is structural or has a
  termination proof, except the polling loop, which is a partial function into an option; the canonical rendering is bounded by the code's own depth limit of 128.
  Counters are natural numbers where the code's 64-bit range cannot be exhausted in practice;
  the base64 encoder uses 32-bit words as the code does. Instants are nanoseconds as natural
  numbers; the two sizes of the bucket maps are the code's.

  \<^bold>\<open>Not modelled.\<close> Listeners, TLS, the axum and rmcp plumbing of \<open>mecmcp-transport\<close> and
  \<open>mecmcp-server\<close>, the HTTP and SCP clients (\<open>mecmcp-http\<close>, \<open>mecmcp-scp\<close>), the sinks of
  \<open>mecmcp-audit\<close> and the command-line tools are sequences of calls into third-party frameworks and
  the network, whose effects are outside the process. The hardened file reader
  (\<open>mecmcp-secret\<close>), key files and random sources are parameters of the definitions that use
  them. The inventory and OIDC crates and, apart from \<open>trust.rs\<close>, the redaction crate are not
  modelled. Log lines and metrics are left out everywhere.
\<close>

end
